(* ===== verification/Shauth_Prelude.thy ===== *)
theory Shauth_Prelude
  imports Main "HOL-Library.Char_ord" "HOL-Library.List_Lexorder" "HOL-Library.Word"
begin

text \<open>
  What every component of the development shares.

  \<^item> Go strings as byte lists, with the functions of the \<open>strings\<close> package the
    sources call (\<open>TrimSpace\<close>, \<open>ToLower\<close>, \<open>Split\<close>, \<open>LastIndex\<close>, \<open>HasSuffix\<close>) and the
    64-bit signed wrap-around of \<open>time.Duration\<close>.
  \<^item> The environment record \<open>env\<close>: everything an operation depends on that is not code
    of the repository (PostgreSQL's text functions and its clock, which statements fail,
    which rows another transaction has locked, the random generator, bcrypt, SHA-256).
  \<^item> The state-and-error type \<open>io\<close> of a store method, with its sequencing
    (\<open>bindS\<close>), a single SQL statement (\<open>stmt\<close>, \<open>query\<close>) and a transaction that rolls
    back on every error (\<open>tx\<close>).
  \<^item> The locale \<open>contract\<close>: a reflexive and transitive relation between the states before
    and after an operation is kept by every program built from statements that keep it.
    The components interpret it for their invariants and monotonicity relations.
\<close>

unbundle bit_operations_syntax

named_theorems io_simps \<open>evaluation of the state-and-error combinators\<close>
named_theorems frame \<open>which tables an operation leaves alone\<close>

type_synonym time = int
type_synonym duration = int

subsection \<open>Go strings\<close>

definition is_ascii :: "char \<Rightarrow> bool" where
  "is_ascii c \<longleftrightarrow> (of_char c :: nat) < 128"

definition ascii_lower :: "char \<Rightarrow> char" where
  "ascii_lower c = (if CHR ''A'' \<le> c \<and> c \<le> CHR ''Z'' then char_of (of_char c + 32 :: nat) else c)"

text \<open>
  The UTF-8 encodings of the characters \<open>unicode.IsSpace\<close> accepts. A prefix (a suffix) of
  a byte string decodes to one of them exactly when it is one of these byte sequences.
\<close>

definition space_encodings :: "string list" where
  "space_encodings =
     [[CHR 0x09], [CHR 0x0A], [CHR 0x0B], [CHR 0x0C], [CHR 0x0D], [CHR 0x20],
      [CHR 0xC2, CHR 0x85], [CHR 0xC2, CHR 0xA0], [CHR 0xE1, CHR 0x9A, CHR 0x80],
      [CHR 0xE2, CHR 0x80, CHR 0x80], [CHR 0xE2, CHR 0x80, CHR 0x81], [CHR 0xE2, CHR 0x80, CHR 0x82],
      [CHR 0xE2, CHR 0x80, CHR 0x83], [CHR 0xE2, CHR 0x80, CHR 0x84], [CHR 0xE2, CHR 0x80, CHR 0x85],
      [CHR 0xE2, CHR 0x80, CHR 0x86], [CHR 0xE2, CHR 0x80, CHR 0x87], [CHR 0xE2, CHR 0x80, CHR 0x88],
      [CHR 0xE2, CHR 0x80, CHR 0x89], [CHR 0xE2, CHR 0x80, CHR 0x8A], [CHR 0xE2, CHR 0x80, CHR 0xA8],
      [CHR 0xE2, CHR 0x80, CHR 0xA9], [CHR 0xE2, CHR 0x80, CHR 0xAF], [CHR 0xE2, CHR 0x81, CHR 0x9F],
      [CHR 0xE3, CHR 0x80, CHR 0x80]]"

fun strip_prefix :: "string \<Rightarrow> string \<Rightarrow> string option" where
  "strip_prefix [] s = Some s"
| "strip_prefix (p # ps) [] = None"
| "strip_prefix (p # ps) (c # cs) = (if p = c then strip_prefix ps cs else None)"

fun strip_one :: "string list \<Rightarrow> string \<Rightarrow> string option" where
  "strip_one [] s = None"
| "strip_one (p # ps) s = (case strip_prefix p s of Some r \<Rightarrow> Some r | None \<Rightarrow> strip_one ps s)"

lemma strip_prefix_length: "strip_prefix p s = Some r \<Longrightarrow> length r + length p = length s"
  by (induction p s rule: strip_prefix.induct) (auto split: if_splits)

lemma strip_one_length:
  "strip_one ps s = Some r \<Longrightarrow> [] \<notin> set ps \<Longrightarrow> length r < length s"
proof (induction ps)
  case (Cons p ps)
  show ?case
  proof (cases "strip_prefix p s")
    case None
    with Cons show ?thesis by simp
  next
    case (Some q)
    with Cons.prems have "q = r" "p \<noteq> []" by auto
    with strip_prefix_length [OF Some] show ?thesis by (cases p) auto
  qed
qed simp

function trim_left :: "string list \<Rightarrow> string \<Rightarrow> string" where
  "trim_left ps s =
     (if [] \<in> set ps then s
      else case strip_one ps s of None \<Rightarrow> s | Some r \<Rightarrow> trim_left ps r)"
  by pat_completeness auto
termination
  by (relation "measure (\<lambda>(ps, s). length s)") (auto dest: strip_one_length)

declare trim_left.simps [simp del]

definition TrimSpace :: "string \<Rightarrow> string" where
  "TrimSpace s =
     rev (trim_left (map rev space_encodings) (rev (trim_left space_encodings s)))"

fun split_on :: "char \<Rightarrow> string \<Rightarrow> string list" where
  "split_on c [] = [[]]"
| "split_on c (x # xs) =
     (if x = c then [] # split_on c xs
      else case split_on c xs of [] \<Rightarrow> [[x]] | w # ws \<Rightarrow> (x # w) # ws)"

text \<open>\<open>strings.LastIndex(s, c)\<close> for a one-byte separator; \<open>-1\<close> when it does not occur.\<close>

fun last_index :: "char \<Rightarrow> string \<Rightarrow> int" where
  "last_index c [] = -1"
| "last_index c (x # xs) =
     (let i = last_index c xs in if 0 \<le> i then i + 1 else if x = c then 0 else -1)"

definition has_suffix :: "string \<Rightarrow> string \<Rightarrow> bool" where
  "has_suffix suffix s \<longleftrightarrow>
     length suffix \<le> length s \<and> drop (length s - length suffix) s = suffix"

fun decimal :: "nat \<Rightarrow> string" where
  "decimal n = (if n < 10 then [char_of (48 + n)] else decimal (n div 10) @ [char_of (48 + n mod 10)])"

declare decimal.simps [simp del]

text \<open>\<open>strings.Trim(s, cutset)\<close> for a cutset of ASCII characters.\<close>

definition trim_set :: "char list \<Rightarrow> string \<Rightarrow> string" where
  "trim_set cs s = rev (dropWhile (\<lambda>c. c \<in> set cs) (rev (dropWhile (\<lambda>c. c \<in> set cs) s)))"

subsection \<open>UTF-8\<close>

text \<open>The length of the well-formed encoding at the head of a byte string, if there is one.\<close>

definition cont :: "nat \<Rightarrow> bool" where
  "cont b \<longleftrightarrow> 0x80 \<le> b \<and> b \<le> 0xBF"

fun rune_length :: "nat list \<Rightarrow> nat option" where
  "rune_length [] = None"
| "rune_length (a # bs) =
     (if a < 0x80 then Some 1
      else if 0xC2 \<le> a \<and> a \<le> 0xDF then
        (case bs of b # _ \<Rightarrow> if cont b then Some 2 else None | _ \<Rightarrow> None)
      else if 0xE0 \<le> a \<and> a \<le> 0xEF then
        (case bs of b # c # _ \<Rightarrow>
           if (if a = 0xE0 then 0xA0 \<le> b \<and> b \<le> 0xBF else if a = 0xED then 0x80 \<le> b \<and> b \<le> 0x9F else cont b) \<and> cont c
           then Some 3 else None | _ \<Rightarrow> None)
      else if 0xF0 \<le> a \<and> a \<le> 0xF4 then
        (case bs of b # c # d # _ \<Rightarrow>
           if (if a = 0xF0 then 0x90 \<le> b \<and> b \<le> 0xBF else if a = 0xF4 then 0x80 \<le> b \<and> b \<le> 0x8F else cont b) \<and> cont c \<and> cont d
           then Some 4 else None | _ \<Rightarrow> None)
      else None)"

definition bytes :: "string \<Rightarrow> nat list" where
  "bytes s = map of_char s"

lemma rune_length_bound: "rune_length bs = Some n \<Longrightarrow> 0 < n \<and> n \<le> length bs"
  by (cases bs) (auto split: if_splits list.splits)

declare rune_length.simps(2) [simp del]

text \<open>\<open>strings.ToValidUTF8(s, "\uFFFD")\<close>: each run of invalid bytes becomes one replacement.\<close>

function to_valid :: "bool \<Rightarrow> string \<Rightarrow> string" where
  "to_valid b [] = []"
| "to_valid b (c # cs) =
     (case rune_length (bytes (c # cs)) of
        None \<Rightarrow> (if b then [] else [CHR 0xEF, CHR 0xBF, CHR 0xBD]) @ to_valid True cs
      | Some n \<Rightarrow> take n (c # cs) @ to_valid False (drop n (c # cs)))"
  by pat_completeness auto
termination
  by (relation "measure (\<lambda>(b, s). length s)") (auto dest!: rune_length_bound simp: bytes_def)

declare to_valid.simps(2) [simp del]

definition RuneStart :: "char \<Rightarrow> bool" where
  "RuneStart c \<longleftrightarrow> \<not> cont (of_char c)"

text \<open>\<open>for cut > 0 && !utf8.RuneStart(value[cut]) { cut-- }\<close>.\<close>

fun cut_back :: "string \<Rightarrow> nat \<Rightarrow> nat" where
  "cut_back v 0 = 0"
| "cut_back v (Suc n) = (if RuneStart (v ! Suc n) then Suc n else cut_back v n)"

definition truncateUTF8 :: "string \<Rightarrow> nat \<Rightarrow> string" where
  "truncateUTF8 value limit =
     (let v = to_valid False value in
      if length v \<le> limit then v else take (cut_back v limit) v)"

definition is_lower_hex :: "char \<Rightarrow> bool" where
  "is_lower_hex c \<longleftrightarrow> CHR ''0'' \<le> c \<and> c \<le> CHR ''9'' \<or> CHR ''a'' \<le> c \<and> c \<le> CHR ''f''"

text \<open>The signed 64-bit value Go computes for an integer result that may overflow.\<close>

definition wrap64 :: "int \<Rightarrow> int" where
  "wrap64 x = sint (word_of_int x :: 64 word)"

definition second :: duration where "second = 1000000000"
definition minute :: duration where "minute = 60 * second"
definition hour :: duration where "hour = 60 * minute"

lemmas duration_units = second_def minute_def hour_def

lemma wrap64_id: "- (2 ^ 63) \<le> x \<Longrightarrow> x < 2 ^ 63 \<Longrightarrow> wrap64 x = x"
  by (simp add: wrap64_def int_word_sint)

text \<open>\<open>int64(d / time.Second)\<close>: Go's division truncates towards zero.\<close>

definition whole_seconds :: "duration \<Rightarrow> int" where
  "whole_seconds d = sgn d * (\<bar>d\<bar> div second)"

lemma whole_seconds_nonneg: "0 \<le> d \<Longrightarrow> whole_seconds d = d div second"
  by (cases "d = 0") (auto simp: whole_seconds_def sgn_if)

subsection \<open>Lists\<close>

fun insort_by :: "('a \<Rightarrow> 'a \<Rightarrow> bool) \<Rightarrow> 'a \<Rightarrow> 'a list \<Rightarrow> 'a list" where
  "insort_by le x [] = [x]"
| "insort_by le x (y # ys) = (if le x y then x # y # ys else y # insort_by le x ys)"

definition sort_by :: "('a \<Rightarrow> 'a \<Rightarrow> bool) \<Rightarrow> 'a list \<Rightarrow> 'a list" where
  "sort_by le xs = foldr (insort_by le) xs []"

lemma set_insort_by [simp]: "set (insort_by le x xs) = insert x (set xs)"
  by (induction xs) auto

lemma set_sort_by [simp]: "set (sort_by le xs) = set xs"
  by (induction xs) (auto simp: sort_by_def)

lemma sort_by_Nil_iff [simp]: "sort_by le xs = [] \<longleftrightarrow> xs = []"
  by (metis set_empty set_sort_by)

lemma sort_by_empty [simp]: "sort_by le [] = []"
  by simp

lemma distinct_insort_by: "distinct (insort_by le x xs) \<longleftrightarrow> x \<notin> set xs \<and> distinct xs"
  by (induction xs) auto

lemma distinct_sort_by [simp]: "distinct (sort_by le xs) \<longleftrightarrow> distinct xs"
proof (induction xs)
  case (Cons x xs)
  have "sort_by le (x # xs) = insort_by le x (sort_by le xs)"
    by (simp add: sort_by_def)
  with Cons show ?case by (simp add: distinct_insort_by)
qed (simp add: sort_by_def)

text \<open>The first row of \<open>ORDER BY\<close> is a least one.\<close>

lemma sort_by_head:
  assumes total: "\<And>x y. le x y \<or> le y x" and trans: "\<And>x y z. le x y \<Longrightarrow> le y z \<Longrightarrow> le x z"
    and "sort_by le xs = y # ys" "x \<in> set xs"
  shows "le y x"
  using assms(3,4)
proof (induction xs arbitrary: x y ys)
  case (Cons a xs)
  have sort: "sort_by le (a # xs) = insort_by le a (sort_by le xs)" by (simp add: sort_by_def)
  show ?case
  proof (cases "sort_by le xs")
    case Nil
    then have "xs = []" by simp
    with Cons.prems sort total show ?thesis by (auto simp: sort_by_def)
  next
    case (Cons b bs)
    then have least: "le b z" if "z \<in> set xs" for z using Cons.IH that by blast
    show ?thesis
    proof (cases "le a b")
      case True
      with Cons Cons.prems sort have "y = a" by simp
      with Cons.prems(2) consider "x = y" | "x \<in> set xs" by auto
      then show ?thesis
      proof cases
        case 1
        with total [of x x] show ?thesis by simp
      next
        case 2
        with \<open>y = a\<close> trans [OF True least] show ?thesis by simp
      qed
    next
      case False
      with Cons Cons.prems sort have "y = b" by simp
      with Cons.prems(2) consider "x = a" | "x \<in> set xs" by auto
      then show ?thesis
        using \<open>y = b\<close> False total [of a b] least by cases auto
    qed
  qed
qed (simp add: sort_by_def)

text \<open>The values a nullable column holds.\<close>

fun somes :: "'a option list \<Rightarrow> 'a list" where
  "somes [] = []"
| "somes (None # xs) = somes xs"
| "somes (Some x # xs) = x # somes xs"

lemma set_somes [simp]: "set (somes xs) = {x. Some x \<in> set xs}"
  by (induction xs rule: somes.induct) auto

lemma somes_append [simp]: "somes (xs @ ys) = somes xs @ somes ys"
  by (induction xs rule: somes.induct) auto

lemma find_SomeD: "find P xs = Some x \<Longrightarrow> P x \<and> x \<in> set xs"
  by (induction xs) (auto split: if_splits)

lemma find_NoneD: "find P xs = None \<Longrightarrow> x \<in> set xs \<Longrightarrow> \<not> P x"
  by (simp add: find_None_iff)

lemma map_if_id: "(\<And>x. x \<in> set xs \<Longrightarrow> \<not> P x) \<Longrightarrow> map (\<lambda>x. if P x then f x else x) xs = xs"
  by (induction xs) auto

lemma distinct_map_inj_onD:
  "distinct (map f xs) \<Longrightarrow> x \<in> set xs \<Longrightarrow> y \<in> set xs \<Longrightarrow> f x = f y \<Longrightarrow> x = y"
  by (auto simp: distinct_map dest: inj_onD)

lemma find_unique:
  assumes "distinct (map f xs)" "x \<in> set xs" "P x" "\<And>y. y \<in> set xs \<Longrightarrow> P y \<Longrightarrow> f y = f x"
  shows "find P xs = Some x"
proof -
  obtain y where y: "find P xs = Some y"
    using assms(2,3) by (metis find_NoneD option.exhaust)
  then have "P y" "y \<in> set xs" by (auto dest: find_SomeD)
  with assms have "y = x" by (metis distinct_map_inj_onD)
  with y show ?thesis by simp
qed

subsection \<open>The environment of an operation\<close>

text \<open>The parts of a parsed \<open>url.URL\<close> the sources read.\<close>

record url =
  url_scheme :: string
  url_host :: string
  url_hostname :: string
  url_has_user :: bool
  url_fragment :: string

record env =
  fault :: "string \<Rightarrow> bool"                   \<comment> \<open>the statements PostgreSQL does not answer\<close>
  locked :: "string \<Rightarrow> bool"                  \<comment> \<open>rows another open transaction has locked\<close>
  db_now :: time                               \<comment> \<open>SQL's \<open>now()\<close>\<close>
  go_now :: time                               \<comment> \<open>\<open>time.Now()\<close>\<close>
  uuid_in :: "string \<Rightarrow> string option"        \<comment> \<open>the cast of a text to \<open>uuid\<close>, as canonical text\<close>
  pg_lower :: "string \<Rightarrow> string"               \<comment> \<open>SQL's \<open>lower\<close>\<close>
  pg_btrim :: "string \<Rightarrow> string"               \<comment> \<open>SQL's \<open>btrim\<close>\<close>
  text_le :: "string \<Rightarrow> string \<Rightarrow> bool"       \<comment> \<open>the collation of \<open>ORDER BY\<close>\<close>
  pg_ilike :: "string \<Rightarrow> string \<Rightarrow> bool"      \<comment> \<open>SQL's \<open>text ILIKE pattern\<close>\<close>
  row_pick :: nat                              \<comment> \<open>which row \<open>LIMIT 1\<close> without \<open>ORDER BY\<close> returns\<close>
  uuid_bytes :: "nat \<Rightarrow> 8 word list"         \<comment> \<open>the 16 random bytes of the call's \<open>i\<close>-th \<open>randomUUID()\<close>\<close>
  token_bytes :: "nat \<Rightarrow> 8 word list option" \<comment> \<open>the 32 random bytes of its \<open>i\<close>-th \<open>randomToken()\<close>, or an error\<close>
  sha256 :: "string \<Rightarrow> string"
  bcrypt_generate :: "string \<Rightarrow> string option"
  bcrypt_matches :: "string \<Rightarrow> string \<Rightarrow> bool"
  unicode_lower :: "string \<Rightarrow> string"          \<comment> \<open>\<open>strings.ToLower\<close> of a text that is not ASCII\<close>
  unicode_fold :: "string \<Rightarrow> string \<Rightarrow> bool"  \<comment> \<open>\<open>strings.EqualFold\<close> of texts that are not both ASCII\<close>
  url_Parse :: "string \<Rightarrow> url option"          \<comment> \<open>\<open>url.Parse\<close>; \<open>None\<close> is its error\<close>
  url_ParseRequestURI :: "string \<Rightarrow> url option"
  ip_loopback :: "string \<Rightarrow> bool"              \<comment> \<open>\<open>net.ParseIP(host).IsLoopback()\<close>\<close>

definition ToLower :: "env \<Rightarrow> string \<Rightarrow> string" where
  "ToLower E s = (if list_all is_ascii s then map ascii_lower s else unicode_lower E s)"

definition EqualFold :: "env \<Rightarrow> string \<Rightarrow> string \<Rightarrow> bool" where
  "EqualFold E a b = (if list_all is_ascii a \<and> list_all is_ascii b
     then map ascii_lower a = map ascii_lower b else unicode_fold E a b)"

definition pick :: "env \<Rightarrow> 'a list \<Rightarrow> 'a option" where
  "pick E xs = (if xs = [] then None else Some (xs ! (row_pick E mod length xs)))"

lemma pick_None_iff [simp]: "pick E xs = None \<longleftrightarrow> xs = []"
  by (simp add: pick_def)

lemma pick_SomeD: "pick E xs = Some x \<Longrightarrow> x \<in> set xs"
  by (auto simp: pick_def split: if_splits)

subsection \<open>Errors, statements and transactions\<close>

datatype pg_code = Unavailable | UniqueViolation | ForeignKeyViolation | CheckViolation | InvalidText | InvalidRowCount

datatype error =
    DbError string pg_code                  \<comment> \<open>a statement that failed, with its wrapping context\<close>
  | AlreadyExists string                    \<comment> \<open>\<open>ErrAlreadyExists\<close>, with its wrapping context\<close>
  | InvalidInput string string              \<comment> \<open>\<open>InvalidInputError\<close>: field and message\<close>
  | Failed string                           \<comment> \<open>a plain \<open>fmt.Errorf\<close>\<close>
  | NoRows string                           \<comment> \<open>\<open>pgx.ErrNoRows\<close>, with its wrapping context\<close>
  | ErrUserInactive | ErrUserNotFound | ErrValidationUserProtected
  | ErrLogoutSessionInactive | ErrSessionNotFound | ErrActiveSessionNotFound
  | ErrInvitationNotAcceptable | ErrInvitationNotRevocable
  | ErrGitHubRoleMappingNotFound | ErrManagedAppNotFound | ErrManagedAppDeploymentOwned
  | ErrAuditEventNotFound
  | ErrAccountNotFound | ErrInvalidLogin    \<comment> \<open>of \<open>internal/github\<close>\<close>
  | DependencyError string                  \<comment> \<open>\<open>dependencyError\<close> of \<open>internal/app\<close>\<close>
  | ErrSelfDisable | ErrOIDCClientInUse | ErrOIDCClientDeploymentOwned
  | ErrHydraClientConflict | ErrHydraClientNotFound
  | ErrGatewaySessionNotFound | ErrLogoutTokenReplayed | ErrNoSession  \<comment> \<open>of \<open>internal/gateway\<close>\<close>

abbreviation invalidInput :: "string \<Rightarrow> error" where
  "invalidInput \<equiv> InvalidInput []"

type_synonym ('s, 'a) io = "'s \<Rightarrow> (error + 'a) \<times> 's"

definition retS :: "'a \<Rightarrow> ('s, 'a) io" where
  "retS x = (\<lambda>s. (Inr x, s))"

definition failS :: "error \<Rightarrow> ('s, 'a) io" where
  "failS e = (\<lambda>s. (Inl e, s))"

definition bindS :: "('s, 'a) io \<Rightarrow> ('a \<Rightarrow> ('s, 'b) io) \<Rightarrow> ('s, 'b) io" where
  "bindS m f = (\<lambda>s. case m s of (Inl e, s') \<Rightarrow> (Inl e, s') | (Inr x, s') \<Rightarrow> f x s')"

definition guardS :: "bool \<Rightarrow> error \<Rightarrow> ('s, unit) io" where
  "guardS b e = (if b then retS () else failS e)"

definition stmt :: "env \<Rightarrow> string \<Rightarrow> ('s \<Rightarrow> pg_code + 'a \<times> 's) \<Rightarrow> ('s, 'a) io" where
  "stmt E l f = (\<lambda>s. if fault E l then (Inl (DbError l Unavailable), s)
     else case f s of Inl c \<Rightarrow> (Inl (DbError l c), s) | Inr (x, s') \<Rightarrow> (Inr x, s'))"

definition query :: "env \<Rightarrow> string \<Rightarrow> ('s \<Rightarrow> 'a) \<Rightarrow> ('s, 'a) io" where
  "query E l f = stmt E l (\<lambda>s. Inr (f s, s))"

text \<open>A statement whose parameter is cast to \<open>uuid\<close>: a malformed text makes it fail.\<close>

definition uuid_arg :: "env \<Rightarrow> string \<Rightarrow> string \<Rightarrow> ('s, string) io" where
  "uuid_arg E l i = (case uuid_in E i of None \<Rightarrow> failS (DbError l InvalidText) | Some u \<Rightarrow> retS u)"

text \<open>
  \<open>Begin\<close>, the body, \<open>Commit\<close>, with the deferred \<open>Rollback\<close>: an error of the body or of the
  commit leaves the state the transaction began with.
\<close>

definition tx :: "env \<Rightarrow> string \<Rightarrow> ('s, 'a) io \<Rightarrow> ('s, 'a) io" where
  "tx E what m = (\<lambda>s.
     if fault E (''begin '' @ what) then (Inl (DbError (''begin '' @ what) Unavailable), s)
     else case m s of
         (Inl e, _) \<Rightarrow> (Inl e, s)
       | (Inr x, s') \<Rightarrow>
           if fault E (''commit '' @ what) then (Inl (DbError (''commit '' @ what) Unavailable), s)
           else (Inr x, s'))"

text \<open>\<open>classifyWriteError\<close>: a unique violation becomes \<open>ErrAlreadyExists\<close>.\<close>

fun classifyWriteError :: "error \<Rightarrow> error" where
  "classifyWriteError (DbError l UniqueViolation) = AlreadyExists l"
| "classifyWriteError e = e"

definition classified :: "('s, 'a) io \<Rightarrow> ('s, 'a) io" where
  "classified m = (\<lambda>s. case m s of (Inl e, s') \<Rightarrow> (Inl (classifyWriteError e), s') | r \<Rightarrow> r)"

fun forS :: "('x \<Rightarrow> ('s, unit) io) \<Rightarrow> 'x list \<Rightarrow> ('s, unit) io" where
  "forS f [] = retS ()"
| "forS f (x # xs) = bindS (f x) (\<lambda>_. forS f xs)"

lemmas io_defs = retS_def failS_def bindS_def guardS_def stmt_def query_def uuid_arg_def tx_def
  classified_def

lemma retS_simp [io_simps]: "retS x s = (Inr x, s)" by (simp add: retS_def)
lemma failS_simp [io_simps]: "failS e s = (Inl e, s)" by (simp add: failS_def)

lemma bindS_Inr: "bindS m f s = (Inr y, s'') \<longleftrightarrow> (\<exists>x s'. m s = (Inr x, s') \<and> f x s' = (Inr y, s''))"
  by (auto simp: bindS_def split: prod.splits sum.splits)

lemma guardS_Inr: "guardS b e s = (Inr u, s') \<longleftrightarrow> b \<and> s' = s"
  by (auto simp: guardS_def retS_def failS_def)

lemma retS_Inr: "retS x s = (Inr y, s') \<longleftrightarrow> y = x \<and> s' = s"
  by (auto simp: retS_def)

lemma failS_Inr: "\<not> failS e s = (Inr y, s')"
  by (simp add: failS_def)

lemma stmt_Inr: "stmt E l f s = (Inr x, s') \<longleftrightarrow> \<not> fault E l \<and> f s = Inr (x, s')"
  by (auto simp: stmt_def split: sum.splits prod.splits)

lemma query_Inr: "query E l f s = (Inr x, s') \<longleftrightarrow> \<not> fault E l \<and> x = f s \<and> s' = s"
  by (auto simp: query_def stmt_Inr)

lemma uuid_arg_Inr: "uuid_arg E l i s = (Inr u, s') \<longleftrightarrow> uuid_in E i = Some u \<and> s' = s"
  by (auto simp: uuid_arg_def retS_def failS_def split: option.splits)

lemma tx_Inr: "tx E w m s = (Inr x, s') \<longleftrightarrow>
    \<not> fault E (''begin '' @ w) \<and> \<not> fault E (''commit '' @ w) \<and> m s = (Inr x, s')"
  by (auto simp: tx_def split: prod.splits sum.splits if_splits)

lemma classified_Inr: "classified m s = (Inr x, s') \<longleftrightarrow> m s = (Inr x, s')"
  by (auto simp: classified_def split: prod.splits sum.splits)

lemma case_failS_Inr: "(case z of None \<Rightarrow> failS e | Some y \<Rightarrow> f y) s = (Inr x, s') \<longleftrightarrow>
    (\<exists>y. z = Some y \<and> f y s = (Inr x, s'))"
  by (cases z) (auto simp: failS_def)

lemma if_Inr: "(if b then m else n) s = (Inr x, s') \<longleftrightarrow>
    b \<and> m s = (Inr x, s') \<or> \<not> b \<and> n s = (Inr x, s')"
  by simp

text \<open>The inversion rules of a successful run, read forwards.\<close>

lemmas io_Inr = bindS_Inr guardS_Inr retS_Inr failS_Inr stmt_Inr query_Inr uuid_arg_Inr tx_Inr
  classified_Inr case_failS_Inr if_Inr

text \<open>A transaction that fails changes nothing.\<close>

lemma bind_cases:
  assumes "bindS m f s = (r, s')"
  obtains e where "m s = (Inl e, s')" "r = Inl e" | x t where "m s = (Inr x, t)" "f x t = (r, s')"
  using assms by (auto simp: bindS_def split: prod.splits sum.splits)

lemma tx_Inl: "tx E w m s = (Inl e, s') \<Longrightarrow> s' = s"
  by (auto simp: tx_def split: prod.splits sum.splits if_splits)

lemma query_state [simp]: "snd (query E l f s) = s"
  by (simp add: query_def stmt_def)

lemma uuid_arg_state [simp]: "snd (uuid_arg E l i s) = s"
  by (simp add: uuid_arg_def retS_def failS_def split: option.splits)

lemma guardS_state [simp]: "snd (guardS b e s) = s"
  by (simp add: guardS_def retS_def failS_def)

subsection \<open>Random identifiers and tokens\<close>

definition hex_digit :: "nat \<Rightarrow> char" where
  "hex_digit n = (if n < 10 then char_of (48 + n) else char_of (87 + n))"

definition hex_byte :: "8 word \<Rightarrow> string" where
  "hex_byte b = [hex_digit (unat b div 16), hex_digit (unat b mod 16)]"

definition hex_encode :: "8 word list \<Rightarrow> string" where
  "hex_encode bs = concat (map hex_byte bs)"

definition randomToken :: "env \<Rightarrow> nat \<Rightarrow> ('s, string) io" where
  "randomToken E i = (case token_bytes E i of
     None \<Rightarrow> failS (Failed ''generate token'') | Some bs \<Rightarrow> retS (hex_encode bs))"

definition randomUUID :: "env \<Rightarrow> nat \<Rightarrow> string" where
  "randomUUID E i =
     (let b = uuid_bytes E i;
          b = b[6 := (b ! 6 AND 0x0f) OR 0x40];
          b = b[8 := (b ! 8 AND 0x3f) OR 0x80]
      in hex_encode (take 4 b) @ ''-'' @ hex_encode (take 2 (drop 4 b)) @ ''-'' @
         hex_encode (take 2 (drop 6 b)) @ ''-'' @ hex_encode (take 2 (drop 8 b)) @ ''-'' @
         hex_encode (take 6 (drop 10 b)))"

text \<open>\<open>browserBootstrapTokenPattern\<close>: 64 lower-case hexadecimal digits.\<close>

definition browserBootstrapTokenPattern :: "string \<Rightarrow> bool" where
  "browserBootstrapTokenPattern raw \<longleftrightarrow> length raw = 64 \<and> list_all is_lower_hex raw"

lemma randomToken_Inr: "randomToken E i s = (Inr raw, s') \<longleftrightarrow>
    s' = s \<and> (\<exists>bs. token_bytes E i = Some bs \<and> raw = hex_encode bs)"
  by (auto simp: randomToken_def io_Inr split: option.splits)

lemma randomToken_state [simp]: "snd (randomToken E i s) = s"
  by (simp add: randomToken_def retS_def failS_def split: option.splits)

lemma is_lower_hex_digit: "n < 16 \<Longrightarrow> is_lower_hex (hex_digit n)"
proof -
  assume "n < 16"
  then have "n \<in> set [0..<16]" by simp
  then show ?thesis by (auto simp: hex_digit_def is_lower_hex_def less_eq_char_def upt_rec)
qed

lemma unat_byte_div: "unat (b :: 8 word) div 16 < 16"
  using unsigned_less [of b] by (simp add: div_less_iff_less_mult)

lemma hex_encode_pattern:
  "length (hex_encode bs) = 2 * length bs \<and> list_all is_lower_hex (hex_encode bs)"
  by (induction bs) (auto simp: hex_encode_def hex_byte_def is_lower_hex_digit unat_byte_div)

text \<open>Every token the service hands out has the shape its consumers insist on.\<close>

lemma randomToken_pattern:
  "randomToken E i s = (Inr raw, s') \<Longrightarrow> length (the (token_bytes E i)) = 32 \<Longrightarrow>
     browserBootstrapTokenPattern raw"
  by (auto simp: randomToken_Inr browserBootstrapTokenPattern_def hex_encode_pattern)

subsection \<open>Relational contracts\<close>

definition obeys :: "('s \<Rightarrow> 's \<Rightarrow> bool) \<Rightarrow> ('s, 'a) io \<Rightarrow> bool" where
  "obeys R m \<longleftrightarrow> (\<forall>s. R s (snd (m s)))"

lemma obeysD: "obeys R m \<Longrightarrow> m s = (r, s') \<Longrightarrow> R s s'"
  by (metis obeys_def snd_conv)

text \<open>
  The laws of a relation that holds between the state before and the state after: it is
  reflexive (an operation may do nothing or roll back) and transitive (operations compose).
  Every combinator of the store's methods keeps such a relation, so an operation keeps it as
  soon as each of its writing statements does.
\<close>

locale contract =
  fixes R :: "'s \<Rightarrow> 's \<Rightarrow> bool"
  assumes R_refl: "R s s"
    and R_trans: "R s t \<Longrightarrow> R t u \<Longrightarrow> R s u"
begin

lemma keeps_ret: "obeys R (retS x)"
  by (simp add: obeys_def retS_def R_refl)

lemma keeps_fail: "obeys R (failS e)"
  by (simp add: obeys_def failS_def R_refl)

lemma keeps_guard: "obeys R (guardS b e)"
  by (simp add: obeys_def R_refl)

lemma keeps_query: "obeys R (query E l f)"
  by (simp add: obeys_def R_refl)

lemma keeps_uuid: "obeys R (uuid_arg E l i)"
  by (simp add: obeys_def R_refl)

lemma keeps_readonly: "(\<And>s. snd (m s) = s) \<Longrightarrow> obeys R m"
  by (simp add: obeys_def R_refl)

lemma keeps_token: "obeys R (randomToken E i)"
  by (simp add: obeys_def R_refl)

lemma keeps_stmt:
  assumes "\<And>s x s'. f s = Inr (x, s') \<Longrightarrow> R s s'"
  shows "obeys R (stmt E l f)"
  using assms by (auto simp: obeys_def stmt_def R_refl split: sum.splits)

lemma keeps_bind:
  assumes "obeys R m" and "\<And>x. obeys R (f x)"
  shows "obeys R (bindS m f)"
  unfolding obeys_def
proof
  fix s
  obtain r s' where m: "m s = (r, s')" by (cases "m s")
  with assms(1) have "R s s'" by (rule obeysD)
  with assms(2) m show "R s (snd (bindS m f s))"
    by (auto simp: bindS_def obeys_def R_refl split: sum.splits intro: R_trans)
qed

lemma keeps_tx:
  assumes "obeys R m"
  shows "obeys R (tx E w m)"
  using assms by (auto simp: obeys_def tx_def R_refl split: prod.splits sum.splits)
    (metis snd_conv)

text \<open>Only what a transaction commits has to keep the relation.\<close>

lemma keeps_tx_committed:
  assumes "\<And>s x s'. m s = (Inr x, s') \<Longrightarrow> R s s'"
  shows "obeys R (tx E w m)"
  using assms by (auto simp: obeys_def tx_def R_refl split: prod.splits sum.splits)

lemma keeps_classified:
  assumes "obeys R m"
  shows "obeys R (classified m)"
  unfolding obeys_def
proof
  fix s
  show "R s (snd (classified m s))"
    using assms by (cases "m s") (auto simp: obeys_def classified_def split: sum.splits dest: spec [of _ s])
qed

lemma keeps_for:
  assumes "\<And>x. obeys R (f x)"
  shows "obeys R (forS f xs)"
  by (induction xs) (auto intro: keeps_ret keeps_bind assms)

lemma keeps_if: "(b \<Longrightarrow> obeys R m) \<Longrightarrow> (\<not> b \<Longrightarrow> obeys R n) \<Longrightarrow> obeys R (if b then m else n)"
  by simp

lemma keeps_option:
  "obeys R m \<Longrightarrow> (\<And>x. obeys R (f x)) \<Longrightarrow>
     obeys R (case z of None \<Rightarrow> m | Some x \<Rightarrow> f x)"
  by (cases z) auto

lemma keeps_prod: "(\<And>x y. obeys R (f x y)) \<Longrightarrow> obeys R (case z of (x, y) \<Rightarrow> f x y)"
  by (cases z) auto

lemma keeps_let: "(\<And>x. obeys R (f x)) \<Longrightarrow> obeys R (let x = z in f x)"
  by (simp add: Let_def)

lemmas keeps = keeps_ret keeps_token keeps_fail keeps_guard keeps_query keeps_uuid keeps_bind keeps_tx
  keeps_classified keeps_for keeps_if keeps_option keeps_prod keeps_let

end

end
