(* ===== verification/Identity_Schema.thy ===== *)
theory Identity_Schema
  imports Shauth_Prelude
begin

text \<open>
  The identity service's PostgreSQL schema as the migrations leave it
  (\<open>migrations/*.sql\<close>), and the Go structs the store reads rows into
  (\<open>internal/identity/store.go\<close>). A table is the list of its rows; a nullable column is an
  option. A writing statement produces the new table and is refused with the constraint's
  code when the table would break a \<open>UNIQUE\<close>, \<open>CHECK\<close> or foreign key of the schema.
  Timestamps are nanoseconds. The length checks of digest columns are left out: a SHA-256 digest
  has the required length. \<open>schema_ok\<close> collects the constraints; the last section shows
  that the table-level writes keep them.
\<close>

subsection \<open>Rows\<close>

type_synonym Role = string

definition RoleDeveloper :: Role where "RoleDeveloper = ''developer''"
definition RoleAdmin :: Role where "RoleAdmin = ''admin''"

definition known_role :: "Role \<Rightarrow> bool" where
  "known_role r \<longleftrightarrow> r = RoleDeveloper \<or> r = RoleAdmin"

record user_row =
  u_id :: string
  u_username :: string
  u_email :: string
  u_email_verified :: bool
  u_password_hash :: "string option"
  u_github_id :: "int option"
  u_github_login :: "string option"
  u_entra_tenant :: "string option"
  u_entra_object :: "string option"
  u_role :: Role
  u_created :: time
  u_disabled :: "time option"
  u_is_validation :: bool
  u_validation_run :: "string option"

record session_row =
  s_id :: string
  s_user :: string
  s_token_hash :: "string option"
  s_created :: time
  s_last_seen :: time
  s_expires :: time
  s_revoked :: "time option"
  s_agent :: string
  s_address :: "string option"

record hydra_row =
  h_id :: string
  h_browser :: string
  h_created :: time

record grant_row =
  g_id :: string
  g_token_hash :: string
  g_subject :: string
  g_browser :: string
  g_active_browsers :: "string list"
  g_browser_hydra :: "string list"
  g_active_hydra :: "string list"
  g_client :: string
  g_signed_out_url :: string
  g_created :: time
  g_expires :: time
  g_consumed :: "time option"
  g_completed :: "time option"
  g_cleanup_after :: time
  g_claimed_until :: "time option"
  g_attempts :: int
  g_last_error :: string

record invitation_row =
  i_id :: string
  i_email :: string
  i_role :: Role
  i_token_hash :: string
  i_invited_by :: "string option"
  i_created :: time
  i_expires :: time
  i_accepted :: "time option"
  i_revoked :: "time option"

record mapping_row =
  m_id :: string
  m_kind :: string
  m_target :: string
  m_github_user :: "int option"
  m_role :: Role
  m_created :: time

record policy_row =
  p_absolute :: int
  p_idle :: int
  p_oidc :: int
  p_access :: int
  p_id_token :: int
  p_refresh :: int
  p_updated :: time

record app_row =
  app_id :: string
  app_slug :: string
  app_name :: string
  app_description :: string
  app_launch_url :: string
  app_client :: string
  app_contract_hash :: string
  app_health_url :: string
  app_monitoring_url :: string
  app_validation_url :: string
  app_signed_out_url :: string
  app_revision :: string
  app_created :: time

record witness =
  w_app :: string
  w_slug :: string
  w_name :: string
  w_client :: string
  w_launch_url :: string
  w_validation_url :: string
  w_signed_out_url :: string
  w_revision :: string

datatype run_status = Queued | Running | Passed | RunFailed
datatype direction = FromShauth | FromApp

record run_row =
  r_id :: string
  r_app :: string
  r_slug :: string
  r_name :: string
  r_client :: string
  r_launch_url :: string
  r_validation_url :: string
  r_signed_out_url :: string
  r_direction :: direction
  r_revision :: string
  r_contract :: string
  r_witness :: "witness option"
  r_status :: run_status
  r_requested_by :: "string option"
  r_requested :: time
  r_started :: "time option"
  r_completed :: "time option"
  r_lease :: "time option"
  r_duration_ms :: "int option"
  r_failure :: string

record bootstrap_row =
  b_id :: string
  b_token_hash :: string
  b_user :: string
  b_next_path :: string
  b_created :: time
  b_expires :: time
  b_consumed :: "time option"

text \<open>A value of an audit event's JSON details; an array or object is kept as its JSON text.\<close>

datatype detail = DText string | DNumber int | DFlag bool | DNull | DOther string

record audit_row =
  a_id :: string
  a_actor :: "string option"
  a_subject :: "string option"
  a_session :: "string option"
  a_event :: string
  a_address :: "string option"
  a_created :: time
  a_details :: "(string \<times> detail) list"

record db =
  users :: "user_row list"
  sessions :: "session_row list"
  hydra_logins :: "hydra_row list"
  grants :: "grant_row list"
  invitations :: "invitation_row list"
  mappings :: "mapping_row list"
  metadata :: "string list"
  policy :: "policy_row option"
  apps :: "app_row list"
  runs :: "run_row list"
  bootstraps :: "bootstrap_row list"
  audits :: "audit_row list"

type_synonym 'a store = "(db, 'a) io"

subsection \<open>The \<open>User\<close> struct\<close>

record User =
  ID :: string
  Username :: string
  Email :: string
  EmailVerified :: bool
  GitHubLogin :: string
  FederatedIdentity :: string
  IdentitySource :: string
  UserRole :: Role
  DisabledAt :: "time option"
  CreatedAt :: time

definition IdentitySourceLocal :: string where "IdentitySourceLocal = ''local''"
definition IdentitySourceGitHub :: string where "IdentitySourceGitHub = ''github''"
definition IdentitySourceEntra :: string where "IdentitySourceEntra = ''entra''"

text \<open>The columns \<open>COALESCE(github_login,'')\<close> and \<open>CASE WHEN github_id IS NOT NULL \<dots>\<close>.\<close>

definition coalesce :: "string option \<Rightarrow> string" where
  "coalesce x = (case x of None \<Rightarrow> [] | Some v \<Rightarrow> v)"

definition identity_source :: "user_row \<Rightarrow> string" where
  "identity_source u = (if u_github_id u \<noteq> None then IdentitySourceGitHub
     else if u_entra_object u \<noteq> None then IdentitySourceEntra else IdentitySourceLocal)"

definition federatedIdentityLabel :: "string \<Rightarrow> string \<Rightarrow> string" where
  "federatedIdentityLabel source login =
     (if source = IdentitySourceGitHub then (if login = [] then ''GitHub'' else ''GitHub: '' @ login)
      else if source = IdentitySourceEntra then ''Microsoft Entra ID''
      else ''Local account'')"

text \<open>Scanning a row, without and with the identity-source column.\<close>

definition scan_user :: "user_row \<Rightarrow> User" where
  "scan_user u = \<lparr>ID = u_id u, Username = u_username u, Email = u_email u,
     EmailVerified = u_email_verified u, GitHubLogin = coalesce (u_github_login u),
     FederatedIdentity = [], IdentitySource = [], UserRole = u_role u, DisabledAt = u_disabled u,
     CreatedAt = u_created u\<rparr>"

definition scan_user_source :: "user_row \<Rightarrow> User" where
  "scan_user_source u = (scan_user u)\<lparr>IdentitySource := identity_source u,
     FederatedIdentity := federatedIdentityLabel (identity_source u) (coalesce (u_github_login u))\<rparr>"

definition nullable :: "string \<Rightarrow> string option" where
  "nullable v = (if v = [] then None else Some v)"

subsection \<open>Constraints\<close>

text \<open>\<open>users_entra_identity_idx\<close> covers only rows where both columns are set.\<close>

definition entra_key :: "user_row \<Rightarrow> (string \<times> string) option" where
  "entra_key u = (case (u_entra_tenant u, u_entra_object u) of
     (Some t, Some ob) \<Rightarrow> Some (t, ob) | _ \<Rightarrow> None)"

definition users_unique :: "user_row list \<Rightarrow> bool" where
  "users_unique us \<longleftrightarrow> distinct (map u_id us) \<and> distinct (map u_username us) \<and>
     distinct (map u_email us) \<and> distinct (somes (map u_github_id us)) \<and>
     distinct (somes (map u_github_login us)) \<and> distinct (somes (map entra_key us)) \<and>
     distinct (somes (map u_validation_run us))"

definition users_check :: "user_row list \<Rightarrow> bool" where
  "users_check us \<longleftrightarrow> list_all (\<lambda>u. known_role (u_role u)) us"

definition sessions_unique :: "session_row list \<Rightarrow> bool" where
  "sessions_unique ss \<longleftrightarrow> distinct (map s_id ss) \<and> distinct (somes (map s_token_hash ss))"

definition grants_unique :: "grant_row list \<Rightarrow> bool" where
  "grants_unique gs \<longleftrightarrow> distinct (map g_id gs) \<and> distinct (map g_token_hash gs)"

definition grant_check :: "grant_row \<Rightarrow> bool" where
  "grant_check g \<longleftrightarrow> g_active_hydra g \<noteq> [] \<and> 0 \<le> g_attempts g \<and> g_created g < g_expires g \<and>
     g_created g \<le> g_cleanup_after g \<and>
     (case g_consumed g of None \<Rightarrow> True | Some t \<Rightarrow> g_created g \<le> t) \<and>
     (case g_completed g of None \<Rightarrow> True | Some t \<Rightarrow> g_created g \<le> t)"

definition invitations_unique :: "invitation_row list \<Rightarrow> bool" where
  "invitations_unique xs \<longleftrightarrow> distinct (map i_id xs) \<and> distinct (map i_token_hash xs)"

definition mappings_unique :: "mapping_row list \<Rightarrow> bool" where
  "mappings_unique xs \<longleftrightarrow> distinct (map m_id xs) \<and>
     distinct (map (\<lambda>m. (m_kind m, m_target m)) xs) \<and> distinct (somes (map m_github_user xs))"

definition mapping_check :: "mapping_row \<Rightarrow> bool" where
  "mapping_check m \<longleftrightarrow> m_kind m \<in> {''user'', ''organization'', ''team''} \<and> known_role (m_role m) \<and>
     (case m_github_user m of None \<Rightarrow> True | Some n \<Rightarrow> m_kind m = ''user'' \<and> 0 < n)"

definition run_pending :: "run_row \<Rightarrow> bool" where
  "run_pending r \<longleftrightarrow> r_status r = Queued \<or> r_status r = Running"

definition run_key :: "run_row \<Rightarrow> string \<times> direction \<times> string" where
  "run_key r = (r_app r, r_direction r, r_contract r)"

text \<open>\<open>app_validation_one_pending_revision\<close> and the primary key.\<close>

definition runs_unique :: "run_row list \<Rightarrow> bool" where
  "runs_unique rs \<longleftrightarrow> distinct (map r_id rs) \<and> distinct (map run_key (filter run_pending rs))"

definition run_check :: "run_row \<Rightarrow> bool" where
  "run_check r \<longleftrightarrow>
     ((r_status r = Running) = (r_started r \<noteq> None \<and> r_lease r \<noteq> None)) \<and>
     ((r_status r = Passed \<or> r_status r = RunFailed) = (r_completed r \<noteq> None)) \<and>
     (case r_witness r of None \<Rightarrow> True | Some w \<Rightarrow> w_app w \<noteq> r_app r)"

definition apps_unique :: "app_row list \<Rightarrow> bool" where
  "apps_unique xs \<longleftrightarrow> distinct (map app_id xs) \<and> distinct (map app_slug xs) \<and>
     distinct (map app_client xs)"

definition bootstraps_unique :: "bootstrap_row list \<Rightarrow> bool" where
  "bootstraps_unique xs \<longleftrightarrow> distinct (map b_id xs) \<and> distinct (map b_token_hash xs)"

definition bootstrap_check :: "bootstrap_row \<Rightarrow> bool" where
  "bootstrap_check b \<longleftrightarrow> take 1 (b_next_path b) = ''/'' \<and> b_created b < b_expires b \<and>
     (case b_consumed b of None \<Rightarrow> True | Some t \<Rightarrow> b_created b \<le> t)"

definition schema_ok :: "db \<Rightarrow> bool" where
  "schema_ok s \<longleftrightarrow> users_unique (users s) \<and> users_check (users s) \<and>
     sessions_unique (sessions s) \<and> s_user ` set (sessions s) \<subseteq> u_id ` set (users s) \<and>
     distinct (map h_id (hydra_logins s)) \<and>
     h_browser ` set (hydra_logins s) \<subseteq> s_id ` set (sessions s) \<and>
     grants_unique (grants s) \<and> list_all grant_check (grants s) \<and>
     invitations_unique (invitations s) \<and>
     mappings_unique (mappings s) \<and> list_all mapping_check (mappings s) \<and>
     runs_unique (runs s) \<and> list_all run_check (runs s) \<and>
     r_app ` set (runs s) \<subseteq> app_id ` set (apps s) \<and>
     set (somes (map r_requested_by (runs s))) \<subseteq> u_id ` set (users s) \<and> apps_unique (apps s)"

subsection \<open>Statements\<close>

text \<open>\<open>UPDATE \<dots> SET f WHERE P\<close>.\<close>

definition upd :: "('a \<Rightarrow> bool) \<Rightarrow> ('a \<Rightarrow> 'a) \<Rightarrow> 'a list \<Rightarrow> 'a list" where
  "upd P f xs = map (\<lambda>x. if P x then f x else x) xs"

definition put_users :: "user_row list \<Rightarrow> 'a \<Rightarrow> db \<Rightarrow> pg_code + 'a \<times> db" where
  "put_users us x s = (if \<not> users_check us then Inl CheckViolation
     else if users_unique us then Inr (x, s\<lparr>users := us\<rparr>) else Inl UniqueViolation)"

definition put_sessions :: "session_row list \<Rightarrow> 'a \<Rightarrow> db \<Rightarrow> pg_code + 'a \<times> db" where
  "put_sessions ss x s = (if \<not> sessions_unique ss then Inl UniqueViolation
     else if list_all (\<lambda>r. s_user r \<in> u_id ` set (users s)) ss then Inr (x, s\<lparr>sessions := ss\<rparr>)
     else Inl ForeignKeyViolation)"

definition put_hydra :: "hydra_row list \<Rightarrow> 'a \<Rightarrow> db \<Rightarrow> pg_code + 'a \<times> db" where
  "put_hydra hs x s = (if \<not> distinct (map h_id hs) then Inl UniqueViolation
     else if list_all (\<lambda>h. h_browser h \<in> s_id ` set (sessions s)) hs
       then Inr (x, s\<lparr>hydra_logins := hs\<rparr>)
     else Inl ForeignKeyViolation)"

definition put_grants :: "grant_row list \<Rightarrow> 'a \<Rightarrow> db \<Rightarrow> pg_code + 'a \<times> db" where
  "put_grants gs x s = (if \<not> list_all grant_check gs then Inl CheckViolation
     else if grants_unique gs then Inr (x, s\<lparr>grants := gs\<rparr>) else Inl UniqueViolation)"

definition put_invitations :: "invitation_row list \<Rightarrow> 'a \<Rightarrow> db \<Rightarrow> pg_code + 'a \<times> db" where
  "put_invitations xs x s = (if \<not> invitations_unique xs then Inl UniqueViolation
     else if \<not> list_all (\<lambda>i. known_role (i_role i)) xs then Inl CheckViolation
     else if list_all (\<lambda>i. case i_invited_by i of None \<Rightarrow> True | Some u \<Rightarrow> u \<in> u_id ` set (users s)) xs
       then Inr (x, s\<lparr>invitations := xs\<rparr>)
     else Inl ForeignKeyViolation)"

definition put_mappings :: "mapping_row list \<Rightarrow> 'a \<Rightarrow> db \<Rightarrow> pg_code + 'a \<times> db" where
  "put_mappings xs x s = (if \<not> list_all mapping_check xs then Inl CheckViolation
     else if mappings_unique xs then Inr (x, s\<lparr>mappings := xs\<rparr>) else Inl UniqueViolation)"

definition requester_exists :: "db \<Rightarrow> run_row \<Rightarrow> bool" where
  "requester_exists s r = (case r_requested_by r of None \<Rightarrow> True | Some u \<Rightarrow> u \<in> u_id ` set (users s))"

definition put_runs :: "run_row list \<Rightarrow> 'a \<Rightarrow> db \<Rightarrow> pg_code + 'a \<times> db" where
  "put_runs xs x s = (if \<not> list_all run_check xs then Inl CheckViolation
     else if \<not> runs_unique xs then Inl UniqueViolation
     else if list_all (\<lambda>r. r_app r \<in> app_id ` set (apps s) \<and> requester_exists s r) xs
       then Inr (x, s\<lparr>runs := xs\<rparr>)
     else Inl ForeignKeyViolation)"

definition put_apps :: "app_row list \<Rightarrow> 'a \<Rightarrow> db \<Rightarrow> pg_code + 'a \<times> db" where
  "put_apps xs x s = (if apps_unique xs then Inr (x, s\<lparr>apps := xs\<rparr>) else Inl UniqueViolation)"

definition put_bootstraps :: "bootstrap_row list \<Rightarrow> 'a \<Rightarrow> db \<Rightarrow> pg_code + 'a \<times> db" where
  "put_bootstraps xs x s = (if \<not> list_all bootstrap_check xs then Inl CheckViolation
     else if \<not> bootstraps_unique xs then Inl UniqueViolation
     else if list_all (\<lambda>b. b_user b \<in> u_id ` set (users s)) xs
       then Inr (x, s\<lparr>bootstraps := xs\<rparr>)
     else Inl ForeignKeyViolation)"

definition optional_ref :: "string option \<Rightarrow> string set \<Rightarrow> bool" where
  "optional_ref r keys = (case r of None \<Rightarrow> True | Some k \<Rightarrow> k \<in> keys)"

definition put_audits :: "audit_row list \<Rightarrow> 'a \<Rightarrow> db \<Rightarrow> pg_code + 'a \<times> db" where
  "put_audits xs x s = (if \<not> distinct (map a_id xs) then Inl UniqueViolation
     else if list_all (\<lambda>a. optional_ref (a_actor a) (u_id ` set (users s)) \<and>
         optional_ref (a_subject a) (u_id ` set (users s)) \<and>
         optional_ref (a_session a) (s_id ` set (sessions s))) xs
       then Inr (x, s\<lparr>audits := xs\<rparr>)
     else Inl ForeignKeyViolation)"

lemmas put_defs = put_audits_def optional_ref_def put_users_def put_sessions_def put_hydra_def put_grants_def put_invitations_def
  put_mappings_def put_runs_def put_apps_def put_bootstraps_def

lemma put_users_Inr: "put_users us x s = Inr (y, t) \<longleftrightarrow>
    y = x \<and> t = s\<lparr>users := us\<rparr> \<and> users_unique us \<and> users_check us"
  by (auto simp: put_users_def)

lemma put_sessions_Inr: "put_sessions ss x s = Inr (y, t) \<longleftrightarrow>
    y = x \<and> t = s\<lparr>sessions := ss\<rparr> \<and> sessions_unique ss \<and> s_user ` set ss \<subseteq> u_id ` set (users s)"
  by (auto simp: put_sessions_def list_all_iff)

lemma put_hydra_Inr: "put_hydra hs x s = Inr (y, t) \<longleftrightarrow>
    y = x \<and> t = s\<lparr>hydra_logins := hs\<rparr> \<and> distinct (map h_id hs) \<and>
    h_browser ` set hs \<subseteq> s_id ` set (sessions s)"
  by (auto simp: put_hydra_def list_all_iff)

lemma put_grants_Inr: "put_grants gs x s = Inr (y, t) \<longleftrightarrow>
    y = x \<and> t = s\<lparr>grants := gs\<rparr> \<and> grants_unique gs \<and> list_all grant_check gs"
  by (auto simp: put_grants_def)

lemma put_invitations_Inr: "put_invitations xs x s = Inr (y, t) \<longleftrightarrow>
    y = x \<and> t = s\<lparr>invitations := xs\<rparr> \<and> invitations_unique xs \<and>
    list_all (\<lambda>i. known_role (i_role i)) xs \<and>
    list_all (\<lambda>i. case i_invited_by i of None \<Rightarrow> True | Some u \<Rightarrow> u \<in> u_id ` set (users s)) xs"
  by (auto simp: put_invitations_def)

lemma put_mappings_Inr: "put_mappings xs x s = Inr (y, t) \<longleftrightarrow>
    y = x \<and> t = s\<lparr>mappings := xs\<rparr> \<and> mappings_unique xs \<and> list_all mapping_check xs"
  by (auto simp: put_mappings_def)

lemma requesters_exist:
  "list_all (requester_exists s) xs \<longleftrightarrow> set (somes (map r_requested_by xs)) \<subseteq> u_id ` set (users s)"
proof (induction xs)
  case (Cons r xs)
  then show ?case by (cases "r_requested_by r") (auto simp: requester_exists_def simp del: set_somes)
qed simp

lemma put_runs_Inr: "put_runs xs x s = Inr (y, t) \<longleftrightarrow>
    y = x \<and> t = s\<lparr>runs := xs\<rparr> \<and> runs_unique xs \<and> list_all run_check xs \<and>
    r_app ` set xs \<subseteq> app_id ` set (apps s) \<and>
    set (somes (map r_requested_by xs)) \<subseteq> u_id ` set (users s)"
  unfolding requesters_exist [symmetric] put_runs_def
  by (auto simp: list_all_iff)

lemma put_apps_Inr: "put_apps xs x s = Inr (y, t) \<longleftrightarrow>
    y = x \<and> t = s\<lparr>apps := xs\<rparr> \<and> apps_unique xs"
  by (auto simp: put_apps_def)

lemma put_bootstraps_Inr: "put_bootstraps xs x s = Inr (y, t) \<longleftrightarrow>
    y = x \<and> t = s\<lparr>bootstraps := xs\<rparr> \<and> bootstraps_unique xs \<and> list_all bootstrap_check xs \<and>
    list_all (\<lambda>b. b_user b \<in> u_id ` set (users s)) xs"
  by (auto simp: put_bootstraps_def)

lemma put_audits_Inr: "put_audits xs x s = Inr (y, t) \<longleftrightarrow>
    y = x \<and> t = s\<lparr>audits := xs\<rparr> \<and> distinct (map a_id xs) \<and>
    list_all (\<lambda>a. optional_ref (a_actor a) (u_id ` set (users s)) \<and>
      optional_ref (a_subject a) (u_id ` set (users s)) \<and>
      optional_ref (a_session a) (s_id ` set (sessions s))) xs"
  by (auto simp: put_audits_def)

lemmas put_Inr = put_audits_Inr put_users_Inr put_sessions_Inr put_hydra_Inr put_grants_Inr put_invitations_Inr
  put_mappings_Inr put_runs_Inr put_apps_Inr put_bootstraps_Inr

lemma upd_Nil [simp]: "upd P f [] = []"
  by (simp add: upd_def)

lemma upd_Cons [simp]: "upd P f (x # xs) = (if P x then f x else x) # upd P f xs"
  by (simp add: upd_def)

lemma upd_append [simp]: "upd P f (xs @ ys) = upd P f xs @ upd P f ys"
  by (simp add: upd_def)

lemma in_upd: "y \<in> set (upd P f xs) \<longleftrightarrow> (\<exists>x \<in> set xs. y = (if P x then f x else x))"
  by (auto simp: upd_def)

lemma ball_upd: "(\<forall>y \<in> set (upd P f xs). Q y) \<longleftrightarrow> (\<forall>x \<in> set xs. Q (if P x then f x else x))"
  unfolding upd_def by (simp only: set_map ball_simps)

lemma bex_upd: "(\<exists>y \<in> set (upd P f xs). Q y) \<longleftrightarrow> (\<exists>x \<in> set xs. Q (if P x then f x else x))"
  unfolding upd_def by (simp only: set_map bex_simps)

lemma upd_none: "(\<And>x. x \<in> set xs \<Longrightarrow> \<not> P x) \<Longrightarrow> upd P f xs = xs"
  by (simp add: upd_def map_if_id)

lemma map_upd [simp]: "(\<And>x. g (f x) = g x) \<Longrightarrow> map g (upd P f xs) = map g xs"
  by (simp add: upd_def)

lemma image_upd [simp]: "(\<And>x. g (f x) = g x) \<Longrightarrow> g ` set (upd P f xs) = g ` set xs"
  by (metis image_set map_upd)

subsection \<open>The constraints are an invariant\<close>

definition keeps_schema :: "db \<Rightarrow> db \<Rightarrow> bool" where
  "keeps_schema s s' \<longleftrightarrow> (schema_ok s \<longrightarrow> schema_ok s')"

interpretation sk: contract keeps_schema
  by unfold_locales (auto simp: keeps_schema_def)

lemma put_users_schema:
  "put_users us x s = Inr (y, s') \<Longrightarrow> u_id ` set (users s) \<subseteq> u_id ` set us \<Longrightarrow> keeps_schema s s'"
  by (simp add: put_Inr keeps_schema_def schema_ok_def) (meson subset_trans)

lemma put_sessions_schema:
  "put_sessions ss x s = Inr (y, s') \<Longrightarrow> s_id ` set (sessions s) \<subseteq> s_id ` set ss \<Longrightarrow> keeps_schema s s'"
  by (simp add: put_Inr keeps_schema_def schema_ok_def) (meson subset_trans)

lemma put_hydra_schema: "put_hydra hs x s = Inr (y, s') \<Longrightarrow> keeps_schema s s'"
  by (simp add: put_Inr keeps_schema_def schema_ok_def)

lemma put_grants_schema: "put_grants gs x s = Inr (y, s') \<Longrightarrow> keeps_schema s s'"
  by (simp add: put_Inr keeps_schema_def schema_ok_def)

lemma put_invitations_schema: "put_invitations xs x s = Inr (y, s') \<Longrightarrow> keeps_schema s s'"
  by (simp add: put_Inr keeps_schema_def schema_ok_def)

lemma put_mappings_schema: "put_mappings xs x s = Inr (y, s') \<Longrightarrow> keeps_schema s s'"
  by (simp add: put_Inr keeps_schema_def schema_ok_def)

lemma put_runs_schema: "put_runs xs x s = Inr (y, s') \<Longrightarrow> keeps_schema s s'"
  by (simp add: put_Inr keeps_schema_def schema_ok_def)

lemma put_apps_schema:
  "put_apps xs x s = Inr (y, s') \<Longrightarrow> app_id ` set (apps s) \<subseteq> app_id ` set xs \<Longrightarrow> keeps_schema s s'"
  by (simp add: put_Inr keeps_schema_def schema_ok_def) (meson subset_trans)

lemma put_bootstraps_schema: "put_bootstraps xs x s = Inr (y, s') \<Longrightarrow> keeps_schema s s'"
  by (simp add: put_Inr keeps_schema_def schema_ok_def)

lemma put_audits_schema: "put_audits xs x s = Inr (y, s') \<Longrightarrow> keeps_schema s s'"
  by (simp add: put_Inr keeps_schema_def schema_ok_def)

lemmas put_schema = put_audits_schema put_users_schema put_sessions_schema put_hydra_schema put_grants_schema
  put_invitations_schema put_mappings_schema put_runs_schema put_apps_schema put_bootstraps_schema

lemma schema_policy: "keeps_schema s (s\<lparr>policy := x\<rparr>)"
  by (simp add: keeps_schema_def schema_ok_def)

lemma schema_metadata: "keeps_schema s (s\<lparr>metadata := x\<rparr>)"
  by (simp add: keeps_schema_def schema_ok_def)

lemma schema_audits: "keeps_schema s (s\<lparr>audits := x\<rparr>)"
  by (simp add: keeps_schema_def schema_ok_def)

lemmas schema_other = schema_policy schema_metadata schema_audits sk.R_refl

lemma schema_session_unique:
  "schema_ok s \<Longrightarrow> r \<in> set (sessions s) \<Longrightarrow> r' \<in> set (sessions s) \<Longrightarrow> s_id r = s_id r' \<Longrightarrow> r = r'"
  unfolding schema_ok_def sessions_unique_def by (metis distinct_map_inj_onD)

lemma schema_user_unique:
  "schema_ok s \<Longrightarrow> u \<in> set (users s) \<Longrightarrow> u' \<in> set (users s) \<Longrightarrow> u_id u = u_id u' \<Longrightarrow> u = u'"
  unfolding schema_ok_def users_unique_def by (metis distinct_map_inj_onD)

lemma distinct_somes_map:
  "distinct (somes (map f xs)) \<Longrightarrow> x \<in> set xs \<Longrightarrow> y \<in> set xs \<Longrightarrow> f x = Some k \<Longrightarrow> f y = Some k \<Longrightarrow>
     distinct (map g xs) \<Longrightarrow> x = y"
proof (induction xs)
  case (Cons a xs)
  then show ?case
    by (cases "f a") (auto, (metis (mono_tags) image_eqI)+)
qed simp

lemma schema_token_unique:
  "schema_ok s \<Longrightarrow> r \<in> set (sessions s) \<Longrightarrow> r' \<in> set (sessions s) \<Longrightarrow>
     s_token_hash r = Some h \<Longrightarrow> s_token_hash r' = Some h \<Longrightarrow> r = r'"
  unfolding schema_ok_def sessions_unique_def by (metis distinct_somes_map)

subsection \<open>A concrete environment and database\<close>

text \<open>
  Used by the witnesses: an environment in which every statement is answered, identifiers
  are their own canonical form and a digest is its text behind a mark; and a database with two
  accounts, one of them with a browser session.
\<close>

definition example_parse :: "string \<Rightarrow> url option" where
  "example_parse x = (if take 8 x = ''https://'' then
     Some \<lparr>url_scheme = ''https'', url_host = takeWhile (\<lambda>c. c \<noteq> CHR ''/'') (drop 8 x),
       url_hostname = takeWhile (\<lambda>c. c \<noteq> CHR ''/'') (drop 8 x), url_has_user = False, url_fragment = []\<rparr>
     else None)"

definition example_env :: env where
  "example_env = \<lparr>fault = (\<lambda>_. False), locked = (\<lambda>_. False), db_now = 0, go_now = 0, uuid_in = Some,
     pg_lower = map ascii_lower, pg_btrim = (\<lambda>x. x), text_le = (\<lambda>x y. x \<le> y), pg_ilike = (\<lambda>x y. True), row_pick = 0,
     uuid_bytes = (\<lambda>i. replicate 16 0), token_bytes = (\<lambda>i. Some (replicate 32 0)),
     sha256 = (\<lambda>x. CHR ''#'' # x), bcrypt_generate = (\<lambda>p. Some (CHR ''$'' # p)),
     bcrypt_matches = (\<lambda>h p. h = CHR ''$'' # p), unicode_lower = (\<lambda>x. x),
     unicode_fold = (\<lambda>x y. x = y), url_Parse = example_parse, url_ParseRequestURI = example_parse,
     ip_loopback = (\<lambda>_. False)\<rparr>"

definition example_user :: "string \<Rightarrow> string \<Rightarrow> user_row" where
  "example_user i name = \<lparr>u_id = i, u_username = name, u_email = name @ ''@example.org'',
     u_email_verified = True, u_password_hash = Some (CHR ''$'' # ''correct horse battery''),
     u_github_id = None, u_github_login = None, u_entra_tenant = None, u_entra_object = None,
     u_role = ''developer'', u_created = 0, u_disabled = None, u_is_validation = False,
     u_validation_run = None\<rparr>"

definition example_session :: "string \<Rightarrow> string \<Rightarrow> session_row" where
  "example_session i u = \<lparr>s_id = i, s_user = u, s_token_hash = Some (CHR ''#'' # i), s_created = 0,
     s_last_seen = 0, s_expires = 2592000000000000, s_revoked = None, s_agent = [], s_address = None\<rparr>"

definition example_db :: db where
  "example_db = \<lparr>users = [example_user ''u1'' ''alice'', example_user ''u2'' ''bob''],
     sessions = [example_session ''s1'' ''u1''],
     hydra_logins = [\<lparr>h_id = ''h1'', h_browser = ''s1'', h_created = 0\<rparr>],
     grants = [], invitations = [], mappings = [], metadata = [],
     policy = Some \<lparr>p_absolute = 2592000, p_idle = 43200, p_oidc = 2592000, p_access = 900,
       p_id_token = 900, p_refresh = 2592000, p_updated = 0\<rparr>,
     apps = [], runs = [], bootstraps = [], audits = []\<rparr>"

lemmas example_defs = example_env_def example_user_def example_session_def example_db_def

lemma example_env_simps [simp]:
  "fault example_env l = False" "locked example_env i = False" "uuid_in example_env x = Some x"
  "db_now example_env = 0" "go_now example_env = 0" "sha256 example_env x = CHR ''#'' # x"
  "text_le example_env a b = (a \<le> b)" "row_pick example_env = 0"
  "bcrypt_matches example_env h p = (h = CHR ''$'' # p)"
  "bcrypt_generate example_env p = Some (CHR ''$'' # p)"
  by (simp_all add: example_env_def)

lemma example_token: "token_bytes example_env i = Some (replicate 32 0)"
  by (simp add: example_env_def)

lemma example_token_hex: "hex_encode (replicate 32 0) = replicate 64 CHR ''0''"
  by code_simp

lemma example_uuid: "randomUUID example_env i = ''00000000-0000-4000-8000-000000000000''"
proof -
  have "randomUUID example_env i = randomUUID example_env 0"
    by (simp add: randomUUID_def example_env_def)
  also have "\<dots> = ''00000000-0000-4000-8000-000000000000''"
    by code_simp
  finally show ?thesis .
qed

lemma example_db_ok: "schema_ok example_db"
  by (simp add: schema_ok_def example_db_def example_user_def example_session_def users_unique_def
      users_check_def known_role_def RoleDeveloper_def sessions_unique_def grants_unique_def
      invitations_unique_def mappings_unique_def runs_unique_def apps_unique_def entra_key_def)

end
