(* ===== verification/Managed_Apps.thy ===== *)
theory Managed_Apps
  imports Identity_Schema
begin

text \<open>
  The application catalog: \<open>normalizeManagedApp\<close>, \<open>ValidateManagedApp\<close>, the validation
  contract of an app and its digest, and the choice of the witness app (\<open>validationWitness\<close>), all
  of \<open>internal/identity/store.go\<close>. An \<open>app_row\<close> is both the row and the \<open>ManagedApp\<close> struct.
\<close>

definition normalizeManagedApp :: "app_row \<Rightarrow> app_row" where
  "normalizeManagedApp a = a\<lparr>app_slug := TrimSpace (app_slug a), app_name := TrimSpace (app_name a),
     app_description := TrimSpace (app_description a), app_launch_url := TrimSpace (app_launch_url a),
     app_client := TrimSpace (app_client a), app_contract_hash := TrimSpace (app_contract_hash a),
     app_health_url := TrimSpace (app_health_url a), app_monitoring_url := TrimSpace (app_monitoring_url a),
     app_validation_url := TrimSpace (app_validation_url a), app_signed_out_url := TrimSpace (app_signed_out_url a),
     app_revision := TrimSpace (app_revision a)\<rparr>"

definition oidcContractHashPattern :: "string \<Rightarrow> bool" where
  "oidcContractHashPattern x \<longleftrightarrow> length x = 64 \<and> list_all is_lower_hex x"

definition immutableReleaseRevisionPattern :: "string \<Rightarrow> bool" where
  "immutableReleaseRevisionPattern x \<longleftrightarrow>
     12 \<le> length x \<and> length x \<le> 64 \<and> list_all is_lower_hex x \<or>
     take 7 x = ''sha256:'' \<and> length (drop 7 x) = 64 \<and> list_all is_lower_hex (drop 7 x)"

definition sameURLOrigin :: "env \<Rightarrow> url option \<Rightarrow> url option \<Rightarrow> bool" where
  "sameURLOrigin E l r = (case (l, r) of
     (Some a, Some b) \<Rightarrow> EqualFold E (url_scheme a) (url_scheme b) \<and> EqualFold E (url_host a) (url_host b)
   | _ \<Rightarrow> False)"

definition validManagedAppURL :: "env \<Rightarrow> url option \<Rightarrow> bool" where
  "validManagedAppURL E v = (case v of None \<Rightarrow> False | Some u \<Rightarrow>
     if url_host u = [] \<or> url_has_user u \<or> url_fragment u \<noteq> [] then False
     else if url_scheme u = ''https'' then True
     else let host = trim_set ''[]'' (ToLower E (url_hostname u)) in
       url_scheme u = ''http'' \<and> (host = ''localhost'' \<or> has_suffix ''.localhost'' host \<or>
         host = ''::1'' \<or> ip_loopback E host))"

text \<open>The loop over the characters of the slug: \<open>False\<close> when one is refused.\<close>

definition slug_characters_ok :: "string \<Rightarrow> bool" where
  "slug_characters_ok slug = list_all (\<lambda>(index, c).
     (CHR ''a'' \<le> c \<and> c \<le> CHR ''z'' \<or> CHR ''0'' \<le> c \<and> c \<le> CHR ''9'' \<or> c = CHR ''-'') \<and>
     \<not> (c = CHR ''-'' \<and> (index = 0 \<or> index = length slug - 1))) (enumerate 0 slug)"

abbreviation invalidField :: "string \<Rightarrow> string \<Rightarrow> error" where
  "invalidField \<equiv> InvalidInput"

fun first_error :: "(bool \<times> error) list \<Rightarrow> error option" where
  "first_error [] = None"
| "first_error ((bad, e) # xs) = (if bad then Some e else first_error xs)"

definition ValidateManagedApp :: "env \<Rightarrow> app_row \<Rightarrow> error option" where
  "ValidateManagedApp E a =
     (let launch = url_ParseRequestURI E (TrimSpace (app_launch_url a));
          health = url_ParseRequestURI E (TrimSpace (app_health_url a));
          validation = url_ParseRequestURI E (app_validation_url a);
          signed_out = url_ParseRequestURI E (app_signed_out_url a);
          monitoring = url_ParseRequestURI E (app_monitoring_url a)
      in first_error
       [(length (app_slug a) < 3 \<or> length (app_slug a) > 63,
           invalidField ''slug'' ''app slug must be between 3 and 63 characters''),
        (\<not> slug_characters_ok (app_slug a),
           invalidField ''slug'' ''app slug must use lowercase letters, digits, and interior hyphens''),
        (TrimSpace (app_name a) = [], invalidField ''name'' ''app display name is required''),
        (TrimSpace (app_client a) = [], invalidField ''oidc_client_id'' ''app OIDC client ID is required''),
        (TrimSpace (app_description a) = [], invalidField ''description'' ''app description is required''),
        (\<not> oidcContractHashPattern (app_contract_hash a),
           invalidInput ''app OIDC registration contract hash must be a lowercase SHA-256 digest''),
        (\<not> immutableReleaseRevisionPattern (app_revision a),
           invalidField ''release_revision'' (''app release revision must be a 12'' @ [CHR 0xE2, CHR 0x80, CHR 0x93] @
             ''64 character lowercase hexadecimal commit or a sha256 digest'')),
        (\<not> validManagedAppURL E launch,
           invalidField ''launch_url'' ''app launch URL must use HTTPS unless it targets loopback''),
        (\<not> validManagedAppURL E health,
           invalidField ''health_url'' ''app health URL must use HTTPS unless it targets loopback''),
        (\<not> sameURLOrigin E launch health,
           invalidField ''health_url'' ''app launch and health URLs must use one application origin''),
        (\<not> validManagedAppURL E validation,
           invalidField ''validation_url'' ''app validation URL must use HTTPS unless it targets loopback''),
        (\<not> sameURLOrigin E launch validation,
           invalidField ''validation_url'' ''app launch and validation URLs must use one application origin''),
        (\<not> validManagedAppURL E signed_out,
           invalidField ''signed_out_url'' ''app signed-out URL must use HTTPS unless it targets loopback''),
        (\<not> sameURLOrigin E launch signed_out,
           invalidField ''signed_out_url'' ''app launch and signed-out URLs must use one application origin''),
        (app_monitoring_url a \<noteq> [] \<and> \<not> validManagedAppURL E monitoring,
           invalidField ''monitoring_url'' ''app monitoring URL must use HTTPS unless it targets loopback''),
        (app_monitoring_url a \<noteq> [] \<and> \<not> sameURLOrigin E launch monitoring,
           invalidField ''monitoring_url'' ''app launch and monitoring URLs must use one application origin'')])"

subsection \<open>The validation contract\<close>

definition sameManagedAppValidationContract :: "app_row \<Rightarrow> app_row \<Rightarrow> bool" where
  "sameManagedAppValidationContract l r \<longleftrightarrow> app_name l = app_name r \<and> app_description l = app_description r \<and>
     app_launch_url l = app_launch_url r \<and> app_client l = app_client r \<and>
     app_contract_hash l = app_contract_hash r \<and> app_health_url l = app_health_url r \<and>
     app_monitoring_url l = app_monitoring_url r \<and> app_validation_url l = app_validation_url r \<and>
     app_signed_out_url l = app_signed_out_url r \<and> app_revision l = app_revision r"

definition contract_fields :: "app_row \<Rightarrow> app_row option \<Rightarrow> string list" where
  "contract_fields a w =
     [app_slug a, app_name a, app_description a, app_launch_url a, app_client a, app_contract_hash a,
      app_health_url a, app_monitoring_url a, app_validation_url a, app_signed_out_url a, app_revision a] @
     (case w of None \<Rightarrow> [] | Some v \<Rightarrow>
       [app_id v, app_slug v, app_name v, app_client v, app_contract_hash v, app_launch_url v,
        app_validation_url v, app_signed_out_url v, app_revision v])"

text \<open>\<open>strings.Join(fields, "\x00")\<close>.\<close>

fun join_nul :: "string list \<Rightarrow> string" where
  "join_nul [] = []"
| "join_nul [x] = x"
| "join_nul (x # y # zs) = x @ CHR 0x00 # join_nul (y # zs)"

definition managedAppValidationContractHash :: "env \<Rightarrow> app_row \<Rightarrow> app_row option \<Rightarrow> string" where
  "managedAppValidationContractHash E a w =
     hex_encode (map (\<lambda>c. of_char c) (sha256 E (join_nul (contract_fields a w))))"

text \<open>
  \<open>validationWitness\<close>: the first app after the target, in catalog order and wrapping around, with
  another identity, another OAuth client and another origin.
\<close>

fun index_of :: "string \<Rightarrow> app_row list \<Rightarrow> nat \<Rightarrow> int" where
  "index_of i [] n = -1"
| "index_of i (a # as) n = (if app_id a = i then int n else index_of i as (Suc n))"

definition witness_suits :: "env \<Rightarrow> app_row \<Rightarrow> app_row \<Rightarrow> bool" where
  "witness_suits E target c \<longleftrightarrow> app_id c \<noteq> app_id target \<and> app_client c \<noteq> app_client target \<and>
     \<not> sameURLOrigin E (url_Parse E (app_launch_url target)) (url_Parse E (app_launch_url c))"

definition validationWitness :: "env \<Rightarrow> app_row \<Rightarrow> app_row list \<Rightarrow> app_row option" where
  "validationWitness E target as =
     (let at = (\<lambda>offset. as ! nat ((index_of (app_id target) as 0 + int offset) mod int (length as)))
      in map_option at (find (\<lambda>offset. witness_suits E target (at offset)) [1..<length as]))"

subsection \<open>Catalog queries\<close>

definition ListManagedApps :: "env \<Rightarrow> app_row list store" where
  "ListManagedApps E = query E ''list managed apps'' (\<lambda>s. sort_by (\<lambda>x y. text_le E (app_name x) (app_name y)) (apps s))"

definition IsManagedOIDCClient :: "env \<Rightarrow> string \<Rightarrow> bool store" where
  "IsManagedOIDCClient E clientID = query E ''check managed OAuth client'' (\<lambda>s.
     list_ex (\<lambda>a. app_client a = TrimSpace clientID) (apps s))"

definition ManagedAppUsesOIDCClient :: "env \<Rightarrow> string \<Rightarrow> bool store" where
  "ManagedAppUsesOIDCClient E clientID = query E ''query managed app OAuth client'' (\<lambda>s.
     list_ex (\<lambda>a. app_client a = TrimSpace clientID) (apps s))"

definition empty_app :: app_row where
  "empty_app = \<lparr>app_id = [], app_slug = [], app_name = [], app_description = [], app_launch_url = [],
     app_client = [], app_contract_hash = [], app_health_url = [], app_monitoring_url = [],
     app_validation_url = [], app_signed_out_url = [], app_revision = [], app_created = 0\<rparr>"

text \<open>Only six columns are read; the other fields of the result are zero.\<close>

definition ManagedAppByClientID :: "env \<Rightarrow> string \<Rightarrow> app_row store" where
  "ManagedAppByClientID E clientID =
     bindS (query E ''get managed app by OpenID Connect client'' (\<lambda>s.
        find (\<lambda>a. app_client a = TrimSpace clientID) (apps s))) (\<lambda>r.
     case r of None \<Rightarrow> failS ErrManagedAppNotFound
     | Some a \<Rightarrow> retS (empty_app\<lparr>app_id := app_id a, app_slug := app_slug a, app_name := app_name a,
         app_launch_url := app_launch_url a, app_client := app_client a,
         app_signed_out_url := app_signed_out_url a\<rparr>))"

definition get_ManagedApp :: "env \<Rightarrow> string \<Rightarrow> app_row store" where
  "get_ManagedApp E i =
     bindS (uuid_arg E ''get managed app'' i) (\<lambda>u.
     bindS (query E ''get managed app'' (\<lambda>s. find (\<lambda>a. app_id a = u) (apps s))) (\<lambda>r.
     case r of None \<Rightarrow> failS (NoRows ''get managed app'') | Some a \<Rightarrow> retS a))"

definition ValidateBootstrapManagedAppOwnership :: "env \<Rightarrow> app_row \<Rightarrow> bool store" where
  "ValidateBootstrapManagedAppOwnership E a0 =
     (let a = normalizeManagedApp a0 in
      bindS (query E ''query bootstrap managed app ownership'' (\<lambda>s.
         filter (\<lambda>x. app_slug x = app_slug a \<or> app_client x = app_client a) (apps s))) (\<lambda>rows.
      if list_ex (\<lambda>x. app_slug x \<noteq> app_slug a \<or> app_client x \<noteq> app_client a) rows
      then failS (Failed ''managed app slug or OpenID Connect client belongs to another registration'')
      else retS (rows \<noteq> [])))"

subsection \<open>Lemmas and properties\<close>

lemma first_error_None_iff: "first_error xs = None \<longleftrightarrow> (\<forall>(bad, e) \<in> set xs. \<not> bad)"
  by (induction xs rule: first_error.induct) auto

lemma join_nul_inject:
  "length xs = length ys \<Longrightarrow> (\<forall>x \<in> set xs. CHR 0x00 \<notin> set x) \<Longrightarrow> (\<forall>y \<in> set ys. CHR 0x00 \<notin> set y) \<Longrightarrow>
     join_nul xs = join_nul ys \<Longrightarrow> xs = ys"
proof (induction xs arbitrary: ys rule: join_nul.induct)
  case 1
  then show ?case by simp
next
  case (2 x)
  then show ?case by (cases ys) auto
next
  case (3 x y zs)
  then obtain a b cs where ys: "ys = a # b # cs" by (cases ys; cases "tl ys") auto
  have eq: "x @ CHR 0x00 # join_nul (y # zs) = a @ CHR 0x00 # join_nul (b # cs)"
    using "3.prems"(4) ys by simp
  have "x = a \<and> join_nul (y # zs) = join_nul (b # cs)"
    using eq "3.prems"(2,3) ys by (auto simp: append_eq_append_conv2 append_eq_Cons_conv Cons_eq_append_conv)
  with "3.IH" [of "b # cs"] "3.prems" ys show ?case by auto
qed

lemma contract_fields_length: "length (contract_fields a w) = (if w = None then 11 else 20)"
  by (cases w) (auto simp: contract_fields_def)

text \<open>The text whose digest identifies a validation contract determines the contract: for
  catalog entries without NUL bytes (which PostgreSQL texts cannot hold), equal texts mean the same
  app slug, the same validation contract and the same witness coordinates. So a digest collision
  apart, a changed registration is never taken for an already validated one.\<close>

theorem contract_text_determines_contract:
  assumes eq: "join_nul (contract_fields a w) = join_nul (contract_fields b v)"
    and nul: "\<forall>x \<in> set (contract_fields a w) \<union> set (contract_fields b v). CHR 0x00 \<notin> set x"
    and wit: "(w = None) = (v = None)"
  shows "app_slug a = app_slug b \<and> sameManagedAppValidationContract a b \<and>
     (\<forall>x y. w = Some x \<longrightarrow> v = Some y \<longrightarrow> app_id x = app_id y \<and> app_slug x = app_slug y \<and>
        app_client x = app_client y \<and> app_contract_hash x = app_contract_hash y \<and>
        app_launch_url x = app_launch_url y \<and> app_validation_url x = app_validation_url y \<and>
        app_signed_out_url x = app_signed_out_url y \<and> app_revision x = app_revision y)"
proof -
  have "contract_fields a w = contract_fields b v"
    using eq nul wit by (intro join_nul_inject) (auto simp: contract_fields_length)
  then show ?thesis
    by (cases w; cases v) (auto simp: contract_fields_def sameManagedAppValidationContract_def)
qed

definition example_app :: "string \<Rightarrow> app_row" where
  "example_app n = \<lparr>app_id = n, app_slug = n, app_name = n, app_description = ''An app'',
     app_launch_url = ''https://'' @ n, app_client = n @ ''-client'',
     app_contract_hash = replicate 64 CHR ''a'', app_health_url = ''https://'' @ n,
     app_monitoring_url = [], app_validation_url = ''https://'' @ n, app_signed_out_url = ''https://'' @ n,
     app_revision = replicate 40 CHR ''b'', app_created = 0\<rparr>"

theorem contract_text_determines_contract_witness:
  "sameManagedAppValidationContract (example_app ''wiki'') (example_app ''wiki'')"
proof -
  have "\<forall>x \<in> set (contract_fields (example_app ''wiki'') (Some (example_app ''shop''))).
     CHR 0x00 \<notin> set x"
    by code_simp
  then show ?thesis
    using contract_text_determines_contract [of "example_app ''wiki''" "Some (example_app ''shop'')"
        "example_app ''wiki''" "Some (example_app ''shop'')"] by simp
qed

lemma index_of_found:
  "i \<in> app_id ` set as \<Longrightarrow> \<exists>k < length as. index_of i as n = int (n + k) \<and> app_id (as ! k) = i"
proof (induction as arbitrary: n)
  case (Cons a as)
  show ?case
  proof (cases "app_id a = i")
    case True
    then show ?thesis by (intro exI [of _ 0]) simp
  next
    case False
    with Cons.prems have "i \<in> app_id ` set as" by auto
    from Cons.IH [OF this, of "Suc n"] obtain k where
      "k < length as" "index_of i as (Suc n) = int (Suc n + k)" "app_id (as ! k) = i" by auto
    with False show ?thesis by (intro exI [of _ "Suc k"]) simp
  qed
qed simp

lemma find_some_offset:
  "x \<in> set xs \<Longrightarrow> P x \<Longrightarrow> \<exists>y \<in> set xs. find P xs = Some y \<and> P y"
  by (metis find_NoneD find_SomeD option.exhaust)

text \<open>The loop visits every other position of the catalog.\<close>

lemma rotation_reaches:
  fixes k j len :: nat
  assumes "k < len" "j < len" "j \<noteq> k"
  shows "\<exists>offset \<in> set [1..<len]. nat ((int k + int offset) mod int len) = j"
proof (cases "k < j")
  case True
  then show ?thesis
    using assms by (intro bexI [of _ "j - k"]) (auto simp: of_nat_diff)
next
  case False
  then have "(int k + int (len + j - k)) mod int len = (int j + int len) mod int len"
    using assms by (intro arg_cong2 [where f = "(mod)"]) auto
  also have "\<dots> = int j" using assms by simp
  finally have "nat ((int k + int (len + j - k)) mod int len) = j" by simp
  moreover have "len + j - k \<in> set [1..<len]" using assms False by auto
  ultimately show ?thesis by (rule bexI)
qed

text \<open>The witness of a validation is a registered app that is a different relying party: not
  the target itself, with another OAuth client and another origin. One is found whenever the
  catalog has such an app.\<close>

theorem validation_witness_is_another_party:
  assumes ids: "distinct (map app_id as)" and target: "target \<in> set as"
  shows "(\<forall>w. validationWitness E target as = Some w \<longrightarrow> w \<in> set as \<and> witness_suits E target w) \<and>
     (validationWitness E target as = None \<longrightarrow> (\<forall>c \<in> set as. \<not> witness_suits E target c))"
proof (intro conjI allI impI ballI notI)
  fix w assume "validationWitness E target as = Some w"
  then obtain offset where offset: "offset \<in> set [1..<length as]"
    and w: "w = as ! nat ((index_of (app_id target) as 0 + int offset) mod int (length as))"
    and suits: "witness_suits E target w"
    by (auto simp: validationWitness_def Let_def dest!: find_SomeD)
  have "nat ((index_of (app_id target) as 0 + int offset) mod int (length as)) < length as"
    using offset by (subst nat_less_iff) (auto intro!: pos_mod_bound pos_mod_sign)
  with w suits show "w \<in> set as" "witness_suits E target w" by auto
next
  fix c assume none: "validationWitness E target as = None" and c: "c \<in> set as"
    and suits: "witness_suits E target c"
  obtain k where k: "k < length as" "index_of (app_id target) as 0 = int k"
    "app_id (as ! k) = app_id target"
    using index_of_found [of "app_id target" as 0] target by auto
  obtain j where j: "j < length as" "as ! j = c" using c by (auto simp: in_set_conv_nth)
  have "j \<noteq> k" using suits k(3) j by (auto simp: witness_suits_def)
  from rotation_reaches [OF k(1) j(1) this] obtain offset where
    "offset \<in> set [1..<length as]" "nat ((int k + int offset) mod int (length as)) = j" by blast
  with none suits j(2) k(2) show False
    by (auto simp: validationWitness_def Let_def dest: find_NoneD)
qed

theorem validation_witness_is_another_party_witness:
  "validationWitness example_env (example_app ''wiki'') [example_app ''shop'', example_app ''wiki''] =
     Some (example_app ''shop'') \<and>
   witness_suits example_env (example_app ''wiki'') (example_app ''shop'')"
proof -
  have found: "validationWitness example_env (example_app ''wiki'')
      [example_app ''shop'', example_app ''wiki''] = Some (example_app ''shop'')"
    by code_simp
  with validation_witness_is_another_party [of "[example_app ''shop'', example_app ''wiki'']"
      "example_app ''wiki''" example_env]
  show ?thesis by (simp add: example_app_def)
qed

end
