(* ===== verification/App_Validation.thy ===== *)
theory App_Validation
  imports Managed_Apps
begin

text \<open>
  Scheduling browser validations of the registered apps, and the catalog operations that schedule
  them (\<open>internal/identity/store.go\<close>): \<open>enqueueAppValidation\<close> and its callers,
  \<open>CreateManagedApp\<close>, \<open>ReconcileBootstrapManagedApp\<close>, \<open>ReconcileManagedAppOIDCContract\<close>,
  \<open>DeleteManagedApp\<close>, \<open>EnqueueAppValidations\<close>, and the result listings. The queue invariant
  \<open>queue_ok\<close> says what the workers rely on: at most three running checks, every app in at most one
  role of them, and one validation account checked out for each. The theory \<open>Validation_Queue\<close>
  has the worker's side.
\<close>

definition appValidationConcurrencyLimit :: nat where "appValidationConcurrencyLimit = 3"

fun direction_text :: "direction \<Rightarrow> string" where
  "direction_text FromShauth = ''from_shauth''"
| "direction_text FromApp = ''from_app''"

definition witness_of :: "app_row \<Rightarrow> witness" where
  "witness_of v = \<lparr>w_app = app_id v, w_slug = app_slug v, w_name = app_name v, w_client = app_client v,
     w_launch_url = app_launch_url v, w_validation_url = app_validation_url v,
     w_signed_out_url = app_signed_out_url v, w_revision = app_revision v\<rparr>"

text \<open>\<open>created_at\<close> is not among the columns read.\<close>

definition catalog :: "env \<Rightarrow> db \<Rightarrow> app_row list" where
  "catalog E s = sort_by (\<lambda>x y. text_le E (app_slug x) (app_slug y)) (map (\<lambda>a. a\<lparr>app_created := 0\<rparr>) (apps s))"

definition loadManagedAppsForValidation :: "env \<Rightarrow> app_row list store" where
  "loadManagedAppsForValidation E = query E ''lock managed app validation contracts'' (catalog E)"

subsection \<open>Enqueuing\<close>

text \<open>Deleting runs: \<open>users.validation_run_id\<close> is declared \<open>ON DELETE SET NULL\<close>.\<close>

definition delete_runs :: "(run_row \<Rightarrow> bool) \<Rightarrow> db \<Rightarrow> db" where
  "delete_runs P s = s\<lparr>runs := filter (\<lambda>r. \<not> P r) (runs s),
     users := upd (\<lambda>u. list_ex (\<lambda>r. P r \<and> u_validation_run u = Some (r_id r)) (runs s))
       (\<lambda>u. u\<lparr>u_validation_run := None\<rparr>) (users s)\<rparr>"

definition superseded :: "string \<Rightarrow> direction \<Rightarrow> string \<Rightarrow> run_row \<Rightarrow> bool" where
  "superseded app d h r \<longleftrightarrow> r_app r = app \<and> r_direction r = d \<and> r_status r = Queued \<and> r_contract r \<noteq> h"

definition queued_run ::
  "string \<Rightarrow> app_row \<Rightarrow> app_row option \<Rightarrow> string \<Rightarrow> direction \<Rightarrow> string option \<Rightarrow> time \<Rightarrow> run_row" where
  "queued_run i a w h d requester now = \<lparr>r_id = i, r_app = app_id a, r_slug = app_slug a,
     r_name = app_name a, r_client = app_client a, r_launch_url = app_launch_url a,
     r_validation_url = app_validation_url a, r_signed_out_url = app_signed_out_url a,
     r_direction = d, r_revision = app_revision a, r_contract = h, r_witness = map_option witness_of w,
     r_status = Queued, r_requested_by = requester, r_requested = now, r_started = None,
     r_completed = None, r_lease = None, r_duration_ms = None, r_failure = []\<rparr>"

text \<open>\<open>ON CONFLICT (managed_app_id, direction, validation_contract_hash) WHERE status IN (\<dots>) DO
  NOTHING\<close>.\<close>

definition insert_run :: "run_row \<Rightarrow> db \<Rightarrow> pg_code + unit \<times> db" where
  "insert_run new s = (if list_ex (\<lambda>r. run_pending r \<and> run_key r = run_key new) (runs s)
     then Inr ((), s) else put_runs (runs s @ [new]) () s)"

definition requester_arg :: "env \<Rightarrow> string \<Rightarrow> string option \<Rightarrow> string option store" where
  "requester_arg E l requestedBy = (case requestedBy of None \<Rightarrow> retS None
     | Some u \<Rightarrow> bindS (uuid_arg E l u) (\<lambda>v. retS (Some v)))"

text \<open>The body of the loop over the two directions; \<open>i\<close> counts the identifiers drawn so far.\<close>

definition enqueue_direction ::
  "env \<Rightarrow> nat \<Rightarrow> app_row \<Rightarrow> app_row option \<Rightarrow> string option \<Rightarrow> time \<Rightarrow> direction \<Rightarrow> unit store" where
  "enqueue_direction E i a w requestedBy now d =
     (let h = managedAppValidationContractHash E a w;
          l = ''enqueue '' @ direction_text d @ '' application validation'' in
      bindS (stmt E (''remove superseded '' @ direction_text d @ '' application validation'')
        (\<lambda>s. Inr ((), delete_runs (superseded (app_id a) d h) s))) (\<lambda>_.
      bindS (requester_arg E l requestedBy) (\<lambda>requester.
      stmt E l (insert_run (queued_run (randomUUID E i) a w h d requester now)))))"

definition enqueueAppValidation ::
  "env \<Rightarrow> nat \<Rightarrow> app_row \<Rightarrow> app_row option \<Rightarrow> string option \<Rightarrow> time \<Rightarrow> unit store" where
  "enqueueAppValidation E i a w requestedBy now =
     bindS (enqueue_direction E i a w requestedBy now FromShauth) (\<lambda>_.
     enqueue_direction E (Suc i) a w requestedBy now FromApp)"

definition enqueue_each ::
  "env \<Rightarrow> nat \<Rightarrow> app_row list \<Rightarrow> app_row list \<Rightarrow> string option \<Rightarrow> time \<Rightarrow> unit store" where
  "enqueue_each E i all targets requestedBy now =
     forS (\<lambda>(j, a). enqueueAppValidation E (i + 2 * j) a (validationWitness E a all) requestedBy now)
       (enumerate 0 targets)"

definition enqueueAllAppValidations :: "env \<Rightarrow> nat \<Rightarrow> string option \<Rightarrow> time \<Rightarrow> unit store" where
  "enqueueAllAppValidations E i requestedBy now =
     bindS (loadManagedAppsForValidation E) (\<lambda>all. enqueue_each E i all all requestedBy now)"

record ManagedAppRef =
  ref_ID :: string
  ref_Slug :: string

definition matches :: "ManagedAppRef \<Rightarrow> app_row \<Rightarrow> bool" where
  "matches ref a \<longleftrightarrow> (if ref_ID ref \<noteq> [] then app_id a = ref_ID ref else app_slug a = ref_Slug ref)"

definition All_refs :: "ManagedAppRef \<Rightarrow> bool" where
  "All_refs ref \<longleftrightarrow> ref_ID ref = [] \<and> ref_Slug ref = []"

definition EnqueueAppValidations :: "env \<Rightarrow> ManagedAppRef \<Rightarrow> string \<Rightarrow> time \<Rightarrow> string list store" where
  "EnqueueAppValidations E ref requestedBy now = tx E ''enqueue application validations''
     (bindS (loadManagedAppsForValidation E) (\<lambda>all.
      let targets = filter (\<lambda>a. All_refs ref \<or> matches ref a) all in
      bindS (enqueue_each E 0 all targets (nullable requestedBy) now) (\<lambda>_.
      if targets = [] \<and> \<not> All_refs ref then failS ErrManagedAppNotFound
      else retS (map app_slug targets))))"

subsection \<open>Catalog changes\<close>

definition CreateManagedApp :: "env \<Rightarrow> app_row \<Rightarrow> app_row store" where
  "CreateManagedApp E a0 = (let a = normalizeManagedApp a0 in
     case ValidateManagedApp E a of Some e \<Rightarrow> failS e | None \<Rightarrow>
     tx E ''create managed app''
      (bindS (classified (stmt E ''create managed app'' (\<lambda>s.
         let row = a\<lparr>app_id := randomUUID E 0, app_created := db_now E\<rparr>
         in put_apps (apps s @ [row]) row s))) (\<lambda>row.
       bindS (enqueueAllAppValidations E 1 None (go_now E)) (\<lambda>_. retS row))))"

text \<open>\<open>INSERT \<dots> ON CONFLICT (slug) DO UPDATE \<dots> WHERE oidc_client_id = EXCLUDED.oidc_client_id
  RETURNING\<close>: no row comes back when the slug belongs to another client.\<close>

definition upsert_app :: "env \<Rightarrow> app_row \<Rightarrow> db \<Rightarrow> pg_code + app_row option \<times> db" where
  "upsert_app E a s = (case find (\<lambda>x. app_slug x = app_slug a) (apps s) of
       None \<Rightarrow> (let row = a\<lparr>app_id := randomUUID E 0, app_created := db_now E\<rparr>
                in put_apps (apps s @ [row]) (Some row) s)
     | Some x \<Rightarrow>
         if app_client x \<noteq> app_client a then Inr (None, s)
         else (let row = a\<lparr>app_id := app_id x, app_created := app_created x\<rparr>
               in put_apps (upd (\<lambda>y. app_slug y = app_slug a) (\<lambda>_. row) (apps s)) (Some row) s))"

definition ReconcileBootstrapManagedApp :: "env \<Rightarrow> app_row \<Rightarrow> app_row store" where
  "ReconcileBootstrapManagedApp E a0 = (let a = normalizeManagedApp a0 in
     case ValidateManagedApp E a of Some e \<Rightarrow> failS e | None \<Rightarrow>
     tx E ''reconcile bootstrap managed app''
      (bindS (query E ''read bootstrap managed app revision'' (\<lambda>s.
         find (\<lambda>x. app_slug x = app_slug a) (apps s))) (\<lambda>previous.
       bindS (stmt E ''reconcile bootstrap managed app'' (upsert_app E a)) (\<lambda>r.
       case r of None \<Rightarrow> failS (Failed ''managed app slug belongs to another OpenID Connect client'')
       | Some row \<Rightarrow>
         bindS (if (case previous of None \<Rightarrow> True | Some p \<Rightarrow> \<not> sameManagedAppValidationContract p row)
           then enqueueAllAppValidations E 1 None (go_now E) else retS ()) (\<lambda>_. retS row)))))"

definition ReconcileManagedAppOIDCContract :: "env \<Rightarrow> string \<Rightarrow> string \<Rightarrow> unit store" where
  "ReconcileManagedAppOIDCContract E appID contractHash =
     (if \<not> oidcContractHashPattern contractHash
      then failS (Failed ''managed app OIDC registration contract hash is invalid'')
      else tx E ''managed app OIDC registration reconciliation''
        (bindS (loadManagedAppsForValidation E) (\<lambda>all.
         let previous = (case find (\<lambda>a. app_id a = appID) all of None \<Rightarrow> [] | Some a \<Rightarrow> app_contract_hash a) in
         if previous = [] then failS (Failed ''managed app not found'')
         else if previous = contractHash then retS ()
         else bindS (uuid_arg E ''update managed app OIDC registration contract'' appID) (\<lambda>u.
           bindS (stmt E ''update managed app OIDC registration contract'' (\<lambda>s.
             put_apps (upd (\<lambda>a. app_id a = u) (\<lambda>a. a\<lparr>app_contract_hash := contractHash\<rparr>) (apps s)) () s)) (\<lambda>_.
           enqueueAllAppValidations E 0 None (go_now E))))))"

text \<open>\<open>DELETE FROM managed_apps\<close> cascades to the app's validation runs.\<close>

definition delete_app :: "string \<Rightarrow> db \<Rightarrow> db" where
  "delete_app slug s =
     (let gone = (\<lambda>i. list_ex (\<lambda>a. app_slug a = slug \<and> app_id a = i) (apps s))
      in (delete_runs (\<lambda>r. gone (r_app r)) s)\<lparr>apps := filter (\<lambda>a. app_slug a \<noteq> slug) (apps s)\<rparr>)"

definition find_app :: "env \<Rightarrow> ManagedAppRef \<Rightarrow> app_row option store" where
  "find_app E ref = (if ref_ID ref \<noteq> [] then
       bindS (uuid_arg E ''find managed app'' (ref_ID ref)) (\<lambda>u.
         query E ''find managed app'' (\<lambda>s. find (\<lambda>a. app_id a = u) (apps s)))
     else query E ''find managed app'' (\<lambda>s. find (\<lambda>a. app_slug a = ref_Slug ref) (apps s)))"

definition DeleteManagedApp :: "env \<Rightarrow> ManagedAppRef \<Rightarrow> string list \<Rightarrow> string store" where
  "DeleteManagedApp E ref deploymentOwnedSlugs =
     (if All_refs ref then failS (invalidInput ''a managed app identifier or slug is required'')
      else tx E ''delete managed app''
        (bindS (find_app E ref) (\<lambda>r. case r of None \<Rightarrow> failS ErrManagedAppNotFound | Some a \<Rightarrow>
         bindS (guardS (app_slug a \<notin> set deploymentOwnedSlugs) ErrManagedAppDeploymentOwned) (\<lambda>_.
         bindS (stmt E ''delete managed app'' (\<lambda>s. Inr ((), delete_app (app_slug a) s))) (\<lambda>_.
         bindS (enqueueAllAppValidations E 0 None (go_now E)) (\<lambda>_.
         retS (app_slug a)))))))"

subsection \<open>Results\<close>

text \<open>\<open>ORDER BY requested_at DESC, id DESC\<close>; identifiers compare as their canonical texts.\<close>

definition newest_first :: "run_row list \<Rightarrow> run_row list" where
  "newest_first rs = sort_by (\<lambda>x y. r_requested y < r_requested x \<or>
     r_requested y = r_requested x \<and> r_id y \<le> r_id x) rs"

text \<open>The columns \<open>scanAppValidationRun\<close> reads.\<close>

definition scanAppValidationRun :: "run_row \<Rightarrow> run_row" where
  "scanAppValidationRun r = r\<lparr>r_lease := None, r_requested_by := None\<rparr>"

definition latest_run :: "string \<Rightarrow> direction \<Rightarrow> run_row list \<Rightarrow> run_row option" where
  "latest_run app d rs = (case newest_first (filter (\<lambda>r. r_app r = app \<and> r_direction r = d) rs) of
     [] \<Rightarrow> None | r # _ \<Rightarrow> Some (scanAppValidationRun r))"

definition LatestAppValidationRuns :: "env \<Rightarrow> (string \<Rightarrow> direction \<Rightarrow> run_row option) store" where
  "LatestAppValidationRuns E = query E ''list application validation results'' (\<lambda>s app d. latest_run app d (runs s))"

definition LatestAppValidationRunsForApp :: "env \<Rightarrow> string \<Rightarrow> (direction \<Rightarrow> run_row option) store" where
  "LatestAppValidationRunsForApp E appID =
     bindS (uuid_arg E ''list application validation results'' appID) (\<lambda>u.
     query E ''list application validation results'' (\<lambda>s d. latest_run u d (runs s)))"

definition AppValidationRunHistory :: "env \<Rightarrow> string \<Rightarrow> int \<Rightarrow> run_row list store" where
  "AppValidationRunHistory E slug limit = stmt E ''list application validation history'' (\<lambda>s.
     if limit < 0 then Inl InvalidRowCount
     else Inr (map scanAppValidationRun (take (nat limit)
       (newest_first (filter (\<lambda>r. slug = [] \<or> r_slug r = slug) (runs s)))), s))"

subsection \<open>The queue invariant\<close>

definition running :: "db \<Rightarrow> run_row list" where
  "running s = filter (\<lambda>r. r_status r = Running) (runs s)"

text \<open>The apps a run occupies: its target and its witness.\<close>

definition roles :: "run_row \<Rightarrow> string list" where
  "roles r = r_app r # (case r_witness r of None \<Rightarrow> [] | Some w \<Rightarrow> [w_app w])"

definition queue_ok :: "db \<Rightarrow> bool" where
  "queue_ok s \<longleftrightarrow> length (running s) \<le> appValidationConcurrencyLimit \<and>
     distinct (concat (map roles (running s))) \<and>
     (\<forall>u \<in> set (users s). \<forall>i. u_validation_run u = Some i \<longrightarrow>
        u_is_validation u \<and> i \<in> r_id ` set (running s)) \<and>
     (\<forall>r \<in> set (running s). \<exists>u \<in> set (users s). u_validation_run u = Some (r_id r))"

definition keeps_queue :: "db \<Rightarrow> db \<Rightarrow> bool" where
  "keeps_queue s s' \<longleftrightarrow> (schema_ok s \<and> queue_ok s \<longrightarrow> schema_ok s' \<and> queue_ok s')"

interpretation qk: contract keeps_queue
  by unfold_locales (auto simp: keeps_queue_def)

text \<open>Which account is checked out for which run.\<close>

definition pool :: "user_row list \<Rightarrow> (bool \<times> string) set" where
  "pool us = {(u_is_validation u, i) |u i. u \<in> set us \<and> u_validation_run u = Some i}"

definition same_pool :: "db \<Rightarrow> db \<Rightarrow> bool" where
  "same_pool s s' \<longleftrightarrow> runs s' = runs s \<and> pool (users s') = pool (users s)"

interpretation pk: contract same_pool
  by unfold_locales (auto simp: same_pool_def)

lemma queue_ok_pool: "queue_ok s \<longleftrightarrow> length (running s) \<le> appValidationConcurrencyLimit \<and>
     distinct (concat (map roles (running s))) \<and>
     (\<forall>(v, i) \<in> pool (users s). v \<and> i \<in> r_id ` set (running s)) \<and>
     (\<forall>r \<in> set (running s). \<exists>v. (v, r_id r) \<in> pool (users s))"
  unfolding queue_ok_def pool_def by (simp only: mem_Collect_eq prod.case Ball_def Bex_def) blast

lemma same_pool_keeps: "same_pool s s' \<Longrightarrow> keeps_schema s s' \<Longrightarrow> keeps_queue s s'"
  by (simp add: same_pool_def keeps_queue_def keeps_schema_def queue_ok_pool running_def)

lemma same_pool_obeys: "obeys same_pool m \<Longrightarrow> obeys keeps_schema m \<Longrightarrow> obeys keeps_queue m"
  by (simp add: obeys_def same_pool_keeps)

subsection \<open>Deleting and inserting runs\<close>

lemma distinct_somes_upd:
  assumes "distinct (somes (map f xs))" "\<And>x. f (g x) = None \<or> f (g x) = f x"
  shows "distinct (somes (map f (upd P g xs)))"
  using assms(1)
proof (induction xs)
  case (Cons x xs)
  have keep: "f x = Some y" if "Some y = f (if P x then g x else x)" for x y
    using assms(2) [of x] that by (auto split: if_splits)
  have sub: "set (somes (map f (upd P g xs))) \<subseteq> set (somes (map f xs))"
    unfolding set_somes upd_def list.set_map image_image
    by (intro subsetI CollectI, elim CollectE imageE) (rule image_eqI, erule keep [symmetric], assumption)
  have IH: "distinct (somes (map f (upd P g xs)))"
    using Cons by (cases "f x") auto
  show ?case
  proof (cases "P x \<and> f (g x) = None")
    case True
    with IH show ?thesis by simp
  next
    case False
    then have eq: "f (if P x then g x else x) = f x" using assms(2) [of x] by auto
    show ?thesis
    proof (cases "f x")
      case None
      with eq IH show ?thesis by simp
    next
      case (Some y)
      with Cons.prems have "y \<notin> set (somes (map f xs))" by simp
      with sub have "y \<notin> set (somes (map f (upd P g xs)))" by blast
      with Some eq IH show ?thesis by simp
    qed
  qed
qed simp

lemma entra_key_released [simp]: "entra_key (u\<lparr>u_validation_run := x\<rparr>) = entra_key u"
  by (simp add: entra_key_def)

text \<open>Releasing accounts breaks no constraint.\<close>

lemma release_unique:
  "users_unique us \<Longrightarrow> users_unique (upd P (\<lambda>u. u\<lparr>u_validation_run := None\<rparr>) us)"
  by (simp add: users_unique_def distinct_somes_upd)

lemma release_check:
  "users_check us \<Longrightarrow> users_check (upd P (\<lambda>u. u\<lparr>u_validation_run := x\<rparr>) us)"
  by (auto simp: users_check_def list_all_iff in_upd)

lemma runs_unique_filter: "runs_unique rs \<Longrightarrow> runs_unique (filter P rs)"
  by (auto simp: runs_unique_def distinct_map_filter filter_filter conj_commute
      intro: distinct_map_filter [of run_key "filter run_pending rs" P, simplified filter_filter])

lemma delete_runs_users:
  "u_id ` set (users (delete_runs P s)) = u_id ` set (users s)"
  "map u_id (users (delete_runs P s)) = map u_id (users s)"
  by (simp_all add: delete_runs_def)

lemma delete_runs_frame [simp]:
  "sessions (delete_runs P s) = sessions s" "hydra_logins (delete_runs P s) = hydra_logins s"
  "grants (delete_runs P s) = grants s" "invitations (delete_runs P s) = invitations s"
  "mappings (delete_runs P s) = mappings s" "apps (delete_runs P s) = apps s"
  "policy (delete_runs P s) = policy s" "bootstraps (delete_runs P s) = bootstraps s"
  "runs (delete_runs P s) = filter (\<lambda>r. \<not> P r) (runs s)"
  by (simp_all add: delete_runs_def)

lemma delete_runs_schema: "keeps_schema s (delete_runs P s)"
  unfolding keeps_schema_def
proof
  assume ok: "schema_ok s"
  have "users_unique (users (delete_runs P s))" "users_check (users (delete_runs P s))"
    using ok by (simp_all add: schema_ok_def delete_runs_def release_unique release_check)
  with ok show "schema_ok (delete_runs P s)"
    by (auto simp: schema_ok_def delete_runs_users(1) runs_unique_filter list_all_iff)
qed

lemma distinct_concat_filter:
  "distinct (concat (map f xs)) \<Longrightarrow> distinct (concat (map f (filter P xs)))"
  by (induction xs) auto

lemma running_delete: "running (delete_runs P s) = filter (\<lambda>r. \<not> P r) (running s)"
  by (simp add: running_def delete_runs_def filter_filter conj_commute)

lemma run_unique:
  "schema_ok s \<Longrightarrow> r \<in> set (runs s) \<Longrightarrow> r' \<in> set (runs s) \<Longrightarrow> r_id r = r_id r' \<Longrightarrow> r = r'"
  unfolding schema_ok_def runs_unique_def by (metis distinct_map_inj_onD)

lemma in_running: "r \<in> set (running s) \<longleftrightarrow> r \<in> set (runs s) \<and> r_status r = Running"
  by (auto simp: running_def)

text \<open>Which checkouts survive the deletion of runs.\<close>

lemma pool_Cons [simp]: "pool (u # us) =
    (case u_validation_run u of None \<Rightarrow> pool us | Some i \<Rightarrow> insert (u_is_validation u, i) (pool us))"
  by (auto simp: pool_def split: option.splits)

lemma pool_Nil [simp]: "pool [] = {}"
  by (simp add: pool_def)

lemma pool_release:
  "pool (upd (\<lambda>u. Q (u_validation_run u)) (\<lambda>u. u\<lparr>u_validation_run := None\<rparr>) us) =
     {(v, i) \<in> pool us. \<not> Q (Some i)}"
  by (induction us) (auto split: option.splits)

lemma pool_delete:
  "pool (users (delete_runs P s)) = {(v, i) \<in> pool (users s). \<forall>r \<in> set (runs s). P r \<longrightarrow> r_id r \<noteq> i}"
  by (auto simp: delete_runs_def list_ex_iff
      pool_release [where Q = "\<lambda>z. \<exists>r \<in> set (runs s). P r \<and> z = Some (r_id r)"])

text \<open>Taking some runs out of the running set and releasing exactly their accounts keeps the
  queue invariant.\<close>

lemma queue_drop:
  assumes ok: "schema_ok s" and q: "queue_ok s"
    and run: "running s' = filter (\<lambda>r. \<not> P r) (running s)"
    and R: "set (running s) \<subseteq> R" "R \<subseteq> set (runs s)"
    and pool: "pool (users s') = {(v, i) \<in> pool (users s). \<forall>r \<in> R. P r \<longrightarrow> r_id r \<noteq> i}"
  shows "queue_ok s'"
proof -
  have len: "length (running s') \<le> appValidationConcurrencyLimit"
    unfolding run using q by (intro order_trans [OF length_filter_le]) (simp add: queue_ok_pool)
  have refs: "v \<and> i \<in> r_id ` set (running s')" if "(v, i) \<in> pool (users s')" for v i
  proof -
    from that have "(v, i) \<in> pool (users s)" and live: "\<forall>r \<in> R. P r \<longrightarrow> r_id r \<noteq> i"
      by (auto simp: pool)
    then obtain r where "v" "r \<in> set (running s)" "r_id r = i" using q by (auto simp: queue_ok_pool)
    with live R(1) show ?thesis by (auto simp: run)
  qed
  have held: "\<exists>v. (v, r_id r) \<in> pool (users s')" if "r \<in> set (running s')" for r
  proof -
    from that have r: "r \<in> set (running s)" "\<not> P r" by (auto simp: run)
    then obtain v where "(v, r_id r) \<in> pool (users s)" using q by (auto simp: queue_ok_pool)
    moreover have "\<forall>x \<in> R. P x \<longrightarrow> r_id x \<noteq> r_id r"
      using r run_unique [OF ok, of _ r] R by (auto simp: in_running)
    ultimately show ?thesis by (auto simp: pool)
  qed
  show ?thesis using len refs held q by (auto simp: queue_ok_pool run distinct_concat_filter)
qed

lemma delete_runs_queue: "keeps_queue s (delete_runs P s)"
  unfolding keeps_queue_def
proof (intro impI conjI)
  assume "schema_ok s \<and> queue_ok s"
  then have ok: "schema_ok s" and q: "queue_ok s" by auto
  show "schema_ok (delete_runs P s)" using ok delete_runs_schema by (simp add: keeps_schema_def)
  show "queue_ok (delete_runs P s)"
    by (rule queue_drop [OF ok q running_delete _ order_refl pool_delete]) (auto simp: running_def)
qed

lemma insert_run_schema: "insert_run new s = Inr (x, s') \<Longrightarrow> keeps_schema s s'"
  by (auto simp: insert_run_def sk.R_refl split: if_splits elim: put_runs_schema)

lemma insert_run_queue:
  assumes "insert_run new s = Inr (x, s')" "r_status new = Queued"
  shows "keeps_queue s s'"
proof -
  have "running s' = running s" "users s' = users s"
    using assms by (auto simp: insert_run_def put_Inr running_def split: if_splits)
  with insert_run_schema [OF assms(1)] show ?thesis
    by (simp add: keeps_queue_def keeps_schema_def queue_ok_pool)
qed

lemma queued_run_simps [simp]:
  "r_status (queued_run i a w h d q t) = Queued" "r_app (queued_run i a w h d q t) = app_id a"
  "r_direction (queued_run i a w h d q t) = d" "r_contract (queued_run i a w h d q t) = h"
  "r_id (queued_run i a w h d q t) = i" "r_requested_by (queued_run i a w h d q t) = q"
  by (simp_all add: queued_run_def)

subsection \<open>Every operation keeps the schema and the queue invariant\<close>

lemma delete_stmt_queue: "obeys keeps_queue (stmt E l (\<lambda>s. Inr ((), delete_runs P s)))"
  by (rule qk.keeps_stmt) (auto intro: delete_runs_queue)

lemma insert_stmt_queue: "r_status new = Queued \<Longrightarrow> obeys keeps_queue (stmt E l (insert_run new))"
  by (rule qk.keeps_stmt) (rule insert_run_queue)

lemma requester_arg_state [simp]: "snd (requester_arg E l q s) = s"
  by (cases q) (auto simp: requester_arg_def io_defs split: option.splits)

lemma load_state [simp]: "snd (loadManagedAppsForValidation E s) = s"
  by (simp add: loadManagedAppsForValidation_def)

lemma find_app_state [simp]: "snd (find_app E ref s) = s"
  by (simp add: find_app_def bindS_def split: prod.splits sum.splits)
    (metis query_state uuid_arg_state snd_conv)

lemmas reads_queue = requester_arg_state [THEN qk.keeps_readonly] load_state [THEN qk.keeps_readonly]
  find_app_state [THEN qk.keeps_readonly]

lemma enqueue_each_queue: "obeys keeps_queue (enqueue_each E i all targets q now)"
  unfolding enqueue_each_def enqueueAppValidation_def enqueue_direction_def
  by (intro qk.keeps delete_stmt_queue insert_stmt_queue reads_queue queued_run_simps)

lemma enqueue_all_queue: "obeys keeps_queue (enqueueAllAppValidations E i q now)"
  unfolding enqueueAllAppValidations_def by (intro qk.keeps reads_queue enqueue_each_queue)

lemma EnqueueAppValidations_queue: "obeys keeps_queue (EnqueueAppValidations E ref q now)"
  unfolding EnqueueAppValidations_def by (intro qk.keeps reads_queue enqueue_each_queue)

text \<open>Writes to the catalog that drop no app leave the queue alone.\<close>

lemma put_apps_queue:
  assumes "put_apps xs x s = Inr (y, s')" "app_id ` set (apps s) \<subseteq> app_id ` set xs"
  shows "keeps_queue s s'"
  using put_apps_schema [OF assms] assms(1)
  by (intro same_pool_keeps) (auto simp: put_Inr same_pool_def)

lemma replaced_ids:
  assumes "apps_unique as" "x \<in> set as" "app_slug x = app_slug a"
  shows "app_id ` set as \<subseteq> app_id ` set (upd (\<lambda>y. app_slug y = app_slug a)
     (\<lambda>_. a\<lparr>app_id := app_id x, app_created := app_created x\<rparr>) as)"
proof
  fix i assume "i \<in> app_id ` set as"
  then obtain y where y: "y \<in> set as" "i = app_id y" by auto
  have "y = x" if "app_slug y = app_slug a"
    using assms that y unfolding apps_unique_def by (metis distinct_map_inj_onD)
  with y have "i = app_id (if app_slug y = app_slug a
      then a\<lparr>app_id := app_id x, app_created := app_created x\<rparr> else y)" by simp
  moreover have "(if app_slug y = app_slug a
      then a\<lparr>app_id := app_id x, app_created := app_created x\<rparr> else y) \<in> set (upd (\<lambda>y. app_slug y = app_slug a)
     (\<lambda>_. a\<lparr>app_id := app_id x, app_created := app_created x\<rparr>) as)"
    unfolding in_upd using y(1) by blast
  ultimately show "i \<in> app_id ` set (upd (\<lambda>y. app_slug y = app_slug a)
     (\<lambda>_. a\<lparr>app_id := app_id x, app_created := app_created x\<rparr>) as)"
    by (rule image_eqI)
qed

lemma upsert_app_queue: "upsert_app E a s = Inr (r, s') \<Longrightarrow> keeps_queue s s'"
proof -
  assume up: "upsert_app E a s = Inr (r, s')"
  show "keeps_queue s s'"
  proof (cases "schema_ok s")
    case False
    then show ?thesis by (simp add: keeps_queue_def)
  next
    case True
    then have uniq: "apps_unique (apps s)" by (simp add: schema_ok_def)
    show ?thesis
    proof (cases "find (\<lambda>x. app_slug x = app_slug a) (apps s)")
      case None
      with up show ?thesis by (auto simp: upsert_app_def Let_def intro: put_apps_queue)
    next
      case (Some x)
      with uniq have "app_id ` set (apps s) \<subseteq> app_id ` set (upd (\<lambda>y. app_slug y = app_slug a)
          (\<lambda>_. a\<lparr>app_id := app_id x, app_created := app_created x\<rparr>) (apps s))"
        by (intro replaced_ids) (auto dest: find_SomeD)
      with Some up show ?thesis
        by (auto simp: upsert_app_def Let_def qk.R_refl split: if_splits intro: put_apps_queue)
    qed
  qed
qed

lemma delete_app_queue: "keeps_queue s (delete_app slug s)"
proof -
  let ?P = "\<lambda>r. list_ex (\<lambda>a. app_slug a = slug \<and> app_id a = r_app r) (apps s)"
  let ?t = "delete_runs ?P s"
  have 1: "keeps_queue s ?t" by (rule delete_runs_queue)
  have 2: "keeps_queue ?t (?t\<lparr>apps := filter (\<lambda>a. app_slug a \<noteq> slug) (apps s)\<rparr>)"
  proof (rule same_pool_keeps)
    show "keeps_schema ?t (?t\<lparr>apps := filter (\<lambda>a. app_slug a \<noteq> slug) (apps s)\<rparr>)"
      unfolding keeps_schema_def
    proof
      assume ok: "schema_ok ?t"
      have "r_app ` set (runs ?t) \<subseteq> app_id ` set (filter (\<lambda>a. app_slug a \<noteq> slug) (apps s))"
      proof
        fix i assume i: "i \<in> r_app ` set (runs ?t)"
        with ok have "i \<in> app_id ` set (apps s)" unfolding schema_ok_def by auto
        moreover have "\<not> list_ex (\<lambda>a. app_slug a = slug \<and> app_id a = i) (apps s)" using i by auto
        ultimately show "i \<in> app_id ` set (filter (\<lambda>a. app_slug a \<noteq> slug) (apps s))"
          by (auto simp: list_ex_iff)
      qed
      moreover have "apps_unique (filter (\<lambda>a. app_slug a \<noteq> slug) (apps s))"
        using ok by (simp add: schema_ok_def apps_unique_def distinct_map_filter)
      ultimately show "schema_ok (?t\<lparr>apps := filter (\<lambda>a. app_slug a \<noteq> slug) (apps s)\<rparr>)"
        using ok by (simp add: schema_ok_def)
    qed
  qed (simp add: same_pool_def)
  show ?thesis using qk.R_trans [OF 1 2] by (simp add: delete_app_def Let_def)
qed

lemma CreateManagedApp_queue: "obeys keeps_queue (CreateManagedApp E a)"
  unfolding CreateManagedApp_def
  by (intro qk.keeps enqueue_all_queue qk.keeps_stmt) (auto simp: Let_def intro: put_apps_queue)

lemma ReconcileBootstrapManagedApp_queue: "obeys keeps_queue (ReconcileBootstrapManagedApp E a)"
  unfolding ReconcileBootstrapManagedApp_def
  by (intro qk.keeps enqueue_all_queue qk.keeps_stmt) (rule upsert_app_queue)

lemma ReconcileManagedAppOIDCContract_queue: "obeys keeps_queue (ReconcileManagedAppOIDCContract E i h)"
  unfolding ReconcileManagedAppOIDCContract_def
  by (intro qk.keeps reads_queue enqueue_all_queue qk.keeps_stmt)
    (auto simp: image_upd intro: put_apps_queue)

lemma DeleteManagedApp_queue: "obeys keeps_queue (DeleteManagedApp E ref owned)"
  unfolding DeleteManagedApp_def
  by (intro qk.keeps reads_queue enqueue_all_queue qk.keeps_stmt) (auto intro: delete_app_queue)

subsection \<open>What enqueuing achieves\<close>

text \<open>One direction of an app is settled on a contract: a check of it is pending and no check of
  another contract is queued.\<close>

definition settled :: "string \<Rightarrow> direction \<Rightarrow> string \<Rightarrow> run_row list \<Rightarrow> bool" where
  "settled app d h rs \<longleftrightarrow> (\<exists>r \<in> set rs. run_pending r \<and> run_key r = (app, d, h)) \<and>
     (\<forall>r \<in> set rs. r_app r = app \<longrightarrow> r_direction r = d \<longrightarrow> r_status r = Queued \<longrightarrow> r_contract r = h)"

definition contract_of :: "env \<Rightarrow> app_row list \<Rightarrow> app_row \<Rightarrow> string" where
  "contract_of E all a = managedAppValidationContractHash E a (validationWitness E a all)"

text \<open>The runs of other apps or directions.\<close>

definition elsewhere :: "string \<Rightarrow> direction \<Rightarrow> run_row list \<Rightarrow> run_row list" where
  "elsewhere app d rs = filter (\<lambda>r. \<not> (r_app r = app \<and> r_direction r = d)) rs"

lemma requester_arg_Inr: "requester_arg E l q s = (Inr r, s') \<Longrightarrow> s' = s"
  by (metis requester_arg_state snd_conv)

lemma enqueue_direction_result:
  assumes "enqueue_direction E i a w q now d s = (Inr x, s')"
  shows "settled (app_id a) d (managedAppValidationContractHash E a w) (runs s') \<and>
    elsewhere (app_id a) d (runs s') = elsewhere (app_id a) d (runs s) \<and>
    running s' = running s \<and> apps s' = apps s"
proof -
  let ?h = "managedAppValidationContractHash E a w"
  let ?t = "delete_runs (superseded (app_id a) d ?h) s"
  from assms obtain r where ins: "insert_run (queued_run (randomUUID E i) a w ?h d r now) ?t = Inr ((), s')"
    unfolding enqueue_direction_def Let_def by (auto simp: io_Inr dest!: requester_arg_Inr)
  have t: "elsewhere (app_id a) d (runs ?t) = elsewhere (app_id a) d (runs s)" "running ?t = running s"
    "\<forall>r \<in> set (runs ?t). r_app r = app_id a \<longrightarrow> r_direction r = d \<longrightarrow> r_status r = Queued \<longrightarrow> r_contract r = ?h"
    by (auto simp: elsewhere_def running_def superseded_def intro!: filter_cong)
  let ?new = "queued_run (randomUUID E i) a w ?h d r now"
  consider "s' = ?t" "\<exists>r \<in> set (runs ?t). run_pending r \<and> run_key r = run_key ?new"
    | "s' = ?t\<lparr>runs := runs ?t @ [?new]\<rparr>"
    using ins unfolding insert_run_def put_Inr by (auto simp: list_ex_iff put_Inr split: if_splits)
  then show ?thesis
  proof cases
    case 1
    with t show ?thesis by (simp add: settled_def run_key_def)
  next
    case 2
    with t show ?thesis
      by (auto simp: settled_def run_key_def run_pending_def elsewhere_def running_def)
  qed
qed

lemma settled_elsewhere:
  assumes "elsewhere app d rs' = elsewhere app d rs" "(app', d') \<noteq> (app, d)"
  shows "settled app' d' h rs' = settled app' d' h rs"
proof -
  have "r \<in> set rs' \<longleftrightarrow> r \<in> set rs" if "r_app r = app' \<and> r_direction r = d'" for r
  proof -
    have "r \<in> set (elsewhere app d rs') \<longleftrightarrow> r \<in> set (elsewhere app d rs)" using assms(1) by simp
    with that assms(2) show ?thesis by (auto simp: elsewhere_def)
  qed
  then show ?thesis by (auto simp: settled_def run_key_def)
qed

text \<open>The runs of one app.\<close>

definition of_app :: "string \<Rightarrow> run_row list \<Rightarrow> run_row list" where
  "of_app app rs = filter (\<lambda>r. r_app r = app) rs"

lemma of_app_elsewhere:
  assumes "elsewhere app d rs' = elsewhere app d rs" "app' \<noteq> app"
  shows "of_app app' rs' = of_app app' rs"
proof -
  have "of_app app' rs = of_app app' (elsewhere app d rs)" for rs
    using assms(2) by (auto simp: of_app_def elsewhere_def intro!: filter_cong)
  with assms(1) show ?thesis by metis
qed

lemma enqueueAppValidation_result:
  assumes "enqueueAppValidation E i a w q now s = (Inr x, s')"
  shows "(\<forall>d. settled (app_id a) d (managedAppValidationContractHash E a w) (runs s')) \<and>
    (\<forall>app'. app' \<noteq> app_id a \<longrightarrow> of_app app' (runs s') = of_app app' (runs s)) \<and>
    running s' = running s \<and> apps s' = apps s"
proof -
  from assms obtain t where 1: "enqueue_direction E i a w q now FromShauth s = (Inr (), t)"
    and 2: "enqueue_direction E (Suc i) a w q now FromApp t = (Inr x, s')"
    by (auto simp: enqueueAppValidation_def io_Inr)
  note r = enqueue_direction_result [OF 1] enqueue_direction_result [OF 2]
  have "settled (app_id a) FromShauth (managedAppValidationContractHash E a w) (runs s')"
    using r settled_elsewhere [of "app_id a" FromApp "runs s'" "runs t" "app_id a" FromShauth] by simp
  then have "settled (app_id a) d (managedAppValidationContractHash E a w) (runs s')" for d
    using r by (cases d) simp_all
  moreover have "of_app app' (runs s') = of_app app' (runs s)" if "app' \<noteq> app_id a" for app'
    using r that of_app_elsewhere by metis
  ultimately show ?thesis using r by simp
qed

lemma settled_of_app: "of_app app rs' = of_app app rs \<Longrightarrow> settled app d h rs' = settled app d h rs"
proof -
  assume eq: "of_app app rs' = of_app app rs"
  have "r \<in> set rs' \<longleftrightarrow> r \<in> set rs" if "r_app r = app" for r
    using arg_cong [OF eq, of set] that by (auto simp: of_app_def)
  then show ?thesis by (auto simp: settled_def run_key_def)
qed

lemma enqueue_loop_result:
  assumes "forS (\<lambda>(j, a). enqueueAppValidation E (i + 2 * j) a (validationWitness E a all) q now)
      (enumerate n targets) s = (Inr x, s')"
    and "distinct (map app_id targets)"
  shows "(\<forall>a \<in> set targets. \<forall>d. settled (app_id a) d (contract_of E all a) (runs s')) \<and>
    (\<forall>app'. app' \<notin> app_id ` set targets \<longrightarrow> of_app app' (runs s') = of_app app' (runs s)) \<and>
    running s' = running s \<and> apps s' = apps s"
  using assms
proof (induction targets arbitrary: n s)
  case Nil
  then show ?case by (simp add: io_Inr)
next
  case (Cons a targets)
  from Cons.prems(1) obtain t where
    1: "enqueueAppValidation E (i + 2 * n) a (validationWitness E a all) q now s = (Inr (), t)"
    and 2: "forS (\<lambda>(j, a). enqueueAppValidation E (i + 2 * j) a (validationWitness E a all) q now)
      (enumerate (Suc n) targets) t = (Inr x, s')"
    by (auto simp: io_Inr)
  note first = enqueueAppValidation_result [OF 1]
  note rest = Cons.IH [OF 2]
  have a: "of_app (app_id a) (runs s') = of_app (app_id a) (runs t)"
    using Cons.prems(2) rest by auto
  show ?case using Cons.prems(2) first rest settled_of_app [OF a] by (auto simp: contract_of_def)
qed

lemma load_Inr: "loadManagedAppsForValidation E s = (Inr all, s') \<Longrightarrow> all = catalog E s \<and> s' = s"
  by (simp add: loadManagedAppsForValidation_def io_Inr)

lemma catalog_ids: "schema_ok s \<Longrightarrow> distinct (map app_id (catalog E s))"
proof -
  assume "schema_ok s"
  then have "distinct (map app_id (apps s))" by (simp add: schema_ok_def apps_unique_def)
  then have "distinct (apps s)" "inj_on app_id (set (apps s))" by (simp_all add: distinct_map)
  then have "distinct (map (\<lambda>a. a\<lparr>app_created := 0\<rparr>) (apps s))"
    "inj_on app_id ((\<lambda>a. a\<lparr>app_created := 0\<rparr>) ` set (apps s))"
    by (auto simp: distinct_map inj_on_def) (metis app_row.select_convs(1) app_row.surjective app_row.update_convs(13))
  then show ?thesis unfolding catalog_def by (subst distinct_map) simp
qed

lemma settled_unique:
  assumes "schema_ok s" "settled app d h (runs s)"
  shows "\<exists>!r. r \<in> set (runs s) \<and> run_pending r \<and> run_key r = (app, d, h)"
proof -
  have "distinct (map run_key (filter run_pending (runs s)))"
    using assms(1) by (simp add: schema_ok_def runs_unique_def)
  then have "inj_on run_key {r \<in> set (runs s). run_pending r}" by (simp add: distinct_map)
  with assms(2) show ?thesis by (auto simp: settled_def inj_on_def)
qed

text \<open>C24. Enqueuing the validation of an app leaves exactly one pending check per direction for its
  current contract (the app and its present witness), whether or not one was pending before, and no
  queued check of an outdated contract. Checks that are running, and the checks of apps that were not
  asked for, are left alone; the slugs reported are those of the apps asked for.\<close>

theorem enqueue_settles:
  assumes run: "EnqueueAppValidations E ref requestedBy now s = (Inr slugs, s')" and ok: "schema_ok s"
    and q: "queue_ok s"
  shows "let targets = filter (\<lambda>a. All_refs ref \<or> matches ref a) (catalog E s) in
     slugs = map app_slug targets \<and> running s' = running s \<and>
     (\<forall>a \<in> set targets. \<forall>d.
        (\<exists>!r. r \<in> set (runs s') \<and> run_pending r \<and> run_key r = (app_id a, d, contract_of E (catalog E s) a)) \<and>
        (\<forall>r \<in> set (runs s'). r_app r = app_id a \<and> r_direction r = d \<and> r_status r = Queued \<longrightarrow>
           r_contract r = contract_of E (catalog E s) a)) \<and>
     (\<forall>app'. app' \<notin> app_id ` set targets \<longrightarrow> of_app app' (runs s') = of_app app' (runs s))"
proof -
  define targets where "targets = filter (\<lambda>a. All_refs ref \<or> matches ref a) (catalog E s)"
  from run have slugs: "slugs = map app_slug targets"
    and loop: "forS (\<lambda>(j, a). enqueueAppValidation E (0 + 2 * j) a (validationWitness E a (catalog E s))
        (nullable requestedBy) now) (enumerate 0 targets) s = (Inr (), s')"
    unfolding EnqueueAppValidations_def enqueue_each_def targets_def
    by (auto simp: io_Inr Let_def dest!: load_Inr)
  have "distinct (map app_id targets)"
    using catalog_ids [OF ok, of E] by (simp add: targets_def distinct_map_filter)
  note result = enqueue_loop_result [OF loop this]
  have "schema_ok s'"
    using obeysD [OF EnqueueAppValidations_queue run] ok q by (simp add: keeps_queue_def)
  with result slugs settled_unique show ?thesis
    unfolding Let_def targets_def [symmetric] by (auto simp: settled_def)
qed

definition example_queue_env :: env where
  "example_queue_env = example_env\<lparr>uuid_bytes := \<lambda>i. replicate 16 (of_nat i)\<rparr>"

definition example_catalog_db :: db where
  "example_catalog_db = example_db\<lparr>apps := [example_app ''wiki'']\<rparr>"

lemma example_catalog_ok: "schema_ok example_catalog_db \<and> queue_ok example_catalog_db"
  using example_db_ok
  by (simp add: example_catalog_db_def schema_ok_def queue_ok_def running_def apps_unique_def
      example_app_def example_db_def example_user_def)

lemma example_catalog: "catalog example_queue_env example_catalog_db = [example_app ''wiki'']"
  by code_simp

lemma example_no_witness: "validationWitness example_queue_env (example_app ''wiki'') [example_app ''wiki''] = None"
  by code_simp

lemma example_queue_uuids: "randomUUID example_queue_env 0 \<noteq> randomUUID example_queue_env (Suc 0)"
  by code_simp

lemma example_queue_env_simps [simp]: "fault example_queue_env l = False"
  by (simp add: example_queue_env_def)

lemma example_catalog_tables:
  "apps example_catalog_db = [example_app ''wiki'']" "runs example_catalog_db = []"
  by (simp_all add: example_catalog_db_def example_db_def)

lemma example_app_keys: "app_id (example_app i) = i" "app_slug (example_app i) = i"
  by (simp_all add: example_app_def)

lemma delete_runs_none: "\<forall>r \<in> set (runs s). \<not> P r \<Longrightarrow> delete_runs P s = s"
  unfolding delete_runs_def by (subst upd_none) (auto simp: list_ex_iff)

lemma enqueue_settles_example:
  "fst (EnqueueAppValidations example_queue_env \<lparr>ref_ID = [], ref_Slug = ''wiki''\<rparr> [] 7 example_catalog_db)
     = Inr [''wiki'']"
  using example_queue_uuids
  by (simp add: EnqueueAppValidations_def loadManagedAppsForValidation_def example_catalog io_defs
      All_refs_def matches_def Let_def enqueue_each_def enqueueAppValidation_def enqueue_direction_def
      example_no_witness nullable_def requester_arg_def delete_runs_none superseded_def insert_run_def
      put_defs run_check_def run_key_def run_pending_def runs_unique_def requester_exists_def
      example_catalog_tables example_app_keys queued_run_def)

theorem enqueue_settles_witness:
  "fst (EnqueueAppValidations example_queue_env \<lparr>ref_ID = [], ref_Slug = ''wiki''\<rparr> [] 7 example_catalog_db)
     = Inr [''wiki''] \<and>
   running (snd (EnqueueAppValidations example_queue_env \<lparr>ref_ID = [], ref_Slug = ''wiki''\<rparr> [] 7
     example_catalog_db)) = []"
proof -
  let ?run = "EnqueueAppValidations example_queue_env \<lparr>ref_ID = [], ref_Slug = ''wiki''\<rparr> [] 7 example_catalog_db"
  have "?run = (Inr [''wiki''], snd ?run)" using enqueue_settles_example by (metis prod.collapse)
  from enqueue_settles [OF this] have "running (snd ?run) = running example_catalog_db"
    using example_catalog_ok by (simp add: Let_def)
  then show ?thesis
    using enqueue_settles_example by (simp add: running_def example_catalog_db_def example_db_def)
qed

end
