(* ===== verification/Validation_Queue.thy ===== *)
theory Validation_Queue
  imports App_Validation
begin

text \<open>
  The validation worker's side of the queue (\<open>internal/identity/store.go\<close>): claiming and leasing a
  check with a validation account of its own (\<open>ClaimAppValidation\<close>), recording its result
  (\<open>CompleteAppValidation\<close>), reaping abandoned leases (\<open>ExpireAbandonedAppValidation\<close>), the
  account pool (\<open>EnsureValidationUsers\<close>) and the single-use browser sign-ins of a check
  (\<open>CreateValidationBrowserBootstraps\<close>, \<open>ConsumeValidationBrowserBootstrap\<close>).
\<close>

definition appValidationLeaseDuration :: duration where
  "appValidationLeaseDuration = 30 * minute"

definition validationBrowserBootstrapLifetime :: duration where
  "validationBrowserBootstrapLifetime = 10 * minute"

text \<open>\<open>GREATEST(0, EXTRACT(EPOCH FROM (now - started_at)) * 1000)::bigint\<close>: the conversion rounds
  to the nearest millisecond, and \<open>GREATEST\<close> ignores a null difference.\<close>

definition duration_milliseconds :: "time \<Rightarrow> time option \<Rightarrow> int" where
  "duration_milliseconds now started = (case started of None \<Rightarrow> 0
     | Some t \<Rightarrow> (max 0 (now - t) + 500000) div 1000000)"

definition finished :: "run_status \<Rightarrow> time \<Rightarrow> string \<Rightarrow> run_row \<Rightarrow> run_row" where
  "finished st now failure r = r\<lparr>r_status := st, r_completed := Some now, r_lease := None,
     r_duration_ms := Some (duration_milliseconds now (r_started r)), r_failure := failure\<rparr>"

definition lease_expired :: "time \<Rightarrow> run_row \<Rightarrow> bool" where
  "lease_expired now r \<longleftrightarrow> r_status r = Running \<and>
     (case r_lease r of None \<Rightarrow> False | Some t \<Rightarrow> t < now)"

text \<open>\<open>UPDATE users SET validation_run_id=NULL WHERE validation_run_id = ANY(ids)\<close>.\<close>

definition release :: "string list \<Rightarrow> user_row list \<Rightarrow> user_row list" where
  "release ids us = upd (\<lambda>u. list_ex (\<lambda>i. u_validation_run u = Some i) ids)
     (\<lambda>u. u\<lparr>u_validation_run := None\<rparr>) us"

text \<open>The first two statements of \<open>ClaimAppValidation\<close>, which are also the body of
  \<open>ExpireAbandonedAppValidation\<close>.\<close>

definition reap :: "env \<Rightarrow> time \<Rightarrow> unit store" where
  "reap E now =
     bindS (stmt E ''expire abandoned application validations'' (\<lambda>s.
       put_runs (upd (lease_expired now) (finished RunFailed now ''validator lease expired'') (runs s))
         (map r_id (filter (lease_expired now) (runs s))) s)) (\<lambda>expired.
     if expired = [] then retS ()
     else stmt E ''release validation identities for expired application validations'' (\<lambda>s.
       put_users (release expired (users s)) () s))"

definition ExpireAbandonedAppValidation :: "env \<Rightarrow> time \<Rightarrow> unit store" where
  "ExpireAbandonedAppValidation E now = tx E ''expire application validation'' (reap E now)"

subsection \<open>Claiming\<close>

definition busy_apps :: "db \<Rightarrow> string list" where
  "busy_apps s = concat (map roles (running s))"

definition eligible :: "db \<Rightarrow> run_row \<Rightarrow> bool" where
  "eligible s r \<longleftrightarrow> r_status r = Queued \<and> r_app r \<notin> set (busy_apps s) \<and>
     (case r_witness r of None \<Rightarrow> True | Some w \<Rightarrow> w_app w \<notin> set (busy_apps s))"

definition earlier :: "run_row \<Rightarrow> run_row \<Rightarrow> bool" where
  "earlier x y \<longleftrightarrow> r_requested x < r_requested y \<or> r_requested x = r_requested y \<and> r_id x \<le> r_id y"

text \<open>\<open>ORDER BY requested_at, id LIMIT 1 FOR UPDATE SKIP LOCKED\<close>.\<close>

definition next_run :: "env \<Rightarrow> db \<Rightarrow> run_row option" where
  "next_run E s = (case sort_by earlier (filter (\<lambda>r. eligible s r \<and> \<not> locked E (r_id r)) (runs s)) of
     [] \<Rightarrow> None | r # _ \<Rightarrow> Some r)"

definition free_identity :: "env \<Rightarrow> user_row \<Rightarrow> bool" where
  "free_identity E u \<longleftrightarrow> u_is_validation u \<and> u_validation_run u = None \<and> \<not> locked E (u_id u)"

text \<open>The claimed run as the method returns it: the columns it does not read are zero.\<close>

record ClaimedRun =
  claimed :: run_row
  ValidationUsername :: string
  ValidationEmail :: string

definition claimed_view :: "time \<Rightarrow> run_row \<Rightarrow> run_row" where
  "claimed_view now r = r\<lparr>r_contract := [], r_status := Running, r_requested_by := None,
     r_started := Some now, r_completed := None, r_lease := None, r_duration_ms := None, r_failure := []\<rparr>"

definition check_out :: "env \<Rightarrow> time \<Rightarrow> run_row \<Rightarrow> ClaimedRun option store" where
  "check_out E now run =
     bindS (query E ''claim validation identity'' (\<lambda>s. pick E (filter (free_identity E) (users s)))) (\<lambda>found.
     case found of None \<Rightarrow> failS (Failed ''no validation identity available despite capacity for a new run'')
     | Some u \<Rightarrow>
       bindS (stmt E ''check out validation identity'' (\<lambda>s.
         put_users (upd (\<lambda>v. u_id v = u_id u) (\<lambda>v. v\<lparr>u_validation_run := Some (r_id run)\<rparr>) (users s)) () s)) (\<lambda>_.
       bindS (stmt E ''lease application validation'' (\<lambda>s.
         put_runs (upd (\<lambda>r. r_id r = r_id run) (\<lambda>r. r\<lparr>r_status := Running, r_started := Some now,
           r_lease := Some (now + appValidationLeaseDuration)\<rparr>) (runs s)) () s)) (\<lambda>_.
       retS (Some \<lparr>claimed = claimed_view now run, ValidationUsername = u_username u,
         ValidationEmail = u_email u\<rparr>))))"

definition ClaimAppValidation :: "env \<Rightarrow> time \<Rightarrow> ClaimedRun option store" where
  "ClaimAppValidation E now = tx E ''claim application validation''
     (bindS (query E ''lock application validation queue'' (\<lambda>s. ())) (\<lambda>_.
      bindS (reap E now) (\<lambda>_.
      bindS (query E ''count running application validations'' (\<lambda>s. length (running s))) (\<lambda>runningCount.
      if runningCount \<ge> appValidationConcurrencyLimit then retS None
      else bindS (query E ''select application validation'' (next_run E)) (\<lambda>r.
        case r of None \<Rightarrow> retS None | Some run \<Rightarrow> check_out E now run)))))"

subsection \<open>Completing\<close>

definition CompleteAppValidation :: "env \<Rightarrow> string \<Rightarrow> string \<Rightarrow> string \<Rightarrow> time \<Rightarrow> unit store" where
  "CompleteAppValidation E runID status failure now =
     (if status \<noteq> ''passed'' \<and> status \<noteq> ''failed''
      then failS (Failed ''application validation result must be passed or failed'')
      else let st = (if status = ''passed'' then Passed else RunFailed);
               text = TrimSpace (truncateUTF8 failure 1000) in
        tx E ''complete application validation''
          (bindS (uuid_arg E ''complete application validation'' runID) (\<lambda>i.
           bindS (stmt E ''complete application validation'' (\<lambda>s.
             put_runs (upd (\<lambda>r. r_id r = i \<and> r_status r = Running) (finished st now text) (runs s))
               (length (filter (\<lambda>r. r_id r = i \<and> r_status r = Running) (runs s))) s)) (\<lambda>affected.
           if affected \<noteq> 1 then failS (Failed ''active application validation not found'')
           else stmt E ''release validation identity'' (\<lambda>s. put_users (release [i] (users s)) () s)))))"

subsection \<open>The account pool\<close>

definition slot_username :: "string \<Rightarrow> nat \<Rightarrow> string" where
  "slot_username username slot = username @ ''-'' @ decimal slot"

definition slot_email :: "string \<Rightarrow> nat \<Rightarrow> nat \<Rightarrow> string" where
  "slot_email email atSign slot = take atSign email @ ''+'' @ decimal slot @ drop atSign email"

definition validation_account :: "string \<Rightarrow> string \<Rightarrow> string \<Rightarrow> time \<Rightarrow> user_row" where
  "validation_account i name email now = \<lparr>u_id = i, u_username = name, u_email = email,
     u_email_verified = True, u_password_hash = None, u_github_id = None, u_github_login = None,
     u_entra_tenant = None, u_entra_object = None, u_role = ''developer'', u_created = now,
     u_disabled = None, u_is_validation = True, u_validation_run = None\<rparr>"

definition reset_account :: "string \<Rightarrow> user_row \<Rightarrow> user_row" where
  "reset_account email u = u\<lparr>u_email := email, u_password_hash := None, u_github_id := None,
     u_github_login := None, u_entra_tenant := None, u_entra_object := None, u_email_verified := True,
     u_role := ''developer'', u_disabled := None\<rparr>"

text \<open>One slot of the pool; \<open>i\<close> counts the identifiers drawn so far. \<open>UPDATE \<dots> RETURNING\<close> reads
  the updated row back.\<close>

definition ensure_slot :: "env \<Rightarrow> nat \<Rightarrow> string \<Rightarrow> string \<Rightarrow> (bool \<times> User) store" where
  "ensure_slot E i name email =
     bindS (query E ''find validation identity'' (\<lambda>s.
       find (\<lambda>u. u_username u = name \<and> u_is_validation u) (users s))) (\<lambda>existing.
     case existing of
       None \<Rightarrow> stmt E ''ensure validation identity'' (\<lambda>s.
         let u = validation_account (randomUUID E i) name email (db_now E)
         in put_users (users s @ [u]) (True, scan_user u) s)
     | Some x \<Rightarrow> stmt E ''ensure validation identity'' (\<lambda>s.
         put_users (upd (\<lambda>u. u_id u = u_id x \<and> u_is_validation u) (reset_account email) (users s))
           (False, scan_user (reset_account email x)) s))"

fun ensure_slots :: "env \<Rightarrow> nat \<Rightarrow> string \<Rightarrow> string \<Rightarrow> nat \<Rightarrow> nat list \<Rightarrow> User list store" where
  "ensure_slots E i username email atSign [] = retS []"
| "ensure_slots E i username email atSign (slot # slots) =
     bindS (ensure_slot E i (slot_username username slot) (slot_email email atSign slot)) (\<lambda>(drawn, user).
     bindS (ensure_slots E (if drawn then Suc i else i) username email atSign slots) (\<lambda>rest.
     retS (user # rest)))"

text \<open>\<open>for slot := 1; slot <= appValidationConcurrencyLimit; slot++\<close>.\<close>

definition pool_slots :: "nat list" where
  "pool_slots = [1..<Suc appValidationConcurrencyLimit]"

definition EnsureValidationUsers :: "env \<Rightarrow> string \<Rightarrow> string \<Rightarrow> User list store" where
  "EnsureValidationUsers E username0 email0 =
     (if username0 = [] \<and> email0 = [] then retS []
      else let username = TrimSpace username0; email = ToLower E (TrimSpace email0);
               atSign = last_index CHR ''@'' email in
        if username = [] \<or> email = [] then failS (Failed ''validation username and email are required'')
        else if atSign < 1 then failS (Failed ''validation email is invalid'')
        else tx E ''validation user provisioning''
          (bindS (query E ''lock validation user provisioning'' (\<lambda>s. ())) (\<lambda>_.
           ensure_slots E 0 username email (nat atSign) pool_slots)))"

subsection \<open>Browser sign-ins of a check\<close>

fun insert_bootstraps :: "env \<Rightarrow> nat \<Rightarrow> string \<Rightarrow> time \<Rightarrow> string list \<Rightarrow> string list store" where
  "insert_bootstraps E i user created [] = retS []"
| "insert_bootstraps E i user created (path # paths) =
     bindS (randomToken E i) (\<lambda>raw.
     bindS (stmt E ''create validation browser bootstrap'' (\<lambda>s.
       put_bootstraps (bootstraps s @ [\<lparr>b_id = randomUUID E i, b_token_hash = sha256 E raw, b_user = user,
         b_next_path = path, b_created = created, b_expires = created + validationBrowserBootstrapLifetime,
         b_consumed = None\<rparr>]) () s)) (\<lambda>_.
     bindS (insert_bootstraps E (Suc i) user created paths) (\<lambda>raws. retS (raw # raws))))"

definition runs_identity :: "string \<Rightarrow> user_row \<Rightarrow> bool" where
  "runs_identity i u \<longleftrightarrow> u_is_validation u \<and> u_disabled u = None \<and> u_role u = ''developer'' \<and>
     u_validation_run u = Some i"

definition stale_bootstrap :: "time \<Rightarrow> bootstrap_row \<Rightarrow> bool" where
  "stale_bootstrap now b \<longleftrightarrow> b_expires b < now \<or>
     (case b_consumed b of None \<Rightarrow> False | Some t \<Rightarrow> t < now - 24 * hour)"

definition CreateValidationBrowserBootstraps :: "env \<Rightarrow> string \<Rightarrow> string list \<Rightarrow> time \<Rightarrow> string list store" where
  "CreateValidationBrowserBootstraps E runID nextPaths now =
     (if length nextPaths = 0 \<or> length nextPaths > 3
      then failS (Failed ''one to three validation browser bootstraps are required'')
      else tx E ''validation browser bootstrap creation''
        (bindS (uuid_arg E ''find validation identity for run'' runID) (\<lambda>i.
         bindS (query E ''find validation identity for run'' (\<lambda>s. find (runs_identity i) (users s))) (\<lambda>found.
         case found of None \<Rightarrow> failS (NoRows ''find validation identity for run'')
         | Some u \<Rightarrow>
           bindS (stmt E ''remove expired validation browser bootstraps'' (\<lambda>s.
             Inr ((), s\<lparr>bootstraps := filter (\<lambda>b. \<not> stale_bootstrap now b) (bootstraps s)\<rparr>))) (\<lambda>_.
           insert_bootstraps E 0 (u_id u) now nextPaths)))))"

definition bootstrap_usable :: "env \<Rightarrow> string \<Rightarrow> time \<Rightarrow> db \<Rightarrow> bootstrap_row \<Rightarrow> bool" where
  "bootstrap_usable E raw now s b \<longleftrightarrow> b_token_hash b = sha256 E raw \<and> b_consumed b = None \<and>
     now < b_expires b \<and> list_ex (\<lambda>u. u_id u = b_user b \<and> u_is_validation u \<and> u_disabled u = None \<and>
       u_role u = ''developer'') (users s)"

text \<open>\<open>UPDATE \<dots> FROM users \<dots> RETURNING\<close>: no row is updated when none qualifies.\<close>

definition ConsumeValidationBrowserBootstrap :: "env \<Rightarrow> string \<Rightarrow> time \<Rightarrow> (User \<times> string) store" where
  "ConsumeValidationBrowserBootstrap E raw now =
     (if \<not> browserBootstrapTokenPattern raw then failS (Failed ''validation browser bootstrap is unavailable'')
      else bindS (stmt E ''consume validation browser bootstrap'' (\<lambda>s.
          case find (bootstrap_usable E raw now s) (bootstraps s) of None \<Rightarrow> Inr (None, s)
          | Some b \<Rightarrow> (case find (\<lambda>u. u_id u = b_user b) (users s) of None \<Rightarrow> Inr (None, s)
            | Some u \<Rightarrow> put_bootstraps (upd (bootstrap_usable E raw now s) (\<lambda>x. x\<lparr>b_consumed := Some now\<rparr>)
                (bootstraps s)) (Some (scan_user u, b_next_path b)) s))) (\<lambda>r.
        case r of None \<Rightarrow> failS (Failed ''validation browser bootstrap is unavailable'')
        | Some x \<Rightarrow> retS x))"

subsection \<open>Reaping keeps the queue invariant\<close>

lemma finished_simps [simp]:
  "r_id (finished st now f r) = r_id r" "r_app (finished st now f r) = r_app r"
  "r_status (finished st now f r) = st" "r_requested_by (finished st now f r) = r_requested_by r"
  "r_witness (finished st now f r) = r_witness r" "r_direction (finished st now f r) = r_direction r"
  "r_contract (finished st now f r) = r_contract r" "r_failure (finished st now f r) = f"
  "r_started (finished st now f r) = r_started r" "r_completed (finished st now f r) = Some now" "r_lease (finished st now f r) = None"
  by (simp_all add: finished_def)

lemma running_finish:
  assumes "st \<noteq> Running" "\<And>r. P r \<Longrightarrow> r_status r = Running"
  shows "running (s\<lparr>runs := upd P (finished st now f) (runs s), users := us\<rparr>) =
    filter (\<lambda>r. \<not> P r) (running s)"
proof -
  have "filter (\<lambda>r. r_status r = Running) (upd P (finished st now f) rs) =
      filter (\<lambda>r. \<not> P r) (filter (\<lambda>r. r_status r = Running) rs)" for rs
    using assms by (induction rs) auto
  then show ?thesis by (simp add: running_def)
qed

lemma pool_released: "pool (release ids us) = {(v, i) \<in> pool us. i \<notin> set ids}"
  unfolding release_def by (subst pool_release) (auto simp: list_ex_iff)

lemma release_Nil: "release [] us = us"
  by (simp add: release_def upd_none)

lemma release_ids [simp]: "u_id ` set (release ids us) = u_id ` set us"
  by (simp add: release_def)

text \<open>What a successful reaping did.\<close>

lemma reap_Inr: "reap E now s = (Inr x, s') \<Longrightarrow>
    s' = s\<lparr>runs := upd (lease_expired now) (finished RunFailed now ''validator lease expired'') (runs s),
      users := release (map r_id (filter (lease_expired now) (runs s))) (users s)\<rparr> \<and> keeps_schema s s'"
proof -
  assume run: "reap E now s = (Inr x, s')"
  let ?ids = "map r_id (filter (lease_expired now) (runs s))"
  let ?rs = "upd (lease_expired now) (finished RunFailed now ''validator lease expired'') (runs s)"
  from run obtain t where 1: "put_runs ?rs ?ids s = Inr (?ids, t)"
    and 2: "(if ?ids = [] then s' = t else put_users (release ?ids (users t)) () t = Inr ((), s'))"
    unfolding reap_def by (auto simp: io_Inr put_Inr)
  have t: "t = s\<lparr>runs := ?rs\<rparr>" using 1 by (simp add: put_Inr)
  have keeps: "keeps_schema t s'"
    using 2 by (auto simp: sk.R_refl split: if_splits elim!: put_users_schema)
  show ?thesis
  proof (cases "?ids = []")
    case True
    with 2 t put_runs_schema [OF 1] show ?thesis by (simp add: release_Nil)
  next
    case False
    with 2 t sk.R_trans [OF put_runs_schema [OF 1] keeps] show ?thesis by (simp add: put_Inr)
  qed
qed

lemma reap_queue: "reap E now s = (Inr x, s') \<Longrightarrow> keeps_queue s s'"
  unfolding keeps_queue_def
proof (intro impI conjI)
  assume run: "reap E now s = (Inr x, s')" and "schema_ok s \<and> queue_ok s"
  then have ok: "schema_ok s" and q: "queue_ok s" by auto
  note s' = reap_Inr [OF run]
  show "schema_ok s'" using conjunct2 [OF s'] ok by (simp add: keeps_schema_def)
  show "queue_ok s'"
  proof (rule queue_drop [OF ok q _ _ order_refl])
    show "running s' = filter (\<lambda>r. \<not> lease_expired now r) (running s)"
      unfolding conjunct1 [OF s'] by (rule running_finish) (auto simp: lease_expired_def)
  qed (use s' in \<open>auto simp: running_def pool_released\<close>)
qed

lemma ExpireAbandonedAppValidation_queue: "obeys keeps_queue (ExpireAbandonedAppValidation E now)"
  unfolding ExpireAbandonedAppValidation_def by (rule qk.keeps_tx_committed) (rule reap_queue)

subsection \<open>Completing keeps the queue invariant\<close>

definition active :: "string \<Rightarrow> run_row \<Rightarrow> bool" where
  "active i r \<longleftrightarrow> r_id r = i \<and> r_status r = Running"

text \<open>What a successful completion did.\<close>

lemma CompleteAppValidation_Inr:
  assumes "CompleteAppValidation E runID status failure now s = (Inr x, s')"
  shows "\<exists>i. uuid_in E runID = Some i \<and> (status = ''passed'' \<or> status = ''failed'') \<and>
    length (filter (active i) (runs s)) = 1 \<and>
    s' = s\<lparr>runs := upd (active i) (finished (if status = ''passed'' then Passed else RunFailed) now
        (TrimSpace (truncateUTF8 failure 1000))) (runs s), users := release [i] (users s)\<rparr> \<and> keeps_schema s s'"
proof -
  let ?st = "if status = ''passed'' then Passed else RunFailed"
  let ?text = "TrimSpace (truncateUTF8 failure 1000)"
  from assms obtain i t where i: "uuid_in E runID = Some i" "status = ''passed'' \<or> status = ''failed''"
    and 1: "put_runs (upd (active i) (finished ?st now ?text) (runs s)) (length (filter (active i) (runs s))) s =
      Inr (1, t)" and 2: "put_users (release [i] (users t)) () t = Inr (x, s')"
    unfolding CompleteAppValidation_def Let_def active_def by (auto simp: io_Inr split: if_splits)
  have "keeps_schema t s'" using 2 by (auto elim: put_users_schema)
  with put_runs_schema [OF 1] have "keeps_schema s s'" by (rule sk.R_trans)
  with i 1 2 show ?thesis by (auto simp: put_Inr)
qed

lemma CompleteAppValidation_queue: "obeys keeps_queue (CompleteAppValidation E runID status failure now)"
proof -
  have "keeps_queue s s'" if run: "CompleteAppValidation E runID status failure now s = (Inr x, s')" for s x s'
    unfolding keeps_queue_def
  proof (intro impI conjI)
    assume "schema_ok s \<and> queue_ok s"
    then have ok: "schema_ok s" and q: "queue_ok s" by auto
    obtain i where one: "length (filter (active i) (runs s)) = 1"
      and s': "s' = s\<lparr>runs := upd (active i) (finished (if status = ''passed'' then Passed else RunFailed) now
        (TrimSpace (truncateUTF8 failure 1000))) (runs s), users := release [i] (users s)\<rparr>"
      and keeps: "keeps_schema s s'"
      using CompleteAppValidation_Inr [OF run] by blast
    show "schema_ok s'" using keeps ok by (simp add: keeps_schema_def)
    have "filter (active i) (runs s) \<noteq> []" using one by auto
    then obtain r where r: "r \<in> set (runs s)" "active i r" by (auto simp: filter_empty_conv)
    show "queue_ok s'"
    proof (rule queue_drop [OF ok q _ _ order_refl])
      show "running s' = filter (\<lambda>r. \<not> active i r) (running s)"
        unfolding s' by (rule running_finish) (auto simp: active_def)
    qed (use r in \<open>auto simp: s' running_def pool_released active_def\<close>)
  qed
  moreover have "s' = s" if "CompleteAppValidation E runID status failure now s = (Inl e, s')" for s e s'
    using that by (auto simp: CompleteAppValidation_def Let_def failS_def split: if_splits dest: tx_Inl)
  ultimately show ?thesis
    unfolding obeys_def by (metis prod.collapse qk.R_refl sum.exhaust_sel)
qed

subsection \<open>Claiming keeps the queue invariant\<close>

definition leased :: "time \<Rightarrow> run_row \<Rightarrow> run_row" where
  "leased now r = r\<lparr>r_status := Running, r_started := Some now,
     r_lease := Some (now + appValidationLeaseDuration)\<rparr>"

lemma leased_simps [simp]: "r_id (leased now r) = r_id r" "r_status (leased now r) = Running"
  "roles (leased now r) = roles r" "r_app (leased now r) = r_app r" "run_key (leased now r) = run_key r"
  "r_requested_by (leased now r) = r_requested_by r"
  by (simp_all add: leased_def roles_def run_key_def)

definition after_claim :: "time \<Rightarrow> run_row \<Rightarrow> user_row \<Rightarrow> db \<Rightarrow> db" where
  "after_claim now run u s = s\<lparr>
     users := upd (\<lambda>v. u_id v = u_id u) (\<lambda>v. v\<lparr>u_validation_run := Some (r_id run)\<rparr>) (users s),
     runs := upd (\<lambda>r. r_id r = r_id run) (leased now) (runs s)\<rparr>"

lemma check_out_Inr:
  assumes "check_out E now run s = (Inr x, s')"
  shows "\<exists>u \<in> set (users s). free_identity E u \<and> s' = after_claim now run u s \<and>
    x = Some \<lparr>claimed = claimed_view now run, ValidationUsername = u_username u, ValidationEmail = u_email u\<rparr> \<and>
    keeps_schema s s'"
proof -
  from assms obtain u t where u: "pick E (filter (free_identity E) (users s)) = Some u"
    and 1: "put_users (upd (\<lambda>v. u_id v = u_id u) (\<lambda>v. v\<lparr>u_validation_run := Some (r_id run)\<rparr>) (users s)) () s = Inr ((), t)"
    and 2: "put_runs (upd (\<lambda>r. r_id r = r_id run) (leased now) (runs t)) () t = Inr ((), s')"
    and x: "x = Some \<lparr>claimed = claimed_view now run, ValidationUsername = u_username u, ValidationEmail = u_email u\<rparr>"
    unfolding check_out_def leased_def by (auto simp: io_Inr put_Inr)
  have "keeps_schema s t" using 1 by (auto elim: put_users_schema)
  from sk.R_trans [OF this put_runs_schema [OF 2]] have "keeps_schema s s'" .
  moreover have "s' = after_claim now run u s" using 1 2 by (simp add: put_Inr after_claim_def)
  moreover have "u \<in> set (users s)" "free_identity E u" using pick_SomeD [OF u] by auto
  ultimately show ?thesis using x by blast
qed

lemma next_run_Some: "next_run E s = Some r \<Longrightarrow> r \<in> set (runs s) \<and> eligible s r \<and> \<not> locked E (r_id r)"
  unfolding next_run_def
  by (auto split: list.splits dest!: arg_cong [where f = set])

lemma upd_split:
  assumes "distinct (map k xs)" "x \<in> set xs"
  shows "\<exists>A B. xs = A @ x # B \<and> upd (\<lambda>y. k y = k x) f xs = A @ f x # B"
proof -
  from assms(2) obtain A B where xs: "xs = A @ x # B" by (meson split_list)
  have "upd (\<lambda>y. k y = k x) f A = A" "upd (\<lambda>y. k y = k x) f B = B"
    using assms(1) by (auto simp: xs intro!: upd_none) (metis image_eqI)+
  with xs show ?thesis by (intro exI [of _ A] exI [of _ B]) simp
qed

lemma pool_append [simp]: "pool (us @ vs) = pool us \<union> pool vs"
  by (auto simp: pool_def)

lemma pool_after_claim:
  assumes ok: "schema_ok s" and u: "u \<in> set (users s)" "u_validation_run u = None"
  shows "pool (users (after_claim now run u s)) = insert (u_is_validation u, r_id run) (pool (users s))"
proof -
  have "distinct (map u_id (users s))" using ok by (simp add: schema_ok_def users_unique_def)
  from upd_split [OF this u(1)] obtain A B where "users s = A @ u # B"
    "users (after_claim now run u s) = A @ (u\<lparr>u_validation_run := Some (r_id run)\<rparr>) # B"
    by (force simp: after_claim_def)
  with u(2) show ?thesis by auto
qed

lemma running_after_claim:
  assumes ok: "schema_ok s" and r: "run \<in> set (runs s)" "r_status run = Queued"
  shows "\<exists>A B. running s = A @ B \<and> running (after_claim now run u s) = A @ leased now run # B"
proof -
  have "distinct (map r_id (runs s))" using ok by (simp add: schema_ok_def runs_unique_def)
  from upd_split [OF this r(1), of "leased now"] obtain A B where "runs s = A @ run # B"
    "upd (\<lambda>y. r_id y = r_id run) (leased now) (runs s) = A @ leased now run # B" by blast
  with r(2) show ?thesis
    by (intro exI [of _ "filter (\<lambda>r. r_status r = Running) A"] exI [of _ "filter (\<lambda>r. r_status r = Running) B"])
      (simp add: running_def after_claim_def)
qed

lemma roles_distinct: "run_check r \<Longrightarrow> distinct (roles r)"
  by (auto simp: run_check_def roles_def split: option.splits)

lemma roles_eligible: "eligible s r \<Longrightarrow> set (roles r) \<inter> set (busy_apps s) = {}"
  by (auto simp: eligible_def roles_def split: option.splits)

lemma after_claim_queue:
  assumes ok: "schema_ok s" and q: "queue_ok s" and r: "run \<in> set (runs s)" "eligible s run"
    and room: "length (running s) < appValidationConcurrencyLimit"
    and u: "u \<in> set (users s)" "u_is_validation u" "u_validation_run u = None"
  shows "queue_ok (after_claim now run u s)"
proof -
  have queued: "r_status run = Queued" using r(2) by (simp add: eligible_def)
  from running_after_claim [OF ok r(1) queued] obtain A B where
    AB: "running s = A @ B" "running (after_claim now run u s) = A @ leased now run # B" by blast
  note pool = pool_after_claim [OF ok u(1) u(3), of now run]
  have "distinct (roles run)"
    using ok r(1) by (intro roles_distinct) (simp add: schema_ok_def list_all_iff)
  moreover have "distinct (concat (map roles (A @ B)))" "set (roles run) \<inter> set (concat (map roles (A @ B))) = {}"
    using q roles_eligible [OF r(2)] by (simp_all only: queue_ok_pool busy_apps_def AB(1))
  ultimately have dist: "distinct (concat (map roles (A @ leased now run # B)))" by auto
  have refs: "v \<and> i \<in> r_id ` set (A @ B)" if "(v, i) \<in> pool (users s)" for v i
    using q that unfolding queue_ok_pool AB(1) by blast
  have held: "\<exists>v. (v, r_id x) \<in> pool (users s)" if "x \<in> set (A @ B)" for x
    using q that unfolding queue_ok_pool AB(1) by blast
  have "v \<and> i \<in> r_id ` set (A @ leased now run # B)"
    if "(v, i) \<in> insert (u_is_validation u, r_id run) (pool (users s))" for v i
    using that refs [of v i] u(2) by auto
  moreover have "\<exists>v. (v, r_id x) \<in> insert (u_is_validation u, r_id run) (pool (users s))"
    if "x \<in> set (A @ leased now run # B)" for x
  proof (cases "x = leased now run")
    case True
    then show ?thesis by (intro exI [of _ "u_is_validation u"]) simp
  next
    case False
    with that held [of x] show ?thesis by (metis in_set_conv_decomp insertCI set_ConsD Un_iff set_append)
  qed
  moreover have "length (A @ leased now run # B) \<le> appValidationConcurrencyLimit" using room AB(1) by simp
  ultimately show ?thesis unfolding queue_ok_pool pool AB(2) using dist by (intro conjI) blast+
qed

text \<open>What a successful claim did.\<close>

lemma ClaimAppValidation_Inr:
  assumes "ClaimAppValidation E now s = (Inr x, s')"
  shows "\<exists>t. reap E now s = (Inr (), t) \<and>
    (x = None \<and> s' = t \<and> (appValidationConcurrencyLimit \<le> length (running t) \<or> next_run E t = None) \<or>
     (\<exists>run. length (running t) < appValidationConcurrencyLimit \<and> next_run E t = Some run \<and>
        check_out E now run t = (Inr x, s')))"
  using assms unfolding ClaimAppValidation_def
  by (auto simp: io_Inr not_le split: if_splits option.splits)

lemma check_out_queue:
  assumes "schema_ok t" "queue_ok t" "length (running t) < appValidationConcurrencyLimit"
    "next_run E t = Some run" "check_out E now run t = (Inr x, s')"
  shows "schema_ok s' \<and> queue_ok s'"
proof -
  obtain u where u: "u \<in> set (users t)" "free_identity E u" "s' = after_claim now run u t" "keeps_schema t s'"
    using check_out_Inr [OF assms(5)] by blast
  have "queue_ok s'"
    unfolding u(3) using assms(1-3) next_run_Some [OF assms(4)] u(1,2)
    by (intro after_claim_queue) (auto simp: free_identity_def)
  with u(4) assms(1) show ?thesis by (simp add: keeps_schema_def)
qed

lemma ClaimAppValidation_queue: "obeys keeps_queue (ClaimAppValidation E now)"
proof -
  have "keeps_queue s s'" if run: "ClaimAppValidation E now s = (Inr x, s')" for s x s'
    unfolding keeps_queue_def
  proof
    assume ok: "schema_ok s \<and> queue_ok s"
    obtain t where t: "reap E now s = (Inr (), t)"
      and rest: "s' = t \<or> (\<exists>run. length (running t) < appValidationConcurrencyLimit \<and>
        next_run E t = Some run \<and> check_out E now run t = (Inr x, s'))"
      using ClaimAppValidation_Inr [OF run] by blast
    have "schema_ok t" "queue_ok t" using reap_queue [OF t] ok by (auto simp: keeps_queue_def)
    with rest show "schema_ok s' \<and> queue_ok s'" using check_out_queue by blast
  qed
  moreover have "s' = s" if "ClaimAppValidation E now s = (Inl e, s')" for s e s'
    using that unfolding ClaimAppValidation_def by (rule tx_Inl)
  ultimately show ?thesis
    unfolding obeys_def by (metis prod.collapse qk.R_refl sum.exhaust_sel)
qed

subsection \<open>Claims make progress\<close>

lemma pending_finish:
  assumes "st \<noteq> Queued" "st \<noteq> Running"
  shows "filter run_pending (upd P (finished st now f) rs) = filter (\<lambda>r. \<not> P r) (filter run_pending rs)"
  using assms by (induction rs) (auto simp: run_pending_def)

lemma finish_unique:
  assumes "st \<noteq> Queued" "st \<noteq> Running" "runs_unique rs"
  shows "runs_unique (upd P (finished st now f) rs)"
proof -
  have "distinct (map run_key (filter (\<lambda>r. \<not> P r) (filter run_pending rs)))"
    using assms(3) by - (rule distinct_map_filter, simp add: runs_unique_def)
  moreover have "distinct (map r_id (upd P (finished st now f) rs))"
    using assms(3) by (simp add: runs_unique_def)
  ultimately show ?thesis unfolding runs_unique_def pending_finish [OF assms(1,2)] by blast
qed

lemma finished_check: "st = Passed \<or> st = RunFailed \<Longrightarrow> run_check r \<Longrightarrow> run_check (finished st now f r)"
  by (auto simp: run_check_def split: option.splits)

lemma finish_check:
  assumes "st = Passed \<or> st = RunFailed" "list_all run_check rs"
  shows "list_all run_check (upd P (finished st now f) rs)"
  using assms by (auto simp: list_all_iff ball_upd finished_check)

lemma put_finished:
  assumes "schema_ok s" "st = Passed \<or> st = RunFailed"
  shows "put_runs (upd P (finished st now f) (runs s)) x s = Inr (x, s\<lparr>runs := upd P (finished st now f) (runs s)\<rparr>)"
  using assms by (auto simp: put_runs_Inr schema_ok_def finish_unique finish_check)

lemma put_released:
  assumes "schema_ok s"
  shows "put_users (release ids (users s)) () s = Inr ((), s\<lparr>users := release ids (users s)\<rparr>)"
  using assms by (simp add: put_users_Inr schema_ok_def release_def release_unique release_check)

lemma reap_succeeds:
  assumes "schema_ok s" "\<And>l. \<not> fault E l"
  shows "\<exists>t. reap E now s = (Inr (), t)"
proof -
  let ?rs = "upd (lease_expired now) (finished RunFailed now ''validator lease expired'') (runs s)"
  have put: "put_runs ?rs x s = Inr (x, s\<lparr>runs := ?rs\<rparr>)" for x :: "string list"
    by (rule put_finished [OF assms(1)]) simp
  then have "schema_ok (s\<lparr>runs := ?rs\<rparr>)"
    using put_runs_schema [OF put] assms(1) by (simp add: keeps_schema_def)
  from put_released [OF this] show ?thesis
    unfolding reap_def using assms(2) put by (auto simp: bindS_def stmt_def retS_def)
qed

text \<open>Fewer checks are running than there are accounts, so one of them is free.\<close>

lemma count_free:
  "length (filter u_is_validation us) \<le>
     length (filter (\<lambda>u. u_is_validation u \<and> u_validation_run u = None) us) +
     length (somes (map u_validation_run us))"
proof (induction us)
  case (Cons u us)
  then show ?case by (cases "u_validation_run u") auto
qed simp

lemma somes_pool: "set (somes (map u_validation_run us)) = snd ` pool us"
  by (force simp: pool_def)

lemma queue_refs: "queue_ok s \<Longrightarrow> snd ` pool (users s) \<subseteq> r_id ` set (running s)"
  by (auto simp: queue_ok_pool)

lemma identity_available:
  assumes ok: "schema_ok s" and q: "queue_ok s" and room: "length (running s) < n"
    and size: "n \<le> length (filter u_is_validation (users s))"
  shows "\<exists>u \<in> set (users s). u_is_validation u \<and> u_validation_run u = None"
proof -
  let ?held = "somes (map u_validation_run (users s))"
  have "distinct ?held" using ok by (simp add: schema_ok_def users_unique_def)
  then have "length ?held = card (set ?held)" by (simp only: distinct_card)
  also have "set ?held \<subseteq> r_id ` set (running s)"
    unfolding somes_pool by (rule queue_refs [OF q])
  then have "card (set ?held) \<le> card (r_id ` set (running s))" by (intro card_mono) auto
  also have "\<dots> \<le> length (running s)" by (metis card_image_le card_length finite_set order_trans)
  finally have "length (filter (\<lambda>u. u_is_validation u \<and> u_validation_run u = None) (users s)) \<noteq> 0"
    using count_free [of "users s"] room size by linarith
  then show ?thesis by (auto simp: filter_empty_conv)
qed

lemma claim_users_ok:
  assumes ok: "schema_ok s" and q: "queue_ok s" and r: "run \<in> set (runs s)" "r_status run = Queued"
    and u: "u \<in> set (users s)" "u_validation_run u = None"
  shows "users_unique (users (after_claim now run u s)) \<and> users_check (users (after_claim now run u s))"
proof -
  have ids: "distinct (map u_id (users s))" and uniq: "users_unique (users s)" "users_check (users s)"
    using ok by (simp_all add: schema_ok_def users_unique_def)
  let ?f = "\<lambda>v. v\<lparr>u_validation_run := Some (r_id run)\<rparr>"
  from upd_split [OF ids u(1), of ?f] obtain A B where
    AB: "users s = A @ u # B" "upd (\<lambda>y. u_id y = u_id u) ?f (users s) = A @ ?f u # B" by blast
  have "r_id run \<notin> set (somes (map u_validation_run (users s)))"
    unfolding somes_pool
  proof
    assume "r_id run \<in> snd ` pool (users s)"
    with queue_refs [OF q] have "r_id run \<in> r_id ` set (running s)" by (rule subsetD)
    then obtain x where x: "x \<in> set (runs s)" "r_status x = Running" "r_id run = r_id x"
      by (auto simp: in_running)
    from run_unique [OF ok r(1) x(1,3)] r(2) x(2) show False by simp
  qed
  then have "distinct (somes (map u_validation_run (A @ ?f u # B)))"
    using uniq(1) u(2) unfolding users_unique_def AB(1) by (auto simp: image_iff)
  moreover have "users_check (upd (\<lambda>y. u_id y = u_id u) ?f (users s))"
    using uniq(2) by (rule release_check)
  ultimately show ?thesis
    using uniq(1) unfolding after_claim_def AB(2) [symmetric]
    by (simp add: users_unique_def flip: AB(2))
qed

lemma leased_check: "run_check r \<Longrightarrow> r_status r = Queued \<Longrightarrow> run_check (leased now r)"
  by (auto simp: run_check_def leased_def split: option.splits)

lemma claim_runs_ok:
  assumes ok: "schema_ok s" and r: "run \<in> set (runs s)" "r_status run = Queued"
  shows "runs_unique (runs (after_claim now run u s)) \<and> list_all run_check (runs (after_claim now run u s)) \<and>
    r_app ` set (runs (after_claim now run u s)) = r_app ` set (runs s) \<and>
    map r_requested_by (runs (after_claim now run u s)) = map r_requested_by (runs s)"
proof -
  have ids: "distinct (map r_id (runs s))" using ok by (simp add: schema_ok_def runs_unique_def)
  from upd_split [OF ids r(1), of "leased now"] obtain A B where
    AB: "runs s = A @ run # B" "runs (after_claim now run u s) = A @ leased now run # B"
    by (auto simp: after_claim_def)
  have old: "runs_unique (A @ run # B)" "list_all run_check (A @ run # B)"
    using ok unfolding schema_ok_def AB(1) by blast+
  have "runs_unique (A @ leased now run # B)"
    using old(1) r(2) by (simp add: runs_unique_def run_pending_def)
  moreover have "list_all run_check (A @ leased now run # B)"
    using old(2) r(2) leased_check by simp
  ultimately show ?thesis unfolding AB by simp
qed

lemma check_out_succeeds:
  assumes ok: "schema_ok s" and q: "queue_ok s" and E: "\<And>l. \<not> fault E l"
    and r: "run \<in> set (runs s)" "r_status run = Queued"
    and free: "\<exists>u \<in> set (users s). free_identity E u"
  shows "\<exists>c s'. check_out E now run s = (Inr (Some c), s')"
proof -
  have "filter (free_identity E) (users s) \<noteq> []" using free by (auto simp: filter_empty_conv)
  then obtain u where pick: "pick E (filter (free_identity E) (users s)) = Some u"
    by (metis pick_None_iff option.exhaust)
  then have u: "u \<in> set (users s)" "u_validation_run u = None"
    using pick_SomeD [OF pick] by (auto simp: free_identity_def)
  let ?t = "s\<lparr>users := upd (\<lambda>v. u_id v = u_id u) (\<lambda>v. v\<lparr>u_validation_run := Some (r_id run)\<rparr>) (users s)\<rparr>"
  have 1: "put_users (users ?t) () s = Inr ((), ?t)"
    using claim_users_ok [OF ok q r u] by (simp add: put_users_Inr after_claim_def)
  have "put_runs (upd (\<lambda>r. r_id r = r_id run) (leased now) (runs ?t)) () ?t = Inr ((), after_claim now run u s)"
    using claim_runs_ok [OF ok r, of now u] ok
    by (simp add: put_runs_Inr after_claim_def schema_ok_def del: set_somes)
  with 1 pick E show ?thesis
    unfolding check_out_def leased_def [symmetric] by (simp add: bindS_def query_def stmt_def retS_def)
qed

text \<open>C23. The validation queue makes progress. With the pool of three accounts in place, no statement
  failing and no account locked by another transaction, a claim always returns: an account is always
  left for the check it takes, as the limit on running checks promises. It comes back empty only when
  three checks with unexpired leases are running or no queued check is eligible.\<close>

theorem claim_makes_progress:
  assumes ok: "schema_ok s" and q: "queue_ok s"
    and size: "appValidationConcurrencyLimit \<le> length (filter u_is_validation (users s))"
    and E: "\<And>l. \<not> fault E l" and unlocked: "\<And>u. u \<in> set (users s) \<Longrightarrow> \<not> locked E (u_id u)"
  shows "\<exists>x s'. ClaimAppValidation E now s = (Inr x, s') \<and>
    (x = None \<longrightarrow>
       length (filter (\<lambda>r. \<not> lease_expired now r) (running s)) = appValidationConcurrencyLimit \<or>
       (\<forall>r \<in> set (runs s'). eligible s' r \<longrightarrow> locked E (r_id r)))"
proof -
  obtain t where t: "reap E now s = (Inr (), t)" using reap_succeeds [OF ok E] by blast
  then have okt: "schema_ok t" and qt: "queue_ok t"
    using reap_queue [OF t] ok q by (auto simp: keeps_queue_def)
  note t_eq = conjunct1 [OF reap_Inr [OF t]]
  have run_t: "running t = filter (\<lambda>r. \<not> lease_expired now r) (running s)"
    unfolding t_eq by (rule running_finish) (auto simp: lease_expired_def)
  have keys: "map (\<lambda>u. (u_id u, u_is_validation u)) (users t) = map (\<lambda>u. (u_id u, u_is_validation u)) (users s)"
    unfolding t_eq by (simp add: release_def)
  have "length (filter u_is_validation (users t)) = length (filter u_is_validation (users s))"
    using arg_cong [OF keys, of "\<lambda>xs. length (filter snd xs)"] by (simp add: filter_map comp_def)
  note size_t = size [folded this]
  have unlocked_t: "\<not> locked E (u_id u)" if "u \<in> set (users t)" for u
    using arg_cong [OF keys, of "\<lambda>xs. set (map fst xs)"] that unlocked by (force simp: comp_def)
  show ?thesis
  proof (cases "length (running t) < appValidationConcurrencyLimit")
    case False
    then have "length (running t) = appValidationConcurrencyLimit" using qt by (simp add: queue_ok_def)
    with t E False run_t show ?thesis
      unfolding ClaimAppValidation_def by (simp add: tx_def bindS_def query_def stmt_def retS_def)
  next
    case room: True
    show ?thesis
    proof (cases "next_run E t")
      case None
      then have "\<forall>r \<in> set (runs t). eligible t r \<longrightarrow> locked E (r_id r)"
        by (auto simp: next_run_def filter_empty_conv split: list.splits)
      with None t E room show ?thesis
        unfolding ClaimAppValidation_def by (simp add: tx_def bindS_def query_def stmt_def retS_def)
    next
      case (Some run)
      have "\<exists>u \<in> set (users t). free_identity E u"
        using identity_available [OF okt qt room size_t] unlocked_t by (auto simp: free_identity_def)
      then obtain c s' where "check_out E now run t = (Inr (Some c), s')"
        using check_out_succeeds [OF okt qt E, of run now] next_run_Some [OF Some] by (auto simp: eligible_def)
      with Some t E room show ?thesis
        unfolding ClaimAppValidation_def by (simp add: tx_def bindS_def query_def stmt_def retS_def)
    qed
  qed
qed

subsection \<open>What a claim, a completion and a reaping guarantee\<close>

lemma earlier_total: "earlier x y \<or> earlier y x"
  by (auto simp: earlier_def)

lemma earlier_trans: "earlier x y \<Longrightarrow> earlier y z \<Longrightarrow> earlier x z"
  by (auto simp: earlier_def)

lemma next_run_first:
  assumes "next_run E s = Some run" "r \<in> set (runs s)" "eligible s r" "\<not> locked E (r_id r)"
  shows "earlier run r"
proof -
  obtain rest where sorted: "sort_by earlier (filter (\<lambda>r. eligible s r \<and> \<not> locked E (r_id r)) (runs s)) = run # rest"
    using assms(1) by (auto simp: next_run_def split: list.splits)
  show ?thesis
  proof (rule sort_by_head [where le = earlier])
    show "earlier x y \<or> earlier y x" for x y by (rule earlier_total)
    show "earlier x z" if "earlier x y" "earlier y z" for x y z using that by (rule earlier_trans)
    show "r \<in> set (filter (\<lambda>r. eligible s r \<and> \<not> locked E (r_id r)) (runs s))" using assms(2-4) by simp
  qed (rule sorted)
qed

lemma disjoint_roles:
  assumes "distinct (concat (map roles xs))" "r \<in> set xs" "r' \<in> set xs" "r_id r \<noteq> r_id r'"
  shows "set (roles r) \<inter> set (roles r') = {}"
  using assms by (induction xs) auto

lemma queued_reaped:
  "reap E now s = (Inr (), t) \<Longrightarrow> r_status r = Queued \<Longrightarrow> r \<in> set (runs s) \<Longrightarrow> r \<in> set (runs t)"
  by (drule reap_Inr) (auto simp: in_upd lease_expired_def intro!: bexI [of _ r])

text \<open>A claimed check is the longest waiting eligible one; it is running with a lease of thirty
  minutes, no app it signs in to (its target and its witness) is used by another running check, and
  the account handed to the worker is checked out for it and for no other check.\<close>

theorem claim_is_exclusive:
  assumes run: "ClaimAppValidation E now s = (Inr (Some c), s')" and ok: "schema_ok s" and q: "queue_ok s"
  shows "\<exists>t r. reap E now s = (Inr (), t) \<and> r \<in> set (running s') \<and> r_id r = r_id (claimed c) \<and>
    r_lease r = Some (now + appValidationLeaseDuration) \<and>
    (\<forall>x \<in> set (running s'). r_id x \<noteq> r_id r \<longrightarrow> set (roles x) \<inter> set (roles r) = {}) \<and>
    (\<exists>u \<in> set (users s'). u_username u = ValidationUsername c \<and> u_email u = ValidationEmail c \<and>
       u_is_validation u \<and> u_validation_run u = Some (r_id r) \<and>
       (\<forall>v \<in> set (users s'). u_validation_run v = Some (r_id r) \<longrightarrow> v = u)) \<and>
    (\<forall>x \<in> set (runs s). eligible t x \<and> \<not> locked E (r_id x) \<longrightarrow> earlier (claimed c) x)"
proof -
  obtain t y where t: "reap E now s = (Inr (), t)" and room: "length (running t) < appValidationConcurrencyLimit"
    and first: "next_run E t = Some y" and out: "check_out E now y t = (Inr (Some c), s')"
    using ClaimAppValidation_Inr [OF run] by blast
  have okt: "schema_ok t" "queue_ok t" using reap_queue [OF t] ok q by (auto simp: keeps_queue_def)
  have oks: "schema_ok s'" "queue_ok s'" using check_out_queue [OF okt room first out] by auto
  obtain u where u: "u \<in> set (users t)" "free_identity E u" "s' = after_claim now y u t"
    and c: "claimed c = claimed_view now y" "ValidationUsername c = u_username u" "ValidationEmail c = u_email u"
    using check_out_Inr [OF out] by auto
  have y: "y \<in> set (runs t)" "r_status y = Queued" using next_run_Some [OF first] by (auto simp: eligible_def)
  let ?u = "u\<lparr>u_validation_run := Some (r_id y)\<rparr>"
  have r: "leased now y \<in> set (running s')" using running_after_claim [OF okt(1) y, of now u] u(3) by auto
  have member: "?u \<in> set (users s')" using u(1) unfolding u(3) after_claim_def by (auto simp: in_upd)
  have only: "v = ?u" if "v \<in> set (users s')" "u_validation_run v = Some (r_id y)" for v
    using that member oks(1) distinct_somes_map [of u_validation_run "users s'" v ?u "r_id y" u_id]
    by (simp add: schema_ok_def users_unique_def)
  have apart: "set (roles x) \<inter> set (roles (leased now y)) = {}"
    if "x \<in> set (running s')" "r_id x \<noteq> r_id y" for x
    using oks(2) that r by (intro disjoint_roles [of "running s'"]) (simp_all add: queue_ok_def)
  have oldest: "earlier (claimed c) x" if "x \<in> set (runs s)" "eligible t x" "\<not> locked E (r_id x)" for x
  proof -
    have "x \<in> set (runs t)" using queued_reaped [OF t, of x] that by (auto simp: eligible_def)
    from next_run_first [OF first this that(2,3)] show ?thesis
      unfolding c earlier_def claimed_view_def by simp
  qed
  show ?thesis
  proof (intro exI [of _ t] exI [of _ "leased now y"] conjI ballI impI)
    show "\<exists>v \<in> set (users s'). u_username v = ValidationUsername c \<and> u_email v = ValidationEmail c \<and>
        u_is_validation v \<and> u_validation_run v = Some (r_id (leased now y)) \<and>
        (\<forall>w \<in> set (users s'). u_validation_run w = Some (r_id (leased now y)) \<longrightarrow> w = v)"
    proof (intro bexI [OF _ member] conjI ballI impI)
      show "w = ?u" if "w \<in> set (users s')" "u_validation_run w = Some (r_id (leased now y))" for w
        using that by (intro only) simp_all
    qed (use u(2) in \<open>simp_all add: c free_identity_def\<close>)
  qed (use t r apart oldest in \<open>simp_all add: c leased_def claimed_view_def\<close>)
qed

lemma trim_left_length: "length (trim_left ps s) \<le> length s"
proof (induction ps s rule: trim_left.induct)
  case (1 ps s)
  show ?case
  proof (cases "[] \<in> set ps \<or> strip_one ps s = None")
    case True
    then show ?thesis by (subst trim_left.simps) auto
  next
    case False
    then obtain r where r: "strip_one ps s = Some r" "[] \<notin> set ps" by auto
    from "1.IH" [OF r(2) r(1)] strip_one_length [OF r] show ?thesis
      using r by (subst trim_left.simps) auto
  qed
qed

lemma TrimSpace_length: "length (TrimSpace s) \<le> length s"
  unfolding TrimSpace_def using trim_left_length order_trans by (metis length_rev)

lemma cut_back_le: "cut_back v n \<le> n"
  by (induction v n rule: cut_back.induct) auto

lemma truncateUTF8_length: "length (truncateUTF8 v n) \<le> n"
  using cut_back_le [of "to_valid False v" n] by (auto simp: truncateUTF8_def Let_def)

text \<open>Recording a result ends exactly one running check: it gets the reported status, a
  completion time and a failure text of at most a thousand bytes, its validation account is released,
  and every other check and every other account is unchanged. A result for a check that is not
  running (reported twice, or after its lease expired) is refused and changes nothing.\<close>

theorem complete_ends_one_check:
  assumes run: "CompleteAppValidation E runID status failure now s = (res, s')" and ok: "schema_ok s"
    and q: "queue_ok s" and i: "uuid_in E runID = Some i"
  shows "(res = Inr () \<longrightarrow>
      (\<exists>r \<in> set (running s). r_id r = i) \<and>
      (\<exists>r \<in> set (runs s'). r_id r = i \<and> r_status r = (if status = ''passed'' then Passed else RunFailed) \<and>
         r_completed r = Some now \<and> length (r_failure r) \<le> 1000) \<and>
      filter (\<lambda>r. r_id r \<noteq> i) (runs s') = filter (\<lambda>r. r_id r \<noteq> i) (runs s) \<and>
      (\<forall>u \<in> set (users s'). u_validation_run u \<noteq> Some i) \<and>
      filter (\<lambda>u. u_validation_run u \<noteq> None) (users s') =
        filter (\<lambda>u. u_validation_run u \<noteq> None \<and> u_validation_run u \<noteq> Some i) (users s)) \<and>
    ((\<forall>r \<in> set (running s). r_id r \<noteq> i) \<longrightarrow> (\<exists>e. res = Inl e)) \<and> ((\<exists>e. res = Inl e) \<longrightarrow> s' = s)"
proof (cases res)
  case (Inl e)
  have "s' = s"
    using run Inl by (auto simp: CompleteAppValidation_def Let_def failS_def split: if_splits dest: tx_Inl)
  with Inl show ?thesis by simp
next
  case (Inr x)
  let ?f = "finished (if status = ''passed'' then Passed else RunFailed) now (TrimSpace (truncateUTF8 failure 1000))"
  from CompleteAppValidation_Inr [OF run [unfolded Inr]] i have
    one: "length (filter (active i) (runs s)) = 1" and
    s': "s' = s\<lparr>runs := upd (active i) ?f (runs s), users := release [i] (users s)\<rparr>" by auto
  then have "filter (active i) (runs s) \<noteq> []" by auto
  then obtain r where r: "r \<in> set (runs s)" "active i r" by (auto simp: filter_empty_conv)
  have short: "length (TrimSpace (truncateUTF8 failure 1000)) \<le> 1000"
    using TrimSpace_length truncateUTF8_length order_trans by blast
  have "?f r \<in> set (runs s')" unfolding s' using r by (auto simp: in_upd)
  then have "\<exists>r \<in> set (runs s'). r_id r = i \<and> r_status r = (if status = ''passed'' then Passed else RunFailed) \<and>
      r_completed r = Some now \<and> length (r_failure r) \<le> 1000"
    using r short by (intro bexI [of _ "?f r"]) (auto simp: active_def)
  moreover have "filter (\<lambda>r. r_id r \<noteq> i) (upd (active i) ?f rs) = filter (\<lambda>r. r_id r \<noteq> i) rs" for rs
    by (induction rs) (auto simp: active_def)
  moreover have "filter (\<lambda>u. u_validation_run u \<noteq> None) (release [i] us) =
      filter (\<lambda>u. u_validation_run u \<noteq> None \<and> u_validation_run u \<noteq> Some i) us" for us
    unfolding release_def by (induction us) auto
  moreover have "\<forall>u \<in> set (release [i] us). u_validation_run u \<noteq> Some i" for us
    unfolding release_def by (simp add: ball_upd)
  moreover have "r \<in> set (running s)" using r by (auto simp: running_def active_def)
  ultimately show ?thesis using Inr r by (auto simp: s' active_def)
qed

text \<open>Abandoned checks are reaped: after a sweep every running check has an unexpired lease, each
  check whose lease had expired is recorded as failed and its account is free again, and every other
  check is untouched.\<close>

theorem expired_leases_are_reaped:
  assumes run: "ExpireAbandonedAppValidation E now s = (Inr (), s')" and ok: "schema_ok s" and q: "queue_ok s"
  shows "(\<forall>r \<in> set (running s'). \<not> lease_expired now r) \<and>
    running s' = filter (\<lambda>r. \<not> lease_expired now r) (running s) \<and>
    (\<forall>r \<in> set (runs s). lease_expired now r \<longrightarrow>
       (\<exists>x \<in> set (runs s'). r_id x = r_id r \<and> r_status x = RunFailed \<and> r_failure x = ''validator lease expired'') \<and>
       (\<forall>u \<in> set (users s'). u_validation_run u \<noteq> Some (r_id r))) \<and>
    (\<forall>r \<in> set (runs s). \<not> lease_expired now r \<longrightarrow> r \<in> set (runs s'))"
proof -
  have "reap E now s = (Inr (), s')" using run by (simp add: ExpireAbandonedAppValidation_def io_Inr)
  note s' = conjunct1 [OF reap_Inr [OF this]]
  have running: "running s' = filter (\<lambda>r. \<not> lease_expired now r) (running s)"
    unfolding s' by (rule running_finish) (auto simp: lease_expired_def)
  have free: "u_validation_run u \<noteq> Some (r_id r)"
    if "u \<in> set (users s')" "r \<in> set (runs s)" "lease_expired now r" for u r
  proof
    assume "u_validation_run u = Some (r_id r)"
    with that(1) have "(u_is_validation u, r_id r) \<in> pool (users s')" by (auto simp: pool_def)
    with that(2,3) show False unfolding s' by (simp add: pool_released)
  qed
  have failed: "finished RunFailed now ''validator lease expired'' r \<in> set (runs s')"
    if "r \<in> set (runs s)" "lease_expired now r" for r
    unfolding s' using that by (auto simp: in_upd)
  have kept: "r \<in> set (runs s')" if "r \<in> set (runs s)" "\<not> lease_expired now r" for r
    unfolding s' using that by (auto simp: in_upd)
  show ?thesis using running free kept by (auto intro!: bexI [OF _ failed])
qed

subsection \<open>The account pool\<close>

definition provisioned :: "string \<Rightarrow> user_row \<Rightarrow> bool" where
  "provisioned email u \<longleftrightarrow> u_is_validation u \<and> u_email u = email \<and> u_email_verified u \<and>
     u_role u = ''developer'' \<and> u_disabled u = None \<and> u_password_hash u = None \<and>
     u_github_id u = None \<and> u_entra_tenant u = None \<and> u_entra_object u = None"

lemma reset_account_simps [simp]:
  "u_id (reset_account e u) = u_id u" "u_username (reset_account e u) = u_username u"
  "u_is_validation (reset_account e u) = u_is_validation u"
  "u_validation_run (reset_account e u) = u_validation_run u"
  by (simp_all add: reset_account_def)

lemma pool_same_run:
  assumes "\<And>u. u_is_validation (f u) = u_is_validation u" "\<And>u. u_validation_run (f u) = u_validation_run u"
  shows "pool (upd P f us) = pool us"
  using assms by (induction us) (simp_all split: option.splits)

text \<open>One slot: its account is as provisioned, no other account changed.\<close>

lemma ensure_slot_Inr:
  assumes run: "ensure_slot E i name email s = (Inr x, s')" and ok: "schema_ok s"
  shows "(\<exists>u \<in> set (users s'). u_username u = name \<and> provisioned email u) \<and>
    (\<forall>u \<in> set (users s). u_username u \<noteq> name \<longrightarrow> u \<in> set (users s')) \<and>
    schema_ok s' \<and> same_pool s s'"
proof (cases "find (\<lambda>u. u_username u = name \<and> u_is_validation u) (users s)")
  case None
  let ?u = "validation_account (randomUUID E i) name email (db_now E)"
  have put: "put_users (users s @ [?u]) (True, scan_user ?u) s = Inr (x, s')"
    using run None by (simp add: ensure_slot_def io_Inr Let_def)
  then have s': "s' = s\<lparr>users := users s @ [?u]\<rparr>" by (simp add: put_Inr)
  have "schema_ok s'" using put_users_schema [OF put] ok by (auto simp: keeps_schema_def)
  then show ?thesis
    by (auto simp: s' provisioned_def validation_account_def same_pool_def)
next
  case (Some y)
  have y: "y \<in> set (users s)" "u_username y = name" "u_is_validation y" using find_SomeD [OF Some] by auto
  let ?P = "\<lambda>u. u_id u = u_id y \<and> u_is_validation u"
  have put: "put_users (upd ?P (reset_account email) (users s)) (False, scan_user (reset_account email y)) s = Inr (x, s')"
    using run Some by (simp add: ensure_slot_def io_Inr)
  then have s': "s' = s\<lparr>users := upd ?P (reset_account email) (users s)\<rparr>" by (simp add: put_Inr)
  have "schema_ok s'" using put_users_schema [OF put] ok by (auto simp: keeps_schema_def)
  moreover have "reset_account email y \<in> set (users s')" using y by (auto simp: s' in_upd)
  moreover have "provisioned email (reset_account email y)" using y by (simp add: provisioned_def reset_account_def)
  moreover have "u \<in> set (users s')" if "u \<in> set (users s)" "u_username u \<noteq> name" for u
    using that y schema_user_unique [OF ok that(1) y(1)] by (auto simp: s' in_upd intro!: bexI [of _ u])
  ultimately show ?thesis
    using y(2) by (auto simp: s' same_pool_def pool_same_run intro!: bexI [of _ "reset_account email y"])
qed

lemma ensure_slots_Inr:
  "ensure_slots E i username email atSign slots s = (Inr us, s') \<Longrightarrow> schema_ok s \<Longrightarrow>
    distinct (map (slot_username username) slots) \<Longrightarrow>
    (\<forall>slot \<in> set slots. \<exists>u \<in> set (users s'). u_username u = slot_username username slot \<and>
       provisioned (slot_email email atSign slot) u) \<and>
    (\<forall>u \<in> set (users s). u_username u \<notin> slot_username username ` set slots \<longrightarrow> u \<in> set (users s')) \<and>
    schema_ok s' \<and> same_pool s s'"
proof (induction slots arbitrary: i s us)
  case Nil
  then show ?case by (simp add: io_Inr pk.R_refl)
next
  case (Cons slot slots)
  from Cons.prems(1) obtain d user rest t where
    1: "ensure_slot E i (slot_username username slot) (slot_email email atSign slot) s = (Inr (d, user), t)"
    and 2: "ensure_slots E (if d then Suc i else i) username email atSign slots t = (Inr rest, s')"
    by (auto simp: io_Inr)
  note first = ensure_slot_Inr [OF 1 Cons.prems(2)]
  from Cons.prems(3) have dist: "distinct (map (slot_username username) slots)"
    "slot_username username slot \<notin> slot_username username ` set slots" by auto
  have "schema_ok t" using first by blast
  note rest = Cons.IH [OF 2 this dist(1)]
  obtain u where "u \<in> set (users t)" "u_username u = slot_username username slot"
    "provisioned (slot_email email atSign slot) u" using first by blast
  with rest dist(2) have "\<exists>u \<in> set (users s'). u_username u = slot_username username slot \<and>
      provisioned (slot_email email atSign slot) u" by metis
  moreover have "u \<in> set (users s')"
    if "u \<in> set (users s)" "u_username u \<notin> slot_username username ` set (slot # slots)" for u
    using that first rest by auto
  moreover have "same_pool s s'" using first rest pk.R_trans by blast
  ultimately show ?case using rest by auto
qed

lemma pool_slots: "pool_slots = [1, 2, 3]"
  by (simp add: pool_slots_def appValidationConcurrencyLimit_def upt_rec)

lemma slot_usernames: "distinct (map (slot_username name) pool_slots)"
  unfolding pool_slots by (simp add: slot_username_def decimal.simps)

lemma EnsureValidationUsers_same: "EnsureValidationUsers E username email s = (Inl e, s') \<Longrightarrow> s' = s"
  by (auto simp: EnsureValidationUsers_def Let_def retS_def failS_def split: if_splits
      dest: tx_Inl)

lemma EnsureValidationUsers_pool:
  assumes "EnsureValidationUsers E username email s = (r, s')" "schema_ok s"
  shows "schema_ok s' \<and> same_pool s s'"
proof (cases r)
  case (Inl e)
  with assms EnsureValidationUsers_same show ?thesis by (metis pk.R_refl)
next
  case (Inr us)
  with assms show ?thesis
    by (auto simp: EnsureValidationUsers_def Let_def io_Inr pk.R_refl split: if_splits
        dest: ensure_slots_Inr [OF _ _ slot_usernames])
qed

lemma EnsureValidationUsers_queue: "obeys keeps_queue (EnsureValidationUsers E username email)"
  unfolding obeys_def
  by (metis EnsureValidationUsers_pool keeps_queue_def keeps_schema_def prod.collapse same_pool_keeps)

text \<open>Provisioning leaves three enabled developer accounts for validation under the configured
  name and address, with no password and no federated identity to sign in with, so the pool is large
  enough for every check that may run; no checkout of a running check is disturbed.\<close>

theorem validation_pool_provisioned:
  assumes run: "EnsureValidationUsers E username email s = (Inr us, s')" and ok: "schema_ok s"
    and set: "username \<noteq> [] \<or> email \<noteq> []"
  shows "(\<forall>slot \<in> {1, 2, 3}. \<exists>u \<in> set (users s'). u_username u = slot_username (TrimSpace username) slot \<and>
      provisioned (slot_email (ToLower E (TrimSpace email))
        (nat (last_index CHR ''@'' (ToLower E (TrimSpace email)))) slot) u) \<and>
    appValidationConcurrencyLimit \<le> length (filter u_is_validation (users s')) \<and>
    schema_ok s' \<and> same_pool s s'"
proof -
  have slots: "set pool_slots = {1, 2, 3}" by (simp add: pool_slots)
  from run set have "ensure_slots E 0 (TrimSpace username) (ToLower E (TrimSpace email))
      (nat (last_index CHR ''@'' (ToLower E (TrimSpace email)))) pool_slots s = (Inr us, s')"
    by (auto simp: EnsureValidationUsers_def Let_def io_Inr split: if_splits)
  note result = ensure_slots_Inr [OF this ok slot_usernames, unfolded slots]
  let ?valid = "filter u_is_validation (users s')"
  have "slot_username (TrimSpace username) ` {1, 2, 3} \<subseteq> u_username ` set ?valid"
  proof
    fix name assume "name \<in> slot_username (TrimSpace username) ` {1, 2, 3}"
    then obtain slot where "slot \<in> {1, 2, 3 :: nat}" "name = slot_username (TrimSpace username) slot" by blast
    with result obtain u where "u \<in> set (users s')" "u_username u = name" "u_is_validation u"
      unfolding provisioned_def by blast
    then show "name \<in> u_username ` set ?valid" by auto
  qed
  then have "card (slot_username (TrimSpace username) ` {1, 2, 3}) \<le> length ?valid"
    by (meson card_image_le card_length card_mono finite_imageI finite_set order_trans)
  moreover have "card (slot_username (TrimSpace username) ` {1, 2, 3}) = 3"
    using distinct_card [OF slot_usernames [of "TrimSpace username"]] by (simp add: pool_slots)
  ultimately show ?thesis using result by (simp add: appValidationConcurrencyLimit_def)
qed

subsection \<open>Browser sign-ins are single use\<close>

definition new_bootstrap :: "env \<Rightarrow> nat \<Rightarrow> string \<Rightarrow> string \<Rightarrow> string \<Rightarrow> time \<Rightarrow> bootstrap_row" where
  "new_bootstrap E i raw user path created = \<lparr>b_id = randomUUID E i, b_token_hash = sha256 E raw,
     b_user = user, b_next_path = path, b_created = created,
     b_expires = created + validationBrowserBootstrapLifetime, b_consumed = None\<rparr>"

lemma insert_bootstraps_Inr:
  "insert_bootstraps E i user created paths s = (Inr raws, s') \<Longrightarrow>
     \<exists>new. s' = s\<lparr>bootstraps := bootstraps s @ new\<rparr> \<and> length raws = length paths \<and> length new = length paths \<and>
       (\<forall>k < length paths. (\<exists>bs. token_bytes E (i + k) = Some bs \<and> raws ! k = hex_encode bs) \<and>
          new ! k = new_bootstrap E (i + k) (raws ! k) user (paths ! k) created) \<and>
       (paths \<noteq> [] \<longrightarrow> bootstraps_unique (bootstraps s') \<and> list_all bootstrap_check (bootstraps s') \<and>
          list_all (\<lambda>b. b_user b \<in> u_id ` set (users s)) (bootstraps s'))"
proof (induction paths arbitrary: i s raws)
  case Nil
  then show ?case by (intro exI [of _ "[]"]) (simp add: io_Inr)
next
  case (Cons path paths)
  from Cons.prems obtain raw rest t where raws: "raws = raw # rest"
    and tok: "\<exists>bs. token_bytes E i = Some bs \<and> raw = hex_encode bs"
    and put: "put_bootstraps (bootstraps s @ [new_bootstrap E i raw user path created]) () s = Inr ((), t)"
    and more: "insert_bootstraps E (Suc i) user created paths t = (Inr rest, s')"
    by (auto simp: io_Inr randomToken_Inr new_bootstrap_def)
  from Cons.IH [OF more] obtain new where new: "s' = t\<lparr>bootstraps := bootstraps t @ new\<rparr>"
    "length rest = length paths" "length new = length paths"
    "\<forall>k < length paths. (\<exists>bs. token_bytes E (Suc i + k) = Some bs \<and> rest ! k = hex_encode bs) \<and>
       new ! k = new_bootstrap E (Suc i + k) (rest ! k) user (paths ! k) created"
    "paths \<noteq> [] \<longrightarrow> bootstraps_unique (bootstraps s') \<and> list_all bootstrap_check (bootstraps s') \<and>
       list_all (\<lambda>b. b_user b \<in> u_id ` set (users t)) (bootstraps s')" by blast
  have t: "t = s\<lparr>bootstraps := bootstraps s @ [new_bootstrap E i raw user path created]\<rparr>"
    "bootstraps_unique (bootstraps t)" "list_all bootstrap_check (bootstraps t)"
    "list_all (\<lambda>b. b_user b \<in> u_id ` set (users s)) (bootstraps t)"
    using put by (auto simp: put_Inr)
  let ?new = "new_bootstrap E i raw user path created # new"
  have each: "(\<exists>bs. token_bytes E (i + k) = Some bs \<and> raws ! k = hex_encode bs) \<and>
      ?new ! k = new_bootstrap E (i + k) (raws ! k) user ((path # paths) ! k) created"
    if "k < length (path # paths)" for k
    using that tok new(4) by (cases k) (auto simp: raws)
  have whole: "bootstraps_unique (bootstraps s') \<and> list_all bootstrap_check (bootstraps s') \<and>
      list_all (\<lambda>b. b_user b \<in> u_id ` set (users s)) (bootstraps s')"
  proof (cases "paths = []")
    case True
    with new(1,3) have "s' = t" by simp
    with t show ?thesis by simp
  next
    case False
    have "users t = users s" unfolding t(1) by simp
    with False new(5) show ?thesis by simp
  qed
  have "s' = s\<lparr>bootstraps := bootstraps s @ ?new\<rparr>" using new(1) t(1) by simp
  then show ?case
    using each whole new(2,3) raws by (intro exI [of _ ?new]) simp
qed

lemma token_find:
  assumes "bootstraps_unique bs" "b \<in> set bs" "bootstrap_usable E raw now s b"
  shows "find (bootstrap_usable E raw now s) bs = Some b"
  by (rule find_unique [where f = b_token_hash])
    (use assms in \<open>auto simp: bootstraps_unique_def bootstrap_usable_def\<close>)

lemma consumed_unusable:
  assumes uniq: "bootstraps_unique bs" and b: "b \<in> set bs" "b_token_hash b = sha256 E raw" "P b"
    and P: "\<And>x. P x \<Longrightarrow> b_token_hash x = sha256 E raw" and sha: "sha256 E' = sha256 E"
  shows "find (bootstrap_usable E' raw now' s') (upd P (\<lambda>x. x\<lparr>b_consumed := Some now\<rparr>) bs) = None"
proof -
  have "\<not> bootstrap_usable E' raw now' s' (if P x then x\<lparr>b_consumed := Some now\<rparr> else x)" if x: "x \<in> set bs" for x
  proof (cases "P x")
    case False
    then have "x \<noteq> b" using b(3) by auto
    then have "b_token_hash x \<noteq> sha256 E raw"
      using uniq x b(1,2) unfolding bootstraps_unique_def by (metis distinct_map_inj_onD)
    with False sha show ?thesis by (simp add: bootstrap_usable_def)
  qed (simp add: bootstrap_usable_def)
  then show ?thesis unfolding find_None_iff in_upd by blast
qed

text \<open>C25. A validation browser sign-in works exactly once: each token handed to the worker signs in the
  account checked out for its run, and leads to the path it was made for, at any time of the following
  ten minutes; once it was used, it never signs anybody in again.\<close>

theorem bootstrap_single_use:
  assumes create: "CreateValidationBrowserBootstraps E runID paths now s = (Inr raws, s')"
    and len: "\<forall>i bs. token_bytes E i = Some bs \<longrightarrow> length bs = 32" and ok: "schema_ok s"
    and k: "k < length paths" and later: "now \<le> t" "t < now + validationBrowserBootstrapLifetime"
    and E': "sha256 E' = sha256 E" "\<And>l. \<not> fault E' l"
  shows "length raws = length paths \<and>
    (\<exists>i u s''. uuid_in E runID = Some i \<and> u \<in> set (users s) \<and> runs_identity i u \<and>
      ConsumeValidationBrowserBootstrap E' (raws ! k) t s' = (Inr (scan_user u, paths ! k), s'') \<and>
      (\<forall>E'' t'. sha256 E'' = sha256 E \<longrightarrow>
         (\<forall>r. fst (ConsumeValidationBrowserBootstrap E'' (raws ! k) t' s'') \<noteq> Inr r)))"
proof -
  from create obtain i u where i: "uuid_in E runID = Some i" and found: "find (runs_identity i) (users s) = Some u"
    and ins: "insert_bootstraps E 0 (u_id u) now paths
      (s\<lparr>bootstraps := filter (\<lambda>b. \<not> stale_bootstrap now b) (bootstraps s)\<rparr>) = (Inr raws, s')"
    by (auto simp: CreateValidationBrowserBootstraps_def io_Inr split: if_splits)
  have u: "u \<in> set (users s)" "runs_identity i u" using find_SomeD [OF found] by auto
  from insert_bootstraps_Inr [OF ins] k obtain new bs where
    users: "users s' = users s" and boots: "bootstraps s' = filter (\<lambda>b. \<not> stale_bootstrap now b) (bootstraps s) @ new"
    and lens: "length raws = length paths" "length new = length paths"
    and tok: "token_bytes E k = Some bs" "raws ! k = hex_encode bs"
    and row: "new ! k = new_bootstrap E k (raws ! k) (u_id u) (paths ! k) now"
    and whole: "bootstraps_unique (bootstraps s')" "list_all bootstrap_check (bootstraps s')"
      "list_all (\<lambda>b. b_user b \<in> u_id ` set (users s)) (bootstraps s')"
    by fastforce
  have shape: "browserBootstrapTokenPattern (raws ! k)"
    unfolding browserBootstrapTokenPattern_def tok(2) using hex_encode_pattern [of bs] len tok(1) by auto
  let ?b = "new ! k"
  let ?P = "bootstrap_usable E' (raws ! k) t s'"
  have b: "?b \<in> set (bootstraps s')" using k lens(2) by (simp add: boots)
  have usable: "?P ?b"
    using u later E'(1) by (auto simp: bootstrap_usable_def row new_bootstrap_def users runs_identity_def list_ex_iff)
  have at: "find ?P (bootstraps s') = Some ?b" by (rule token_find [OF whole(1) b usable])
  have user: "find (\<lambda>v. u_id v = u_id u) (users s') = Some u"
    unfolding users using u(1) ok
    by (intro find_unique [where f = u_id]) (auto simp: schema_ok_def users_unique_def)
  let ?bs = "upd ?P (\<lambda>x. x\<lparr>b_consumed := Some t\<rparr>) (bootstraps s')"
  have only: "x = ?b" if "x \<in> set (bootstraps s')" "?P x" for x
    using that b usable whole(1) unfolding bootstraps_unique_def bootstrap_usable_def
    by (metis distinct_map_inj_onD)
  have "bootstrap_check (if ?P x then x\<lparr>b_consumed := Some t\<rparr> else x)" if x: "x \<in> set (bootstraps s')" for x
  proof (cases "?P x")
    case True
    with only [OF x] have "x = ?b" by blast
    then have "b_created x = now" by (simp add: row new_bootstrap_def)
    with whole(2) x later(1) True show ?thesis by (auto simp: list_all_iff bootstrap_check_def)
  qed (use whole(2) x in \<open>simp add: list_all_iff\<close>)
  then have check: "list_all bootstrap_check ?bs" by (simp add: list_all_iff ball_upd)
  have "put_bootstraps ?bs x s' = Inr (x, s'\<lparr>bootstraps := ?bs\<rparr>)" for x :: "(User \<times> string) option"
    unfolding put_bootstraps_Inr using whole check users
    by (auto simp: bootstraps_unique_def list_all_iff in_upd)
  then have "ConsumeValidationBrowserBootstrap E' (raws ! k) t s' =
      (Inr (scan_user u, paths ! k), s'\<lparr>bootstraps := ?bs\<rparr>)"
    using shape at user E'(2) row
    by (simp add: ConsumeValidationBrowserBootstrap_def bindS_def stmt_def retS_def new_bootstrap_def)
  moreover have "fst (ConsumeValidationBrowserBootstrap E'' (raws ! k) t' (s'\<lparr>bootstraps := ?bs\<rparr>)) \<noteq> Inr r"
    if "sha256 E'' = sha256 E" for E'' t' r
  proof -
    have "find (bootstrap_usable E'' (raws ! k) t' (s'\<lparr>bootstraps := ?bs\<rparr>)) ?bs = None"
      using whole(1) b usable that E'(1)
      by (intro consumed_unusable [where E = E' and b = ?b]) (auto simp: bootstrap_usable_def)
    then show ?thesis
      by (auto simp: ConsumeValidationBrowserBootstrap_def bindS_def stmt_def failS_def)
  qed
  ultimately show ?thesis using i u lens(1) by blast
qed

subsection \<open>Witnesses\<close>

definition example_run :: run_row where
  "example_run = queued_run ''r1'' (example_app ''wiki'') None ''c'' FromShauth None 1"

definition example_account :: "string \<Rightarrow> user_row" where
  "example_account i = validation_account i (''check-'' @ i) (''check+'' @ i) 0"

definition example_pool_db :: db where
  "example_pool_db = example_catalog_db\<lparr>users := users example_db @ map example_account [''1'', ''2'', ''3''],
     runs := [example_run]\<rparr>"

definition example_running_db :: db where
  "example_running_db = example_catalog_db\<lparr>
     users := users example_db @ (example_account ''1'')\<lparr>u_validation_run := Some ''r1''\<rparr> #
       map example_account [''2'', ''3''],
     runs := [leased 5 example_run]\<rparr>"

lemmas example_queue_defs = example_pool_db_def example_running_db_def example_catalog_db_def example_db_def
  example_user_def example_account_def validation_account_def example_run_def queued_run_def leased_def

lemma example_pool_ok: "schema_ok example_pool_db \<and> queue_ok example_pool_db"
  by (simp add: schema_ok_def queue_ok_def running_def example_queue_defs users_unique_def users_check_def
      known_role_def RoleDeveloper_def sessions_unique_def grants_unique_def invitations_unique_def
      mappings_unique_def runs_unique_def run_check_def apps_unique_def entra_key_def example_app_keys
      example_session_def)

lemma example_running_ok: "schema_ok example_running_db \<and> queue_ok example_running_db"
  by (simp add: schema_ok_def queue_ok_def running_def example_queue_defs users_unique_def users_check_def
      known_role_def RoleDeveloper_def sessions_unique_def grants_unique_def invitations_unique_def
      mappings_unique_def runs_unique_def run_check_def apps_unique_def entra_key_def example_app_keys
      example_session_def roles_def appValidationConcurrencyLimit_def)

theorem claim_makes_progress_witness:
  "appValidationConcurrencyLimit \<le> length (filter u_is_validation (users example_pool_db)) \<and>
   (\<exists>x s'. ClaimAppValidation example_env 5 example_pool_db = (Inr x, s'))"
proof -
  have size: "appValidationConcurrencyLimit \<le> length (filter u_is_validation (users example_pool_db))"
    by (simp add: example_queue_defs appValidationConcurrencyLimit_def)
  then show ?thesis
    using claim_makes_progress [of example_pool_db example_env 5] example_pool_ok by auto
qed

lemma example_claim:
  "fst (ClaimAppValidation example_env 5 example_pool_db) = Inr (Some \<lparr>claimed = claimed_view 5 example_run,
     ValidationUsername = ''check-1'', ValidationEmail = ''check+1''\<rparr>)"
  by (simp add: ClaimAppValidation_def reap_def io_defs put_defs lease_expired_def check_out_def next_run_def
      eligible_def busy_apps_def running_def pick_def free_identity_def example_queue_defs
      appValidationConcurrencyLimit_def runs_unique_def run_check_def run_key_def run_pending_def
      requester_exists_def example_app_keys users_unique_def users_check_def known_role_def
      RoleDeveloper_def entra_key_def sort_by_def)

theorem claim_is_exclusive_witness:
  "\<exists>r \<in> set (running (snd (ClaimAppValidation example_env 5 example_pool_db))). r_id r = ''r1''"
proof -
  let ?run = "ClaimAppValidation example_env 5 example_pool_db"
  let ?c = "\<lparr>claimed = claimed_view 5 example_run, ValidationUsername = ''check-1'', ValidationEmail = ''check+1''\<rparr>"
  have "?run = (Inr (Some ?c), snd ?run)" using example_claim by (metis prod.collapse)
  from claim_is_exclusive [OF this] example_pool_ok
  have "\<exists>r \<in> set (running (snd ?run)). r_id r = r_id (claimed ?c)" by blast
  then show ?thesis by (simp add: claimed_view_def example_run_def)
qed

lemma example_complete:
  "fst (CompleteAppValidation example_env ''r1'' ''passed'' [] 9 example_running_db) = Inr ()"
  by (simp add: CompleteAppValidation_def io_defs put_defs finished_def release_def Let_def
      example_queue_defs runs_unique_def run_check_def run_key_def run_pending_def
      requester_exists_def example_app_keys users_unique_def users_check_def known_role_def
      RoleDeveloper_def entra_key_def)

theorem complete_ends_one_check_witness:
  "Some ''r1'' \<notin> u_validation_run `
     set (users (snd (CompleteAppValidation example_env ''r1'' ''passed'' [] 9 example_running_db)))"
proof -
  let ?run = "CompleteAppValidation example_env ''r1'' ''passed'' [] 9 example_running_db"
  have "?run = (Inr (), snd ?run)" using example_complete by (metis prod.collapse)
  from complete_ends_one_check [OF this] example_running_ok show ?thesis by auto
qed

lemma example_expire:
  "fst (ExpireAbandonedAppValidation example_env 1800000000006 example_running_db) = Inr ()"
  by (simp add: ExpireAbandonedAppValidation_def reap_def io_defs put_defs lease_expired_def finished_def
      release_def appValidationLeaseDuration_def duration_units example_queue_defs runs_unique_def
      run_check_def run_key_def run_pending_def requester_exists_def example_app_keys users_unique_def
      users_check_def known_role_def RoleDeveloper_def entra_key_def)

theorem expired_leases_are_reaped_witness:
  "running (snd (ExpireAbandonedAppValidation example_env 1800000000006 example_running_db)) = []"
proof -
  let ?run = "ExpireAbandonedAppValidation example_env 1800000000006 example_running_db"
  have "?run = (Inr (), snd ?run)" using example_expire by (metis prod.collapse)
  from expired_leases_are_reaped [OF this] example_running_ok
  have "running (snd ?run) = filter (\<lambda>r. \<not> lease_expired 1800000000006 r) (running example_running_db)" by blast
  then show ?thesis
    by (simp add: running_def example_running_db_def leased_def lease_expired_def example_run_def
        appValidationLeaseDuration_def duration_units)
qed

lemma example_check_trim: "TrimSpace ''check'' = ''check''" "TrimSpace ''check@x'' = ''check@x''"
  by code_simp+

lemma example_check_lower: "ToLower example_env ''check@x'' = ''check@x''"
proof -
  have "list_all is_ascii ''check@x''" "map ascii_lower ''check@x'' = ''check@x''" by code_simp+
  then show ?thesis unfolding ToLower_def by (simp only: if_True)
qed

lemma example_at: "last_index CHR ''@'' ''check@x'' = 5"
  by (simp add: Let_def)

lemma example_decimal: "decimal 1 = ''1''" "decimal (Suc 0) = ''1''" "decimal 2 = ''2''" "decimal 3 = ''3''"
  by code_simp+

lemma example_provision: "\<exists>us. fst (EnsureValidationUsers example_env ''check'' ''check@x'' example_pool_db) = Inr us"
  by (simp add: EnsureValidationUsers_def example_check_trim example_check_lower example_at pool_slots io_defs put_defs Let_def
      ensure_slot_def slot_username_def slot_email_def example_decimal reset_account_def
      example_queue_defs users_unique_def users_check_def known_role_def RoleDeveloper_def entra_key_def)

theorem validation_pool_provisioned_witness:
  "appValidationConcurrencyLimit \<le> length (filter u_is_validation
     (users (snd (EnsureValidationUsers example_env ''check'' ''check@x'' example_pool_db))))"
proof -
  let ?run = "EnsureValidationUsers example_env ''check'' ''check@x'' example_pool_db"
  obtain us where "?run = (Inr us, snd ?run)" using example_provision by (metis prod.collapse)
  from validation_pool_provisioned [OF this] example_pool_ok show ?thesis by simp
qed

lemma example_bootstrap:
  "fst (CreateValidationBrowserBootstraps example_env ''r1'' [''/''] 6 example_running_db) =
     Inr [replicate 64 CHR ''0'']"
  by (simp add: CreateValidationBrowserBootstraps_def io_defs put_defs runs_identity_def randomToken_def
      example_token example_token_hex bootstraps_unique_def bootstrap_check_def
      validationBrowserBootstrapLifetime_def duration_units example_queue_defs)

theorem bootstrap_single_use_witness:
  "\<exists>u s''. ConsumeValidationBrowserBootstrap example_env (replicate 64 CHR ''0'') 7
     (snd (CreateValidationBrowserBootstraps example_env ''r1'' [''/''] 6 example_running_db)) = (Inr (u, ''/''), s'')"
proof -
  let ?run = "CreateValidationBrowserBootstraps example_env ''r1'' [''/''] 6 example_running_db"
  have run: "?run = (Inr [replicate 64 CHR ''0''], snd ?run)" using example_bootstrap by (metis prod.collapse)
  have len: "\<forall>i bs. token_bytes example_env i = Some bs \<longrightarrow> length bs = 32"
    by (auto simp: example_token)
  have "schema_ok example_running_db" using example_running_ok by simp
  from bootstrap_single_use [OF run len this, where k = 0 and t = 7 and E' = example_env]
  have "\<exists>u s''. ConsumeValidationBrowserBootstrap example_env ([replicate 64 CHR ''0''] ! 0) 7 (snd ?run) =
      (Inr (scan_user u, [''/''] ! 0), s'')"
    by (simp add: validationBrowserBootstrapLifetime_def duration_units) blast
  then show ?thesis by auto
qed

end
