(* ===== verification/Session_Policy.thy ===== *)
theory Session_Policy
  imports Identity_Schema
begin

text \<open>
  The durable session policy: \<open>internal/identity/session_policy.go\<close> and the store's
  \<open>SessionPolicy\<close> and \<open>UpdateSessionPolicy\<close>. Lifetimes are Go durations (nanoseconds, 64-bit
  signed) in the service and whole seconds in the database, so storing truncates and reading
  multiplies with wrap-around.
\<close>

record SessionPolicy =
  BrowserAbsoluteLifetime :: duration
  BrowserIdleTimeout :: duration
  OIDCSessionLifetime :: duration
  AccessTokenLifetime :: duration
  IDTokenLifetime :: duration
  RefreshTokenLifetime :: duration
  UpdatedAt :: time

definition DefaultSessionPolicy :: SessionPolicy where
  "DefaultSessionPolicy = \<lparr>BrowserAbsoluteLifetime = 30 * 24 * hour, BrowserIdleTimeout = 12 * hour,
     OIDCSessionLifetime = 30 * 24 * hour, AccessTokenLifetime = 15 * minute,
     IDTokenLifetime = 15 * minute, RefreshTokenLifetime = 30 * 24 * hour, UpdatedAt = 0\<rparr>"

definition Validate :: "SessionPolicy \<Rightarrow> error option" where
  "Validate p =
    (if BrowserAbsoluteLifetime p < 5 * minute \<or> BrowserAbsoluteLifetime p > 90 * 24 * hour
       then Some (invalidInput ''browser absolute lifetime must be between 5 minutes and 90 days'')
     else if BrowserIdleTimeout p < 5 * minute \<or> BrowserIdleTimeout p > BrowserAbsoluteLifetime p
       then Some (invalidInput ''browser idle timeout must be between 5 minutes and the absolute lifetime'')
     else if OIDCSessionLifetime p < 5 * minute \<or> OIDCSessionLifetime p > BrowserAbsoluteLifetime p
       then Some (invalidInput ''OIDC SSO lifetime must be between 5 minutes and the browser absolute lifetime'')
     else if AccessTokenLifetime p < 5 * minute \<or> AccessTokenLifetime p > 24 * hour
       then Some (invalidInput ''access token lifetime must be between 5 minutes and 24 hours'')
     else if IDTokenLifetime p < 5 * minute \<or> IDTokenLifetime p > 24 * hour
       then Some (invalidInput ''ID token lifetime must be between 5 minutes and 24 hours'')
     else if RefreshTokenLifetime p < AccessTokenLifetime p \<or> RefreshTokenLifetime p < IDTokenLifetime p
             \<or> RefreshTokenLifetime p > 90 * 24 * hour
       then Some (invalidInput ''refresh token lifetime must cover access and ID tokens and must not exceed 90 days'')
     else None)"

definition from_seconds :: "int \<Rightarrow> duration" where
  "from_seconds n = wrap64 (n * second)"

definition policy_of_row :: "policy_row \<Rightarrow> SessionPolicy" where
  "policy_of_row r = \<lparr>BrowserAbsoluteLifetime = from_seconds (p_absolute r),
     BrowserIdleTimeout = from_seconds (p_idle r), OIDCSessionLifetime = from_seconds (p_oidc r),
     AccessTokenLifetime = from_seconds (p_access r), IDTokenLifetime = from_seconds (p_id_token r),
     RefreshTokenLifetime = from_seconds (p_refresh r), UpdatedAt = p_updated r\<rparr>"

definition row_of_policy :: "SessionPolicy \<Rightarrow> time \<Rightarrow> policy_row" where
  "row_of_policy p t = \<lparr>p_absolute = whole_seconds (BrowserAbsoluteLifetime p),
     p_idle = whole_seconds (BrowserIdleTimeout p), p_oidc = whole_seconds (OIDCSessionLifetime p),
     p_access = whole_seconds (AccessTokenLifetime p), p_id_token = whole_seconds (IDTokenLifetime p),
     p_refresh = whole_seconds (RefreshTokenLifetime p), p_updated = t\<rparr>"

definition policy_check :: "policy_row \<Rightarrow> bool" where
  "policy_check r \<longleftrightarrow> 0 < p_absolute r \<and> 0 < p_idle r \<and> 0 < p_oidc r \<and> 0 < p_access r \<and>
     0 < p_id_token r \<and> 0 < p_refresh r"

definition read_SessionPolicy :: "env \<Rightarrow> SessionPolicy store" where
  "read_SessionPolicy E =
     bindS (query E ''read session policy'' policy) (\<lambda>row. case row of
         None \<Rightarrow> failS (NoRows ''read session policy'')
       | Some r \<Rightarrow> (case Validate (policy_of_row r) of
             Some e \<Rightarrow> failS e
           | None \<Rightarrow> retS (policy_of_row r)))"

definition UpdateSessionPolicy :: "env \<Rightarrow> SessionPolicy \<Rightarrow> time store" where
  "UpdateSessionPolicy E p = (case Validate p of Some e \<Rightarrow> failS e | None \<Rightarrow>
     tx E ''session policy update''
      (bindS (stmt E ''update session policy'' (\<lambda>s. case policy s of
                None \<Rightarrow> Inr (None, s)
              | Some _ \<Rightarrow> (let r = row_of_policy p (db_now E) in
                  if policy_check r then Inr (Some (p_updated r), s\<lparr>policy := Some r\<rparr>)
                  else Inl CheckViolation))) (\<lambda>updated. case updated of
         None \<Rightarrow> failS (Failed ''session policy record is missing'')
       | Some t \<Rightarrow>
           bindS (stmt E ''apply the absolute lifetime to existing sessions'' (\<lambda>s.
               let limit = whole_seconds (BrowserAbsoluteLifetime p) * second in
               put_sessions
                 (upd (\<lambda>r. s_revoked r = None \<and> s_expires r > s_created r + limit)
                      (\<lambda>r. r\<lparr>s_expires := s_created r + limit\<rparr>) (sessions s)) () s)) (\<lambda>_.
           retS t))))"

subsection \<open>Lemmas\<close>

text \<open>What an accepted policy promises.\<close>

lemma Validate_None_iff: "Validate p = None \<longleftrightarrow>
    5 * minute \<le> BrowserAbsoluteLifetime p \<and> BrowserAbsoluteLifetime p \<le> 90 * 24 * hour \<and>
    5 * minute \<le> BrowserIdleTimeout p \<and> BrowserIdleTimeout p \<le> BrowserAbsoluteLifetime p \<and>
    5 * minute \<le> OIDCSessionLifetime p \<and> OIDCSessionLifetime p \<le> BrowserAbsoluteLifetime p \<and>
    5 * minute \<le> AccessTokenLifetime p \<and> AccessTokenLifetime p \<le> 24 * hour \<and>
    5 * minute \<le> IDTokenLifetime p \<and> IDTokenLifetime p \<le> 24 * hour \<and>
    AccessTokenLifetime p \<le> RefreshTokenLifetime p \<and> IDTokenLifetime p \<le> RefreshTokenLifetime p \<and>
    RefreshTokenLifetime p \<le> 90 * 24 * hour"
  by (auto simp: Validate_def)

lemma Validate_updated [simp]: "Validate (p\<lparr>UpdatedAt := t\<rparr>) = Validate p"
  by (simp add: Validate_def)

definition truncated :: "SessionPolicy \<Rightarrow> SessionPolicy" where
  "truncated p = (let f = (\<lambda>d. (d div second) * second) in
     \<lparr>BrowserAbsoluteLifetime = f (BrowserAbsoluteLifetime p), BrowserIdleTimeout = f (BrowserIdleTimeout p),
      OIDCSessionLifetime = f (OIDCSessionLifetime p), AccessTokenLifetime = f (AccessTokenLifetime p),
      IDTokenLifetime = f (IDTokenLifetime p), RefreshTokenLifetime = f (RefreshTokenLifetime p),
      UpdatedAt = UpdatedAt p\<rparr>)"

lemma from_whole_seconds:
  assumes "0 \<le> d" "d \<le> 90 * 24 * hour"
  shows "from_seconds (whole_seconds d) = (d div second) * second"
proof -
  have "(d div second) * second \<le> d"
    by (simp add: second_def minus_mod_eq_div_mult [symmetric])
  moreover have "0 \<le> (d div second) * second"
    using assms(1) by (simp add: second_def)
  moreover have "90 * 24 * hour < 2 ^ 63"
    by (simp add: duration_units)
  ultimately show ?thesis
    using assms by (simp add: from_seconds_def whole_seconds_nonneg wrap64_id)
qed

lemma policy_of_row_of_policy:
  assumes "Validate p = None"
  shows "policy_of_row (row_of_policy p t) = (truncated p)\<lparr>UpdatedAt := t\<rparr>"
proof -
  have le: "24 * hour \<le> 90 * 24 * hour" and ge: "0 \<le> 5 * minute"
    by (simp_all add: duration_units)
  have "\<forall>d \<in> {BrowserAbsoluteLifetime p, BrowserIdleTimeout p, OIDCSessionLifetime p,
      AccessTokenLifetime p, IDTokenLifetime p, RefreshTokenLifetime p}. 0 \<le> d \<and> d \<le> 90 * 24 * hour"
    using assms le ge unfolding Validate_None_iff by auto
  then show ?thesis
    by (simp add: policy_of_row_def row_of_policy_def truncated_def from_whole_seconds)
qed

lemma truncate_mono:
  fixes a b :: int
  assumes "a \<le> b"
  shows "(a div second) * second \<le> (b div second) * second"
  using assms by (simp add: second_def zdiv_mono1)

text \<open>Truncation to whole seconds keeps a policy valid: every bound is a whole second.\<close>

lemma Validate_truncated:
  assumes "Validate p = None"
  shows "Validate (truncated p) = None"
proof -
  have lo: "5 * minute \<le> d \<Longrightarrow> 5 * minute \<le> d div second * second" for d :: int
    using truncate_mono [of "5 * minute" d] by (simp add: duration_units)
  have hi: "d \<le> 2160 * hour \<Longrightarrow> d div second * second \<le> 2160 * hour" for d :: int
    using truncate_mono [of d "2160 * hour"] by (simp add: duration_units)
  have day: "d \<le> 24 * hour \<Longrightarrow> d div second * second \<le> 24 * hour" for d :: int
    using truncate_mono [of d "24 * hour"] by (simp add: duration_units)
  show ?thesis
    using assms unfolding Validate_None_iff by (simp add: truncated_def lo hi day truncate_mono)
qed

lemma policy_check_row_of_policy:
  assumes "Validate p = None"
  shows "policy_check (row_of_policy p t)"
proof -
  have pos: "5 * minute \<le> d \<Longrightarrow> 0 < whole_seconds d" for d
    by (simp add: duration_units whole_seconds_nonneg pos_imp_zdiv_pos_iff)
  have "5 * minute \<le> RefreshTokenLifetime p"
    using assms unfolding Validate_None_iff by auto
  with assms show ?thesis
    unfolding Validate_None_iff by (simp add: policy_check_def row_of_policy_def pos)
qed

lemma read_SessionPolicy_Inr: "read_SessionPolicy E s = (Inr p, s') \<longleftrightarrow>
    s' = s \<and> \<not> fault E ''read session policy'' \<and> Validate p = None \<and>
    (\<exists>r. policy s = Some r \<and> p = policy_of_row r)"
  by (auto simp: read_SessionPolicy_def io_Inr split: option.splits)

lemma read_SessionPolicy_state [simp]: "snd (read_SessionPolicy E s) = s"
  by (auto simp: read_SessionPolicy_def io_defs split: option.splits)

definition clamp_expiry :: "duration \<Rightarrow> session_row \<Rightarrow> session_row" where
  "clamp_expiry limit r =
     (if s_revoked r = None \<and> s_expires r > s_created r + limit
      then r\<lparr>s_expires := s_created r + limit\<rparr> else r)"

lemma UpdateSessionPolicy_Inr:
  "UpdateSessionPolicy E p s = (Inr t, s') \<Longrightarrow>
     Validate p = None \<and> t = db_now E \<and> policy s' = Some (row_of_policy p t) \<and>
     sessions s' = map (clamp_expiry (whole_seconds (BrowserAbsoluteLifetime p) * second)) (sessions s) \<and>
     s' = s\<lparr>policy := policy s', sessions := sessions s'\<rparr>"
  by (auto simp: UpdateSessionPolicy_def io_Inr put_Inr Let_def upd_def clamp_expiry_def row_of_policy_def
      split: option.splits if_splits)

subsection \<open>Properties\<close>

text \<open>A policy that \<open>UpdateSessionPolicy\<close> accepted is read back by \<open>SessionPolicy\<close> as the
  same policy truncated to whole seconds, stamped with the database's update time: the stored
  form is never rejected by the validation on reading and no lifetime overflows 64 bits.\<close>

theorem session_policy_roundtrip:
  assumes "UpdateSessionPolicy E p s = (Inr t, s')"
    and "\<not> fault E' ''read session policy''"
  shows "read_SessionPolicy E' s' = (Inr ((truncated p)\<lparr>UpdatedAt := t\<rparr>), s') \<and> t = db_now E"
proof -
  from UpdateSessionPolicy_Inr [OF assms(1)] have v: "Validate p = None" and t: "t = db_now E"
    and pol: "policy s' = Some (row_of_policy p t)" by blast+
  with assms(2) show ?thesis
    using Validate_truncated [OF v] policy_of_row_of_policy [OF v, of t]
    by (simp add: read_SessionPolicy_Inr)
qed

text \<open>After a policy change no unrevoked session outlives the new absolute lifetime, and the
  change never extends a session nor touches a revoked one.\<close>

theorem session_policy_applies_to_existing:
  assumes "UpdateSessionPolicy E p s = (Inr t, s')"
  shows "(\<forall>r \<in> set (sessions s'). s_revoked r = None \<longrightarrow>
           s_expires r \<le> s_created r + BrowserAbsoluteLifetime p) \<and>
         list_all2 (\<lambda>r r'. s_expires r' \<le> s_expires r \<and> r' = r\<lparr>s_expires := s_expires r'\<rparr> \<and>
           (s_revoked r \<noteq> None \<longrightarrow> r' = r)) (sessions s) (sessions s')"
proof (rule conjI)
  let ?l = "whole_seconds (BrowserAbsoluteLifetime p) * second"
  from UpdateSessionPolicy_Inr [OF assms] have v: "Validate p = None"
    and ss: "sessions s' = map (clamp_expiry ?l) (sessions s)" by blast+
  have "0 \<le> BrowserAbsoluteLifetime p"
    using v unfolding Validate_None_iff by (auto simp: duration_units)
  then have l: "?l \<le> BrowserAbsoluteLifetime p"
    by (simp add: whole_seconds_nonneg second_def minus_mod_eq_div_mult [symmetric])
  have *: "s_revoked (clamp_expiry ?l r) = None \<Longrightarrow>
      s_expires (clamp_expiry ?l r) \<le> s_created (clamp_expiry ?l r) + BrowserAbsoluteLifetime p" for r
    using l by (cases "s_revoked r = None \<and> s_expires r > s_created r + ?l") (auto simp: clamp_expiry_def)
  then show "\<forall>r \<in> set (sessions s'). s_revoked r = None \<longrightarrow>
      s_expires r \<le> s_created r + BrowserAbsoluteLifetime p"
    unfolding ss by auto
  show "list_all2 (\<lambda>r r'. s_expires r' \<le> s_expires r \<and> r' = r\<lparr>s_expires := s_expires r'\<rparr> \<and>
      (s_revoked r \<noteq> None \<longrightarrow> r' = r)) (sessions s) (sessions s')"
    unfolding ss by (auto simp: list_all2_conv_all_nth clamp_expiry_def)
qed

text \<open>The built-in default policy is one the validation accepts.\<close>

lemma default_policy_valid: "Validate DefaultSessionPolicy = None"
  by (simp add: DefaultSessionPolicy_def Validate_def duration_units)

subsection \<open>Witnesses\<close>

definition example_policy :: SessionPolicy where
  "example_policy = DefaultSessionPolicy"

lemma example_read_policy:
  "policy s = policy example_db \<Longrightarrow> read_SessionPolicy example_env s = (Inr example_policy, s)"
  by (auto simp: read_SessionPolicy_Inr example_db_def policy_of_row_def from_seconds_def wrap64_id
      example_policy_def DefaultSessionPolicy_def Validate_def duration_units)

lemma example_idle: "BrowserIdleTimeout example_policy = 43200000000000"
  "BrowserAbsoluteLifetime example_policy = 2592000000000000"
  by (simp_all add: example_policy_def DefaultSessionPolicy_def duration_units)

lemma example_update:
  "UpdateSessionPolicy example_env (example_policy\<lparr>BrowserAbsoluteLifetime := 2000000000000000,
       OIDCSessionLifetime := 2000000000000000\<rparr>) example_db =
     (Inr 0, example_db\<lparr>policy := Some \<lparr>p_absolute = 2000000, p_idle = 43200, p_oidc = 2000000, p_access = 900,
       p_id_token = 900, p_refresh = 2592000, p_updated = 0\<rparr>,
       sessions := [(example_session ''s1'' ''u1'')\<lparr>s_expires := 2000000000000000\<rparr>]\<rparr>)"
  by (simp add: UpdateSessionPolicy_def io_defs example_db_def example_policy_def DefaultSessionPolicy_def
      Validate_def duration_units row_of_policy_def whole_seconds_def policy_check_def Let_def put_defs
      example_session_def sessions_unique_def example_user_def)

theorem session_policy_roundtrip_witness:
  "\<exists>s'. read_SessionPolicy example_env s' = (Inr (example_policy\<lparr>BrowserAbsoluteLifetime := 2000000000000000,
       OIDCSessionLifetime := 2000000000000000\<rparr>), s')"
  using session_policy_roundtrip [OF example_update, of example_env]
  by (auto simp: truncated_def example_policy_def DefaultSessionPolicy_def duration_units Let_def)

theorem session_policy_applies_to_existing_witness:
  "\<exists>s' t. UpdateSessionPolicy example_env (example_policy\<lparr>BrowserAbsoluteLifetime := 2000000000000000,
       OIDCSessionLifetime := 2000000000000000\<rparr>) example_db = (Inr t, s') \<and>
     (\<forall>r \<in> set (sessions s'). s_revoked r = None \<longrightarrow> s_expires r \<le> s_created r + 2000000000000000)"
  using session_policy_applies_to_existing [OF example_update] example_update by auto

end
