(* ===== verification/Sessions.thy ===== *)
theory Sessions
  imports Session_Policy
begin

text \<open>
  Browser sessions, their correlation with Ory Hydra login sessions, and the containment of
  an account: \<open>CreateSession\<close>, \<open>CurrentUser\<close>, \<open>PeekCurrentUser\<close>, \<open>RecordHydraLoginSession\<close>,
  \<open>ProviderSessionAccount\<close>, \<open>RevalidateSession\<close>, the revocations, \<open>DisableUser\<close> and
  \<open>EnableUser\<close> of \<open>internal/identity/store.go\<close>. The relation \<open>sessions_mono\<close> (a session is
  never removed, re-owned, prolonged or un-revoked) is a \<open>contract\<close> every operation keeps.
\<close>

subsection \<open>Operations\<close>

text \<open>
  \<open>lockActiveUser\<close> returns the canonical form of the identifier it looked up, which the
  statements after it compare with.
\<close>

definition lockActiveUser :: "env \<Rightarrow> string \<Rightarrow> string store" where
  "lockActiveUser E userID =
     bindS (uuid_arg E ''lock active user'' userID) (\<lambda>u.
     bindS (query E ''lock active user'' (\<lambda>s. find (\<lambda>x. u_id x = u \<and> u_disabled x = None) (users s))) (\<lambda>r.
     case r of None \<Rightarrow> failS ErrUserInactive | Some _ \<Rightarrow> retS u))"

definition CreateSession ::
  "env \<Rightarrow> string \<Rightarrow> string \<Rightarrow> string option \<Rightarrow> time \<Rightarrow> (string \<times> session_row) store" where
  "CreateSession E userID userAgent remoteIP now =
     bindS (read_SessionPolicy E) (\<lambda>p.
     bindS (randomToken E 0) (\<lambda>raw.
     let tokenHash = sha256 E raw; i = randomUUID E 0; expiry = now + BrowserAbsoluteLifetime p in
     tx E ''session creation''
      (bindS (lockActiveUser E userID) (\<lambda>u.
       bindS (stmt E ''create session'' (\<lambda>s.
          let row = \<lparr>s_id = i, s_user = u, s_token_hash = Some tokenHash, s_created = now,
                     s_last_seen = now, s_expires = expiry, s_revoked = None, s_agent = userAgent,
                     s_address = remoteIP\<rparr>
          in put_sessions (sessions s @ [row]) row s)) (\<lambda>row.
       retS (raw, row))))))"

text \<open>
  The join of \<open>currentUser\<close>. The token hash is unique, so at most one session qualifies.
\<close>

definition live :: "time \<Rightarrow> duration \<Rightarrow> session_row \<Rightarrow> bool" where
  "live now idle r \<longleftrightarrow> s_revoked r = None \<and> s_expires r > now \<and> s_last_seen r > now - idle"

definition active_session :: "db \<Rightarrow> string \<Rightarrow> time \<Rightarrow> duration \<Rightarrow> (user_row \<times> session_row) option" where
  "active_session s hash now idle =
     (case find (\<lambda>r. s_token_hash r = Some hash \<and> live now idle r) (sessions s) of
        None \<Rightarrow> None
      | Some r \<Rightarrow> (case find (\<lambda>u. u_id u = s_user r \<and> u_disabled u = None) (users s) of
            None \<Rightarrow> None | Some u \<Rightarrow> Some (u, r)))"

definition currentUser :: "env \<Rightarrow> string \<Rightarrow> time \<Rightarrow> bool \<Rightarrow> (User \<times> session_row) store" where
  "currentUser E raw now touch =
     bindS (read_SessionPolicy E) (\<lambda>p.
     bindS (query E ''read active session'' (\<lambda>s. active_session s (sha256 E raw) now (BrowserIdleTimeout p))) (\<lambda>found.
     case found of
       None \<Rightarrow> failS (NoRows ''read active session'')
     | Some (u, r) \<Rightarrow>
         if \<not> touch then retS (scan_user u, r)
         else bindS (stmt E ''touch session'' (\<lambda>s.
                put_sessions (upd (\<lambda>x. s_id x = s_id r) (\<lambda>x. x\<lparr>s_last_seen := now\<rparr>) (sessions s)) () s)) (\<lambda>_.
              retS (scan_user u, r\<lparr>s_last_seen := now\<rparr>))))"

definition CurrentUser :: "env \<Rightarrow> string \<Rightarrow> time \<Rightarrow> (User \<times> session_row) store" where
  "CurrentUser E raw now = currentUser E raw now True"

definition PeekCurrentUser :: "env \<Rightarrow> string \<Rightarrow> time \<Rightarrow> (User \<times> session_row) store" where
  "PeekCurrentUser E raw now = currentUser E raw now False"

definition session_of :: "db \<Rightarrow> string \<Rightarrow> session_row option" where
  "session_of s i = find (\<lambda>r. s_id r = i) (sessions s)"

text \<open>
  \<open>RecordHydraLoginSession\<close>: \<open>INSERT \<dots> ON CONFLICT DO NOTHING\<close>, and on a conflict the
  re-correlation, which is refused unless the recorded browser is the same one or a stale one
  of the same account.
\<close>

definition insert_hydra :: "string \<Rightarrow> string \<Rightarrow> time \<Rightarrow> db \<Rightarrow> pg_code + nat \<times> db" where
  "insert_hydra hydraID browser now s =
     (if hydraID \<in> set (map h_id (hydra_logins s)) then Inr (0, s)
      else put_hydra (hydra_logins s @ [\<lparr>h_id = hydraID, h_browser = browser, h_created = now\<rparr>]) 1 s)"

text \<open>The browser session a provider session is correlated with: the join the queries share.\<close>

definition correlated :: "db \<Rightarrow> string \<Rightarrow> session_row option" where
  "correlated s h = (case find (\<lambda>x. h_id x = h) (hydra_logins s) of
     None \<Rightarrow> None | Some x \<Rightarrow> session_of s (h_browser x))"

definition recordCorrelation :: "env \<Rightarrow> string \<Rightarrow> time \<Rightarrow> duration \<Rightarrow> string \<Rightarrow> session_row \<Rightarrow> unit store" where
  "recordCorrelation E hydraSessionID now idle u r =
     bindS (stmt E ''record Ory Hydra login session'' (insert_hydra hydraSessionID (s_id r) now)) (\<lambda>affected.
     if affected \<noteq> 0 then retS ()
     else
     bindS (query E ''find existing Ory Hydra session correlation'' (\<lambda>s. correlated s hydraSessionID)) (\<lambda>existing.
     case existing of None \<Rightarrow> failS (NoRows ''find existing Ory Hydra session correlation'') | Some x \<Rightarrow>
     let sameBrowser = s_id x = s_id r;
         staleSameUserBrowser = s_user x = u \<and>
           (s_revoked x \<noteq> None \<or> \<not> s_expires x > now \<or> \<not> s_last_seen x > now - idle)
     in bindS (guardS (sameBrowser \<or> staleSameUserBrowser)
          (Failed ''Ory Hydra session is already correlated with another browser'')) (\<lambda>_.
        stmt E ''refresh Ory Hydra login session correlation'' (\<lambda>s.
          put_hydra (upd (\<lambda>h. h_id h = hydraSessionID)
             (\<lambda>h. h\<lparr>h_browser := s_id r, h_created := now\<rparr>) (hydra_logins s)) () s))))"

definition RecordHydraLoginSession :: "env \<Rightarrow> string \<Rightarrow> string \<Rightarrow> time \<Rightarrow> unit store" where
  "RecordHydraLoginSession E browserSessionID hydraSessionID now =
     bindS (guardS (TrimSpace browserSessionID \<noteq> [] \<and> TrimSpace hydraSessionID \<noteq> [])
        (Failed ''browser and Ory Hydra session IDs are required'')) (\<lambda>_.
     bindS (read_SessionPolicy E) (\<lambda>p.
     tx E ''Ory Hydra session recording''
      (bindS (uuid_arg E ''find Ory Hydra browser session'' browserSessionID) (\<lambda>b.
       bindS (query E ''find Ory Hydra browser session'' (\<lambda>s. session_of s b)) (\<lambda>found.
       case found of None \<Rightarrow> failS (NoRows ''find Ory Hydra browser session'') | Some owner \<Rightarrow>
       bindS (lockActiveUser E (s_user owner)) (\<lambda>u.
       bindS (query E ''lock active Ory Hydra browser session'' (\<lambda>s.
           find (\<lambda>r. s_id r = b \<and> s_user r = u \<and> live now (BrowserIdleTimeout p) r) (sessions s))) (\<lambda>active.
       case active of None \<Rightarrow> failS (NoRows ''lock active Ory Hydra browser session'') | Some r \<Rightarrow>
       recordCorrelation E hydraSessionID now (BrowserIdleTimeout p) u r)))))))"

definition ProviderSessionAccount :: "env \<Rightarrow> string \<Rightarrow> (string \<times> bool) store" where
  "ProviderSessionAccount E hydraSessionID =
     bindS (query E ''read provider session correlation'' (\<lambda>s. correlated s hydraSessionID)) (\<lambda>r.
     case r of None \<Rightarrow> failS ErrSessionNotFound | Some x \<Rightarrow> retS (s_user x, s_revoked x = None))"

definition RevalidateSession :: "env \<Rightarrow> string \<Rightarrow> string \<Rightarrow> time \<Rightarrow> unit store" where
  "RevalidateSession E userID browserSessionID now =
     bindS (read_SessionPolicy E) (\<lambda>p.
     tx E ''browser session revalidation''
      (bindS (lockActiveUser E userID) (\<lambda>u.
       bindS (uuid_arg E ''revalidate active browser session'' browserSessionID) (\<lambda>b.
       bindS (query E ''revalidate active browser session'' (\<lambda>s.
          find (\<lambda>r. s_id r = b \<and> s_user r = u \<and> live now (BrowserIdleTimeout p) r) (sessions s))) (\<lambda>r.
       case r of None \<Rightarrow> failS (NoRows ''revalidate active browser session'') | Some _ \<Rightarrow> retS ())))))"

definition revoke_rows :: "string list \<Rightarrow> time \<Rightarrow> session_row list \<Rightarrow> session_row list" where
  "revoke_rows ids now ss =
     upd (\<lambda>r. s_id r \<in> set ids \<and> s_revoked r = None) (\<lambda>r. r\<lparr>s_revoked := Some now\<rparr>) ss"

definition revokeSessionSnapshot :: "env \<Rightarrow> string list \<Rightarrow> time \<Rightarrow> unit store" where
  "revokeSessionSnapshot E ids now = stmt E ''revoke browser session snapshot'' (\<lambda>s.
     put_sessions (revoke_rows ids now (sessions s)) () s)"

text \<open>The snapshot \<open>SELECT id FROM sessions WHERE user_id=\<dots> AND revoked_at IS NULL ORDER BY id\<close>.\<close>

definition unrevoked_ids :: "db \<Rightarrow> string \<Rightarrow> string list" where
  "unrevoked_ids s u = sort (map s_id (filter (\<lambda>r. s_user r = u \<and> s_revoked r = None) (sessions s)))"

definition hydra_of_browsers :: "env \<Rightarrow> string list \<Rightarrow> db \<Rightarrow> string list" where
  "hydra_of_browsers E bs s =
     sort_by (text_le E) (remdups (map h_id (filter (\<lambda>h. h_browser h \<in> set bs) (hydra_logins s))))"

definition hydraSessionIDsForBrowsers :: "env \<Rightarrow> string list \<Rightarrow> string list store" where
  "hydraSessionIDsForBrowsers E bs = query E ''snapshot Ory Hydra login sessions'' (hydra_of_browsers E bs)"

definition sessions_of_user :: "db \<Rightarrow> string \<Rightarrow> string list" where
  "sessions_of_user s u = map s_id (filter (\<lambda>r. s_user r = u) (sessions s))"

definition DisableUser :: "env \<Rightarrow> string \<Rightarrow> time \<Rightarrow> string list store" where
  "DisableUser E userID now = tx E ''account disable''
     (bindS (uuid_arg E ''lock account for disable'' userID) (\<lambda>u.
      bindS (query E ''lock account for disable'' (\<lambda>s. find (\<lambda>x. u_id x = u) (users s))) (\<lambda>row.
      case row of None \<Rightarrow> failS ErrUserNotFound | Some x \<Rightarrow>
      bindS (guardS (\<not> u_is_validation x) ErrValidationUserProtected) (\<lambda>_.
      bindS (query E ''snapshot account sessions for disable'' (\<lambda>s. unrevoked_ids s u)) (\<lambda>sessionIDs.
      bindS (query E ''snapshot account Ory Hydra login sessions'' (\<lambda>s.
          hydra_of_browsers E (sessions_of_user s u) s)) (\<lambda>hydraIDs.
      bindS (revokeSessionSnapshot E sessionIDs now) (\<lambda>_.
      bindS (stmt E ''disable account'' (\<lambda>s.
          put_users (upd (\<lambda>y. u_id y = u)
            (\<lambda>y. y\<lparr>u_disabled := (case u_disabled y of None \<Rightarrow> Some now | d \<Rightarrow> d)\<rparr>) (users s)) () s)) (\<lambda>_.
      retS hydraIDs))))))))"

definition EnableUser :: "env \<Rightarrow> string \<Rightarrow> time \<Rightarrow> unit store" where
  "EnableUser E userID now =
     bindS (uuid_arg E ''enable account'' userID) (\<lambda>u.
     bindS (stmt E ''enable account'' (\<lambda>s.
        put_users (upd (\<lambda>y. u_id y = u) (\<lambda>y. y\<lparr>u_disabled := None\<rparr>) (users s))
          (length (filter (\<lambda>y. u_id y = u) (users s))) s)) (\<lambda>affected.
     guardS (affected = 1) ErrUserNotFound))"

definition RevokeSession :: "env \<Rightarrow> string \<Rightarrow> time \<Rightarrow> unit store" where
  "RevokeSession E i now =
     bindS (uuid_arg E ''revoke session'' i) (\<lambda>u.
     bindS (stmt E ''revoke session'' (\<lambda>s. put_sessions (revoke_rows [u] now (sessions s))
        (length (filter (\<lambda>r. s_id r = u \<and> s_revoked r = None) (sessions s))) s)) (\<lambda>affected.
     guardS (affected \<noteq> 0) ErrActiveSessionNotFound))"

fun normalizedOptionalSessionIDs :: "string list \<Rightarrow> string list \<Rightarrow> string list option" where
  "normalizedOptionalSessionIDs seen [] = Some []"
| "normalizedOptionalSessionIDs seen (x # xs) =
     (let i = TrimSpace x in
      if i = [] then None
      else if i \<in> set seen then normalizedOptionalSessionIDs seen xs
      else map_option ((#) i) (normalizedOptionalSessionIDs (i # seen) xs))"

text \<open>A cast to \<open>uuid[]\<close>: one malformed element makes the statement fail.\<close>

fun uuid_array :: "env \<Rightarrow> string \<Rightarrow> string list \<Rightarrow> string list store" where
  "uuid_array E l [] = retS []"
| "uuid_array E l (x # xs) = bindS (uuid_arg E l x) (\<lambda>u. bindS (uuid_array E l xs) (\<lambda>us. retS (u # us)))"

definition RevokeSessions :: "env \<Rightarrow> string list \<Rightarrow> time \<Rightarrow> unit store" where
  "RevokeSessions E sessionIDs now =
     (case normalizedOptionalSessionIDs [] sessionIDs of
        None \<Rightarrow> failS (Failed ''browser sessions: session IDs must not be empty'')
      | Some ids \<Rightarrow>
          if ids = [] then retS ()
          else bindS (uuid_array E ''revoke browser session snapshot'' ids) (\<lambda>us.
               revokeSessionSnapshot E us now))"

definition RevokeUserSessions :: "env \<Rightarrow> string \<Rightarrow> time \<Rightarrow> unit store" where
  "RevokeUserSessions E userID now = tx E ''user session revocation''
     (bindS (lockActiveUser E userID) (\<lambda>u.
      bindS (query E ''snapshot user sessions for revocation'' (\<lambda>s. unrevoked_ids s u)) (\<lambda>ids.
      revokeSessionSnapshot E ids now)))"

definition SessionUserID :: "env \<Rightarrow> string \<Rightarrow> string store" where
  "SessionUserID E i =
     bindS (uuid_arg E ''read session user'' i) (\<lambda>u.
     bindS (query E ''read session user'' (\<lambda>s. session_of s u)) (\<lambda>r.
     case r of None \<Rightarrow> failS ErrSessionNotFound | Some x \<Rightarrow> retS (s_user x)))"

definition CountActiveSessions :: "env \<Rightarrow> time \<Rightarrow> nat store" where
  "CountActiveSessions E now =
     bindS (read_SessionPolicy E) (\<lambda>p.
     query E ''count active sessions'' (\<lambda>s.
       length (filter (live now (BrowserIdleTimeout p)) (sessions s))))"

text \<open>\<open>ORDER BY created_at, hydra_session_id\<close>.\<close>

definition HydraLoginSessionIDs :: "env \<Rightarrow> string \<Rightarrow> string list store" where
  "HydraLoginSessionIDs E browserSessionID =
     bindS (uuid_arg E ''list Ory Hydra login sessions'' browserSessionID) (\<lambda>b.
     query E ''list Ory Hydra login sessions'' (\<lambda>s.
       map h_id (sort_by (\<lambda>x y. h_created x < h_created y \<or> h_created x = h_created y \<and> text_le E (h_id x) (h_id y))
         (filter (\<lambda>h. h_browser h = b) (hydra_logins s)))))"

definition UserHydraLoginSessionIDs :: "env \<Rightarrow> string \<Rightarrow> string list store" where
  "UserHydraLoginSessionIDs E userID =
     bindS (uuid_arg E ''list user Ory Hydra login sessions'' userID) (\<lambda>u.
     query E ''list user Ory Hydra login sessions'' (\<lambda>s. hydra_of_browsers E (sessions_of_user s u) s))"

definition ActiveUserHydraLoginSessionIDs :: "env \<Rightarrow> string \<Rightarrow> string list store" where
  "ActiveUserHydraLoginSessionIDs E userID =
     bindS (uuid_arg E ''list active user Ory Hydra login sessions'' userID) (\<lambda>u.
     query E ''list active user Ory Hydra login sessions'' (\<lambda>s. hydra_of_browsers E (unrevoked_ids s u) s))"

definition BrowserSessionIDForHydraSession :: "env \<Rightarrow> string \<Rightarrow> string \<Rightarrow> string store" where
  "BrowserSessionIDForHydraSession E subjectID hydraSessionID =
     bindS (uuid_arg E ''find Ory Hydra browser session'' subjectID) (\<lambda>u.
     bindS (query E ''find Ory Hydra browser session'' (\<lambda>s.
        case correlated s hydraSessionID of None \<Rightarrow> None
        | Some r \<Rightarrow> if s_user r = u then Some (s_id r) else None)) (\<lambda>r.
     case r of None \<Rightarrow> failS (Failed ''Ory Hydra session is not correlated with this subject'')
     | Some b \<Rightarrow> retS b))"

subsection \<open>What a successful run says\<close>

lemma lockActiveUser_Inr: "lockActiveUser E i s = (Inr u, s') \<longleftrightarrow>
    s' = s \<and> uuid_in E i = Some u \<and> \<not> fault E ''lock active user'' \<and>
    (\<exists>x \<in> set (users s). u_id x = u \<and> u_disabled x = None)"
proof -
  have *: "(\<exists>x \<in> set (users s). u_id x = u \<and> u_disabled x = None) \<longleftrightarrow>
      find (\<lambda>x. u_id x = u \<and> u_disabled x = None) (users s) \<noteq> None"
    by (auto simp: find_None_iff)
  show ?thesis
    unfolding * by (auto simp: lockActiveUser_def io_Inr split: option.splits)
qed

lemma lockActiveUser_state [simp]: "snd (lockActiveUser E i s) = s"
  by (auto simp: lockActiveUser_def io_defs split: option.splits)

lemma active_session_SomeD:
  "active_session s h now idle = Some (u, r) \<Longrightarrow>
     r \<in> set (sessions s) \<and> s_token_hash r = Some h \<and> live now idle r \<and>
     u \<in> set (users s) \<and> u_id u = s_user r \<and> u_disabled u = None"
  by (auto simp: active_session_def dest: find_SomeD split: option.splits)

lemma currentUser_Inr:
  assumes "currentUser E raw now touch s = (Inr (usr, r'), s')"
  obtains p u r where "read_SessionPolicy E s = (Inr p, s)"
    and "active_session s (sha256 E raw) now (BrowserIdleTimeout p) = Some (u, r)"
    and "usr = scan_user u"
    and "touch \<longrightarrow> r' = r\<lparr>s_last_seen := now\<rparr> \<and> s' = s\<lparr>sessions :=
           upd (\<lambda>x. s_id x = s_id r) (\<lambda>x. x\<lparr>s_last_seen := now\<rparr>) (sessions s)\<rparr>"
    and "\<not> touch \<longrightarrow> r' = r \<and> s' = s"
proof -
  obtain p where p: "read_SessionPolicy E s = (Inr p, s)"
    using assms by (auto simp: currentUser_def bindS_Inr read_SessionPolicy_Inr)
  have run: "(case active_session s (sha256 E raw) now (BrowserIdleTimeout p) of
       None \<Rightarrow> failS (NoRows ''read active session'')
     | Some (u, r) \<Rightarrow>
         if \<not> touch then retS (scan_user u, r)
         else bindS (stmt E ''touch session'' (\<lambda>s.
                put_sessions (upd (\<lambda>x. s_id x = s_id r) (\<lambda>x. x\<lparr>s_last_seen := now\<rparr>) (sessions s)) () s)) (\<lambda>_.
              retS (scan_user u, r\<lparr>s_last_seen := now\<rparr>))) s = (Inr (usr, r'), s')"
    using assms p by (simp add: currentUser_def bindS_def query_def stmt_def split: if_splits)
  then obtain u r where ur: "active_session s (sha256 E raw) now (BrowserIdleTimeout p) = Some (u, r)"
    by (cases "active_session s (sha256 E raw) now (BrowserIdleTimeout p)") (auto simp: failS_def)
  show thesis
    using run by (intro that [OF p ur]) (auto simp: ur io_Inr put_Inr split: if_splits)
qed

lemma currentUser_active:
  assumes "currentUser E raw now touch s = (Inr (usr, r'), s')"
  shows "\<exists>(p :: SessionPolicy) u r.
    active_session s (sha256 E raw) now (BrowserIdleTimeout p) = Some (u, r) \<and> usr = scan_user u"
  using assms by (rule currentUser_Inr) blast

lemma CreateSession_Inr: "CreateSession E userID agent ip now s = (Inr (raw, row), s') \<longleftrightarrow>
    (\<exists>p u. read_SessionPolicy E s = (Inr p, s) \<and> randomToken E 0 s = (Inr raw, s) \<and>
       \<not> fault E ''begin session creation'' \<and> \<not> fault E ''commit session creation'' \<and>
       \<not> fault E ''create session'' \<and> lockActiveUser E userID s = (Inr u, s) \<and>
       row = \<lparr>s_id = randomUUID E 0, s_user = u, s_token_hash = Some (sha256 E raw), s_created = now,
              s_last_seen = now, s_expires = now + BrowserAbsoluteLifetime p, s_revoked = None,
              s_agent = agent, s_address = ip\<rparr> \<and>
       put_sessions (sessions s @ [row]) row s = Inr (row, s'))"
  unfolding CreateSession_def
  by (auto simp: io_Inr Let_def read_SessionPolicy_Inr randomToken_Inr lockActiveUser_Inr put_Inr)

subsection \<open>Sessions only move towards their end\<close>

definition session_le :: "session_row \<Rightarrow> session_row \<Rightarrow> bool" where
  "session_le r r' \<longleftrightarrow> s_id r' = s_id r \<and> s_user r' = s_user r \<and> s_token_hash r' = s_token_hash r \<and>
     s_created r' = s_created r \<and> s_expires r' \<le> s_expires r \<and>
     (s_revoked r \<noteq> None \<longrightarrow> s_revoked r' = s_revoked r)"

definition sessions_mono :: "db \<Rightarrow> db \<Rightarrow> bool" where
  "sessions_mono s s' \<longleftrightarrow> (\<forall>r \<in> set (sessions s). \<exists>r' \<in> set (sessions s'). session_le r r')"

lemma session_le_refl [simp]: "session_le r r"
  by (simp add: session_le_def)

lemma session_le_trans: "session_le a b \<Longrightarrow> session_le b c \<Longrightarrow> session_le a c"
  by (auto simp: session_le_def)

interpretation sm: contract sessions_mono
proof
  show "sessions_mono s s" for s
    unfolding sessions_mono_def using session_le_refl by blast
  show "sessions_mono s t \<Longrightarrow> sessions_mono t u \<Longrightarrow> sessions_mono s u" for s t u
    unfolding sessions_mono_def by (meson session_le_trans)
qed

lemma sessions_mono_same: "sessions s' = sessions s \<Longrightarrow> sessions_mono s s'"
  using sm.R_refl [of s] by (simp add: sessions_mono_def)

lemma sessions_mono_append: "sessions_mono s (s\<lparr>sessions := sessions s @ rs\<rparr>)"
  unfolding sessions_mono_def using session_le_refl by fastforce

lemma sessions_mono_upd:
  assumes "\<And>r. P r \<Longrightarrow> session_le r (f r)"
  shows "sessions_mono s (s\<lparr>sessions := upd P f (sessions s)\<rparr>)"
  unfolding sessions_mono_def
proof
  fix r
  assume "r \<in> set (sessions s)"
  then have "(if P r then f r else r) \<in> set (upd P f (sessions s))"
    by (auto simp: in_upd)
  moreover have "session_le r (if P r then f r else r)"
    using assms by simp
  ultimately show "\<exists>r' \<in> set (sessions (s\<lparr>sessions := upd P f (sessions s)\<rparr>)). session_le r r'"
    by auto
qed

text \<open>The five statements that write the table.\<close>

lemma revoke_rows_mono: "put_sessions (revoke_rows ids now (sessions s)) x s = Inr (y, s') \<Longrightarrow> sessions_mono s s'"
  by (auto simp: put_Inr revoke_rows_def session_le_def intro!: sessions_mono_upd)

lemma revokeSessionSnapshot_mono: "obeys sessions_mono (revokeSessionSnapshot E ids now)"
  unfolding revokeSessionSnapshot_def by (intro sm.keeps_stmt) (rule revoke_rows_mono)

lemma insert_hydra_sessions: "insert_hydra h b now s = Inr (n, s') \<Longrightarrow> sessions s' = sessions s"
  by (auto simp: insert_hydra_def put_Inr split: if_splits)

lemmas sm_reads = sm.keeps_readonly [OF lockActiveUser_state] sm.keeps_readonly [OF read_SessionPolicy_state]

lemma UpdateSessionPolicy_mono: "obeys sessions_mono (UpdateSessionPolicy E p)"
  unfolding UpdateSessionPolicy_def
  by (intro sm.keeps sm.keeps_stmt)
     (auto simp: put_Inr Let_def session_le_def split: option.splits if_splits
       intro: sessions_mono_same sessions_mono_upd)

lemma CreateSession_mono: "obeys sessions_mono (CreateSession E userID agent ip now)"
  unfolding CreateSession_def
  by (intro sm.keeps sm_reads sm.keeps_stmt)
     (auto simp: put_Inr Let_def intro: sessions_mono_append)

lemma currentUser_mono: "obeys sessions_mono (currentUser E raw now touch)"
  unfolding currentUser_def
  by (intro sm.keeps sm_reads sm.keeps_stmt)
     (auto simp: put_Inr session_le_def intro!: sessions_mono_upd)

lemma RecordHydraLoginSession_mono: "obeys sessions_mono (RecordHydraLoginSession E b h now)"
  unfolding RecordHydraLoginSession_def recordCorrelation_def
  by (intro sm.keeps sm_reads sm.keeps_stmt)
     (auto simp: put_Inr dest: insert_hydra_sessions intro: sessions_mono_same)

lemma DisableUser_mono: "obeys sessions_mono (DisableUser E userID now)"
  unfolding DisableUser_def
  by (intro sm.keeps revokeSessionSnapshot_mono sm.keeps_stmt)
     (auto simp: put_Inr intro: sessions_mono_same)

lemma EnableUser_mono: "obeys sessions_mono (EnableUser E userID now)"
  unfolding EnableUser_def
  by (intro sm.keeps sm.keeps_stmt) (auto simp: put_Inr intro: sessions_mono_same)

lemma RevokeSession_mono: "obeys sessions_mono (RevokeSession E i now)"
  unfolding RevokeSession_def
  by (intro sm.keeps sm.keeps_stmt) (rule revoke_rows_mono)

lemma uuid_array_state [simp]: "snd (uuid_array E l xs s) = s"
proof (induction xs arbitrary: s)
  case (Cons x xs)
  then have "snd (uuid_array E l xs s) = s" .
  then show ?case by (cases "uuid_array E l xs s") (auto simp: io_defs split: option.splits sum.splits)
qed (simp add: retS_def)

lemma RevokeSessions_mono: "obeys sessions_mono (RevokeSessions E ids now)"
  unfolding RevokeSessions_def
  by (intro sm.keeps revokeSessionSnapshot_mono sm.keeps_readonly [OF uuid_array_state])

lemma RevokeUserSessions_mono: "obeys sessions_mono (RevokeUserSessions E userID now)"
  unfolding RevokeUserSessions_def
  by (intro sm.keeps sm_reads revokeSessionSnapshot_mono)

subsection \<open>The schema's constraints are kept\<close>

lemmas sk_reads = sk.keeps_readonly [OF lockActiveUser_state] sk.keeps_readonly [OF read_SessionPolicy_state]

lemma UpdateSessionPolicy_schema: "obeys keeps_schema (UpdateSessionPolicy E p)"
  unfolding UpdateSessionPolicy_def
  by (intro sk.keeps sk.keeps_stmt)
     (auto simp: Let_def split: option.splits if_splits elim!: put_schema intro: schema_other)

lemma CreateSession_schema: "obeys keeps_schema (CreateSession E userID agent ip now)"
  unfolding CreateSession_def
  by (intro sk.keeps sk_reads sk.keeps_stmt) (auto simp: Let_def elim!: put_schema)

lemma currentUser_schema: "obeys keeps_schema (currentUser E raw now touch)"
  unfolding currentUser_def
  by (intro sk.keeps sk_reads sk.keeps_stmt) (auto elim!: put_schema)

lemma insert_hydra_schema: "insert_hydra h b now s = Inr (n, s') \<Longrightarrow> keeps_schema s s'"
  by (auto simp: insert_hydra_def sk.R_refl split: if_splits elim!: put_schema)

lemma RecordHydraLoginSession_schema: "obeys keeps_schema (RecordHydraLoginSession E b h now)"
  unfolding RecordHydraLoginSession_def recordCorrelation_def
  by (intro sk.keeps sk_reads sk.keeps_stmt) (auto intro: insert_hydra_schema elim!: put_schema)

lemma revoke_rows_image [simp]:
  "s_id ` set (revoke_rows ids now ss) = s_id ` set ss"
  "s_user ` set (revoke_rows ids now ss) = s_user ` set ss"
  by (simp_all add: revoke_rows_def)

lemma revokeSessionSnapshot_schema: "obeys keeps_schema (revokeSessionSnapshot E ids now)"
  unfolding revokeSessionSnapshot_def
  by (intro sk.keeps_stmt) (auto elim!: put_schema)

lemma DisableUser_schema: "obeys keeps_schema (DisableUser E userID now)"
  unfolding DisableUser_def
  by (intro sk.keeps revokeSessionSnapshot_schema sk.keeps_stmt) (auto elim!: put_schema)

lemma EnableUser_schema: "obeys keeps_schema (EnableUser E userID now)"
  unfolding EnableUser_def
  by (intro sk.keeps sk.keeps_stmt) (auto elim!: put_schema)

lemma RevokeSession_schema: "obeys keeps_schema (RevokeSession E i now)"
  unfolding RevokeSession_def
  by (intro sk.keeps sk.keeps_stmt) (auto elim!: put_schema)

lemma RevokeSessions_schema: "obeys keeps_schema (RevokeSessions E ids now)"
  unfolding RevokeSessions_def
  by (intro sk.keeps revokeSessionSnapshot_schema sk.keeps_readonly [OF uuid_array_state])

lemma RevokeUserSessions_schema: "obeys keeps_schema (RevokeUserSessions E userID now)"
  unfolding RevokeUserSessions_def
  by (intro sk.keeps sk_reads revokeSessionSnapshot_schema)

subsection \<open>Correlation with provider sessions\<close>

lemma session_of_SomeD: "session_of s i = Some r \<Longrightarrow> r \<in> set (sessions s) \<and> s_id r = i"
  by (auto simp: session_of_def dest: find_SomeD)

lemma session_of_unique: "schema_ok s \<Longrightarrow> r \<in> set (sessions s) \<Longrightarrow> session_of s (s_id r) = Some r"
  unfolding session_of_def schema_ok_def sessions_unique_def by (auto intro!: find_unique [where f = s_id])

lemma recordCorrelation_Inr:
  "recordCorrelation E h now idle u r s = (Inr (), s') \<Longrightarrow>
     s' = s\<lparr>hydra_logins := hydra_logins s'\<rparr> \<and>
     (h \<notin> set (map h_id (hydra_logins s)) \<and>
        hydra_logins s' = hydra_logins s @ [\<lparr>h_id = h, h_browser = s_id r, h_created = now\<rparr>] \<or>
      (\<exists>x. correlated s h = Some x \<and> (s_id x = s_id r \<or> s_user x = u \<and> \<not> live now idle x) \<and>
        hydra_logins s' = upd (\<lambda>y. h_id y = h) (\<lambda>y. y\<lparr>h_browser := s_id r, h_created := now\<rparr>) (hydra_logins s)))"
  unfolding recordCorrelation_def
  by (auto simp: io_Inr Let_def insert_hydra_def put_Inr live_def split: option.splits if_splits)

lemma RecordHydraLoginSession_Inr:
  assumes "RecordHydraLoginSession E b h now s = (Inr (), s')"
  obtains p r where "read_SessionPolicy E s = (Inr p, s)" and "uuid_in E b = Some (s_id r)"
    and "r \<in> set (sessions s)" and "live now (BrowserIdleTimeout p) r"
    and "recordCorrelation E h now (BrowserIdleTimeout p) (s_user r) r s = (Inr (), s')"
  using assms unfolding RecordHydraLoginSession_def
  by (auto simp: io_Inr read_SessionPolicy_Inr lockActiveUser_Inr dest!: find_SomeD)

subsection \<open>Properties\<close>

lemma scan_user_ID [simp]: "ID (scan_user u) = u_id u"
  by (simp add: scan_user_def)

lemma active_session_unique:
  assumes "schema_ok s" "r \<in> set (sessions s)" "s_token_hash r = Some h"
    and "u \<in> set (users s)" "u_id u = s_user r" "u_disabled u = None"
  shows "active_session s h now idle = (if live now idle r then Some (u, r) else None)"
proof (cases "live now idle r")
  case True
  have d: "distinct (map s_id (sessions s))" "distinct (map u_id (users s))"
    using assms(1) by (auto simp: schema_ok_def sessions_unique_def users_unique_def)
  have "find (\<lambda>r. s_token_hash r = Some h \<and> live now idle r) (sessions s) = Some r"
    using assms True schema_token_unique [OF assms(1)] by (intro find_unique [OF d(1)]) auto
  moreover have "find (\<lambda>u. u_id u = s_user r \<and> u_disabled u = None) (users s) = Some u"
    using assms by (intro find_unique [OF d(2)]) auto
  ultimately show ?thesis using True by (simp add: active_session_def)
next
  case False
  then have "find (\<lambda>r. s_token_hash r = Some h \<and> live now idle r) (sessions s) = None"
    using assms schema_token_unique [OF assms(1)] by (auto simp: find_None_iff)
  with False show ?thesis by (simp add: active_session_def)
qed

lemma touch_keeps_constraints:
  assumes "schema_ok s"
  shows "put_sessions (upd P (\<lambda>x. x\<lparr>s_last_seen := now\<rparr>) (sessions s)) x s =
      Inr (x, s\<lparr>sessions := upd P (\<lambda>x. x\<lparr>s_last_seen := now\<rparr>) (sessions s)\<rparr>)"
  using assms by (simp add: put_Inr sessions_unique_def schema_ok_def)

text \<open>The answer of \<open>CurrentUser\<close> when every statement is answered.\<close>

lemma CurrentUser_result:
  assumes "schema_ok s" "\<And>l. \<not> fault E l" "read_SessionPolicy E s = (Inr p, s)"
  shows "fst (CurrentUser E raw now s) =
    (case active_session s (sha256 E raw) now (BrowserIdleTimeout p) of
       None \<Rightarrow> Inl (NoRows ''read active session'')
     | Some (u, r) \<Rightarrow> Inr (scan_user u, r\<lparr>s_last_seen := now\<rparr>))"
  using assms
  by (auto simp: touch_keeps_constraints [OF assms(1)] CurrentUser_def currentUser_def bindS_def query_def stmt_def retS_def failS_def
      split: option.splits)

lemma read_SessionPolicy_cong:
  "policy s' = policy s \<Longrightarrow> read_SessionPolicy E s = (Inr p, s) \<Longrightarrow> \<not> fault E' ''read session policy'' \<Longrightarrow>
     read_SessionPolicy E' s' = (Inr p, s')"
  by (auto simp: read_SessionPolicy_Inr)

text \<open>C18. The token \<open>CreateSession\<close> returns authenticates its account, and only until the idle
  timeout: asked at any later time with no activity in between, \<open>CurrentUser\<close> returns the
  account and the session, or, from the idle timeout on, refuses.\<close>

theorem create_session_authenticates:
  assumes ok: "schema_ok s"
    and create: "CreateSession E userID agent ip now s = (Inr (raw, row), s1)"
    and pol: "read_SessionPolicy E s = (Inr p, s)"
    and env: "\<And>l. \<not> fault E' l" "sha256 E' raw = sha256 E raw"
    and later: "now \<le> t"
  shows "\<exists>u \<in> set (users s). uuid_in E userID = Some (u_id u) \<and> u_disabled u = None \<and>
     fst (CurrentUser E' raw t s1) =
       (if t < now + BrowserIdleTimeout p then Inr (scan_user u, row\<lparr>s_last_seen := t\<rparr>)
        else Inl (NoRows ''read active session''))"
proof -
  from create pol obtain i where lock: "lockActiveUser E userID s = (Inr i, s)"
    and row: "s_user row = i" "s_token_hash row = Some (sha256 E raw)" "s_last_seen row = now"
      "s_expires row = now + BrowserAbsoluteLifetime p" "s_revoked row = None"
    and s1: "s1 = s\<lparr>sessions := sessions s @ [row]\<rparr>"
    unfolding CreateSession_Inr by (auto simp: put_Inr)
  from lock obtain u where u: "u \<in> set (users s)" "u_id u = i" "u_disabled u = None" "uuid_in E userID = Some i"
    by (auto simp: lockActiveUser_Inr)
  have ok1: "schema_ok s1"
    using obeysD [OF CreateSession_schema create] ok by (simp add: keeps_schema_def)
  have idle: "BrowserIdleTimeout p \<le> BrowserAbsoluteLifetime p"
    using pol by (auto simp: read_SessionPolicy_Inr Validate_None_iff)
  have "active_session s1 (sha256 E' raw) t (BrowserIdleTimeout p) =
      (if live t (BrowserIdleTimeout p) row then Some (u, row) else None)"
    using ok1 u row s1 env by (intro active_session_unique) auto
  moreover have "live t (BrowserIdleTimeout p) row \<longleftrightarrow> t < now + BrowserIdleTimeout p"
    using row idle later by (auto simp: live_def)
  moreover have "read_SessionPolicy E' s1 = (Inr p, s1)"
    using pol env s1 by (intro read_SessionPolicy_cong [of s1 s]) auto
  ultimately show ?thesis
    using u by (intro bexI [of _ u]) (auto simp: CurrentUser_result [OF ok1 env(1)])
qed

text \<open>What \<open>CurrentUser\<close> accepts is a live session of an enabled account: a session with the
  token's digest that is neither revoked nor past its absolute expiry nor idle for the policy's
  timeout; on success it records the activity and nothing else.\<close>

theorem current_user_sound:
  assumes "currentUser E raw now touch s = (Inr (usr, r'), s')"
  shows "\<exists>p u r. read_SessionPolicy E s = (Inr p, s) \<and> r \<in> set (sessions s) \<and> u \<in> set (users s) \<and>
     s_token_hash r = Some (sha256 E raw) \<and> s_user r = u_id u \<and> u_disabled u = None \<and> usr = scan_user u \<and>
     s_revoked r = None \<and> now < s_expires r \<and> now - s_last_seen r < BrowserIdleTimeout p \<and>
     (if touch then r' = r\<lparr>s_last_seen := now\<rparr> \<and>
        s' = s\<lparr>sessions := map (\<lambda>x. if s_id x = s_id r then x\<lparr>s_last_seen := now\<rparr> else x) (sessions s)\<rparr>
      else r' = r \<and> s' = s)"
proof -
  from assms obtain p u r where p: "read_SessionPolicy E s = (Inr p, s)"
    and a: "active_session s (sha256 E raw) now (BrowserIdleTimeout p) = Some (u, r)"
    and usr: "usr = scan_user u"
    and t: "touch \<longrightarrow> r' = r\<lparr>s_last_seen := now\<rparr> \<and> s' = s\<lparr>sessions :=
           upd (\<lambda>x. s_id x = s_id r) (\<lambda>x. x\<lparr>s_last_seen := now\<rparr>) (sessions s)\<rparr>"
    and nt: "\<not> touch \<longrightarrow> r' = r \<and> s' = s"
    by (elim currentUser_Inr) auto
  from active_session_SomeD [OF a] have "r \<in> set (sessions s)" "u \<in> set (users s)"
    "s_token_hash r = Some (sha256 E raw)" "s_user r = u_id u" "u_disabled u = None"
    "s_revoked r = None" "now < s_expires r" "now - s_last_seen r < BrowserIdleTimeout p"
    by (auto simp: live_def)
  with p usr t nt show ?thesis
    unfolding upd_def by (intro exI [of _ p] exI [of _ u] exI [of _ r]) auto
qed

text \<open>A state with no session of the account left unrevoked, or with the account disabled.\<close>

definition contained :: "db \<Rightarrow> string \<Rightarrow> bool" where
  "contained s u \<longleftrightarrow> (\<forall>r \<in> set (sessions s). s_user r = u \<longrightarrow> s_revoked r \<noteq> None)"

lemma contained_refuses:
  assumes "contained s u" "currentUser E raw now touch s = (Inr (usr, r), s')"
  shows "ID usr \<noteq> u"
proof -
  obtain p :: SessionPolicy and x y where "active_session s (sha256 E raw) now (BrowserIdleTimeout p) = Some (x, y)"
    and "usr = scan_user x"
    using currentUser_active [OF assms(2)] by blast
  with active_session_SomeD [of s "sha256 E raw" now "BrowserIdleTimeout p" x y] assms(1)
  show ?thesis by (auto simp: contained_def live_def)
qed

lemma revoke_unrevoked_contains:
  "contained (s\<lparr>sessions := revoke_rows (unrevoked_ids s u) now (sessions s)\<rparr>) u"
proof -
  have "s_id x \<in> set (unrevoked_ids s u)" if "x \<in> set (sessions s)" "s_user x = u" "s_revoked x = None" for x
    using that by (auto simp: unrevoked_ids_def)
  then show ?thesis
    by (auto simp: contained_def revoke_rows_def ball_upd)
qed

lemma revoke_rows_other:
  assumes "schema_ok s"
  shows "filter (\<lambda>r. s_user r \<noteq> u) (revoke_rows (unrevoked_ids s u) now (sessions s)) =
    filter (\<lambda>r. s_user r \<noteq> u) (sessions s)"
proof -
  have *: "(if s_id r \<in> set (unrevoked_ids s u) \<and> s_revoked r = None then r\<lparr>s_revoked := Some now\<rparr> else r) = r"
    if r: "r \<in> set (sessions s)" "s_user r \<noteq> u" for r
    using schema_session_unique [OF assms r(1)] r(2) by (auto simp: unrevoked_ids_def)
  have "set xs \<subseteq> set (sessions s) \<Longrightarrow> filter (\<lambda>r. s_user r \<noteq> u)
      (upd (\<lambda>r. s_id r \<in> set (unrevoked_ids s u) \<and> s_revoked r = None) (\<lambda>r. r\<lparr>s_revoked := Some now\<rparr>) xs)
      = filter (\<lambda>r. s_user r \<noteq> u) xs" for xs
    using * by (induction xs) auto
  then show ?thesis by (simp add: revoke_rows_def)
qed

lemma DisableUser_Inr:
  assumes "DisableUser E userID now s = (Inr hs, s')"
  obtains u x where "uuid_in E userID = Some u" and "x \<in> set (users s)" "u_id x = u" "\<not> u_is_validation x"
    and "hs = hydra_of_browsers E (sessions_of_user s u) s"
    and "s' = s\<lparr>sessions := revoke_rows (unrevoked_ids s u) now (sessions s),
           users := upd (\<lambda>y. u_id y = u)
             (\<lambda>y. y\<lparr>u_disabled := (case u_disabled y of None \<Rightarrow> Some now | d \<Rightarrow> d)\<rparr>) (users s)\<rparr>"
  using assms unfolding DisableUser_def revokeSessionSnapshot_def
  by (auto simp: io_Inr put_Inr dest!: find_SomeD)

text \<open>Disabling an account contains it at once: afterwards none of its browser tokens
  authenticates and no session can be created for it, the provider sessions reported for
  revocation are exactly those correlated with any session the account ever had, and no session
  of another account changes.\<close>

theorem disable_user_contains:
  assumes ok: "schema_ok s"
    and run: "DisableUser E userID now s = (Inr hs, s')"
    and u: "uuid_in E userID = Some u"
  shows "contained s' u \<and>
    (\<forall>E' raw t touch usr r s''. currentUser E' raw t touch s' = (Inr (usr, r), s'') \<longrightarrow> ID usr \<noteq> u) \<and>
    (\<forall>E' i agent ip t z s''. CreateSession E' i agent ip t s' = (Inr z, s'') \<longrightarrow> uuid_in E' i \<noteq> Some u) \<and>
    set hs = h_id ` {h \<in> set (hydra_logins s). \<exists>r \<in> set (sessions s). s_id r = h_browser h \<and> s_user r = u} \<and>
    filter (\<lambda>r. s_user r \<noteq> u) (sessions s') = filter (\<lambda>r. s_user r \<noteq> u) (sessions s)"
proof -
  from run u obtain x where x: "x \<in> set (users s)" "u_id x = u"
    and hs: "hs = hydra_of_browsers E (sessions_of_user s u) s"
    and s': "s' = s\<lparr>sessions := revoke_rows (unrevoked_ids s u) now (sessions s),
           users := upd (\<lambda>y. u_id y = u)
             (\<lambda>y. y\<lparr>u_disabled := (case u_disabled y of None \<Rightarrow> Some now | d \<Rightarrow> d)\<rparr>) (users s)\<rparr>"
    by (auto elim: DisableUser_Inr)
  have c: "contained s' u"
    using revoke_unrevoked_contains [of s u now] by (simp add: contained_def s')
  have d: "\<forall>y \<in> set (users s'). u_id y = u \<longrightarrow> u_disabled y \<noteq> None"
    by (auto simp: s' ball_upd split: option.splits)
  then have nc: "uuid_in E' i \<noteq> Some u" if "CreateSession E' i agent ip t s' = (Inr z, s'')" for E' i agent ip t z s''
    using that by (cases z) (auto simp: CreateSession_Inr lockActiveUser_Inr)
  have h: "set hs = h_id ` {h \<in> set (hydra_logins s). \<exists>r \<in> set (sessions s). s_id r = h_browser h \<and> s_user r = u}"
  proof -
    have "set (filter (\<lambda>h. h_browser h \<in> set (sessions_of_user s u)) (hydra_logins s)) =
        {h \<in> set (hydra_logins s). \<exists>r \<in> set (sessions s). s_id r = h_browser h \<and> s_user r = u}"
      by (force simp: sessions_of_user_def)
    then show ?thesis by (simp only: hs hydra_of_browsers_def set_sort_by set_remdups set_map)
  qed
  have "filter (\<lambda>r. s_user r \<noteq> u) (sessions s') = filter (\<lambda>r. s_user r \<noteq> u) (sessions s)"
    using revoke_rows_other [OF ok, of u now] by (simp add: s')
  with c nc h contained_refuses [OF c] show ?thesis by metis
qed

definition provider_account :: "db \<Rightarrow> string \<Rightarrow> string option" where
  "provider_account s h = map_option s_user (correlated s h)"

lemma find_upd_key:
  assumes "\<And>x. k (f x) = k x"
  shows "find (\<lambda>x. k x = i) (upd (\<lambda>x. k x = j) f xs) =
    (if i = j then map_option f (find (\<lambda>x. k x = i) xs) else find (\<lambda>x. k x = i) xs)"
  using assms by (induction xs) auto

lemma find_append: "find P (xs @ ys) = (case find P xs of None \<Rightarrow> find P ys | r \<Rightarrow> r)"
  by (induction xs) auto

lemma recordCorrelation_account:
  assumes ok: "schema_ok s" and r: "r \<in> set (sessions s)"
    and run: "recordCorrelation E h now idle (s_user r) r s = (Inr (), s')"
    and acc: "correlated s g = Some x"
  shows "correlated s' g = (if g = h then Some r else Some x) \<and>
    (g = h \<longrightarrow> s_id x = s_id r \<or> s_user x = s_user r \<and> \<not> live now idle x)"
proof -
  from recordCorrelation_Inr [OF run] have s': "s' = s\<lparr>hydra_logins := hydra_logins s'\<rparr>" by blast
  have ss: "session_of s' i = session_of s i" for i
    by (subst s') (simp add: session_of_def)
  from acc obtain y where y: "find (\<lambda>z. h_id z = g) (hydra_logins s) = Some y" "session_of s (h_browser y) = Some x"
    by (auto simp: correlated_def split: option.splits)
  have in_g: "g \<in> set (map h_id (hydra_logins s))"
    using find_SomeD [OF y(1)] by auto
  consider (new) "h \<notin> set (map h_id (hydra_logins s))"
      "hydra_logins s' = hydra_logins s @ [\<lparr>h_id = h, h_browser = s_id r, h_created = now\<rparr>]"
    | (old) z where "correlated s h = Some z" "s_id z = s_id r \<or> s_user z = s_user r \<and> \<not> live now idle z"
      "hydra_logins s' = upd (\<lambda>y. h_id y = h) (\<lambda>y. y\<lparr>h_browser := s_id r, h_created := now\<rparr>) (hydra_logins s)"
    using recordCorrelation_Inr [OF run] by blast
  then show ?thesis
  proof cases
    case new
    with in_g have "g \<noteq> h" by blast
    with new y show ?thesis by (simp add: correlated_def ss find_append)
  next
    case old
    with acc y session_of_unique [OF ok r] show ?thesis
      by (cases "g = h") (auto simp: correlated_def ss find_upd_key)
  qed
qed

text \<open>C19. A provider login session never changes hands between accounts, and is never taken from a
  browser session that is still live: recording a correlation leaves the account of every
  already recorded provider session as it was, and moves a provider session to another browser
  session only when the one it was correlated with has ended.\<close>

theorem provider_session_keeps_its_account:
  assumes ok: "schema_ok s" and run: "RecordHydraLoginSession E b h now s = (res, s')"
    and p: "read_SessionPolicy E s = (Inr p, s)"
  shows "\<forall>g x. correlated s g = Some x \<longrightarrow> provider_account s' g = Some (s_user x) \<and>
     (live now (BrowserIdleTimeout p) x \<longrightarrow> correlated s' g = Some x)"
proof (cases res)
  case (Inl e)
  with run have "s' = s"
    unfolding RecordHydraLoginSession_def bindS_def guardS_def retS_def failS_def
    using p by (auto split: if_splits dest: tx_Inl)
  then show ?thesis by (simp add: provider_account_def)
next
  case (Inr u)
  with run have run': "RecordHydraLoginSession E b h now s = (Inr (), s')" by simp
  obtain r where r: "r \<in> set (sessions s)"
    and rec: "recordCorrelation E h now (BrowserIdleTimeout p) (s_user r) r s = (Inr (), s')"
    by (rule RecordHydraLoginSession_Inr [OF run']) (use p in auto)
  show ?thesis
  proof (intro allI impI)
    fix g x
    assume x: "correlated s g = Some x"
    then have xs: "x \<in> set (sessions s)"
      by (auto simp: correlated_def dest: session_of_SomeD split: option.splits)
    from recordCorrelation_account [OF ok r rec x] schema_session_unique [OF ok xs r]
    show "provider_account s' g = Some (s_user x) \<and>
        (live now (BrowserIdleTimeout p) x \<longrightarrow> correlated s' g = Some x)"
      by (cases "g = h") (auto simp: provider_account_def)
  qed
qed

text \<open>Ending all sessions of an account ends them: afterwards none of its tokens
  authenticates, and no session of another account changes.\<close>

theorem revoke_user_sessions_contains:
  assumes ok: "schema_ok s" and run: "RevokeUserSessions E userID now s = (Inr (), s')"
    and u: "uuid_in E userID = Some u"
  shows "contained s' u \<and>
    (\<forall>E' raw t touch usr r s''. currentUser E' raw t touch s' = (Inr (usr, r), s'') \<longrightarrow> ID usr \<noteq> u) \<and>
    filter (\<lambda>r. s_user r \<noteq> u) (sessions s') = filter (\<lambda>r. s_user r \<noteq> u) (sessions s)"
proof -
  have s': "s' = s\<lparr>sessions := revoke_rows (unrevoked_ids s u) now (sessions s)\<rparr>"
    using run u by (auto simp: RevokeUserSessions_def revokeSessionSnapshot_def io_Inr lockActiveUser_Inr put_Inr)
  then have c: "contained s' u"
    using revoke_unrevoked_contains [of s u now] by simp
  moreover have "filter (\<lambda>r. s_user r \<noteq> u) (sessions s') = filter (\<lambda>r. s_user r \<noteq> u) (sessions s)"
    using revoke_rows_other [OF ok, of u now] by (simp add: s')
  ultimately show ?thesis
    using contained_refuses [OF c] by blast
qed

subsection \<open>Witnesses\<close>

definition example_created :: session_row where
  "example_created = \<lparr>s_id = ''00000000-0000-4000-8000-000000000000'', s_user = ''u1'',
     s_token_hash = Some (CHR ''#'' # replicate 64 CHR ''0''), s_created = 100, s_last_seen = 100,
     s_expires = 2592000000000100, s_revoked = None, s_agent = ''browser'', s_address = None\<rparr>"

lemma example_create:
  "CreateSession example_env ''u1'' ''browser'' None 100 example_db =
     (Inr (replicate 64 CHR ''0'', example_created),
      example_db\<lparr>sessions := sessions example_db @ [example_created]\<rparr>)"
  unfolding CreateSession_Inr randomToken_Inr lockActiveUser_Inr put_Inr
  by (auto simp: example_read_policy example_token example_token_hex example_uuid example_created_def
      example_idle sessions_unique_def example_db_def example_user_def example_session_def
      dest: arg_cong [of _ _ length])

theorem create_session_authenticates_witness:
  "fst (CurrentUser example_env (replicate 64 CHR ''0'') 43200000000099
       (example_db\<lparr>sessions := sessions example_db @ [example_created]\<rparr>))
     = Inr (scan_user (example_user ''u1'' ''alice''), example_created\<lparr>s_last_seen := 43200000000099\<rparr>) \<and>
   fst (CurrentUser example_env (replicate 64 CHR ''0'') 43200000000100
       (example_db\<lparr>sessions := sessions example_db @ [example_created]\<rparr>))
     = Inl (NoRows ''read active session'')"
  using create_session_authenticates [OF example_db_ok example_create example_read_policy,
      of example_env 43200000000099]
    create_session_authenticates [OF example_db_ok example_create example_read_policy,
      of example_env 43200000000100]
  by (auto simp: example_idle example_db_def example_user_def)

lemma example_current:
  "currentUser example_env ''s1'' 50 True example_db =
     (Inr (scan_user (example_user ''u1'' ''alice''), (example_session ''s1'' ''u1'')\<lparr>s_last_seen := 50\<rparr>),
      example_db\<lparr>sessions := [(example_session ''s1'' ''u1'')\<lparr>s_last_seen := 50\<rparr>]\<rparr>)"
  by (simp add: currentUser_def bindS_def query_def stmt_def retS_def example_read_policy active_session_def
      live_def example_idle example_db_def example_session_def example_user_def put_defs sessions_unique_def)

theorem current_user_sound_witness:
  "\<exists>p u r. read_SessionPolicy example_env example_db = (Inr p, example_db) \<and> r \<in> set (sessions example_db) \<and>
     u \<in> set (users example_db) \<and> s_user r = u_id u \<and> s_revoked r = None \<and> 50 < s_expires r \<and>
     50 - s_last_seen r < BrowserIdleTimeout p"
  using current_user_sound [OF example_current] by blast

lemma example_disable:
  "DisableUser example_env ''u1'' 10 example_db = (Inr [''h1''],
     example_db\<lparr>sessions := [(example_session ''s1'' ''u1'')\<lparr>s_revoked := Some 10\<rparr>],
       users := [(example_user ''u1'' ''alice'')\<lparr>u_disabled := Some 10\<rparr>, example_user ''u2'' ''bob'']\<rparr>)"
  by (simp add: DisableUser_def io_defs revokeSessionSnapshot_def example_db_def example_session_def
      example_user_def unrevoked_ids_def sessions_of_user_def hydra_of_browsers_def sort_by_def revoke_rows_def image_iff
      put_defs sessions_unique_def users_unique_def users_check_def known_role_def RoleDeveloper_def entra_key_def)

theorem disable_user_contains_witness:
  "\<exists>s'. DisableUser example_env ''u1'' 10 example_db = (Inr [''h1''], s') \<and> contained s' ''u1'' \<and>
     (\<forall>raw t touch usr r s''. currentUser example_env raw t touch s' = (Inr (usr, r), s'') \<longrightarrow> ID usr \<noteq> ''u1'')"
  using disable_user_contains [OF example_db_ok example_disable, of "''u1''"] example_disable by auto

lemma example_record:
  "RecordHydraLoginSession example_env ''s1'' ''h2'' 20 example_db =
     (Inr (), example_db\<lparr>hydra_logins := hydra_logins example_db @ [\<lparr>h_id = ''h2'', h_browser = ''s1'', h_created = 20\<rparr>]\<rparr>)"
proof -
  have t: "TrimSpace ''s1'' = ''s1''" "TrimSpace ''h2'' = ''h2''" by code_simp+
  show ?thesis
    by (simp add: RecordHydraLoginSession_def recordCorrelation_def io_defs t example_read_policy lockActiveUser_def
        session_of_def live_def example_idle insert_hydra_def put_defs example_db_def example_session_def example_user_def)
qed

theorem provider_session_keeps_its_account_witness:
  "\<exists>s'. RecordHydraLoginSession example_env ''s1'' ''h2'' 20 example_db = (Inr (), s') \<and>
     provider_account s' ''h1'' = Some ''u1''"
proof -
  have "correlated example_db ''h1'' = Some (example_session ''s1'' ''u1'')"
    by (simp add: correlated_def session_of_def example_db_def example_session_def)
  with provider_session_keeps_its_account [OF example_db_ok example_record example_read_policy]
  show ?thesis using example_record by (auto simp: example_session_def)
qed

lemma example_revoke_user:
  "RevokeUserSessions example_env ''u1'' 10 example_db = (Inr (),
     example_db\<lparr>sessions := [(example_session ''s1'' ''u1'')\<lparr>s_revoked := Some 10\<rparr>]\<rparr>)"
  by (simp add: RevokeUserSessions_def lockActiveUser_def io_defs revokeSessionSnapshot_def example_db_def
      example_session_def example_user_def unrevoked_ids_def revoke_rows_def put_defs sessions_unique_def)

theorem revoke_user_sessions_contains_witness:
  "\<exists>s'. RevokeUserSessions example_env ''u1'' 10 example_db = (Inr (), s') \<and> contained s' ''u1''"
  using revoke_user_sessions_contains [OF example_db_ok example_revoke_user, of "''u1''"]
    example_revoke_user by auto

end
