(* ===== verification/Accounts.thy ===== *)
theory Accounts
  imports Sessions App_Validation
begin

text \<open>
  Accounts and how people sign in to them (\<open>internal/identity/store.go\<close>): local passwords
  (\<open>passwordCredential\<close>, \<open>CreatePasswordUser\<close>, \<open>AuthenticatePassword\<close>), the break-glass
  administrator (\<open>EnsureBootstrapAdmin\<close>), invitations, and federated sign-in
  (\<open>FindOrCreateGitHubUser\<close>, \<open>FindOrCreateEntraUser\<close>). bcrypt is a parameter of the environment;
  theorems that need it assume only that a generated hash matches the password it was made from.
\<close>

subsection \<open>Local credentials\<close>

definition maxPasswordBytes :: nat where "maxPasswordBytes = 72"

definition passwordCredential :: "env \<Rightarrow> string \<Rightarrow> string \<Rightarrow> error + string \<times> string" where
  "passwordCredential E username0 password = (let username = TrimSpace username0 in
     if username = [] \<or> length password < 14
     then Inl (invalidInput ''username, email, and a password of at least 14 characters are required'')
     else if length password > maxPasswordBytes
     then Inl (invalidInput ''a password can be at most 72 bytes long'')
     else case bcrypt_generate E password of None \<Rightarrow> Inl (Failed ''hash password'')
       | Some hash \<Rightarrow> Inr (username, hash))"

definition liftS :: "error + 'a \<Rightarrow> ('s, 'a) io" where
  "liftS r = (case r of Inl e \<Rightarrow> failS e | Inr x \<Rightarrow> retS x)"

definition new_user ::
  "env \<Rightarrow> string \<Rightarrow> string \<Rightarrow> string \<Rightarrow> bool \<Rightarrow> string option \<Rightarrow> int option \<Rightarrow> string \<Rightarrow> Role \<Rightarrow> user_row" where
  "new_user E i username email verified hash githubID githubLogin role = \<lparr>u_id = i, u_username = username,
     u_email = email, u_email_verified = verified, u_password_hash = hash, u_github_id = githubID,
     u_github_login = nullable githubLogin, u_entra_tenant = None, u_entra_object = None, u_role = role,
     u_created = db_now E, u_disabled = None, u_is_validation = False, u_validation_run = None\<rparr>"

definition insertUser ::
  "env \<Rightarrow> string \<Rightarrow> string \<Rightarrow> string \<Rightarrow> bool \<Rightarrow> string option \<Rightarrow> int option \<Rightarrow> string \<Rightarrow> Role \<Rightarrow> User store" where
  "insertUser E i username email verified hash githubID githubLogin role =
     classified (stmt E ''create user'' (\<lambda>s.
       let u = new_user E i username email verified hash githubID githubLogin role
       in put_users (users s @ [u]) (scan_user_source u) s))"

definition CreatePasswordUser :: "env \<Rightarrow> string \<Rightarrow> string \<Rightarrow> string \<Rightarrow> Role \<Rightarrow> User store" where
  "CreatePasswordUser E username email0 password role = (let email = ToLower E (TrimSpace email0) in
     bindS (guardS (email \<noteq> [])
       (invalidInput ''username, email, and a password of at least 14 characters are required'')) (\<lambda>_.
     bindS (liftS (passwordCredential E username password)) (\<lambda>(name, hash).
     bindS (guardS (role = RoleDeveloper \<or> role = RoleAdmin) (invalidInput ''invalid role'')) (\<lambda>_.
     insertUser E (randomUUID E 0) name email True (Some hash) None [] role))))"

text \<open>\<open>INSERT \<dots> ON CONFLICT (email) DO UPDATE \<dots> WHERE users.is_validation = FALSE RETURNING\<close>.\<close>

definition upsert_admin :: "env \<Rightarrow> string \<Rightarrow> string \<Rightarrow> string \<Rightarrow> db \<Rightarrow> pg_code + User option \<times> db" where
  "upsert_admin E username email hash s = (case find (\<lambda>u. u_email u = email) (users s) of
       None \<Rightarrow> (let u = new_user E (randomUUID E 0) username email True (Some hash) None [] RoleAdmin
                in put_users (users s @ [u]) (Some (scan_user u)) s)
     | Some x \<Rightarrow> if u_is_validation x then Inr (None, s)
         else (let f = (\<lambda>u. u\<lparr>u_password_hash := Some hash, u_email_verified := True, u_role := RoleAdmin\<rparr>)
               in put_users (upd (\<lambda>u. u_email u = email) f (users s)) (Some (scan_user (f x))) s))"

definition zero_user :: User where
  "zero_user = \<lparr>ID = [], Username = [], Email = [], EmailVerified = False, GitHubLogin = [],
     FederatedIdentity = [], IdentitySource = [], UserRole = [], DisabledAt = None, CreatedAt = 0\<rparr>"

definition EnsureBootstrapAdmin :: "env \<Rightarrow> string \<Rightarrow> string \<Rightarrow> User store" where
  "EnsureBootstrapAdmin E email0 password =
     (if email0 = [] then retS zero_user
      else let email = ToLower E (TrimSpace email0) in
        if email = [] \<or> length password < 14 \<or> length password > maxPasswordBytes
        then failS (Failed ''bootstrap admin email and a password of 14 to 72 bytes are required'')
        else case bcrypt_generate E password of None \<Rightarrow> failS (Failed ''hash bootstrap admin password'')
          | Some hash \<Rightarrow>
            bindS (stmt E ''ensure bootstrap admin'' (upsert_admin E (hd (split_on CHR ''@'' email)) email hash)) (\<lambda>r.
            case r of None \<Rightarrow> failS (Failed ''bootstrap administrator email belongs to the validation account'')
            | Some u \<Rightarrow> retS u))"

subsection \<open>Password sign-in\<close>

definition SignInReasonUnknownUser :: string where "SignInReasonUnknownUser = ''unknown username''"
definition SignInReasonDisabled :: string where "SignInReasonDisabled = ''account is disabled''"
definition SignInReasonNoPassword :: string where "SignInReasonNoPassword = ''account has no password credential''"
definition SignInReasonWrongSecret :: string where "SignInReasonWrongSecret = ''password did not match''"
definition SignInReasonUnavailable :: string where
  "SignInReasonUnavailable = ''the account store could not be read''"

text \<open>The three results of \<open>AuthenticatePassword\<close>, and the hashes the password was compared with.\<close>

record SignIn =
  outcome :: "error + User"
  reason :: string
  compared :: "string list"

definition refused :: error where
  "refused = Failed ''invalid username or password''"

text \<open>\<open>equalizePasswordTiming\<close>, then the refusal; making the reference hash panics when bcrypt fails.\<close>

definition refuse_equalized :: "env \<Rightarrow> string \<Rightarrow> SignIn" where
  "refuse_equalized E why = (case bcrypt_generate E ''shauth timing reference'' of
     None \<Rightarrow> \<lparr>outcome = Inl (Failed ''panic: create bcrypt timing reference''), reason = [], compared = []\<rparr>
   | Some reference \<Rightarrow> \<lparr>outcome = Inl refused, reason = why, compared = [reference]\<rparr>)"

definition AuthenticatePassword :: "env \<Rightarrow> string \<Rightarrow> string \<Rightarrow> db \<Rightarrow> SignIn" where
  "AuthenticatePassword E username password s =
     (if fault E ''authenticate password'' then
        \<lparr>outcome = Inl refused, reason = SignInReasonUnavailable, compared = []\<rparr>
      else case find (\<lambda>u. u_username u = TrimSpace username \<and> \<not> u_is_validation u) (users s) of
          None \<Rightarrow> refuse_equalized E SignInReasonUnknownUser
        | Some u \<Rightarrow>
          if u_disabled u \<noteq> None then refuse_equalized E SignInReasonDisabled
          else if coalesce (u_password_hash u) = [] then refuse_equalized E SignInReasonNoPassword
          else let hash = coalesce (u_password_hash u) in
            if \<not> bcrypt_matches E hash password then
              \<lparr>outcome = Inl refused, reason = SignInReasonWrongSecret, compared = [hash]\<rparr>
            else \<lparr>outcome = Inr (scan_user_source u), reason = [], compared = [hash]\<rparr>)"

subsection \<open>Invitations\<close>

definition InvitationPending :: string where "InvitationPending = ''pending''"
definition InvitationAccepted :: string where "InvitationAccepted = ''accepted''"
definition InvitationRevoked :: string where "InvitationRevoked = ''revoked''"
definition InvitationExpired :: string where "InvitationExpired = ''expired''"

definition invitationState :: "invitation_row \<Rightarrow> time \<Rightarrow> string" where
  "invitationState i now = (if i_accepted i \<noteq> None then InvitationAccepted
     else if i_revoked i \<noteq> None then InvitationRevoked
     else if \<not> i_expires i > now then InvitationExpired else InvitationPending)"

record Invitation =
  inv_ID :: string
  inv_Email :: string
  inv_Role :: Role
  inv_State :: string
  inv_CreatedAt :: time
  inv_ExpiresAt :: time
  inv_AcceptedAt :: "time option"
  inv_RevokedAt :: "time option"
  inv_InvitedBy :: string

definition CreateInvitation ::
  "env \<Rightarrow> string \<Rightarrow> Role \<Rightarrow> string \<Rightarrow> time \<Rightarrow> (string \<times> Invitation) store" where
  "CreateInvitation E email0 role invitedBy now = (let email = ToLower E (TrimSpace email0) in
     bindS (guardS (email \<noteq> [] \<and> (role = RoleDeveloper \<or> role = RoleAdmin))
       (invalidInput ''valid email and role are required'')) (\<lambda>_.
     bindS (randomToken E 0) (\<lambda>raw.
     bindS (requester_arg E ''create invitation'' (nullable invitedBy)) (\<lambda>inviter.
     classified (stmt E ''create invitation'' (\<lambda>s.
       put_invitations (invitations s @ [\<lparr>i_id = randomUUID E 0, i_email = email, i_role = role,
           i_token_hash = sha256 E raw, i_invited_by = inviter, i_created = now,
           i_expires = now + 7 * 24 * hour, i_accepted = None, i_revoked = None\<rparr>])
         (raw, \<lparr>inv_ID = randomUUID E 0, inv_Email = email, inv_Role = role, inv_State = InvitationPending,
           inv_CreatedAt = now, inv_ExpiresAt = now + 7 * 24 * hour, inv_AcceptedAt = None,
           inv_RevokedAt = None, inv_InvitedBy = invitedBy\<rparr>) s))))))"

definition acceptable :: "env \<Rightarrow> string \<Rightarrow> time \<Rightarrow> invitation_row \<Rightarrow> bool" where
  "acceptable E raw now i \<longleftrightarrow> i_token_hash i = sha256 E raw \<and> i_accepted i = None \<and> i_revoked i = None \<and>
     i_expires i > now"

definition AcceptInvitation :: "env \<Rightarrow> string \<Rightarrow> string \<Rightarrow> string \<Rightarrow> time \<Rightarrow> User store" where
  "AcceptInvitation E raw username password now =
     bindS (liftS (passwordCredential E username password)) (\<lambda>(name, credential).
     tx E ''invitation acceptance''
      (bindS (stmt E ''claim invitation'' (\<lambda>s.
         put_invitations (upd (acceptable E raw now) (\<lambda>i. i\<lparr>i_accepted := Some now\<rparr>) (invitations s))
           (find (acceptable E raw now) (invitations s)) s)) (\<lambda>r.
       case r of None \<Rightarrow> failS ErrInvitationNotAcceptable
       | Some i \<Rightarrow> insertUser E (randomUUID E 0) name (ToLower E (TrimSpace (i_email i))) True
           (Some credential) None [] (i_role i))))"

definition RevokeInvitation :: "env \<Rightarrow> string \<Rightarrow> time \<Rightarrow> unit store" where
  "RevokeInvitation E i now =
     bindS (uuid_arg E ''revoke invitation'' i) (\<lambda>u.
     bindS (stmt E ''revoke invitation'' (\<lambda>s.
       let P = (\<lambda>x. i_id x = u \<and> i_accepted x = None \<and> i_revoked x = None) in
       put_invitations (upd P (\<lambda>x. x\<lparr>i_revoked := Some now\<rparr>) (invitations s))
         (length (filter P (invitations s))) s)) (\<lambda>affected.
     guardS (affected = 1) ErrInvitationNotRevocable))"

definition InvitationState :: "env \<Rightarrow> string \<Rightarrow> time \<Rightarrow> string store" where
  "InvitationState E raw now =
     (if TrimSpace raw = [] then retS InvitationExpired
      else bindS (query E ''read invitation state'' (\<lambda>s.
          find (\<lambda>i. i_token_hash i = sha256 E raw) (invitations s))) (\<lambda>r.
        case r of None \<Rightarrow> retS InvitationExpired | Some i \<Rightarrow> retS (invitationState i now)))"

subsection \<open>Federated sign-in\<close>

text \<open>An \<open>UPDATE \<dots> RETURNING\<close> of at most one account.\<close>

definition update_user ::
  "env \<Rightarrow> string \<Rightarrow> (user_row \<Rightarrow> bool) \<Rightarrow> (user_row \<Rightarrow> user_row) \<Rightarrow> User option store" where
  "update_user E l P f = stmt E l (\<lambda>s. case find P (users s) of None \<Rightarrow> Inr (None, s)
     | Some u \<Rightarrow> put_users (upd P f (users s)) (Some (scan_user (f u))) s)"

definition release_login :: "env \<Rightarrow> string \<Rightarrow> int \<Rightarrow> unit store" where
  "release_login E login githubID = stmt E ''release renamed GitHub login'' (\<lambda>s.
     put_users (upd (\<lambda>u. map_option (pg_lower E) (u_github_login u) = Some (pg_lower E login) \<and>
         u_github_id u \<noteq> Some githubID)
       (\<lambda>u. u\<lparr>u_github_login := None\<rparr>) (users s)) () s)"

definition synchronize_GitHub :: "env \<Rightarrow> User \<Rightarrow> string \<Rightarrow> string \<Rightarrow> Role \<Rightarrow> (User \<times> bool) store" where
  "synchronize_GitHub E user login email0 role =
     (let demoted = (UserRole user = RoleAdmin \<and> role \<noteq> RoleAdmin) in
      if UserRole user \<noteq> role \<or> Email user \<noteq> email0 \<or> \<not> EmailVerified user \<or> GitHubLogin user \<noteq> login
      then let email = (if email0 = [] then Email user else email0) in
        bindS (classified (stmt E ''synchronize GitHub user'' (\<lambda>s.
          put_users (upd (\<lambda>u. u_id u = ID user) (\<lambda>u. u\<lparr>u_role := role, u_email := email,
            u_email_verified := True, u_github_login := Some login\<rparr>) (users s)) () s))) (\<lambda>_.
        retS (user\<lparr>UserRole := role, Email := email, EmailVerified := True, GitHubLogin := login\<rparr>, demoted))
      else retS (user, demoted))"

definition create_GitHub :: "env \<Rightarrow> int \<Rightarrow> string \<Rightarrow> string \<Rightarrow> Role \<Rightarrow> (User \<times> bool) store" where
  "create_GitHub E githubID login email role =
     bindS (guardS (email \<noteq> []) (Failed ''GitHub account must provide a verified email'')) (\<lambda>_.
     bindS (query E ''check GitHub username'' (\<lambda>s. list_ex (\<lambda>u. u_username u = login) (users s))) (\<lambda>taken.
     let username = (if taken then ''github-'' @ decimal (nat githubID) else login) in
     bindS (insertUser E (randomUUID E 0) username email True None (Some githubID) login role) (\<lambda>user.
     retS (user, False))))"

definition FindOrCreateGitHubUser :: "env \<Rightarrow> int \<Rightarrow> string \<Rightarrow> string \<Rightarrow> Role \<Rightarrow> (User \<times> bool) store" where
  "FindOrCreateGitHubUser E githubID login0 email0 role =
     (let login = TrimSpace login0; email = ToLower E (TrimSpace email0) in
      if githubID \<le> 0 \<or> login = [] then failS (Failed ''GitHub account must provide an ID and a login'')
      else tx E ''GitHub sign-in''
        (bindS (release_login E login githubID) (\<lambda>_.
         bindS (query E ''find GitHub user'' (\<lambda>s.
           map_option scan_user (find (\<lambda>u. u_github_id u = Some githubID) (users s)))) (\<lambda>found.
         case found of
           Some user \<Rightarrow> bindS (guardS (DisabledAt user = None) ErrUserInactive) (\<lambda>_.
             synchronize_GitHub E user login email role)
         | None \<Rightarrow> create_GitHub E githubID login email role))))"

definition entra_identity :: "string \<Rightarrow> string \<Rightarrow> user_row \<Rightarrow> bool" where
  "entra_identity t ob u \<longleftrightarrow> u_entra_tenant u = Some t \<and> u_entra_object u = Some ob"

definition refresh_entra :: "string \<Rightarrow> bool \<Rightarrow> user_row \<Rightarrow> user_row" where
  "refresh_entra email verified u = u\<lparr>u_email_verified :=
     (if u_email u = email then u_email_verified u \<or> verified else verified), u_email := email\<rparr>"

definition linkable :: "string \<Rightarrow> bool \<Rightarrow> user_row \<Rightarrow> bool" where
  "linkable email verified u \<longleftrightarrow> u_email u = email \<and> verified \<and> u_email_verified u \<and>
     u_entra_tenant u = None \<and> u_github_id u = None \<and> u_disabled u = None \<and> \<not> u_is_validation u"

definition link_entra :: "string \<Rightarrow> string \<Rightarrow> bool \<Rightarrow> user_row \<Rightarrow> user_row" where
  "link_entra t ob verified u = u\<lparr>u_entra_tenant := Some t, u_entra_object := Some ob,
     u_email_verified := u_email_verified u \<or> verified\<rparr>"

definition entra_user :: "env \<Rightarrow> string \<Rightarrow> string \<Rightarrow> string \<Rightarrow> string \<Rightarrow> bool \<Rightarrow> user_row" where
  "entra_user E t ob username email verified =
     (new_user E (randomUUID E 0) username email verified None None [] RoleDeveloper)
       \<lparr>u_entra_tenant := Some t, u_entra_object := Some ob\<rparr>"

definition link_or_create_entra :: "env \<Rightarrow> string \<Rightarrow> string \<Rightarrow> string \<Rightarrow> string \<Rightarrow> bool \<Rightarrow> User store" where
  "link_or_create_entra E t ob username email verified =
     bindS (update_user E ''link Microsoft Entra ID user'' (linkable email verified) (link_entra t ob verified)) (\<lambda>linked.
     case linked of Some user \<Rightarrow> retS user
     | None \<Rightarrow> stmt E ''create Microsoft Entra ID user'' (\<lambda>s.
         put_users (users s @ [entra_user E t ob username email verified])
           (scan_user (entra_user E t ob username email verified)) s))"

definition FindOrCreateEntraUser :: "env \<Rightarrow> string \<Rightarrow> string \<Rightarrow> string \<Rightarrow> string \<Rightarrow> bool \<Rightarrow> User store" where
  "FindOrCreateEntraUser E tenantID objectID username0 email0 verified =
     (let email = ToLower E (TrimSpace email0); username = TrimSpace username0 in
      if tenantID = [] \<or> objectID = [] \<or> email = [] \<or> username = []
      then failS (Failed ''Microsoft Entra ID account must provide tenant, object, username, and email claims'')
      else
      bindS (uuid_arg E ''find Microsoft Entra ID user'' tenantID) (\<lambda>t.
      bindS (uuid_arg E ''find Microsoft Entra ID user'' objectID) (\<lambda>ob.
      bindS (update_user E ''find Microsoft Entra ID user'' (entra_identity t ob) (refresh_entra email verified)) (\<lambda>found.
      case found of
        Some user \<Rightarrow> if DisabledAt user \<noteq> None then failS (Failed ''user is disabled'') else retS user
      | None \<Rightarrow> link_or_create_entra E t ob username email verified))))"

subsection \<open>Successful runs\<close>

lemma liftS_Inr: "liftS r s = (Inr x, s') \<longleftrightarrow> r = Inr x \<and> s' = s"
  by (cases r) (auto simp: liftS_def retS_def failS_def)

lemma liftS_state [simp]: "snd (liftS r s) = s"
  by (cases r) (auto simp: liftS_def retS_def failS_def)

lemma passwordCredential_Inr: "passwordCredential E username password = Inr (name, hash) \<longleftrightarrow>
    name = TrimSpace username \<and> name \<noteq> [] \<and> 14 \<le> length password \<and> length password \<le> maxPasswordBytes \<and>
    bcrypt_generate E password = Some hash"
  by (auto simp: passwordCredential_def Let_def split: option.splits)

lemma insertUser_Inr: "insertUser E i username email verified hash gid login role s = (Inr user, s') \<longleftrightarrow>
    put_users (users s @ [new_user E i username email verified hash gid login role])
      (scan_user_source (new_user E i username email verified hash gid login role)) s = Inr (user, s')
    \<and> \<not> fault E ''create user''"
  by (auto simp: insertUser_def io_Inr Let_def)

lemma invitations_unique_upd:
  "(\<And>i. i_id (f i) = i_id i) \<Longrightarrow> (\<And>i. i_token_hash (f i) = i_token_hash i) \<Longrightarrow>
     invitations_unique (upd P f xs) = invitations_unique xs"
  by (simp add: invitations_unique_def)

lemma AcceptInvitation_Inr:
  assumes "AcceptInvitation E raw username password now s = (Inr user, s')"
  shows "\<exists>i hash. find (acceptable E raw now) (invitations s) = Some i \<and>
    passwordCredential E username password = Inr (TrimSpace username, hash) \<and>
    (let u = new_user E (randomUUID E 0) (TrimSpace username) (ToLower E (TrimSpace (i_email i))) True (Some hash)
        None [] (i_role i) in
     user = scan_user_source u \<and> users_unique (users s @ [u]) \<and>
     s' = s\<lparr>invitations := upd (acceptable E raw now) (\<lambda>i. i\<lparr>i_accepted := Some now\<rparr>) (invitations s),
            users := users s @ [u]\<rparr>)"
  using assms unfolding AcceptInvitation_def Let_def
  by (auto simp: io_Inr liftS_Inr insertUser_Inr put_Inr passwordCredential_Inr)

subsection \<open>Invitations and passwords\<close>

text \<open>C26. An invitation creates exactly one account, with the address and the role it was issued for,
  and is then spent: the same link is never accepted again. An attempt that fails, for instance because
  the chosen username is taken, leaves the invitation and everything else as it was.\<close>

theorem invitation_accepted_once:
  assumes run: "AcceptInvitation E raw username password now s = (r, s')" and ok: "schema_ok s"
  shows "(\<forall>e. r = Inl e \<longrightarrow> s' = s) \<and>
    (\<forall>user. r = Inr user \<longrightarrow>
      (\<exists>i \<in> set (invitations s). \<exists>u. acceptable E raw now i \<and> users s' = users s @ [u] \<and>
         user = scan_user_source u \<and> u_role u = i_role i \<and> u_email u = ToLower E (TrimSpace (i_email i)) \<and>
         u_username u = TrimSpace username) \<and>
      (\<forall>E' username' password' now' user'. sha256 E' = sha256 E \<longrightarrow>
         fst (AcceptInvitation E' raw username' password' now' s') \<noteq> Inr user'))"
proof (cases r)
  case (Inl e)
  have "s' = s"
    using run unfolding Inl AcceptInvitation_def
    by (cases "passwordCredential E username password")
      (auto simp: bindS_def liftS_def failS_def retS_def split: prod.splits dest: tx_Inl)
  with Inl show ?thesis by simp
next
  case (Inr user)
  from AcceptInvitation_Inr [OF run [unfolded Inr]] obtain i u where
    i: "find (acceptable E raw now) (invitations s) = Some i"
    and u: "users s' = users s @ [u]" "user = scan_user_source u" "u_role u = i_role i"
      "u_email u = ToLower E (TrimSpace (i_email i))" "u_username u = TrimSpace username"
    and inv: "invitations s' = upd (acceptable E raw now) (\<lambda>i. i\<lparr>i_accepted := Some now\<rparr>) (invitations s)"
    by (auto simp: Let_def new_user_def)
  have member: "i \<in> set (invitations s)" "acceptable E raw now i" using find_SomeD [OF i] by auto
  have uniq: "distinct (map i_token_hash (invitations s))"
    using ok by (simp add: schema_ok_def invitations_unique_def)
  have spent: "\<not> acceptable E' raw now' x" if "sha256 E' = sha256 E" "x \<in> set (invitations s')" for E' now' x
  proof -
    from that(2) obtain y where y: "y \<in> set (invitations s)"
      "x = (if acceptable E raw now y then y\<lparr>i_accepted := Some now\<rparr> else y)"
      unfolding inv in_upd by blast
    show ?thesis
    proof (cases "i_token_hash y = sha256 E raw")
      case True
      then have "y = i" using member y(1) distinct_map_inj_onD [OF uniq] by (auto simp: acceptable_def)
      with y(2) member(2) show ?thesis by (simp add: acceptable_def)
    next
      case False
      with y(2) that(1) show ?thesis by (auto simp: acceptable_def)
    qed
  qed
  have "fst (AcceptInvitation E' raw username' password' now' s') \<noteq> Inr user'" if "sha256 E' = sha256 E"
    for E' username' password' now' user'
  proof
    assume "fst (AcceptInvitation E' raw username' password' now' s') = Inr user'"
    then have "AcceptInvitation E' raw username' password' now' s' =
        (Inr user', snd (AcceptInvitation E' raw username' password' now' s'))" by (metis prod.collapse)
    from AcceptInvitation_Inr [OF this] obtain j where "find (acceptable E' raw now') (invitations s') = Some j" by blast
    with find_SomeD [OF this] spent [OF that] show False by blast
  qed
  with Inr u member show ?thesis by blast
qed

text \<open>A local account created with a password signs in with that password, as the account that was
  created, whenever the account store answers: the hash bcrypt generated matches its password.\<close>

theorem password_account_signs_in:
  assumes create: "CreatePasswordUser E username email password role s = (Inr user, s')"
    and bcrypt: "\<forall>p h. bcrypt_generate E p = Some h \<longrightarrow> h \<noteq> [] \<and> bcrypt_matches E' h p"
    and answered: "\<not> fault E' ''authenticate password''"
  shows "outcome (AuthenticatePassword E' username password s') = Inr user \<and>
    (\<forall>p. \<not> bcrypt_matches E' (the (bcrypt_generate E password)) p \<longrightarrow>
       outcome (AuthenticatePassword E' username p s') = Inl refused)"
proof -
  from create obtain hash where hash: "bcrypt_generate E password = Some hash"
    and put: "put_users (users s @ [new_user E (randomUUID E 0) (TrimSpace username) (ToLower E (TrimSpace email)) True
        (Some hash) None [] role]) (scan_user_source (new_user E (randomUUID E 0) (TrimSpace username)
        (ToLower E (TrimSpace email)) True (Some hash) None [] role)) s = Inr (user, s')"
    by (auto simp: CreatePasswordUser_def Let_def io_Inr liftS_Inr passwordCredential_Inr insertUser_Inr)
  let ?u = "new_user E (randomUUID E 0) (TrimSpace username) (ToLower E (TrimSpace email)) True (Some hash) None [] role"
  have s': "users s' = users s @ [?u]" "user = scan_user_source ?u" and uniq: "users_unique (users s')"
    using put by (auto simp: put_Inr)
  have u: "u_username ?u = TrimSpace username" "\<not> u_is_validation ?u" "u_disabled ?u = None"
    "u_password_hash ?u = Some hash" by (simp_all add: new_user_def)
  have "find (\<lambda>u. u_username u = TrimSpace username \<and> \<not> u_is_validation u) (users s') = Some ?u"
    using uniq u by (intro find_unique [where f = u_username]) (auto simp: users_unique_def s')
  with u s' hash bcrypt answered show ?thesis
    by (auto simp: AuthenticatePassword_def coalesce_def Let_def)
qed

text \<open>C27. Password sign-in accepts only an enabled account that is not a validation account, by its exact
  username and a matching password; every refusal is the same to the person; and whenever the account
  store answers, the password is compared with exactly one bcrypt hash, so that neither the answer nor
  the work done tells whether the account exists, is disabled or has no password.\<close>

theorem password_sign_in_opaque:
  assumes reference: "bcrypt_generate E ''shauth timing reference'' \<noteq> None"
  shows "(\<forall>user. outcome (AuthenticatePassword E username password s) = Inr user \<longrightarrow>
       (\<exists>u \<in> set (users s). user = scan_user_source u \<and> u_username u = TrimSpace username \<and>
          u_disabled u = None \<and> \<not> u_is_validation u \<and>
          (\<exists>h. u_password_hash u = Some h \<and> h \<noteq> [] \<and> bcrypt_matches E h password))) \<and>
     (\<forall>e. outcome (AuthenticatePassword E username password s) = Inl e \<longrightarrow> e = refused) \<and>
     (\<not> fault E ''authenticate password'' \<longrightarrow>
        length (compared (AuthenticatePassword E username password s)) = 1)"
proof -
  let ?find = "find (\<lambda>u. u_username u = TrimSpace username \<and> \<not> u_is_validation u) (users s)"
  obtain h where h: "bcrypt_generate E ''shauth timing reference'' = Some h" using reference by auto
  show ?thesis
  proof (cases ?find)
    case None
    then show ?thesis using h by (simp add: AuthenticatePassword_def refuse_equalized_def)
  next
    case (Some u)
    with h find_SomeD [OF Some] show ?thesis
      by (auto simp: AuthenticatePassword_def refuse_equalized_def Let_def coalesce_def split: option.splits)
  qed
qed

subsection \<open>Federated sign-in\<close>

lemma update_user_Inr: "update_user E l P f s = (Inr r, s') \<longleftrightarrow> \<not> fault E l \<and>
    (case find P (users s) of None \<Rightarrow> r = None \<and> s' = s
     | Some u \<Rightarrow> r = Some (scan_user (f u)) \<and> put_users (upd P f (users s)) r s = Inr (r, s'))"
  by (auto simp: update_user_def stmt_Inr put_Inr split: option.splits)

lemma entra_unique:
  assumes "schema_ok s" "u \<in> set (users s)" "v \<in> set (users s)" "entra_identity t ob u" "entra_identity t ob v"
  shows "u = v"
proof -
  have "distinct (somes (map entra_key (users s)))" "distinct (map u_id (users s))"
    using assms(1) by (simp_all add: schema_ok_def users_unique_def)
  moreover have "entra_key u = Some (t, ob)" "entra_key v = Some (t, ob)"
    using assms(4,5) by (auto simp: entra_key_def entra_identity_def)
  ultimately show ?thesis using assms(2,3) distinct_somes_map by metis
qed

lemma email_unique:
  "schema_ok s \<Longrightarrow> u \<in> set (users s) \<Longrightarrow> v \<in> set (users s) \<Longrightarrow> u_email u = u_email v \<Longrightarrow> u = v"
  unfolding schema_ok_def users_unique_def by (metis distinct_map_inj_onD)

lemma schema_user_ids: "schema_ok s \<Longrightarrow> distinct (map u_id (users s))"
  by (simp add: schema_ok_def users_unique_def)

text \<open>The three ways a Microsoft Entra ID sign-in succeeds.\<close>

lemma FindOrCreateEntraUser_Inr:
  assumes run: "FindOrCreateEntraUser E tenantID objectID username email0 verified s = (Inr user, s')"
    and ok: "schema_ok s"
  shows "\<exists>t ob. uuid_in E tenantID = Some t \<and> uuid_in E objectID = Some ob \<and>
    (let email = ToLower E (TrimSpace email0) in
     (\<exists>u \<in> set (users s). entra_identity t ob u \<and> user = scan_user (refresh_entra email verified u) \<and>
        u_disabled u = None \<and> users s' = upd (entra_identity t ob) (refresh_entra email verified) (users s)) \<or>
     (\<exists>u \<in> set (users s). linkable email verified u \<and> user = scan_user (link_entra t ob verified u) \<and>
        (\<forall>v \<in> set (users s). \<not> entra_identity t ob v) \<and>
        users s' = upd (linkable email verified) (link_entra t ob verified) (users s)) \<or>
     (\<exists>u. user = scan_user u \<and> users s' = users s @ [u] \<and> entra_identity t ob u \<and> u_role u = RoleDeveloper \<and>
        u_disabled u = None \<and> u_id u \<notin> u_id ` set (users s)))"
proof -
  let ?email = "ToLower E (TrimSpace email0)"
  from run obtain t ob found s1 where ids: "uuid_in E tenantID = Some t" "uuid_in E objectID = Some ob"
    and 1: "update_user E ''find Microsoft Entra ID user'' (entra_identity t ob) (refresh_entra ?email verified) s = (Inr found, s1)"
    and 2: "(case found of Some user \<Rightarrow> if DisabledAt user \<noteq> None then failS (Failed ''user is disabled'') else retS user
      | None \<Rightarrow> link_or_create_entra E t ob (TrimSpace username) ?email verified) s1 = (Inr user, s')"
    unfolding FindOrCreateEntraUser_def Let_def by (auto simp: io_Inr simp del: not_None_eq split: if_splits)
  show ?thesis
  proof (cases "find (entra_identity t ob) (users s)")
    case (Some u)
    with 1 have found: "found = Some (scan_user (refresh_entra ?email verified u))"
      and s1: "users s1 = upd (entra_identity t ob) (refresh_entra ?email verified) (users s)"
      by (auto simp: update_user_Inr put_Inr)
    have "user = scan_user (refresh_entra ?email verified u)" "s' = s1" "u_disabled u = None"
      using 2 found by (auto simp: io_Inr scan_user_def refresh_entra_def split: if_splits)
    with find_SomeD [OF Some] s1 ids show ?thesis unfolding Let_def by blast
  next
    case None
    with 1 have found: "found = None" "s1 = s" by (auto simp: update_user_Inr)
    have none: "\<forall>v \<in> set (users s). \<not> entra_identity t ob v" using find_NoneD [OF None] by blast
    show ?thesis
    proof (cases "find (linkable ?email verified) (users s)")
      case (Some u)
      with 2 found have "user = scan_user (link_entra t ob verified u)"
        "users s' = upd (linkable ?email verified) (link_entra t ob verified) (users s)"
        by (auto simp: link_or_create_entra_def io_Inr update_user_Inr put_Inr)
      with find_SomeD [OF Some] none ids show ?thesis unfolding Let_def by blast
    next
      case no_link: None
      let ?u = "entra_user E t ob (TrimSpace username) ?email verified"
      from 2 found no_link have put: "put_users (users s @ [?u]) (scan_user ?u) s = Inr (user, s')"
        by (auto simp: link_or_create_entra_def io_Inr update_user_Inr)
      then have "users_unique (users s @ [?u])" "users s' = users s @ [?u]" "user = scan_user ?u"
        by (simp_all add: put_Inr)
      then have "user = scan_user ?u \<and> users s' = users s @ [?u] \<and> entra_identity t ob ?u \<and> u_role ?u = RoleDeveloper \<and>
          u_disabled ?u = None \<and> u_id ?u \<notin> u_id ` set (users s)"
        by (auto simp: entra_identity_def entra_user_def new_user_def users_unique_def)
      with ids show ?thesis unfolding Let_def by blast
    qed
  qed
qed

text \<open>C28. A Microsoft Entra ID sign-in only ever reaches the account bound to that tenant and object, an
  enabled local account whose verified address Entra has verified too, or a new developer account. It
  never reaches a GitHub account, a validation account or an account by an unverified address; it
  changes no account's role and no other account at all.\<close>

theorem entra_never_inherits:
  assumes run: "FindOrCreateEntraUser E tenantID objectID username email verified s = (Inr user, s')"
    and ok: "schema_ok s"
  shows "\<exists>t ob. \<exists>u \<in> set (users s'). uuid_in E tenantID = Some t \<and> uuid_in E objectID = Some ob \<and>
    u_id u = ID user \<and> entra_identity t ob u \<and> u_disabled u = None \<and>
    (\<forall>v \<in> set (users s). u_id v = u_id u \<longrightarrow> u_role v = u_role u \<and>
       (entra_identity t ob v \<or> linkable (ToLower E (TrimSpace email)) verified v)) \<and>
    ((\<forall>v \<in> set (users s). u_id v \<noteq> u_id u) \<longrightarrow> u_role u = RoleDeveloper) \<and>
    (\<forall>v \<in> set (users s). u_id v \<noteq> u_id u \<longrightarrow> v \<in> set (users s'))"
proof -
  let ?email = "ToLower E (TrimSpace email)"
  from FindOrCreateEntraUser_Inr [OF run ok] obtain t ob where
    ids: "uuid_in E tenantID = Some t" "uuid_in E objectID = Some ob" and
    "(\<exists>u \<in> set (users s). entra_identity t ob u \<and> user = scan_user (refresh_entra ?email verified u) \<and>
        u_disabled u = None \<and> users s' = upd (entra_identity t ob) (refresh_entra ?email verified) (users s)) \<or>
     (\<exists>u \<in> set (users s). linkable ?email verified u \<and> user = scan_user (link_entra t ob verified u) \<and>
        (\<forall>v \<in> set (users s). \<not> entra_identity t ob v) \<and>
        users s' = upd (linkable ?email verified) (link_entra t ob verified) (users s)) \<or>
     (\<exists>u. user = scan_user u \<and> users s' = users s @ [u] \<and> entra_identity t ob u \<and> u_role u = RoleDeveloper \<and>
        u_disabled u = None \<and> u_id u \<notin> u_id ` set (users s))" unfolding Let_def by blast
  then consider
    (again) u where "u \<in> set (users s)" "entra_identity t ob u" "user = scan_user (refresh_entra ?email verified u)"
      "u_disabled u = None" "users s' = upd (entra_identity t ob) (refresh_entra ?email verified) (users s)"
  | (link) u where "u \<in> set (users s)" "linkable ?email verified u" "user = scan_user (link_entra t ob verified u)"
      "users s' = upd (linkable ?email verified) (link_entra t ob verified) (users s)"
  | (new) u where "user = scan_user u" "users s' = users s @ [u]" "entra_identity t ob u" "u_role u = RoleDeveloper"
      "u_disabled u = None" "u_id u \<notin> u_id ` set (users s)" by blast
  then show ?thesis
  proof cases
    case again
    let ?u = "refresh_entra ?email verified u"
    have one: "x = u" if "x \<in> set (users s)" "entra_identity t ob x" for x
      using entra_unique [OF ok that(1) again(1) that(2) again(2)] .
    have "?u \<in> set (users s')" using again(1,2) by (auto simp: again(5) in_upd)
    moreover have "v = u" if "v \<in> set (users s)" "u_id v = u_id u" for v
      using schema_user_unique [OF ok that(1) again(1) that(2)] .
    moreover have "v \<in> set (users s')" if "v \<in> set (users s)" "v \<noteq> u" for v
      using that one by (auto simp: again(5) in_upd intro!: bexI [of _ v])
    ultimately show ?thesis
      using again(1-4) ids by - (rule exI [of _ t], rule exI [of _ ob], rule bexI [of _ ?u],
        auto simp: refresh_entra_def scan_user_def entra_identity_def)
  next
    case link
    let ?u = "link_entra t ob verified u"
    have one: "x = u" if "x \<in> set (users s)" "linkable ?email verified x" for x
      using email_unique [OF ok that(1) link(1)] that(2) link(2) by (auto simp: linkable_def)
    have "?u \<in> set (users s')" using link(1,2) by (auto simp: link(4) in_upd)
    moreover have "v = u" if "v \<in> set (users s)" "u_id v = u_id u" for v
      using schema_user_unique [OF ok that(1) link(1) that(2)] .
    moreover have "v \<in> set (users s')" if "v \<in> set (users s)" "v \<noteq> u" for v
      using that one by (auto simp: link(4) in_upd intro!: bexI [of _ v])
    ultimately show ?thesis
      using link(1-3) ids by - (rule exI [of _ t], rule exI [of _ ob], rule bexI [of _ ?u],
        auto simp: link_entra_def scan_user_def entra_identity_def linkable_def)
  next
    case new
    then have "\<forall>v \<in> set (users s). u_id v \<noteq> u_id u" by (metis imageI)
    with new show ?thesis
      using ids by - (rule exI [of _ t], rule exI [of _ ob], rule bexI [of _ u], auto simp: scan_user_def)
  qed
qed

lemma github_unique:
  assumes "schema_ok s" "u \<in> set (users s)" "v \<in> set (users s)" "u_github_id u = Some g" "u_github_id v = Some g"
  shows "u = v"
proof -
  have "distinct (somes (map u_github_id (users s)))" "distinct (map u_id (users s))"
    using assms(1) by (simp_all add: schema_ok_def users_unique_def)
  with assms(2-5) show ?thesis using distinct_somes_map by metis
qed

definition other_login :: "env \<Rightarrow> string \<Rightarrow> int \<Rightarrow> user_row \<Rightarrow> bool" where
  "other_login E login gid u \<longleftrightarrow>
     map_option (pg_lower E) (u_github_login u) = Some (pg_lower E login) \<and> u_github_id u \<noteq> Some gid"

lemma release_login_Inr:
  assumes "release_login E login gid s = (Inr x, s')" "schema_ok s"
  shows "users s' = upd (other_login E login gid) (\<lambda>u. u\<lparr>u_github_login := None\<rparr>) (users s) \<and> schema_ok s'"
proof -
  from assms(1) have put: "put_users (upd (other_login E login gid) (\<lambda>u. u\<lparr>u_github_login := None\<rparr>) (users s)) () s = Inr (x, s')"
    by (simp add: release_login_def other_login_def [abs_def] io_Inr)
  moreover have "keeps_schema s s'" using put by (auto elim: put_users_schema)
  ultimately show ?thesis using assms(2) by (simp add: put_Inr keeps_schema_def)
qed

text \<open>After the release nobody else records the login.\<close>

lemma released_login:
  assumes "v \<in> set (upd (other_login E login gid) (\<lambda>u. u\<lparr>u_github_login := None\<rparr>) us)" "u_github_id v \<noteq> Some gid"
  shows "map_option (pg_lower E) (u_github_login v) \<noteq> Some (pg_lower E login)"
proof -
  from assms(1) obtain x where x: "v = (if other_login E login gid x then x\<lparr>u_github_login := None\<rparr> else x)"
    unfolding in_upd by blast
  show ?thesis
  proof (cases "other_login E login gid x")
    case True
    with x have "u_github_login v = None" by simp
    then show ?thesis by simp
  next
    case False
    with x assms(2) show ?thesis by (auto simp: other_login_def)
  qed
qed

lemma released_keeps:
  "v \<in> set us \<Longrightarrow> v \<in> set (upd (other_login E login gid) (\<lambda>u. u\<lparr>u_github_login := None\<rparr>) us) \<or>
     v\<lparr>u_github_login := None\<rparr> \<in> set (upd (other_login E login gid) (\<lambda>u. u\<lparr>u_github_login := None\<rparr>) us)"
  unfolding in_upd by (cases "other_login E login gid v") (metis (full_types))+

lemma released_same:
  "u_github_id v = Some gid \<Longrightarrow> v \<in> set (upd (other_login E login gid) (\<lambda>u. u\<lparr>u_github_login := None\<rparr>) us) \<longleftrightarrow> v \<in> set us"
  unfolding in_upd other_login_def by (auto split: if_splits)

lemma synchronize_Inr:
  assumes "synchronize_GitHub E (scan_user x) login email role s = (Inr (user, demoted), s')"
    and "login \<noteq> []" "x \<in> set (users s)" "schema_ok s"
  shows "ID user = u_id x \<and> demoted = (u_role x = RoleAdmin \<and> role \<noteq> RoleAdmin) \<and>
    (\<exists>u. u_id u = u_id x \<and> u_github_id u = u_github_id x \<and> u_disabled u = u_disabled x \<and> u_role u = role \<and>
       u_github_login u = Some login \<and> u \<in> set (users s') \<and>
       (\<forall>v \<in> set (users s). v \<noteq> x \<longrightarrow> v \<in> set (users s')) \<and>
       (\<forall>v \<in> set (users s'). v \<noteq> u \<longrightarrow> v \<in> set (users s) \<and> v \<noteq> x))"
proof (cases "u_role x \<noteq> role \<or> u_email x \<noteq> email \<or> \<not> u_email_verified x \<or> coalesce (u_github_login x) \<noteq> login")
  case False
  with assms(1,2) have "user = scan_user x" "s' = s" "demoted = (u_role x = RoleAdmin \<and> role \<noteq> RoleAdmin)"
    by (auto simp: synchronize_GitHub_def scan_user_def io_Inr Let_def)
  moreover have "u_github_login x = Some login" using False assms(2) by (auto simp: coalesce_def split: option.splits)
  ultimately show ?thesis using False assms(3) by (auto simp: scan_user_def intro!: exI [of _ x])
next
  case True
  let ?email = "if email = [] then u_email x else email"
  let ?f = "\<lambda>u. u\<lparr>u_role := role, u_email := ?email, u_email_verified := True, u_github_login := Some login\<rparr>"
  from True assms(1) have s': "users s' = upd (\<lambda>u. u_id u = u_id x) ?f (users s)" "ID user = u_id x"
    "demoted = (u_role x = RoleAdmin \<and> role \<noteq> RoleAdmin)"
    by (auto simp: synchronize_GitHub_def scan_user_def io_Inr Let_def put_Inr split: if_splits)
  have one: "v = x" if "v \<in> set (users s)" "u_id v = u_id x" for v
    using schema_user_unique [OF assms(4) that(1) assms(3) that(2)] .
  have "?f x \<in> set (users s')" unfolding s'(1) in_upd using assms(3) by (intro bexI [of _ x]) simp_all
  moreover have "v \<in> set (users s')" if "v \<in> set (users s)" "v \<noteq> x" for v
    using that one by (auto simp: s' in_upd intro!: bexI [of _ v])
  moreover have "v \<in> set (users s) \<and> v \<noteq> x" if v: "v \<in> set (users s')" "v \<noteq> ?f x" for v
  proof -
    obtain w where w: "w \<in> set (users s)" "v = (if u_id w = u_id x then ?f w else w)"
      using v(1) unfolding s'(1) in_upd by blast
    with one [OF w(1)] v(2) have "u_id w \<noteq> u_id x" by auto
    with w show ?thesis by auto
  qed
  ultimately show ?thesis using s' by (intro conjI exI [of _ "?f x"]) simp_all
qed

text \<open>C29. A GitHub sign-in reaches the account federated with that numeric GitHub ID, and no other: the
  account is enabled, has the role the access rules gave it, and is the only one that records the
  login. Accounts of other GitHub IDs keep everything except a login that was reassigned. Losing the
  administrator role is reported exactly when it happens, so that old sessions can be ended.\<close>

theorem github_sign_in_by_id:
  assumes run: "FindOrCreateGitHubUser E gid login email role s = (Inr (user, demoted), s')" and ok: "schema_ok s"
  shows "\<exists>u \<in> set (users s'). u_id u = ID user \<and> u_github_id u = Some gid \<and>
    u_github_login u = Some (TrimSpace login) \<and> u_role u = role \<and> u_disabled u = None \<and>
    (\<forall>v \<in> set (users s'). v \<noteq> u \<longrightarrow> u_github_id v \<noteq> Some gid \<and>
       map_option (pg_lower E) (u_github_login v) \<noteq> Some (pg_lower E (TrimSpace login))) \<and>
    (\<forall>v \<in> set (users s). u_github_id v \<noteq> Some gid \<longrightarrow>
       v \<in> set (users s') \<or> v\<lparr>u_github_login := None\<rparr> \<in> set (users s')) \<and>
    (\<forall>v \<in> set (users s). u_github_id v = Some gid \<longrightarrow> u_id v = u_id u \<and> u_disabled v = None) \<and>
    demoted = ((\<exists>v \<in> set (users s). u_github_id v = Some gid \<and> u_role v = RoleAdmin) \<and> role \<noteq> RoleAdmin)"
proof -
  let ?login = "TrimSpace login"
  let ?us = "upd (other_login E ?login gid) (\<lambda>u. u\<lparr>u_github_login := None\<rparr>) (users s)"
  from run obtain t where login: "?login \<noteq> []" and rel: "release_login E ?login gid s = (Inr (), t)"
    and rest: "(case map_option scan_user (find (\<lambda>u. u_github_id u = Some gid) (users t)) of
        Some user \<Rightarrow> bindS (guardS (DisabledAt user = None) ErrUserInactive) (\<lambda>_.
          synchronize_GitHub E user ?login (ToLower E (TrimSpace email)) role)
      | None \<Rightarrow> create_GitHub E gid ?login (ToLower E (TrimSpace email)) role) t = (Inr (user, demoted), s')"
    unfolding FindOrCreateGitHubUser_def Let_def by (auto simp: io_Inr split: if_splits)
  have t: "users t = ?us" "schema_ok t" using release_login_Inr [OF rel ok] by auto
  have keep: "v \<in> set (users t) \<or> v\<lparr>u_github_login := None\<rparr> \<in> set (users t)" if "v \<in> set (users s)" for v
    using released_keeps [OF that] by (simp add: t(1))
  have same: "v \<in> set (users s) \<longleftrightarrow> v \<in> set (users t)" if "u_github_id v = Some gid" for v
    using released_same [OF that] by (simp add: t(1))
  show ?thesis
  proof (cases "find (\<lambda>u. u_github_id u = Some gid) (users t)")
    case (Some x)
    have x: "x \<in> set (users t)" "u_github_id x = Some gid" using find_SomeD [OF Some] by auto
    have only: "v = x" if "v \<in> set (users t)" "u_github_id v = Some gid" for v
      using github_unique [OF t(2) that(1) x(1) that(2) x(2)] .
    from rest Some have enabled: "u_disabled x = None"
      and sync: "synchronize_GitHub E (scan_user x) ?login (ToLower E (TrimSpace email)) role t = (Inr (user, demoted), s')"
      by (auto simp: io_Inr scan_user_def)
    from synchronize_Inr [OF sync login x(1) t(2)] obtain u where
      u: "ID user = u_id x" "demoted = (u_role x = RoleAdmin \<and> role \<noteq> RoleAdmin)" "u_id u = u_id x"
      "u_github_id u = Some gid" "u_disabled u = None" "u_role u = role" "u_github_login u = Some ?login"
      "u \<in> set (users s')" "\<forall>v \<in> set (users t). v \<noteq> x \<longrightarrow> v \<in> set (users s')"
      "\<forall>v \<in> set (users s'). v \<noteq> u \<longrightarrow> v \<in> set (users t) \<and> v \<noteq> x"
      using x(2) enabled by auto
    have others: "u_github_id v \<noteq> Some gid \<and> map_option (pg_lower E) (u_github_login v) \<noteq> Some (pg_lower E ?login)"
      if v: "v \<in> set (users s')" "v \<noteq> u" for v
    proof -
      have "v \<in> set (users t)" "v \<noteq> x" using u(10) v by auto
      then have "u_github_id v \<noteq> Some gid" using only by blast
      with released_login [of v] \<open>v \<in> set (users t)\<close> show ?thesis by (simp add: t(1))
    qed
    have kept: "v \<in> set (users s') \<or> v\<lparr>u_github_login := None\<rparr> \<in> set (users s')"
      if "v \<in> set (users s)" "u_github_id v \<noteq> Some gid" for v
      using keep [OF that(1)] u(9) that(2) x(2) by auto
    have mine: "v = x" if "v \<in> set (users s)" "u_github_id v = Some gid" for v
      using only same [OF that(2)] that by blast
    have xs: "x \<in> set (users s)" using same [OF x(2)] x(1) by blast
    have "demoted = ((\<exists>v \<in> set (users s). u_github_id v = Some gid \<and> u_role v = RoleAdmin) \<and> role \<noteq> RoleAdmin)"
      unfolding u(2) using xs x(2) mine by blast
    moreover have "u_id v = u_id u \<and> u_disabled v = None" if "v \<in> set (users s)" "u_github_id v = Some gid" for v
      using mine [OF that] u(3) enabled by simp
    ultimately show ?thesis
      using u(1,3-8) others kept by (intro bexI [of _ u] conjI ballI impI) simp_all
  next
    case None
    have none: "u_github_id v \<noteq> Some gid" if "v \<in> set (users t)" for v using find_NoneD [OF None that] .
    then have none_s: "u_github_id v \<noteq> Some gid" if "v \<in> set (users s)" for v using same that by blast
    let ?u = "\<lambda>name. new_user E (randomUUID E 0) name (ToLower E (TrimSpace email)) True None (Some gid) ?login role"
    from rest None obtain name where s': "users s' = users t @ [?u name]" "user = scan_user_source (?u name)" "\<not> demoted"
      by (auto simp: create_GitHub_def io_Inr insertUser_Inr put_Inr Let_def)
    have u: "u_github_id (?u name) = Some gid" "u_github_login (?u name) = Some ?login" "u_role (?u name) = role"
      "u_disabled (?u name) = None" "u_id (?u name) = ID user"
      using login by (simp_all add: new_user_def nullable_def s'(2) scan_user_source_def scan_user_def)
    have others: "map_option (pg_lower E) (u_github_login v) \<noteq> Some (pg_lower E ?login)" if "v \<in> set (users t)" for v
      using released_login [of v] that none [OF that] by (simp add: t(1))
    have kept: "v \<in> set (users s') \<or> v\<lparr>u_github_login := None\<rparr> \<in> set (users s')" if "v \<in> set (users s)" for v
      using keep [OF that] by (auto simp: s'(1))
    show ?thesis
    proof (intro bexI [of _ "?u name"] conjI ballI impI)
      fix v assume "v \<in> set (users s')" "v \<noteq> ?u name"
      then have "v \<in> set (users t)" by (auto simp: s'(1))
      then show "u_github_id v \<noteq> Some gid"
        "map_option (pg_lower E) (u_github_login v) \<noteq> Some (pg_lower E ?login)" using none others by auto
    qed (use u none_s kept s' in auto)
  qed
qed

subsection \<open>Witnesses\<close>

definition example_invitation :: invitation_row where
  "example_invitation = \<lparr>i_id = ''i1'', i_email = ''Carol@example.org'', i_role = ''developer'',
     i_token_hash = ''#secret'', i_invited_by = None, i_created = 0, i_expires = 100, i_accepted = None,
     i_revoked = None\<rparr>"

definition example_invited_db :: db where
  "example_invited_db = example_db\<lparr>invitations := [example_invitation]\<rparr>"

lemma example_invited_tables [simp]:
  "users example_invited_db = [example_user ''u1'' ''alice'', example_user ''u2'' ''bob'']"
  "invitations example_invited_db = [example_invitation]"
  by (simp_all add: example_invited_db_def example_db_def)

lemma example_invited_ok: "schema_ok example_invited_db"
  using example_db_ok by (simp add: schema_ok_def example_invited_db_def invitations_unique_def)

lemma carol_trim: "TrimSpace ''carol'' = ''carol''" "TrimSpace ''Carol@example.org'' = ''Carol@example.org''"
  "TrimSpace '' carol '' = ''carol''"
  by code_simp+

lemma carol_lower: "ToLower example_env ''Carol@example.org'' = ''carol@example.org''"
  by code_simp

lemma example_credential:
  "passwordCredential example_env '' carol '' ''correct horse battery'' = Inr (''carol'', ''$correct horse battery'')"
  by (simp add: passwordCredential_def Let_def carol_trim maxPasswordBytes_def)

definition carol :: "string \<Rightarrow> user_row" where
  "carol email = new_user example_env ''00000000-0000-4000-8000-000000000000'' ''carol'' email True
     (Some ''$correct horse battery'') None [] ''developer''"

lemma carol_unique:
  "users_unique [example_user ''u1'' ''alice'', example_user ''u2'' ''bob'', carol ''carol@example.org'']"
  "users_check [example_user ''u1'' ''alice'', example_user ''u2'' ''bob'', carol ''carol@example.org'']"
  by (simp_all add: users_unique_def users_check_def carol_def new_user_def example_user_def entra_key_def
      nullable_def known_role_def RoleDeveloper_def)

lemma carol_inserted:
  "users s = [example_user ''u1'' ''alice'', example_user ''u2'' ''bob''] \<Longrightarrow>
   insertUser example_env (randomUUID example_env 0) ''carol'' ''carol@example.org'' True
      (Some ''$correct horse battery'') None [] ''developer'' s =
     (Inr (scan_user_source (carol ''carol@example.org'')), s\<lparr>users := users s @ [carol ''carol@example.org'']\<rparr>)"
  using carol_unique by (simp add: insertUser_Inr put_Inr example_uuid carol_def)

lemma example_acceptance:
  "\<exists>t. AcceptInvitation example_env ''secret'' '' carol '' ''correct horse battery'' 1 example_invited_db =
     (Inr (scan_user_source (carol ''carol@example.org'')), t)"
proof -
  have accepts: "acceptable example_env ''secret'' 1 example_invitation"
    by (simp add: acceptable_def example_invitation_def)
  have inv: "i_email example_invitation = ''Carol@example.org''" "i_role example_invitation = ''developer''"
    "i_token_hash example_invitation = ''#secret''" "i_invited_by example_invitation = None"
    "i_id example_invitation = ''i1''"
    by (simp_all add: example_invitation_def)
  show ?thesis
    by (simp add: AcceptInvitation_def example_credential liftS_def tx_def io_defs put_invitations_def accepts inv
        invitations_unique_def known_role_def RoleDeveloper_def carol_trim carol_lower carol_inserted
        del: One_nat_def)
qed

theorem invitation_accepted_once_witness:
  "\<exists>t. AcceptInvitation example_env ''secret'' '' carol '' ''correct horse battery'' 1 example_invited_db =
       (Inr (scan_user_source (carol ''carol@example.org'')), t) \<and>
     fst (AcceptInvitation example_env ''secret'' ''dave'' ''correct horse battery'' 2 t) \<noteq> Inr zero_user"
proof -
  obtain t where t: "AcceptInvitation example_env ''secret'' '' carol '' ''correct horse battery'' 1 example_invited_db =
      (Inr (scan_user_source (carol ''carol@example.org'')), t)"
    using example_acceptance by blast
  with invitation_accepted_once [OF t example_invited_ok] show ?thesis by blast
qed

lemma example_creation:
  "CreatePasswordUser example_env '' carol '' ''Carol@example.org'' ''correct horse battery'' ''developer'' example_db =
     (Inr (scan_user_source (carol ''carol@example.org'')),
      example_db\<lparr>users := users example_db @ [carol ''carol@example.org'']\<rparr>)"
proof -
  have "users example_db = [example_user ''u1'' ''alice'', example_user ''u2'' ''bob'']" by (simp add: example_db_def)
  from carol_inserted [OF this] show ?thesis
    by (simp add: CreatePasswordUser_def Let_def carol_trim carol_lower example_credential bindS_def liftS_def
        guardS_def retS_def RoleDeveloper_def)
qed

theorem password_account_signs_in_witness:
  "outcome (AuthenticatePassword example_env '' carol '' ''correct horse battery''
      (example_db\<lparr>users := users example_db @ [carol ''carol@example.org'']\<rparr>)) =
     Inr (scan_user_source (carol ''carol@example.org'')) \<and>
   outcome (AuthenticatePassword example_env '' carol '' ''wrong''
      (example_db\<lparr>users := users example_db @ [carol ''carol@example.org'']\<rparr>)) = Inl refused"
  using password_account_signs_in [OF example_creation, of example_env] by simp

theorem password_sign_in_opaque_witness:
  "outcome (AuthenticatePassword example_env ''carol'' ''correct horse battery'' example_db) = Inl refused \<and>
   length (compared (AuthenticatePassword example_env ''carol'' ''correct horse battery'' example_db)) = 1"
proof -
  have "find (\<lambda>u. u_username u = ''carol'' \<and> \<not> u_is_validation u) (users example_db) = None"
    by (simp add: example_db_def example_user_def)
  then have "\<exists>e. outcome (AuthenticatePassword example_env ''carol'' ''correct horse battery'' example_db) = Inl e"
    by (simp add: AuthenticatePassword_def carol_trim refuse_equalized_def)
  moreover have "bcrypt_generate example_env ''shauth timing reference'' \<noteq> None" by simp
  note password_sign_in_opaque [OF this, of "''carol''" "''correct horse battery''" example_db]
  ultimately show ?thesis by auto
qed

lemma example_entra_claims: "TrimSpace ''alice'' = ''alice''" "TrimSpace ''alice@example.org'' = ''alice@example.org''"
  "ToLower example_env ''alice@example.org'' = ''alice@example.org''" "TrimSpace ''moved@example.org'' = ''moved@example.org''"
  "ToLower example_env ''moved@example.org'' = ''moved@example.org''"
  by code_simp+

lemma example_entra_run:
  "\<exists>t. FindOrCreateEntraUser example_env ''t1'' ''o1'' ''alice'' ''alice@example.org'' True example_db =
     (Inr (scan_user (link_entra ''t1'' ''o1'' True (example_user ''u1'' ''alice''))), t)"
proof -
  have no: "find (entra_identity ''t1'' ''o1'') (users example_db) = None"
    by (simp add: example_db_def example_user_def entra_identity_def)
  have yes: "find (linkable ''alice@example.org'' True) (users example_db) = Some (example_user ''u1'' ''alice'')"
    by (simp add: example_db_def example_user_def linkable_def)
  have ok: "users_unique (upd (linkable ''alice@example.org'' True) (link_entra ''t1'' ''o1'' True) (users example_db))"
    "users_check (upd (linkable ''alice@example.org'' True) (link_entra ''t1'' ''o1'' True) (users example_db))"
    by (simp_all add: example_db_def example_user_def linkable_def link_entra_def users_unique_def users_check_def
        known_role_def RoleDeveloper_def entra_key_def)
  show ?thesis
    by (simp add: FindOrCreateEntraUser_def Let_def example_entra_claims bindS_def uuid_arg_def retS_def update_user_def
        stmt_def no yes link_or_create_entra_def put_users_def ok)
qed

theorem entra_never_inherits_witness:
  "\<exists>r t. FindOrCreateEntraUser example_env ''t1'' ''o1'' ''alice'' ''alice@example.org'' True example_db = (Inr r, t) \<and>
     (\<exists>u \<in> set (users t). u_id u = ID r \<and> entra_identity ''t1'' ''o1'' u \<and> u_disabled u = None)"
proof -
  obtain t where t: "FindOrCreateEntraUser example_env ''t1'' ''o1'' ''alice'' ''alice@example.org'' True example_db =
     (Inr (scan_user (link_entra ''t1'' ''o1'' True (example_user ''u1'' ''alice''))), t)"
    using example_entra_run by blast
  with entra_never_inherits [OF t example_db_ok] show ?thesis by auto
qed

lemma example_github_run:
  "\<exists>r t. FindOrCreateGitHubUser example_env 7 '' carol '' ''Carol@example.org'' ''admin'' example_db = (Inr (r, False), t)"
proof -
  let ?u = "new_user example_env (randomUUID example_env 0) ''carol'' ''carol@example.org'' True None (Some 7) ''carol'' ''admin''"
  have users: "users example_db = [example_user ''u1'' ''alice'', example_user ''u2'' ''bob'']" by (simp add: example_db_def)
  have ok: "users_unique [example_user ''u1'' ''alice'', example_user ''u2'' ''bob'', ?u]"
    "users_check [example_user ''u1'' ''alice'', example_user ''u2'' ''bob'', ?u]"
    "users_unique (users example_db)" "users_check (users example_db)"
    by (simp_all add: users_unique_def users_check_def users new_user_def example_user_def entra_key_def
        nullable_def known_role_def RoleDeveloper_def RoleAdmin_def example_uuid)
  have rel: "release_login example_env ''carol'' 7 example_db = (Inr (), example_db)"
    using ok(3,4) by (simp add: release_login_def stmt_def put_users_def users example_user_def)
  have ids: "u_github_id (example_user i n) = None" "u_username (example_user i n) = n" for i n
    by (simp_all add: example_user_def)
  show ?thesis
    using ok by (simp add: FindOrCreateGitHubUser_def Let_def carol_trim carol_lower tx_def bindS_def rel query_def
        stmt_def users ids create_GitHub_def guardS_def retS_def insertUser_def classified_def put_users_def)
qed

theorem github_sign_in_by_id_witness:
  "\<exists>r t. FindOrCreateGitHubUser example_env 7 '' carol '' ''Carol@example.org'' ''admin'' example_db = (Inr (r, False), t) \<and>
     (\<exists>u \<in> set (users t). u_id u = ID r \<and> u_github_id u = Some 7 \<and> u_role u = ''admin'' \<and> u_disabled u = None)"
proof -
  obtain r t where t: "FindOrCreateGitHubUser example_env 7 '' carol '' ''Carol@example.org'' ''admin'' example_db =
      (Inr (r, False), t)"
    using example_github_run by blast
  with github_sign_in_by_id [OF t example_db_ok] show ?thesis by blast
qed

subsection \<open>What account operations leave alone\<close>

text \<open>
  A \<open>quiet\<close> operation writes outside the session tables and outside the validation queue: it keeps
  the schema's constraints, every session, every run and the accounts checked out for runs.
\<close>

definition quiet :: "db \<Rightarrow> db \<Rightarrow> bool" where
  "quiet s s' \<longleftrightarrow> same_pool s s' \<and> keeps_schema s s' \<and> sessions s' = sessions s"

interpretation qt: contract quiet
  by unfold_locales (auto simp: quiet_def same_pool_def keeps_schema_def)

lemma pool_columns: "pool us = {(v, i). (v, Some i) \<in> set (map (\<lambda>u. (u_is_validation u, u_validation_run u)) us)}"
  by (auto simp: pool_def)

lemma pool_upd:
  "(\<And>u. u_is_validation (f u) = u_is_validation u \<and> u_validation_run (f u) = u_validation_run u) \<Longrightarrow>
     pool (upd P f us) = pool us"
  unfolding pool_columns by (subst map_upd) simp_all

lemma pool_new: "u_validation_run u = None \<Longrightarrow> pool (us @ [u]) = pool us"
  by (auto simp: pool_def)

lemma quiet_users:
  "put_users us x s = Inr (y, s') \<Longrightarrow> u_id ` set (users s) \<subseteq> u_id ` set us \<Longrightarrow> pool us = pool (users s) \<Longrightarrow>
     quiet s s'"
  using put_users_schema [of us x s y s'] by (auto simp: quiet_def same_pool_def put_Inr)

lemma quiet_new_user:
  "put_users (users s @ [u]) x s = Inr (y, s') \<Longrightarrow> u_validation_run u = None \<Longrightarrow> quiet s s'"
  by (erule quiet_users) (auto simp: pool_new)

lemma quiet_upd_users:
  "put_users (upd P f (users s)) x s = Inr (y, s') \<Longrightarrow>
     (\<And>u. u_id (f u) = u_id u \<and> u_is_validation (f u) = u_is_validation u \<and> u_validation_run (f u) = u_validation_run u) \<Longrightarrow>
     quiet s s'"
  by (erule quiet_users) (auto simp: pool_upd)

lemma quiet_invitations: "put_invitations xs x s = Inr (y, s') \<Longrightarrow> quiet s s'"
  using put_invitations_schema [of xs x s y s'] by (auto simp: quiet_def same_pool_def put_Inr)

lemma quiet_mappings: "put_mappings xs x s = Inr (y, s') \<Longrightarrow> quiet s s'"
  using put_mappings_schema [of xs x s y s'] by (auto simp: quiet_def same_pool_def put_Inr)

lemma quiet_bootstraps: "put_bootstraps xs x s = Inr (y, s') \<Longrightarrow> quiet s s'"
  using put_bootstraps_schema [of xs x s y s'] by (auto simp: quiet_def same_pool_def put_Inr)

lemma quiet_audits: "put_audits xs x s = Inr (y, s') \<Longrightarrow> quiet s s'"
  using put_audits_schema [of xs x s y s'] by (auto simp: quiet_def same_pool_def put_Inr)

lemma quiet_metadata: "quiet s (s\<lparr>metadata := x\<rparr>)"
  by (simp add: quiet_def same_pool_def schema_metadata)

lemma quiet_keeps_queue: "obeys quiet m \<Longrightarrow> obeys keeps_queue m"
  by (auto simp: obeys_def quiet_def intro: same_pool_keeps)

lemma quiet_sessions_mono: "obeys quiet m \<Longrightarrow> obeys sessions_mono m"
  by (auto simp: obeys_def quiet_def intro: sessions_mono_same)

lemma new_user_unbound [simp]: "u_validation_run (new_user E i n e v h g l r) = None"
  by (simp add: new_user_def)

lemma liftS_quiet: "obeys quiet (liftS r)"
  by (rule qt.keeps_readonly) simp

lemma insertUser_quiet: "obeys quiet (insertUser E i n e v h g l r)"
  unfolding insertUser_def by (intro qt.keeps qt.keeps_stmt) (auto simp: Let_def elim!: quiet_new_user)

lemma CreatePasswordUser_quiet: "obeys quiet (CreatePasswordUser E username email password role)"
  unfolding CreatePasswordUser_def by (intro qt.keeps insertUser_quiet liftS_quiet)

lemma upsert_admin_quiet: "upsert_admin E n e h s = Inr (x, s') \<Longrightarrow> quiet s s'"
  by (auto simp: upsert_admin_def Let_def qt.R_refl split: option.splits if_splits
      elim!: quiet_new_user quiet_upd_users)

lemma EnsureBootstrapAdmin_quiet: "obeys quiet (EnsureBootstrapAdmin E email password)"
  unfolding EnsureBootstrapAdmin_def by (intro qt.keeps qt.keeps_stmt) (erule upsert_admin_quiet)

lemma requester_arg_quiet: "obeys quiet (requester_arg E l q)"
  by (rule qt.keeps_readonly) (simp add: requester_arg_def bindS_def uuid_arg_def retS_def failS_def split: option.splits)

lemma CreateInvitation_quiet: "obeys quiet (CreateInvitation E email role q now)"
  unfolding CreateInvitation_def by (intro qt.keeps requester_arg_quiet qt.keeps_stmt) (erule quiet_invitations)

lemma AcceptInvitation_quiet: "obeys quiet (AcceptInvitation E raw username password now)"
  unfolding AcceptInvitation_def
  by (intro qt.keeps liftS_quiet insertUser_quiet qt.keeps_stmt) (erule quiet_invitations)

lemma RevokeInvitation_quiet: "obeys quiet (RevokeInvitation E i now)"
  unfolding RevokeInvitation_def Let_def by (intro qt.keeps qt.keeps_stmt) (erule quiet_invitations)

lemma synchronize_GitHub_quiet: "obeys quiet (synchronize_GitHub E user login email role)"
  unfolding synchronize_GitHub_def Let_def
  by (intro qt.keeps qt.keeps_stmt) (auto elim!: quiet_upd_users)

lemma create_GitHub_quiet: "obeys quiet (create_GitHub E i login email role)"
  unfolding create_GitHub_def by (intro qt.keeps insertUser_quiet)

lemma FindOrCreateGitHubUser_quiet: "obeys quiet (FindOrCreateGitHubUser E i login email role)"
  unfolding FindOrCreateGitHubUser_def release_login_def
  by (intro qt.keeps synchronize_GitHub_quiet create_GitHub_quiet qt.keeps_stmt) (auto elim!: quiet_upd_users)

lemma update_user_quiet:
  "(\<And>u. u_id (f u) = u_id u \<and> u_is_validation (f u) = u_is_validation u \<and> u_validation_run (f u) = u_validation_run u) \<Longrightarrow>
     obeys quiet (update_user E l P f)"
  unfolding update_user_def
  by (intro qt.keeps_stmt) (auto simp: qt.R_refl split: option.splits elim!: quiet_upd_users)

lemma FindOrCreateEntraUser_quiet: "obeys quiet (FindOrCreateEntraUser E tenantID objectID username email verified)"
  unfolding FindOrCreateEntraUser_def link_or_create_entra_def
  by (intro qt.keeps update_user_quiet qt.keeps_stmt)
    (auto simp: refresh_entra_def link_entra_def entra_user_def elim!: quiet_new_user)

lemmas account_quiet = CreatePasswordUser_quiet EnsureBootstrapAdmin_quiet CreateInvitation_quiet
  AcceptInvitation_quiet RevokeInvitation_quiet FindOrCreateGitHubUser_quiet FindOrCreateEntraUser_quiet

text \<open>C30. A Microsoft Entra ID sign-in to a disabled account is refused, but only after the account's
  stored address was overwritten with the one Entra sent: the refusal is not an error that leaves the
  account as it was.\<close>

theorem entra_refusal_overwrites_email:
  assumes ids: "uuid_in E tenantID = Some t" "uuid_in E objectID = Some ob" "tenantID \<noteq> []" "objectID \<noteq> []"
    and names: "TrimSpace username \<noteq> []" "ToLower E (TrimSpace email) \<noteq> []"
    and u: "u \<in> set (users s)" "entra_identity t ob u" "u_disabled u \<noteq> None"
    and ok: "schema_ok s" "\<not> fault E ''find Microsoft Entra ID user''"
      "users_unique (upd (entra_identity t ob) (refresh_entra (ToLower E (TrimSpace email)) verified) (users s))"
  shows "\<exists>s'. FindOrCreateEntraUser E tenantID objectID username email verified s =
      (Inl (Failed ''user is disabled''), s') \<and>
    (\<exists>v \<in> set (users s'). u_id v = u_id u \<and> u_email v = ToLower E (TrimSpace email))"
proof -
  let ?f = "refresh_entra (ToLower E (TrimSpace email)) verified"
  have find: "find (entra_identity t ob) (users s) = Some u"
  proof (rule find_unique [where f = u_id])
    show "distinct (map u_id (users s))" using ok(1) by (rule schema_user_ids)
    show "u_id v = u_id u" if "v \<in> set (users s)" "entra_identity t ob v" for v
      using entra_unique [OF ok(1) that(1) u(1) that(2) u(2)] by (rule arg_cong)
  qed (use u in simp_all)
  have "users_check (upd (entra_identity t ob) ?f (users s))"
    using ok(1) by (auto simp: schema_ok_def users_check_def list_all_iff ball_upd refresh_entra_def)
  with ok(3) have put: "put_users (upd (entra_identity t ob) ?f (users s)) (Some (scan_user (?f u))) s =
      Inr (Some (scan_user (?f u)), s\<lparr>users := upd (entra_identity t ob) ?f (users s)\<rparr>)"
    by (simp add: put_users_def)
  have off: "DisabledAt (scan_user (?f u)) \<noteq> None"
    using u(3) by (simp add: scan_user_def refresh_entra_def)
  have run: "FindOrCreateEntraUser E tenantID objectID username email verified s =
      (Inl (Failed ''user is disabled''), s\<lparr>users := upd (entra_identity t ob) ?f (users s)\<rparr>)"
    using ids names ok(2) off
    by (simp add: FindOrCreateEntraUser_def Let_def bindS_def uuid_arg_def retS_def failS_def update_user_def stmt_def
        find put)
  moreover have "?f u \<in> set (upd (entra_identity t ob) ?f (users s))" using u(1,2) by (auto simp: in_upd)
  ultimately show ?thesis by (auto simp: refresh_entra_def intro!: bexI [of _ "?f u"])
qed

definition example_disabled_db :: db where
  "example_disabled_db = example_db\<lparr>users := [example_user ''u1'' ''alice'', (example_user ''u2'' ''bob'')
     \<lparr>u_entra_tenant := Some ''t1'', u_entra_object := Some ''o1'', u_disabled := Some 5\<rparr>]\<rparr>"

theorem entra_refusal_overwrites_email_witness:
  "\<exists>t. FindOrCreateEntraUser example_env ''t1'' ''o1'' ''alice'' ''moved@example.org'' False example_disabled_db =
      (Inl (Failed ''user is disabled''), t) \<and>
    (\<exists>v \<in> set (users t). u_id v = ''u2'' \<and> u_email v = ''moved@example.org'')"
proof -
  let ?u = "(example_user ''u2'' ''bob'')\<lparr>u_entra_tenant := Some ''t1'', u_entra_object := Some ''o1'', u_disabled := Some 5\<rparr>"
  have ok: "schema_ok example_disabled_db"
    using example_db_ok by (simp add: schema_ok_def example_disabled_db_def example_db_def users_unique_def users_check_def
      example_user_def entra_key_def)
  have uniq: "users_unique (upd (entra_identity ''t1'' ''o1'') (refresh_entra ''moved@example.org'' False) (users example_disabled_db))"
    by (simp add: example_disabled_db_def example_user_def entra_identity_def refresh_entra_def users_unique_def entra_key_def)
  have "?u \<in> set (users example_disabled_db)" "entra_identity ''t1'' ''o1'' ?u" "u_disabled ?u \<noteq> None" "u_id ?u = ''u2''"
    by (simp_all add: example_disabled_db_def entra_identity_def example_user_def)
  with entra_refusal_overwrites_email [of example_env "''t1''" "''t1''" "''o1''" "''o1''" "''alice''"
      "''moved@example.org''" ?u example_disabled_db False] ok uniq
  show ?thesis by (simp add: example_entra_claims)
qed

end
