(* ===== verification/Logout_Grants.thy ===== *)
theory Logout_Grants
  imports Sessions
begin

text \<open>
  Durable, one-time correlation of a browser-initiated global logout: the
  \<open>LogoutCorrelationGrant\<close> methods of \<open>internal/identity/store.go\<close>. A grant is created with the
  snapshot of provider sessions to revoke (and revokes the account's browser sessions in the
  same transaction), consumed once by its token, leased by a worker, and completed or put back.
\<close>

record LogoutCorrelationGrant =
  GrantID :: string
  SubjectID :: string
  BrowserSessionID :: string
  ActiveBrowserSessionIDs :: "string list"
  BrowserHydraSessionIDs :: "string list"
  ActiveHydraSessionIDs :: "string list"
  ManagedClientID :: string
  SignedOutURL :: string
  CleanupAttempts :: int

definition scan_grant :: "grant_row \<Rightarrow> LogoutCorrelationGrant" where
  "scan_grant g = \<lparr>GrantID = g_id g, SubjectID = g_subject g, BrowserSessionID = g_browser g,
     ActiveBrowserSessionIDs = g_active_browsers g, BrowserHydraSessionIDs = g_browser_hydra g,
     ActiveHydraSessionIDs = g_active_hydra g, ManagedClientID = g_client g,
     SignedOutURL = g_signed_out_url g, CleanupAttempts = g_attempts g\<rparr>"

definition LogoutCorrelationLifetime :: duration where "LogoutCorrelationLifetime = 2 * minute"
definition LogoutCompletionLifetime :: duration where "LogoutCompletionLifetime = 5 * minute"
definition logoutCorrelationCleanupLease :: duration where "logoutCorrelationCleanupLease = 30 * second"

subsection \<open>Operations\<close>

definition resolveSignedOutURL :: "env \<Rightarrow> string \<Rightarrow> string store" where
  "resolveSignedOutURL E client =
     (if client = [] then retS []
      else bindS (query E ''resolve managed app logout destination'' (\<lambda>s.
              find (\<lambda>a. app_client a = client) (apps s))) (\<lambda>r.
           case r of None \<Rightarrow> failS (NoRows ''resolve managed app logout destination'')
           | Some a \<Rightarrow> retS (app_signed_out_url a)))"

text \<open>
  The browser session to sign out and whether only the provider session is left: when the
  caller names none, it is the one correlated with the provider session, of the same account.
\<close>

definition resolveBrowser :: "env \<Rightarrow> string \<Rightarrow> string \<Rightarrow> string \<Rightarrow> (string \<times> bool) store" where
  "resolveBrowser E u browserSessionID expected =
     (if browserSessionID \<noteq> [] then retS (browserSessionID, False)
      else bindS (query E ''find browser for Ory Hydra logout session'' (\<lambda>s.
              case correlated s expected of None \<Rightarrow> None
              | Some r \<Rightarrow> if s_user r = u then Some r else None)) (\<lambda>found.
           case found of None \<Rightarrow> failS (NoRows ''find browser for Ory Hydra logout session'')
           | Some r \<Rightarrow> retS (s_id r, s_revoked r \<noteq> None)))"

text \<open>The snapshot: provider sessions of the browser, of all the account's browsers, and those browsers.\<close>

definition logoutSnapshot ::
  "env \<Rightarrow> string \<Rightarrow> string \<Rightarrow> bool \<Rightarrow> string list \<Rightarrow> (string list \<times> string list \<times> string list) store" where
  "logoutSnapshot E browser expected providerOnly activeBrowsers =
     (if providerOnly then retS ([expected], [expected], [])
      else bindS (hydraSessionIDsForBrowsers E [browser]) (\<lambda>browserIDs.
           bindS (hydraSessionIDsForBrowsers E activeBrowsers) (\<lambda>activeIDs.
           bindS (guardS (expected = [] \<or> expected \<in> set browserIDs)
             (Failed ''Ory Hydra logout session is not correlated with its active browser'')) (\<lambda>_.
           retS (browserIDs, activeIDs, activeBrowsers)))))"

text \<open>
  The end of \<open>CreateLogoutCorrelationGrant\<close>: with no provider session to revoke there is no grant
  to store, only the browser sessions to revoke; otherwise the grant is stored first.
\<close>

definition storeGrant ::
  "env \<Rightarrow> string \<Rightarrow> string \<Rightarrow> LogoutCorrelationGrant \<Rightarrow> time \<Rightarrow> (string \<times> LogoutCorrelationGrant) store" where
  "storeGrant E raw u grant now =
     (if ActiveHydraSessionIDs grant = [] then
        bindS (revokeSessionSnapshot E (ActiveBrowserSessionIDs grant) now) (\<lambda>_. retS ([], grant))
      else
        bindS (stmt E ''create logout correlation grant'' (\<lambda>s.
           put_grants (grants s @ [\<lparr>g_id = GrantID grant, g_token_hash = sha256 E raw, g_subject = u,
             g_browser = BrowserSessionID grant, g_active_browsers = ActiveBrowserSessionIDs grant,
             g_browser_hydra = BrowserHydraSessionIDs grant, g_active_hydra = ActiveHydraSessionIDs grant,
             g_client = ManagedClientID grant, g_signed_out_url = SignedOutURL grant,
             g_created = now, g_expires = now + LogoutCorrelationLifetime, g_consumed = None,
             g_completed = None, g_cleanup_after = now + LogoutCorrelationLifetime,
             g_claimed_until = None, g_attempts = 0, g_last_error = []\<rparr>]) () s)) (\<lambda>_.
        bindS (if ActiveBrowserSessionIDs grant \<noteq> []
               then revokeSessionSnapshot E (ActiveBrowserSessionIDs grant) now else retS ()) (\<lambda>_.
        retS (raw, grant))))"

definition CreateLogoutCorrelationGrant ::
  "env \<Rightarrow> string \<Rightarrow> string \<Rightarrow> string \<Rightarrow> string \<Rightarrow> time \<Rightarrow> (string \<times> LogoutCorrelationGrant) store" where
  "CreateLogoutCorrelationGrant E subjectID browserSessionID expected managedClientID now =
     bindS (guardS (TrimSpace subjectID \<noteq> [] \<and> (TrimSpace browserSessionID \<noteq> [] \<or> TrimSpace expected \<noteq> []))
       (Failed ''logout subject and browser or Ory Hydra session is required'')) (\<lambda>_.
     bindS (randomToken E 0) (\<lambda>raw.
     tx E ''logout correlation grant''
      (bindS (lockActiveUser E subjectID) (\<lambda>u.
       bindS (resolveSignedOutURL E managedClientID) (\<lambda>signedOutURL.
       bindS (resolveBrowser E u browserSessionID expected) (\<lambda>(browser, providerOnly).
       bindS (query E ''snapshot active browser sessions'' (\<lambda>s. unrevoked_ids s u)) (\<lambda>active.
       bindS (guardS (providerOnly \<or> active \<noteq> [] \<and> browser \<in> set active) ErrLogoutSessionInactive) (\<lambda>_.
       bindS (logoutSnapshot E browser expected providerOnly active) (\<lambda>(browserIDs, activeIDs, activeBrowsers).
       storeGrant E raw u \<lparr>GrantID = randomUUID E 0, SubjectID = subjectID, BrowserSessionID = browser,
         ActiveBrowserSessionIDs = activeBrowsers, BrowserHydraSessionIDs = browserIDs,
         ActiveHydraSessionIDs = activeIDs, ManagedClientID = managedClientID,
         SignedOutURL = signedOutURL, CleanupAttempts = 0\<rparr> now))))))))) "

definition unavailable :: error where
  "unavailable = Failed ''logout correlation grant is unavailable''"

text \<open>\<open>UPDATE \<dots> WHERE P \<dots> RETURNING\<close> on the grants: the row after the update.\<close>

definition update_grant ::
  "env \<Rightarrow> string \<Rightarrow> (grant_row \<Rightarrow> bool) \<Rightarrow> (grant_row \<Rightarrow> grant_row) \<Rightarrow> grant_row option store" where
  "update_grant E l P f = stmt E l (\<lambda>s. put_grants (upd P f (grants s)) (map_option f (find P (grants s))) s)"

definition consumable :: "string \<Rightarrow> string \<Rightarrow> time \<Rightarrow> grant_row \<Rightarrow> bool" where
  "consumable hash u now g \<longleftrightarrow> g_token_hash g = hash \<and> g_subject g = u \<and> g_consumed g = None \<and>
     g_completed g = None \<and> g_expires g > now"

definition ConsumeLogoutCorrelationGrant ::
  "env \<Rightarrow> string \<Rightarrow> string \<Rightarrow> time \<Rightarrow> LogoutCorrelationGrant store" where
  "ConsumeLogoutCorrelationGrant E raw subjectID now =
     bindS (guardS (browserBootstrapTokenPattern raw \<and> TrimSpace subjectID \<noteq> []) unavailable) (\<lambda>_.
     bindS (uuid_arg E ''consume logout correlation grant'' subjectID) (\<lambda>u.
     bindS (update_grant E ''consume logout correlation grant'' (consumable (sha256 E raw) u now)
       (\<lambda>g. g\<lparr>g_consumed := Some now, g_cleanup_after := now + LogoutCompletionLifetime\<rparr>)) (\<lambda>r.
     case r of None \<Rightarrow> failS unavailable | Some g \<Rightarrow> retS (scan_grant g))))"

definition lease_free :: "time \<Rightarrow> grant_row \<Rightarrow> bool" where
  "lease_free now g \<longleftrightarrow> (case g_claimed_until g of None \<Rightarrow> True | Some t \<Rightarrow> t \<le> now)"

definition take_lease :: "time \<Rightarrow> grant_row \<Rightarrow> grant_row" where
  "take_lease now g = g\<lparr>g_claimed_until := Some (now + logoutCorrelationCleanupLease),
     g_attempts := g_attempts g + 1\<rparr>"

definition abandoned :: "time \<Rightarrow> grant_row \<Rightarrow> bool" where
  "abandoned now g \<longleftrightarrow> g_completed g = None \<and> g_cleanup_after g \<le> now \<and> lease_free now g"

definition abandoned_candidate :: "env \<Rightarrow> time \<Rightarrow> grant_row list \<Rightarrow> string option" where
  "abandoned_candidate E now gs =
     (case sort_by (\<lambda>x y. g_cleanup_after x < g_cleanup_after y \<or>
              g_cleanup_after x = g_cleanup_after y \<and> g_id x \<le> g_id y)
         (filter (\<lambda>g. abandoned now g \<and> \<not> locked E (g_id g)) gs) of
        [] \<Rightarrow> None | g # _ \<Rightarrow> Some (g_id g))"

definition ClaimAbandonedLogoutCorrelationGrant :: "env \<Rightarrow> time \<Rightarrow> LogoutCorrelationGrant option store" where
  "ClaimAbandonedLogoutCorrelationGrant E now =
     bindS (stmt E ''claim abandoned logout correlation grant'' (\<lambda>s.
        let P = (\<lambda>g. Some (g_id g) = abandoned_candidate E now (grants s)) in
        put_grants (upd P (take_lease now) (grants s)) (map_option (take_lease now) (find P (grants s))) s)) (\<lambda>r.
     retS (map_option scan_grant r))"

definition ClaimConsumedLogoutCorrelationGrant :: "env \<Rightarrow> string \<Rightarrow> time \<Rightarrow> LogoutCorrelationGrant store" where
  "ClaimConsumedLogoutCorrelationGrant E raw now =
     bindS (guardS (browserBootstrapTokenPattern raw) unavailable) (\<lambda>_.
     bindS (update_grant E ''claim consumed logout correlation grant''
        (\<lambda>g. g_token_hash g = sha256 E raw \<and> g_consumed g \<noteq> None \<and> g_completed g = None \<and> lease_free now g)
        (take_lease now)) (\<lambda>r.
     case r of None \<Rightarrow> failS unavailable | Some g \<Rightarrow> retS (scan_grant g)))"

definition CompleteLogoutCorrelationGrant :: "env \<Rightarrow> string \<Rightarrow> time \<Rightarrow> unit store" where
  "CompleteLogoutCorrelationGrant E i now =
     bindS (uuid_arg E ''complete logout correlation grant'' i) (\<lambda>u.
     bindS (update_grant E ''complete logout correlation grant''
        (\<lambda>g. g_id g = u \<and> g_completed g = None)
        (\<lambda>g. g\<lparr>g_completed := Some now, g_claimed_until := None, g_last_error := []\<rparr>)) (\<lambda>r.
     guardS (r \<noteq> None) unavailable))"

definition FailLogoutCorrelationGrant :: "env \<Rightarrow> string \<Rightarrow> string \<Rightarrow> time \<Rightarrow> unit store" where
  "FailLogoutCorrelationGrant E i failure retryAt =
     (let failure = (if TrimSpace failure = [] then ''provider logout did not complete'' else failure) in
     bindS (uuid_arg E ''schedule logout correlation recovery'' i) (\<lambda>u.
     bindS (update_grant E ''schedule logout correlation recovery''
        (\<lambda>g. g_id g = u \<and> g_completed g = None)
        (\<lambda>g. g\<lparr>g_cleanup_after := retryAt, g_claimed_until := None, g_last_error := failure\<rparr>)) (\<lambda>r.
     guardS (r \<noteq> None) unavailable)))"

definition completed_before :: "time \<Rightarrow> grant_row \<Rightarrow> bool" where
  "completed_before cutoff g \<longleftrightarrow> (case g_completed g of None \<Rightarrow> False | Some t \<Rightarrow> t < cutoff)"

definition expired_batch :: "time \<Rightarrow> nat \<Rightarrow> grant_row list \<Rightarrow> string list" where
  "expired_batch cutoff limit gs =
     map g_id (take limit (sort_by (\<lambda>x y. the (g_completed x) < the (g_completed y) \<or>
        the (g_completed x) = the (g_completed y) \<and> g_id x \<le> g_id y) (filter (completed_before cutoff) gs)))"

definition DeleteCompletedLogoutCorrelationGrants :: "env \<Rightarrow> time \<Rightarrow> int \<Rightarrow> nat store" where
  "DeleteCompletedLogoutCorrelationGrants E cutoff limit =
     bindS (guardS (1 \<le> limit \<and> limit \<le> 1000)
        (Failed ''logout correlation cleanup limit must be between 1 and 1000'')) (\<lambda>_.
     stmt E ''delete completed logout correlation grants'' (\<lambda>s.
       let ids = expired_batch cutoff (nat limit) (grants s) in
       put_grants (filter (\<lambda>g. g_id g \<notin> set ids) (grants s))
         (length (filter (\<lambda>g. g_id g \<in> set ids) (grants s))) s))"

subsection \<open>Contracts\<close>

text \<open>A grant keeps its identity and snapshot; consumption and completion are final.\<close>

definition grant_le :: "grant_row \<Rightarrow> grant_row \<Rightarrow> bool" where
  "grant_le g g' \<longleftrightarrow> g_id g' = g_id g \<and> g_token_hash g' = g_token_hash g \<and> g_subject g' = g_subject g \<and>
     g_active_hydra g' = g_active_hydra g \<and> g_browser_hydra g' = g_browser_hydra g \<and>
     g_active_browsers g' = g_active_browsers g \<and> g_created g' = g_created g \<and> g_expires g' = g_expires g \<and>
     (g_consumed g \<noteq> None \<longrightarrow> g_consumed g' = g_consumed g) \<and>
     (g_completed g \<noteq> None \<longrightarrow> g_completed g' = g_completed g) \<and> g_attempts g \<le> g_attempts g'"

definition grants_mono :: "db \<Rightarrow> db \<Rightarrow> bool" where
  "grants_mono s s' \<longleftrightarrow> (\<forall>g \<in> set (grants s). \<exists>g' \<in> set (grants s'). grant_le g g')"

lemma grant_le_refl [simp]: "grant_le g g"
  by (simp add: grant_le_def)

lemma grant_le_trans: "grant_le a b \<Longrightarrow> grant_le b c \<Longrightarrow> grant_le a c"
  by (auto simp: grant_le_def)

interpretation gm: contract grants_mono
proof
  show "grants_mono s s" for s
    unfolding grants_mono_def using grant_le_refl by blast
  show "grants_mono s t \<Longrightarrow> grants_mono t u \<Longrightarrow> grants_mono s u" for s t u
    unfolding grants_mono_def by (meson grant_le_trans)
qed

lemma grants_mono_same: "grants s' = grants s \<Longrightarrow> grants_mono s s'"
  using gm.R_refl [of s] by (simp add: grants_mono_def)

text \<open>A token no grant can be consumed with any more.\<close>

definition spent :: "string \<Rightarrow> db \<Rightarrow> bool" where
  "spent h s \<longleftrightarrow> (\<forall>g \<in> set (grants s). g_token_hash g = h \<longrightarrow> g_consumed g \<noteq> None \<or> g_completed g \<noteq> None)"

definition keeps_spent :: "string \<Rightarrow> db \<Rightarrow> db \<Rightarrow> bool" where
  "keeps_spent h s s' \<longleftrightarrow> (spent h s \<longrightarrow> spent h s')"

interpretation sp: contract "keeps_spent h" for h
  by unfold_locales (auto simp: keeps_spent_def)

lemma keeps_spent_same: "grants s' = grants s \<Longrightarrow> keeps_spent h s s'"
  by (simp add: keeps_spent_def spent_def)

lemma grant_upd_mono:
  assumes put: "put_grants (upd P f (grants s)) x s = Inr (y, s')" and le: "\<And>g. P g \<Longrightarrow> grant_le g (f g)"
  shows "grants_mono s s'" and "keeps_spent h s s'"
proof -
  have s': "grants s' = upd P f (grants s)" using put by (auto simp: put_Inr)
  show "grants_mono s s'"
    unfolding grants_mono_def s' bex_upd using le grant_le_refl by (metis (full_types))
  show "keeps_spent h s s'"
    unfolding keeps_spent_def spent_def s' ball_upd using le by (auto simp: grant_le_def)
qed

lemma update_grant_mono:
  assumes "\<And>g. P g \<Longrightarrow> grant_le g (f g)"
  shows "obeys grants_mono (update_grant E l P f)" and "obeys (keeps_spent h) (update_grant E l P f)"
  unfolding update_grant_def
  by (rule gm.keeps_stmt sp.keeps_stmt, erule grant_upd_mono, erule assms)+

lemma update_grant_frame:
  shows "obeys sessions_mono (update_grant E l P f)" and "obeys keeps_schema (update_grant E l P f)"
  unfolding update_grant_def
  by (rule sm.keeps_stmt sk.keeps_stmt, auto simp: put_grants_Inr intro: sessions_mono_same put_grants_schema)+

lemma revoke_grants: "obeys grants_mono (revokeSessionSnapshot E ids now)"
  "obeys (keeps_spent h) (revokeSessionSnapshot E ids now)"
  unfolding revokeSessionSnapshot_def
  by (rule gm.keeps_stmt sp.keeps_stmt, auto simp: put_Inr intro: grants_mono_same keeps_spent_same)+

lemma resolveSignedOutURL_state [simp]: "snd (resolveSignedOutURL E c s) = s"
  by (auto simp: resolveSignedOutURL_def io_defs split: option.splits)

lemma resolveBrowser_state [simp]: "snd (resolveBrowser E u b x s) = s"
  by (auto simp: resolveBrowser_def io_defs split: option.splits)

lemma logoutSnapshot_state [simp]: "snd (logoutSnapshot E b x po ab s) = s"
  by (auto simp: logoutSnapshot_def hydraSessionIDsForBrowsers_def io_defs)

lemmas logout_reads = lockActiveUser_state resolveSignedOutURL_state resolveBrowser_state logoutSnapshot_state

lemmas gm_reads = logout_reads [THEN gm.keeps_readonly]
lemmas sp_reads = logout_reads [THEN sp.keeps_readonly]
lemmas sm_logout_reads = logout_reads [THEN sm.keeps_readonly]
lemmas sk_logout_reads = logout_reads [THEN sk.keeps_readonly]

lemma CreateLogoutCorrelationGrant_mono:
  "obeys grants_mono (CreateLogoutCorrelationGrant E sub b x c now)"
  "obeys sessions_mono (CreateLogoutCorrelationGrant E sub b x c now)"
  "obeys keeps_schema (CreateLogoutCorrelationGrant E sub b x c now)"
  unfolding CreateLogoutCorrelationGrant_def storeGrant_def
  subgoal
    by (intro gm.keeps gm_reads revoke_grants gm.keeps_stmt)
       (auto simp: put_Inr grants_mono_def intro: grant_le_refl)
  subgoal
    by (intro sm.keeps sm_logout_reads revokeSessionSnapshot_mono sm.keeps_stmt)
       (auto simp: put_Inr intro: sessions_mono_same)
  subgoal
    by (intro sk.keeps sk_logout_reads revokeSessionSnapshot_schema sk.keeps_stmt) (erule put_grants_schema)
  done

text \<open>Creating a grant can only un-spend the digest of the token it draws.\<close>

lemma CreateLogoutCorrelationGrant_spent:
  assumes "\<And>raw. token_bytes E 0 = Some raw \<Longrightarrow> sha256 E (hex_encode raw) \<noteq> h"
  shows "obeys (keeps_spent h) (CreateLogoutCorrelationGrant E sub b x c now)"
proof (cases "token_bytes E 0")
  case None
  then have t: "randomToken E 0 = failS (Failed ''generate token'')" by (simp add: randomToken_def)
  show ?thesis
    unfolding CreateLogoutCorrelationGrant_def t by (simp add: obeys_def keeps_spent_def io_defs)
next
  case (Some bs)
  then have t: "randomToken E 0 = retS (hex_encode bs)" by (simp add: randomToken_def)
  have b: "bindS (retS y) f = f y" for y and f :: "string \<Rightarrow> (string \<times> LogoutCorrelationGrant) store"
    by (simp add: bindS_def retS_def)
  from assms Some have "sha256 E (hex_encode bs) \<noteq> h" by simp
  then show ?thesis
    unfolding CreateLogoutCorrelationGrant_def storeGrant_def t b
    by (intro sp.keeps sp_reads revoke_grants sp.keeps_stmt) (auto simp: put_Inr keeps_spent_def spent_def)
qed

lemma ConsumeLogoutCorrelationGrant_mono:
  "obeys grants_mono (ConsumeLogoutCorrelationGrant E raw sub now)"
  "obeys (keeps_spent h) (ConsumeLogoutCorrelationGrant E raw sub now)"
  "obeys sessions_mono (ConsumeLogoutCorrelationGrant E raw sub now)"
  "obeys keeps_schema (ConsumeLogoutCorrelationGrant E raw sub now)"
  unfolding ConsumeLogoutCorrelationGrant_def
  by (intro gm.keeps sp.keeps sm.keeps sk.keeps update_grant_mono update_grant_frame;
      simp add: grant_le_def consumable_def)+

lemma ClaimAbandonedLogoutCorrelationGrant_mono:
  "obeys grants_mono (ClaimAbandonedLogoutCorrelationGrant E now)"
  "obeys (keeps_spent h) (ClaimAbandonedLogoutCorrelationGrant E now)"
  "obeys sessions_mono (ClaimAbandonedLogoutCorrelationGrant E now)"
  "obeys keeps_schema (ClaimAbandonedLogoutCorrelationGrant E now)"
  unfolding ClaimAbandonedLogoutCorrelationGrant_def Let_def
  subgoal by (intro gm.keeps gm.keeps_stmt) (erule grant_upd_mono, simp add: grant_le_def take_lease_def)
  subgoal by (intro sp.keeps sp.keeps_stmt) (erule grant_upd_mono, simp add: grant_le_def take_lease_def)
  subgoal by (intro sm.keeps sm.keeps_stmt) (auto simp: put_Inr intro: sessions_mono_same)
  subgoal by (intro sk.keeps sk.keeps_stmt) (erule put_grants_schema)
  done

lemma ClaimConsumedLogoutCorrelationGrant_mono:
  "obeys grants_mono (ClaimConsumedLogoutCorrelationGrant E raw now)"
  "obeys (keeps_spent h) (ClaimConsumedLogoutCorrelationGrant E raw now)"
  "obeys sessions_mono (ClaimConsumedLogoutCorrelationGrant E raw now)"
  "obeys keeps_schema (ClaimConsumedLogoutCorrelationGrant E raw now)"
  unfolding ClaimConsumedLogoutCorrelationGrant_def
  by (intro gm.keeps sp.keeps sm.keeps sk.keeps update_grant_mono update_grant_frame;
      simp add: grant_le_def take_lease_def)+

lemma CompleteLogoutCorrelationGrant_mono:
  "obeys grants_mono (CompleteLogoutCorrelationGrant E i now)"
  "obeys (keeps_spent h) (CompleteLogoutCorrelationGrant E i now)"
  "obeys sessions_mono (CompleteLogoutCorrelationGrant E i now)"
  "obeys keeps_schema (CompleteLogoutCorrelationGrant E i now)"
  unfolding CompleteLogoutCorrelationGrant_def
  by (intro gm.keeps sp.keeps sm.keeps sk.keeps update_grant_mono update_grant_frame; simp add: grant_le_def)+

lemma FailLogoutCorrelationGrant_mono:
  "obeys grants_mono (FailLogoutCorrelationGrant E i failure t)"
  "obeys (keeps_spent h) (FailLogoutCorrelationGrant E i failure t)"
  "obeys sessions_mono (FailLogoutCorrelationGrant E i failure t)"
  "obeys keeps_schema (FailLogoutCorrelationGrant E i failure t)"
  unfolding FailLogoutCorrelationGrant_def Let_def
  by (intro gm.keeps sp.keeps sm.keeps sk.keeps update_grant_mono update_grant_frame; simp add: grant_le_def)+

lemma DeleteCompletedLogoutCorrelationGrants_mono:
  "obeys (keeps_spent h) (DeleteCompletedLogoutCorrelationGrants E cutoff limit)"
  "obeys sessions_mono (DeleteCompletedLogoutCorrelationGrants E cutoff limit)"
  "obeys keeps_schema (DeleteCompletedLogoutCorrelationGrants E cutoff limit)"
  unfolding DeleteCompletedLogoutCorrelationGrants_def Let_def
  subgoal by (intro sp.keeps sp.keeps_stmt) (auto simp: put_Inr keeps_spent_def spent_def)
  subgoal by (intro sm.keeps sm.keeps_stmt) (auto simp: put_Inr intro: sessions_mono_same)
  subgoal by (intro sk.keeps sk.keeps_stmt) (erule put_grants_schema)
  done

subsection \<open>Properties\<close>

lemma logoutSnapshot_Inr:
  "logoutSnapshot E b x po ab s = (Inr (bi, ai, bs), s') \<longleftrightarrow> s' = s \<and>
     (if po then bi = [x] \<and> ai = [x] \<and> bs = []
      else \<not> fault E ''snapshot Ory Hydra login sessions'' \<and> bi = hydra_of_browsers E [b] s \<and>
        ai = hydra_of_browsers E ab s \<and> bs = ab \<and> (x = [] \<or> x \<in> set bi))"
  by (auto simp: logoutSnapshot_def hydraSessionIDsForBrowsers_def io_Inr)

lemma resolveBrowser_Inr:
  "resolveBrowser E u b x s = (Inr (br, po), s') \<Longrightarrow> s' = s \<and>
     (if b \<noteq> [] then br = b \<and> \<not> po
      else \<exists>r. correlated s x = Some r \<and> s_user r = u \<and> br = s_id r \<and> po = (s_revoked r \<noteq> None))"
  by (auto simp: resolveBrowser_def io_Inr split: option.splits if_splits)

definition new_grant ::
  "env \<Rightarrow> string \<Rightarrow> string \<Rightarrow> LogoutCorrelationGrant \<Rightarrow> time \<Rightarrow> grant_row" where
  "new_grant E raw u g now = \<lparr>g_id = GrantID g, g_token_hash = sha256 E raw, g_subject = u,
     g_browser = BrowserSessionID g, g_active_browsers = ActiveBrowserSessionIDs g,
     g_browser_hydra = BrowserHydraSessionIDs g, g_active_hydra = ActiveHydraSessionIDs g,
     g_client = ManagedClientID g, g_signed_out_url = SignedOutURL g, g_created = now,
     g_expires = now + LogoutCorrelationLifetime, g_consumed = None, g_completed = None,
     g_cleanup_after = now + LogoutCorrelationLifetime, g_claimed_until = None, g_attempts = 0,
     g_last_error = []\<rparr>"

lemma resolveBrowser_frame: "resolveBrowser E u b x s = (r, s') \<longleftrightarrow> fst (resolveBrowser E u b x s) = r \<and> s' = s"
  by (metis resolveBrowser_state fst_conv prod.collapse snd_conv)

lemma resolveSignedOutURL_frame:
  "resolveSignedOutURL E c s = (r, s') \<longleftrightarrow> fst (resolveSignedOutURL E c s) = r \<and> s' = s"
  by (metis resolveSignedOutURL_state fst_conv prod.collapse snd_conv)

lemma storeGrant_Inr:
  assumes "storeGrant E raw u g now s = (Inr (raw', g'), s')"
  shows "g' = g \<and> sessions s' = revoke_rows (ActiveBrowserSessionIDs g) now (sessions s) \<and>
    (if ActiveHydraSessionIDs g = [] then raw' = [] \<and> grants s' = grants s
     else raw' = raw \<and> grants s' = grants s @ [new_grant E raw u g now])"
proof -
  have "revoke_rows [] now ss = ss" for ss
    by (simp add: revoke_rows_def upd_none)
  with assms show ?thesis
    by (auto simp: storeGrant_def io_Inr revokeSessionSnapshot_def put_Inr new_grant_def split: if_splits)
qed

lemma CreateLogoutCorrelationGrant_Inr:
  assumes "CreateLogoutCorrelationGrant E sub b x c now s = (Inr (raw, g), s')"
  obtains u po active raw' where "uuid_in E sub = Some u" and "active = unrevoked_ids s u"
    and "if b \<noteq> [] then BrowserSessionID g = b \<and> \<not> po
         else \<exists>r. correlated s x = Some r \<and> s_user r = u \<and> BrowserSessionID g = s_id r \<and> po = (s_revoked r \<noteq> None)"
    and "po \<or> BrowserSessionID g \<in> set active"
    and "if po then ActiveHydraSessionIDs g = [x] \<and> ActiveBrowserSessionIDs g = []
         else ActiveHydraSessionIDs g = hydra_of_browsers E active s \<and> ActiveBrowserSessionIDs g = active \<and>
           (x = [] \<or> x \<in> set (BrowserHydraSessionIDs g))"
    and "sessions s' = revoke_rows (ActiveBrowserSessionIDs g) now (sessions s)"
    and "SubjectID g = sub" "CleanupAttempts g = 0" "randomToken E 0 s = (Inr raw', s)"
    and "if ActiveHydraSessionIDs g = [] then raw = [] \<and> grants s' = grants s
         else raw = raw' \<and> grants s' = grants s @ [new_grant E raw u g now]"
proof -
  from assms obtain u url br po bi ai ab raw' where u: "uuid_in E sub = Some u"
    and tok: "randomToken E 0 s = (Inr raw', s)"
    and br: "resolveBrowser E u b x s = (Inr (br, po), s)"
    and act: "po \<or> br \<in> set (unrevoked_ids s u)"
    and snap: "logoutSnapshot E br x po (unrevoked_ids s u) s = (Inr (bi, ai, ab), s)"
    and st: "storeGrant E raw' u \<lparr>GrantID = randomUUID E 0, SubjectID = sub, BrowserSessionID = br,
         ActiveBrowserSessionIDs = ab, BrowserHydraSessionIDs = bi,
         ActiveHydraSessionIDs = ai, ManagedClientID = c,
         SignedOutURL = url, CleanupAttempts = 0\<rparr> now s = (Inr (raw, g), s')"
    unfolding CreateLogoutCorrelationGrant_def
    by (auto simp: io_Inr randomToken_Inr lockActiveUser_Inr logoutSnapshot_Inr
        resolveBrowser_frame resolveSignedOutURL_frame)
  from storeGrant_Inr [OF st] have g: "g = \<lparr>GrantID = randomUUID E 0, SubjectID = sub, BrowserSessionID = br,
         ActiveBrowserSessionIDs = ab, BrowserHydraSessionIDs = bi,
         ActiveHydraSessionIDs = ai, ManagedClientID = c,
         SignedOutURL = url, CleanupAttempts = 0\<rparr>" by blast
  show thesis
    using storeGrant_Inr [OF st] resolveBrowser_Inr [OF br] act snap tok
    by (intro that [OF u refl, of po raw']) (auto simp: g logoutSnapshot_Inr split: if_splits)
qed


lemma update_grant_Inr: "update_grant E l P f s = (Inr r, s') \<longleftrightarrow>
    \<not> fault E l \<and> r = map_option f (find P (grants s)) \<and> s' = s\<lparr>grants := upd P f (grants s)\<rparr> \<and>
    grants_unique (upd P f (grants s)) \<and> list_all grant_check (upd P f (grants s))"
  by (auto simp: update_grant_def io_Inr put_Inr)

lemma ConsumeLogoutCorrelationGrant_Inr:
  "ConsumeLogoutCorrelationGrant E raw sub now s = (Inr g, s') \<longleftrightarrow>
     browserBootstrapTokenPattern raw \<and> TrimSpace sub \<noteq> [] \<and>
     (\<exists>u r. uuid_in E sub = Some u \<and> find (consumable (sha256 E raw) u now) (grants s) = Some r \<and>
        g = scan_grant (r\<lparr>g_consumed := Some now, g_cleanup_after := now + LogoutCompletionLifetime\<rparr>) \<and>
        update_grant E ''consume logout correlation grant'' (consumable (sha256 E raw) u now)
          (\<lambda>g. g\<lparr>g_consumed := Some now, g_cleanup_after := now + LogoutCompletionLifetime\<rparr>) s =
          (Inr (Some (r\<lparr>g_consumed := Some now, g_cleanup_after := now + LogoutCompletionLifetime\<rparr>)), s'))"
  by (auto simp: ConsumeLogoutCorrelationGrant_def io_Inr update_grant_Inr)

lemma schema_grant_unique:
  "schema_ok s \<Longrightarrow> g \<in> set (grants s) \<Longrightarrow> g' \<in> set (grants s) \<Longrightarrow> g_token_hash g = g_token_hash g' \<Longrightarrow> g = g'"
  unfolding schema_ok_def grants_unique_def by (metis distinct_map_inj_onD)

lemma schema_grant_id_unique:
  "schema_ok s \<Longrightarrow> g \<in> set (grants s) \<Longrightarrow> g' \<in> set (grants s) \<Longrightarrow> g_id g = g_id g' \<Longrightarrow> g = g'"
  unfolding schema_ok_def grants_unique_def by (metis distinct_map_inj_onD)

lemma spent_refuses:
  assumes "spent (sha256 E raw) s"
  shows "\<exists>e. fst (ConsumeLogoutCorrelationGrant E raw sub t s) = Inl e"
proof (rule ccontr)
  assume "\<not> ?thesis"
  then obtain g s' where "ConsumeLogoutCorrelationGrant E raw sub t s = (Inr g, s')"
    by (metis old.sum.exhaust prod.collapse)
  then obtain u r where "find (consumable (sha256 E raw) u t) (grants s) = Some r"
    by (auto simp: ConsumeLogoutCorrelationGrant_Inr)
  with assms show False
    by (auto simp: spent_def consumable_def dest!: find_SomeD)
qed

text \<open>C21. A logout token works once: when \<open>ConsumeLogoutCorrelationGrant\<close> has accepted it, the
  resulting state refuses it, for every subject and at every time.\<close>

theorem logout_grant_consumed_once:
  assumes ok: "schema_ok s" and run: "ConsumeLogoutCorrelationGrant E raw sub now s = (Inr g, s')"
    and same: "sha256 E' raw' = sha256 E raw"
  shows "spent (sha256 E raw) s' \<and>
     (\<exists>e. fst (ConsumeLogoutCorrelationGrant E' raw' sub' t s') = Inl e)"
proof -
  from run obtain u r where r: "find (consumable (sha256 E raw) u now) (grants s) = Some r"
    and s': "s' = s\<lparr>grants := upd (consumable (sha256 E raw) u now)
       (\<lambda>g. g\<lparr>g_consumed := Some now, g_cleanup_after := now + LogoutCompletionLifetime\<rparr>) (grants s)\<rparr>"
    by (auto simp: ConsumeLogoutCorrelationGrant_Inr update_grant_Inr)
  have "y = r" if "y \<in> set (grants s)" "g_token_hash y = sha256 E raw" for y
    using that find_SomeD [OF r] schema_grant_unique [OF ok] by (auto simp: consumable_def)
  then have "spent (sha256 E raw) s'"
    using find_SomeD [OF r] unfolding s' spent_def by (auto simp: ball_upd)
  with spent_refuses [of E' raw' s' sub' t] same show ?thesis by simp
qed

lemma abandoned_candidate_SomeD:
  assumes "abandoned_candidate E now gs = Some i"
  shows "\<exists>q \<in> set gs. g_id q = i \<and> abandoned now q \<and> \<not> locked E i"
proof -
  let ?c = "filter (\<lambda>g. abandoned now g \<and> \<not> locked E (g_id g)) gs"
  let ?le = "\<lambda>x y. g_cleanup_after x < g_cleanup_after y \<or> g_cleanup_after x = g_cleanup_after y \<and> g_id x \<le> g_id y"
  obtain q qs where q: "sort_by ?le ?c = q # qs" and i: "g_id q = i"
    using assms unfolding abandoned_candidate_def by (cases "sort_by ?le ?c") simp_all
  have "q \<in> set (sort_by ?le ?c)"
    unfolding q by (rule list.set_intros(1))
  then have "q \<in> set ?c"
    unfolding set_sort_by .
  with i show ?thesis by auto
qed


lemma take_lease_simps [simp]:
  "g_id (take_lease now g) = g_id g" "g_token_hash (take_lease now g) = g_token_hash g"
  by (simp_all add: take_lease_def)

lemma grant_check_take_lease: "grant_check g \<Longrightarrow> grant_check (take_lease now g)"
  by (auto simp: grant_check_def take_lease_def split: option.splits)

lemma take_lease_constraints:
  assumes "schema_ok s"
  shows "grants_unique (upd P (take_lease now) (grants s)) \<and> list_all grant_check (upd P (take_lease now) (grants s))"
proof -
  have "\<forall>g \<in> set (grants s). grant_check g" "grants_unique (grants s)"
    using assms by (simp_all add: schema_ok_def list_all_iff)
  then show ?thesis
    by (simp add: grants_unique_def list_all_iff ball_upd grant_check_take_lease)
qed

lemma abandoned_candidate_NoneD:
  "abandoned_candidate E now gs = None \<Longrightarrow> g \<in> set gs \<Longrightarrow> abandoned now g \<Longrightarrow> locked E (g_id g)"
  by (auto simp: abandoned_candidate_def filter_empty_conv split: list.splits)

text \<open>An interrupted logout is never forgotten: as long as some grant is incomplete, due and not
  leased, and its row not locked, a worker's claim returns a grant to finish.\<close>

theorem logout_recovery_progress:
  assumes ok: "schema_ok s" and nofault: "\<not> fault E ''claim abandoned logout correlation grant''"
    and g: "g \<in> set (grants s)" "abandoned now g" "\<not> locked E (g_id g)"
  shows "\<exists>r \<in> set (grants s). abandoned now r \<and> fst (ClaimAbandonedLogoutCorrelationGrant E now s) =
     Inr (Some (scan_grant (take_lease now r)))"
proof -
  obtain i where i: "abandoned_candidate E now (grants s) = Some i"
    using abandoned_candidate_NoneD [OF _ g(1,2)] g(3) by fastforce
  then obtain q where q: "q \<in> set (grants s)" "g_id q = i" "abandoned now q"
    using abandoned_candidate_SomeD by blast
  let ?P = "\<lambda>g. Some (g_id g) = abandoned_candidate E now (grants s)"
  have "distinct (map g_id (grants s))"
    using ok by (simp add: schema_ok_def grants_unique_def)
  then have f: "find ?P (grants s) = Some q"
    using q i by (intro find_unique [where f = g_id]) auto
  have "put_grants (upd ?P (take_lease now) (grants s)) (map_option (take_lease now) (find ?P (grants s))) s =
      Inr (Some (take_lease now q), s\<lparr>grants := upd ?P (take_lease now) (grants s)\<rparr>)"
    using take_lease_constraints [OF ok, of ?P now] f by (simp add: put_Inr)
  then have "fst (ClaimAbandonedLogoutCorrelationGrant E now s) = Inr (Some (scan_grant (take_lease now q)))"
    using nofault by (simp add: ClaimAbandonedLogoutCorrelationGrant_def Let_def bindS_def stmt_def retS_def)
  with q show ?thesis by blast
qed

text \<open>Completed evidence is removed in bounded batches and incomplete grants never are: one
  clean-up deletes at most the given number of rows, each completed before the cut-off.\<close>

theorem logout_cleanup_bounded:
  assumes ok: "schema_ok s" and run: "DeleteCompletedLogoutCorrelationGrants E cutoff limit s = (Inr n, s')"
  shows "length (grants s) = length (grants s') + n \<and> int n \<le> limit \<and> limit \<le> 1000 \<and>
     (\<forall>g \<in> set (grants s). g \<notin> set (grants s') \<longrightarrow> completed_before cutoff g) \<and>
     set (grants s') \<subseteq> set (grants s)"
proof -
  let ?ids = "expired_batch cutoff (nat limit) (grants s)"
  from run have lim: "1 \<le> limit" "limit \<le> 1000"
    and s': "grants s' = filter (\<lambda>g. g_id g \<notin> set ?ids) (grants s)"
    and n: "n = length (filter (\<lambda>g. g_id g \<in> set ?ids) (grants s))"
    by (auto simp: DeleteCompletedLogoutCorrelationGrants_def io_Inr put_Inr Let_def)
  have d: "distinct (map g_id (grants s))"
    using ok by (simp add: schema_ok_def grants_unique_def)
  have "n = card (set (map g_id (filter (\<lambda>g. g_id g \<in> set ?ids) (grants s))))"
    unfolding n by (metis d distinct_card distinct_map_filter length_map)
  also have "\<dots> \<le> card (set ?ids)"
    by (intro card_mono) auto
  also have "\<dots> \<le> nat limit"
    using card_length [of ?ids] by (simp add: expired_batch_def)
  finally have "int n \<le> limit" using lim by simp
  moreover have "completed_before cutoff g" if "g \<in> set (grants s)" "g \<notin> set (grants s')" for g
  proof -
    from that have "g_id g \<in> set ?ids" by (simp add: s')
    then obtain q where q: "q \<in> set (grants s)" "completed_before cutoff q" "g_id q = g_id g"
      unfolding expired_batch_def by (auto dest!: in_set_takeD)
    then have "q = g" using schema_grant_id_unique [OF ok q(1) that(1)] by simp
    with q show ?thesis by simp
  qed
  moreover have "length (grants s) = length (grants s') + n"
    using sum_length_filter_compl [of "\<lambda>g. g_id g \<in> set ?ids" "grants s"] by (simp add: s' n)
  moreover have "set (grants s') \<subseteq> set (grants s)" by (auto simp: s')
  ultimately show ?thesis using lim by blast
qed

subsection \<open>Witnesses\<close>

abbreviation example_raw :: string where "example_raw \<equiv> replicate 64 CHR ''0''"

definition example_grant :: LogoutCorrelationGrant where
  "example_grant = \<lparr>GrantID = ''00000000-0000-4000-8000-000000000000'', SubjectID = ''u1'',
     BrowserSessionID = ''s1'', ActiveBrowserSessionIDs = [''s1''], BrowserHydraSessionIDs = [''h1''],
     ActiveHydraSessionIDs = [''h1''], ManagedClientID = [], SignedOutURL = [], CleanupAttempts = 0\<rparr>"

definition example_logout_db :: db where
  "example_logout_db = example_db\<lparr>sessions := [(example_session ''s1'' ''u1'')\<lparr>s_revoked := Some 10\<rparr>],
     grants := [new_grant example_env example_raw ''u1'' example_grant 10]\<rparr>"

lemma example_trim: "TrimSpace ''u1'' = ''u1''" "TrimSpace ''s1'' = ''s1''"
  by code_simp+

lemma example_logout:
  "CreateLogoutCorrelationGrant example_env ''u1'' ''s1'' [] [] 10 example_db =
     (Inr (example_raw, example_grant), example_logout_db)"
  by (simp add: CreateLogoutCorrelationGrant_def io_defs example_trim randomToken_def example_token example_token_hex
      example_uuid lockActiveUser_def resolveSignedOutURL_def resolveBrowser_def logoutSnapshot_def
      hydraSessionIDsForBrowsers_def hydra_of_browsers_def sort_by_def unrevoked_ids_def storeGrant_def
      revokeSessionSnapshot_def revoke_rows_def put_defs grant_check_def grants_unique_def sessions_unique_def
      example_logout_db_def new_grant_def example_grant_def LogoutCorrelationLifetime_def duration_units
      example_db_def example_user_def example_session_def image_iff)


lemma example_logout_ok: "schema_ok example_logout_db"
  using obeysD [OF CreateLogoutCorrelationGrant_mono(3) example_logout] example_db_ok
  by (simp add: keeps_schema_def)

lemma example_pattern: "browserBootstrapTokenPattern example_raw"
  by (simp add: browserBootstrapTokenPattern_def list_all_iff is_lower_hex_def less_eq_char_def)

lemma example_consume:
  "\<exists>g s'. ConsumeLogoutCorrelationGrant example_env example_raw ''u1'' 20 example_logout_db = (Inr g, s')"
  by (simp add: ConsumeLogoutCorrelationGrant_Inr example_pattern example_trim update_grant_Inr consumable_def
      example_logout_db_def new_grant_def example_grant_def grants_unique_def grant_check_def
      LogoutCorrelationLifetime_def LogoutCompletionLifetime_def duration_units)

theorem logout_grant_consumed_once_witness:
  "\<exists>g s'. ConsumeLogoutCorrelationGrant example_env example_raw ''u1'' 20 example_logout_db = (Inr g, s') \<and>
     (\<exists>e. fst (ConsumeLogoutCorrelationGrant example_env example_raw ''u1'' 21 s') = Inl e)"
  using example_consume logout_grant_consumed_once [OF example_logout_ok, of example_env example_raw "''u1''" 20
      _ _ example_env example_raw "''u1''" 21] by blast

lemma example_abandoned: "abandoned 120000000010 (new_grant example_env example_raw ''u1'' example_grant 10)"
  by (simp add: abandoned_def new_grant_def lease_free_def LogoutCorrelationLifetime_def duration_units)

theorem logout_recovery_progress_witness:
  "\<exists>g. fst (ClaimAbandonedLogoutCorrelationGrant example_env 120000000010 example_logout_db) = Inr (Some g)"
  using logout_recovery_progress [OF example_logout_ok, of example_env _ 120000000010] example_abandoned
  by (auto simp: example_logout_db_def)


definition example_done_db :: db where
  "example_done_db = example_logout_db\<lparr>grants :=
     [(new_grant example_env example_raw ''u1'' example_grant 10)\<lparr>g_completed := Some 30\<rparr>]\<rparr>"

lemma example_done_ok: "schema_ok example_done_db"
  using example_logout_ok
  by (simp add: schema_ok_def example_done_db_def grants_unique_def grant_check_def new_grant_def example_grant_def
      LogoutCorrelationLifetime_def duration_units)

theorem logout_cleanup_bounded_witness:
  "\<exists>s'. DeleteCompletedLogoutCorrelationGrants example_env 40 1 example_done_db = (Inr 1, s') \<and> grants s' = []"
proof -
  have "DeleteCompletedLogoutCorrelationGrants example_env 40 1 example_done_db = (Inr 1, example_done_db\<lparr>grants := []\<rparr>)"
    by (simp add: DeleteCompletedLogoutCorrelationGrants_def io_defs Let_def expired_batch_def sort_by_def
        completed_before_def put_defs grants_unique_def example_done_db_def example_logout_db_def)
  with logout_cleanup_bounded [OF example_done_ok, of example_env 40 1 1] show ?thesis by auto
qed

end
