(* ===== verification/Audit_Log.thy ===== *)
theory Audit_Log
  imports Accounts Logout_Grants
begin

text \<open>
  The audit record and the read side of the identity store: \<open>internal/identity/audit.go\<close>, the bounded
  listings of \<open>store.go\<close> (\<open>ListUsers\<close>, \<open>ListInvitations\<close>, \<open>ListSessions\<close>, \<open>ListAllSessions\<close>), the
  password throttle, which counts audit events, and \<open>internal/identity/metrics.go\<close>. Every listing
  meets the interface \<open>paged\<close>: it reads one window of a fixed sequence of rows together with its
  length, so pages are bounded and consecutive pages cover the whole sequence.
\<close>

subsection \<open>Audit events\<close>

definition AuditSignInSucceeded :: string where "AuditSignInSucceeded = ''sign_in.succeeded''"
definition AuditSignInFailed :: string where "AuditSignInFailed = ''sign_in.failed''"
definition AuditSignInBlocked :: string where "AuditSignInBlocked = ''sign_in.blocked''"
definition AuditSessionRevoked :: string where "AuditSessionRevoked = ''session.revoked''"
definition AuditAccountSessionsEnded :: string where "AuditAccountSessionsEnded = ''account.sessions_ended''"
definition AuditAccountCreated :: string where "AuditAccountCreated = ''account.created''"
definition AuditAccountDisabled :: string where "AuditAccountDisabled = ''account.disabled''"
definition AuditAccountEnabled :: string where "AuditAccountEnabled = ''account.enabled''"
definition AuditInvitationCreated :: string where "AuditInvitationCreated = ''invitation.created''"
definition AuditInvitationAccepted :: string where "AuditInvitationAccepted = ''invitation.accepted''"
definition AuditInvitationRevoked :: string where "AuditInvitationRevoked = ''invitation.revoked''"
definition AuditGitHubMappingCreated :: string where "AuditGitHubMappingCreated = ''github_mapping.created''"
definition AuditGitHubMappingDeleted :: string where "AuditGitHubMappingDeleted = ''github_mapping.deleted''"
definition AuditGitHubMappingBound :: string where "AuditGitHubMappingBound = ''github_mapping.bound''"
definition AuditLogoutCompleted :: string where "AuditLogoutCompleted = ''logout.completed''"
definition AuditLogoutFailed :: string where "AuditLogoutFailed = ''logout.failed''"

type_synonym details = "(string \<times> detail) list"

record AuditEntry =
  EventType :: string
  ActorUserID :: string
  SubjectUserID :: string
  SessionID :: string
  RemoteAddress :: "string option"
  Details :: details

definition nullableUUID :: "string \<Rightarrow> string option" where
  "nullableUUID value = (if TrimSpace value = [] then None else Some value)"

definition RecordAuditEvent :: "env \<Rightarrow> AuditEntry \<Rightarrow> time \<Rightarrow> unit store" where
  "RecordAuditEvent E entry now =
     bindS (guardS (TrimSpace (EventType entry) \<noteq> []) (invalidInput ''an audit event requires a type'')) (\<lambda>_.
     tx E ''audit event''
      (bindS (requester_arg E ''record audit event'' (nullableUUID (ActorUserID entry))) (\<lambda>who.
       bindS (requester_arg E ''record audit event'' (nullableUUID (SubjectUserID entry))) (\<lambda>subject.
       bindS (requester_arg E ''record audit event'' (nullableUUID (SessionID entry))) (\<lambda>session.
       stmt E ''record audit event'' (\<lambda>s.
         put_audits (audits s @ [\<lparr>a_id = randomUUID E 0, a_actor = who, a_subject = subject, a_session = session,
             a_event = EventType entry, a_address = RemoteAddress entry, a_created = now,
             a_details = Details entry\<rparr>]) () s))))))"

record AuditEvent =
  ev_ID :: string
  ev_Type :: string
  ev_Actor :: string
  ev_Subject :: string
  ev_Session :: string
  ev_Address :: "string option"
  ev_CreatedAt :: time
  ev_Details :: details

definition scan_audit :: "audit_row \<Rightarrow> AuditEvent" where
  "scan_audit a = \<lparr>ev_ID = a_id a, ev_Type = a_event a, ev_Actor = coalesce (a_actor a),
     ev_Subject = coalesce (a_subject a), ev_Session = coalesce (a_session a), ev_Address = a_address a,
     ev_CreatedAt = a_created a, ev_Details = a_details a\<rparr>"

definition read_AuditEvent :: "env \<Rightarrow> string \<Rightarrow> AuditEvent store" where
  "read_AuditEvent E i =
     bindS (uuid_arg E ''read audit event'' i) (\<lambda>u.
     bindS (query E ''read audit event'' (\<lambda>s. find (\<lambda>a. a_id a = u) (audits s))) (\<lambda>r.
     case r of None \<Rightarrow> failS ErrAuditEventNotFound | Some a \<Rightarrow> retS (scan_audit a)))"

text \<open>\<open>ANY($1::uuid[])\<close>: one malformed identifier makes the statement fail.\<close>

fun uuid_args :: "env \<Rightarrow> string \<Rightarrow> string list \<Rightarrow> string list store" where
  "uuid_args E l [] = retS []"
| "uuid_args E l (i # is) = bindS (uuid_arg E l i) (\<lambda>u. bindS (uuid_args E l is) (\<lambda>us. retS (u # us)))"

definition AccountNames :: "env \<Rightarrow> string list \<Rightarrow> (string \<rightharpoonup> string) store" where
  "AccountNames E ids = (if ids = [] then retS Map.empty
     else bindS (uuid_args E ''read account names'' ids) (\<lambda>us.
       query E ''read account names'' (\<lambda>s.
         map_of (map (\<lambda>u. (u_id u, u_username u)) (filter (\<lambda>u. u_id u \<in> set us) (users s))))))"

subsection \<open>Pages\<close>

record Page =
  Limit :: int
  Offset :: int

definition defaultPageLimit :: int where "defaultPageLimit = 100"
definition maximumPageLimit :: int where "maximumPageLimit = 500"

definition normalized :: "Page \<Rightarrow> Page" where
  "normalized page0 =
     (let page = (if Limit page0 \<le> 0 then page0\<lparr>Limit := defaultPageLimit\<rparr> else page0);
          page = (if Limit page > maximumPageLimit then page\<lparr>Limit := maximumPageLimit\<rparr> else page)
      in if Offset page < 0 then page\<lparr>Offset := 0\<rparr> else page)"

text \<open>\<open>LIMIT $1 OFFSET $2\<close> of a normalized page.\<close>

definition window :: "Page \<Rightarrow> 'a list \<Rightarrow> 'a list" where
  "window page xs = take (nat (Limit page)) (drop (nat (Offset page)) xs)"

text \<open>\<open>ORDER BY created_at DESC, id\<close>; identifiers compare as their canonical texts do.\<close>

definition by_newest :: "('a \<Rightarrow> time) \<Rightarrow> ('a \<Rightarrow> string) \<Rightarrow> 'a list \<Rightarrow> 'a list" where
  "by_newest created ident = sort_by (\<lambda>x y. created x > created y \<or> created x = created y \<and> ident x \<le> ident y)"

text \<open>A count and then the page, as every listing reads them.\<close>

definition count_and_page ::
  "env \<Rightarrow> string \<Rightarrow> string \<Rightarrow> Page \<Rightarrow> (db \<Rightarrow> 'c list) \<Rightarrow> (db \<Rightarrow> 'r list) \<Rightarrow> ('r list \<times> nat) store" where
  "count_and_page E count list page counted rows =
     bindS (query E count (\<lambda>s. length (counted s))) (\<lambda>total.
     bindS (query E list (\<lambda>s. window page (rows s))) (\<lambda>xs. retS (xs, total)))"

subsection \<open>Listings\<close>

definition user_matches :: "env \<Rightarrow> string \<Rightarrow> user_row \<Rightarrow> bool" where
  "user_matches E q u \<longleftrightarrow> pg_ilike E (u_username u) (''%'' @ q @ ''%'') \<or> pg_ilike E (u_email u) (''%'' @ q @ ''%'') \<or>
     pg_ilike E (coalesce (u_github_login u)) (''%'' @ q @ ''%'')"

definition ListUsers :: "env \<Rightarrow> string \<Rightarrow> Page \<Rightarrow> (User list \<times> nat) store" where
  "ListUsers E q page = (let q = TrimSpace q in
     count_and_page E ''count users'' ''list users'' (normalized page)
       (\<lambda>s. filter (user_matches E q) (users s))
       (\<lambda>s. map scan_user_source (by_newest u_created u_id (filter (user_matches E q) (users s)))))"

definition scan_invitation :: "time \<Rightarrow> invitation_row \<Rightarrow> Invitation" where
  "scan_invitation now i = \<lparr>inv_ID = i_id i, inv_Email = i_email i, inv_Role = i_role i,
     inv_State = invitationState i now, inv_CreatedAt = i_created i, inv_ExpiresAt = i_expires i,
     inv_AcceptedAt = i_accepted i, inv_RevokedAt = i_revoked i, inv_InvitedBy = coalesce (i_invited_by i)\<rparr>"

definition ListInvitations :: "env \<Rightarrow> time \<Rightarrow> Page \<Rightarrow> (Invitation list \<times> nat) store" where
  "ListInvitations E now page =
     count_and_page E ''count invitations'' ''list invitations'' (normalized page) invitations
       (\<lambda>s. map (scan_invitation now) (by_newest i_created i_id (invitations s)))"

text \<open>A session as it is reported: the row and its \<open>Active\<close> flag.\<close>

definition scan_session :: "time \<Rightarrow> duration \<Rightarrow> session_row \<Rightarrow> session_row \<times> bool" where
  "scan_session now idle r = (r, live now idle r)"

definition ListSessions :: "env \<Rightarrow> string \<Rightarrow> Page \<Rightarrow> ((session_row \<times> bool) list \<times> nat) store" where
  "ListSessions E userID page =
     bindS (read_SessionPolicy E) (\<lambda>p.
     bindS (uuid_arg E ''count sessions'' userID) (\<lambda>u.
     count_and_page E ''count sessions'' ''list sessions'' (normalized page)
       (\<lambda>s. filter (\<lambda>r. s_user r = u) (sessions s))
       (\<lambda>s. map (scan_session (go_now E) (BrowserIdleTimeout p))
          (by_newest s_created s_id (filter (\<lambda>r. s_user r = u) (sessions s))))))"

record SessionFilter =
  filter_UserID :: string
  filter_ActiveOnly :: bool
  filter_Since :: "time option"

record AccountSession =
  listed_Session :: "session_row \<times> bool"
  listed_Username :: string
  listed_Email :: string
  listed_Role :: Role

definition is_hex :: "char \<Rightarrow> bool" where
  "is_hex c \<longleftrightarrow> CHR ''0'' \<le> c \<and> c \<le> CHR ''9'' \<or> CHR ''a'' \<le> c \<and> c \<le> CHR ''f'' \<or> CHR ''A'' \<le> c \<and> c \<le> CHR ''F''"

text \<open>\<open>identifierPattern\<close>, which \<open>uuidPathPattern\<close> of the HTTP layer repeats.\<close>

definition identifierPattern :: "string \<Rightarrow> bool" where
  "identifierPattern i \<longleftrightarrow> map length (split_on CHR ''-'' i) = [8, 4, 4, 4, 12] \<and>
     list_all (list_all is_hex) (split_on CHR ''-'' i)"

definition selected :: "SessionFilter \<Rightarrow> string option \<Rightarrow> time \<Rightarrow> duration \<Rightarrow> session_row \<Rightarrow> bool" where
  "selected f user now idle r \<longleftrightarrow> (case user of None \<Rightarrow> True | Some u \<Rightarrow> s_user r = u) \<and>
     (case filter_Since f of None \<Rightarrow> True | Some t \<Rightarrow> s_created r \<ge> t) \<and>
     (\<not> filter_ActiveOnly f \<or> live now idle r)"

text \<open>\<open>JOIN users u ON u.id=s.user_id\<close>: a session whose account is missing has no row.\<close>

definition join_user :: "time \<Rightarrow> duration \<Rightarrow> user_row list \<Rightarrow> session_row \<Rightarrow> AccountSession list" where
  "join_user now idle us r = map (\<lambda>u. \<lparr>listed_Session = scan_session now idle r, listed_Username = u_username u,
     listed_Email = u_email u, listed_Role = u_role u\<rparr>) (filter (\<lambda>u. u_id u = s_user r) us)"

definition ListAllSessions :: "env \<Rightarrow> SessionFilter \<Rightarrow> Page \<Rightarrow> (AccountSession list \<times> nat) store" where
  "ListAllSessions E f page =
     bindS (read_SessionPolicy E) (\<lambda>p.
     bindS (guardS (filter_UserID f = [] \<or> identifierPattern (filter_UserID f)) ErrUserNotFound) (\<lambda>_.
     bindS (requester_arg E ''count sessions'' (nullable (filter_UserID f))) (\<lambda>user.
     let pick_rows = (\<lambda>s. filter (selected f user (go_now E) (BrowserIdleTimeout p)) (sessions s)) in
     count_and_page E ''count sessions'' ''list sessions'' (normalized page) pick_rows
       (\<lambda>s. concat (map (join_user (go_now E) (BrowserIdleTimeout p) (users s))
          (by_newest s_created s_id (pick_rows s)))))))"

record AuditFilter =
  af_Subject :: string
  af_Actor :: string
  af_Type :: string
  af_Since :: "time option"
  af_Until :: "time option"

definition event_matches :: "AuditFilter \<Rightarrow> string option \<Rightarrow> string option \<Rightarrow> audit_row \<Rightarrow> bool" where
  "event_matches f subject who a \<longleftrightarrow>
     (subject \<noteq> None \<longrightarrow> a_subject a = subject) \<and> (who \<noteq> None \<longrightarrow> a_actor a = who) \<and>
     (af_Type f \<noteq> [] \<longrightarrow> a_event a = af_Type f) \<and>
     (case af_Since f of None \<Rightarrow> True | Some t \<Rightarrow> a_created a \<ge> t) \<and>
     (case af_Until f of None \<Rightarrow> True | Some t \<Rightarrow> a_created a \<le> t)"

definition ListAuditEvents :: "env \<Rightarrow> AuditFilter \<Rightarrow> Page \<Rightarrow> (AuditEvent list \<times> nat) store" where
  "ListAuditEvents E f page =
     bindS (requester_arg E ''count audit events'' (nullable (af_Subject f))) (\<lambda>subject.
     bindS (requester_arg E ''count audit events'' (nullable (af_Actor f))) (\<lambda>who.
     count_and_page E ''count audit events'' ''list audit events'' (normalized page)
       (\<lambda>s. filter (event_matches f subject who) (audits s))
       (\<lambda>s. map scan_audit (by_newest a_created a_id (filter (event_matches f subject who) (audits s))))))"

record LogoutGrant =
  lg_ID :: string
  lg_SubjectID :: string
  lg_Client :: string
  lg_CreatedAt :: time
  lg_ConsumedAt :: "time option"
  lg_CompletedAt :: "time option"
  lg_CleanupAfter :: time
  lg_Attempts :: int
  lg_LastError :: string

definition scan_logout_grant :: "grant_row \<Rightarrow> LogoutGrant" where
  "scan_logout_grant g = \<lparr>lg_ID = g_id g, lg_SubjectID = g_subject g, lg_Client = g_client g,
     lg_CreatedAt = g_created g, lg_ConsumedAt = g_consumed g, lg_CompletedAt = g_completed g,
     lg_CleanupAfter = g_cleanup_after g, lg_Attempts = g_attempts g, lg_LastError = g_last_error g\<rparr>"

definition ListLogoutGrants :: "env \<Rightarrow> bool \<Rightarrow> Page \<Rightarrow> (LogoutGrant list \<times> nat) store" where
  "ListLogoutGrants E onlyOutstanding page =
     (let P = (\<lambda>g. \<not> onlyOutstanding \<or> g_completed g = None) in
      count_and_page E ''count logout grants'' ''list logout grants'' (normalized page)
        (\<lambda>s. filter P (grants s))
        (\<lambda>s. map scan_logout_grant (by_newest g_created g_id (filter P (grants s)))))"

subsection \<open>Single lookups\<close>

definition UserByID :: "env \<Rightarrow> string \<Rightarrow> User store" where
  "UserByID E i =
     bindS (uuid_arg E ''read user'' i) (\<lambda>u.
     bindS (query E ''read user'' (\<lambda>s. find (\<lambda>x. u_id x = u) (users s))) (\<lambda>r.
     case r of None \<Rightarrow> failS ErrUserNotFound | Some x \<Rightarrow> retS (scan_user_source x)))"

definition UserIDByEmail :: "env \<Rightarrow> string \<Rightarrow> string store" where
  "UserIDByEmail E email =
     bindS (query E ''read user by email'' (\<lambda>s. find (\<lambda>x. u_email x = pg_lower E (pg_btrim E email)) (users s))) (\<lambda>r.
     case r of None \<Rightarrow> failS ErrUserNotFound | Some x \<Rightarrow> retS (u_id x))"

record SessionDetail =
  det_Session :: "session_row \<times> bool"
  det_User :: User
  det_HydraSessionIDs :: "string list"

definition SessionByID :: "env \<Rightarrow> string \<Rightarrow> SessionDetail store" where
  "SessionByID E sessionID =
     bindS (uuid_arg E ''read session'' sessionID) (\<lambda>i.
     bindS (query E ''read session'' (\<lambda>s. session_of s i)) (\<lambda>r.
     case r of None \<Rightarrow> failS ErrSessionNotFound
     | Some x \<Rightarrow>
       bindS (read_SessionPolicy E) (\<lambda>p.
       bindS (UserByID E (s_user x)) (\<lambda>u.
       bindS (HydraLoginSessionIDs E sessionID) (\<lambda>ids.
       retS \<lparr>det_Session = scan_session (go_now E) (BrowserIdleTimeout p) x, det_User = u,
         det_HydraSessionIDs = ids\<rparr>)))))"

subsection \<open>The password throttle\<close>

definition PasswordFailureWindow :: duration where "PasswordFailureWindow = 15 * minute"
definition PasswordFailuresPerUsername :: nat where "PasswordFailuresPerUsername = 10"
definition PasswordFailuresPerAddress :: nat where "PasswordFailuresPerAddress = 50"

definition int_text :: "int \<Rightarrow> string" where
  "int_text n = (if n < 0 then ''-'' @ decimal (nat (- n)) else decimal (nat n))"

text \<open>\<open>details->>'key'\<close>.\<close>

definition detail_text :: "details \<Rightarrow> string \<Rightarrow> string option" where
  "detail_text ds k = (case map_of ds k of None \<Rightarrow> None | Some DNull \<Rightarrow> None | Some (DText t) \<Rightarrow> Some t
     | Some (DNumber n) \<Rightarrow> Some (int_text n) | Some (DFlag b) \<Rightarrow> Some (if b then ''true'' else ''false'')
     | Some (DOther j) \<Rightarrow> Some j)"

definition password_failure :: "time \<Rightarrow> audit_row \<Rightarrow> bool" where
  "password_failure since a \<longleftrightarrow> a_event a = ''sign_in.failed'' \<and>
     detail_text (a_details a) ''method'' = Some ''password'' \<and> a_created a > since"

text \<open>The result is \<open>(throttled, err)\<close>; without a count the attempt counts as throttled.\<close>

definition PasswordSignInThrottled ::
  "env \<Rightarrow> string \<Rightarrow> string option \<Rightarrow> time \<Rightarrow> db \<Rightarrow> bool \<times> error option" where
  "PasswordSignInThrottled E username address now s =
     (let since = now - PasswordFailureWindow in
      if fault E ''count recent password failures''
      then (True, Some (DbError ''count recent password failures'' Unavailable))
      else
        let byUsername = length (filter (\<lambda>a. password_failure since a \<and>
              detail_text (a_details a) ''username'' = Some (TrimSpace username)) (audits s));
            byAddress = length (filter (\<lambda>a. password_failure since a \<and>
              address \<noteq> None \<and> a_address a = address) (audits s))
        in (byUsername \<ge> PasswordFailuresPerUsername \<or> byAddress \<ge> PasswordFailuresPerAddress, None))"

subsection \<open>Metrics\<close>

record Metrics =
  met_Users :: nat
  met_Disabled :: nat
  met_ByRole :: "string \<rightharpoonup> nat"
  met_ByIdentitySource :: "string \<rightharpoonup> nat"
  met_Sessions :: nat
  met_ActiveSessions :: nat
  met_RevokedSessions :: nat
  met_Invitations :: "string \<rightharpoonup> nat"
  met_Apps :: nat
  met_ByStatus :: "run_status \<rightharpoonup> nat"
  met_Queued :: nat
  met_Running :: nat
  met_OldestQueued :: "duration option"
  met_Outstanding :: nat
  met_FailedLogouts :: nat

text \<open>\<open>SELECT key, count(*) \<dots> GROUP BY 1\<close>, collected into a map: a key without rows is absent.\<close>

definition countInto :: "('a \<Rightarrow> 'k) \<Rightarrow> 'a list \<Rightarrow> 'k \<rightharpoonup> nat" where
  "countInto key xs k = (let n = length (filter (\<lambda>x. key x = k) xs) in if n = 0 then None else Some n)"

definition at_key :: "('k \<rightharpoonup> nat) \<Rightarrow> 'k \<Rightarrow> nat" where
  "at_key m k = (case m k of None \<Rightarrow> 0 | Some n \<Rightarrow> n)"

text \<open>The key of the identity-source count, which looks at the login and not at the GitHub ID.\<close>

definition metrics_source :: "user_row \<Rightarrow> string" where
  "metrics_source u = (if u_github_login u \<noteq> None then ''github''
     else if u_entra_object u \<noteq> None then ''entra'' else ''local'')"

definition metrics_invitation :: "time \<Rightarrow> invitation_row \<Rightarrow> string" where
  "metrics_invitation now i = (if i_accepted i \<noteq> None then ''accepted''
     else if i_revoked i \<noteq> None then ''revoked'' else if i_expires i \<le> now then ''expired'' else ''pending'')"

definition oldest_queued :: "time \<Rightarrow> run_row list \<Rightarrow> duration option" where
  "oldest_queued now rs = (case filter (\<lambda>r. r_status r = Queued) rs of [] \<Rightarrow> None
     | q # qs \<Rightarrow> Some (now - fold (\<lambda>r m. min m (r_requested r)) qs (r_requested q)))"

definition read_Metrics :: "env \<Rightarrow> time \<Rightarrow> Metrics store" where
  "read_Metrics E now =
     bindS (read_SessionPolicy E) (\<lambda>p.
     bindS (query E ''count users'' (\<lambda>s. (length (users s), length (filter (\<lambda>u. u_disabled u \<noteq> None) (users s))))) (\<lambda>(total, disabled).
     bindS (query E ''aggregate counts'' (\<lambda>s. countInto u_role (users s))) (\<lambda>roles.
     bindS (query E ''aggregate counts'' (\<lambda>s. countInto metrics_source (users s))) (\<lambda>sources.
     bindS (query E ''count sessions'' (\<lambda>s. (length (sessions s),
       length (filter (live now (BrowserIdleTimeout p)) (sessions s)),
       length (filter (\<lambda>r. s_revoked r \<noteq> None) (sessions s))))) (\<lambda>(all, active, revoked).
     bindS (query E ''aggregate counts'' (\<lambda>s. countInto (metrics_invitation (db_now E)) (invitations s))) (\<lambda>invs.
     bindS (query E ''count managed apps'' (\<lambda>s. length (apps s))) (\<lambda>n.
     bindS (query E ''aggregate counts'' (\<lambda>s. countInto r_status (runs s))) (\<lambda>statuses.
     bindS (query E ''measure validation queue age'' (\<lambda>s. oldest_queued (db_now E) (runs s))) (\<lambda>oldest.
     bindS (query E ''count logout correlation grants'' (\<lambda>s.
       (length (filter (\<lambda>g. g_completed g = None) (grants s)),
        length (filter (\<lambda>g. g_completed g = None \<and> g_attempts g > 0) (grants s))))) (\<lambda>(outstanding, failed).
     retS \<lparr>met_Users = total, met_Disabled = disabled, met_ByRole = roles, met_ByIdentitySource = sources,
       met_Sessions = all, met_ActiveSessions = active, met_RevokedSessions = revoked, met_Invitations = invs,
       met_Apps = n, met_ByStatus = statuses, met_Queued = at_key statuses Queued,
       met_Running = at_key statuses Running, met_OldestQueued = oldest,
       met_Outstanding = outstanding, met_FailedLogouts = failed\<rparr>))))))))))"

subsection \<open>Every listing is paged\<close>

lemma length_insort_by [simp]: "length (insort_by le x xs) = Suc (length xs)"
  by (induction xs) auto

lemma length_sort_by [simp]: "length (sort_by le xs) = length xs"
  unfolding sort_by_def by (induction xs) auto

lemma by_newest_length [simp]: "length (by_newest c i xs) = length xs"
  by (simp add: by_newest_def)

lemma by_newest_set [simp]: "set (by_newest c i xs) = set xs"
  by (simp add: by_newest_def)

lemma by_newest_distinct [simp]: "distinct (by_newest c i xs) = distinct xs"
  by (simp add: by_newest_def)

lemma normalized_bounds: "0 < Limit (normalized p) \<and> Limit (normalized p) \<le> maximumPageLimit \<and> 0 \<le> Offset (normalized p)"
  by (simp add: normalized_def Let_def defaultPageLimit_def maximumPageLimit_def)

lemma normalized_id: "0 < L \<Longrightarrow> L \<le> maximumPageLimit \<Longrightarrow> 0 \<le> k \<Longrightarrow>
    normalized \<lparr>Limit = L, Offset = k\<rparr> = \<lparr>Limit = L, Offset = k\<rparr>"
  by (simp add: normalized_def)

text \<open>Consecutive windows of one length are a prefix of the sequence.\<close>

lemma windows_prefix: "concat (map (\<lambda>k. take L (drop (k * L) xs)) [0..<n]) = take (n * L) xs"
proof (induction n)
  case (Suc n)
  then show ?case using take_add [of "n * L" L xs] by (simp add: add.commute)
qed simp

locale paged =
  fixes fetch :: "Page \<Rightarrow> ('r list \<times> nat) store" and rows :: "db \<Rightarrow> 'r list"
  assumes fetch_window: "schema_ok s \<Longrightarrow> fetch p s = (Inr (xs, cnt), s') \<Longrightarrow>
      s' = s \<and> xs = window (normalized p) (rows s) \<and> cnt = length (rows s)"
begin

lemma page_bounded:
  assumes "schema_ok s" "fetch p s = (Inr (xs, cnt), s')"
  shows "length xs \<le> 500 \<and> length xs \<le> cnt"
proof -
  have "nat (Limit (normalized p)) \<le> 500" using normalized_bounds [of p] by (auto simp: maximumPageLimit_def nat_le_iff)
  with fetch_window [OF assms] show ?thesis by (auto simp: window_def)
qed

lemma pages_cover:
  assumes ok: "schema_ok s" and L: "0 < L" "L \<le> 500"
    and pages: "\<forall>k < n. fetch \<lparr>Limit = L, Offset = int k * L\<rparr> s = (Inr (pages k, cnt), s)"
    and enough: "length (rows s) \<le> n * nat L"
  shows "concat (map pages [0..<n]) = rows s"
proof -
  have "pages k = take (nat L) (drop (k * nat L) (rows s))" if "k < n" for k
  proof -
    have "normalized \<lparr>Limit = L, Offset = int k * L\<rparr> = \<lparr>Limit = L, Offset = int k * L\<rparr>"
      using L by (intro normalized_id) (simp_all add: maximumPageLimit_def)
    moreover have "nat (int k * L) = k * nat L" using L by (simp add: nat_mult_distrib)
    ultimately show ?thesis using fetch_window [OF ok] pages that by (fastforce simp: window_def)
  qed
  then have "concat (map pages [0..<n]) = concat (map (\<lambda>k. take (nat L) (drop (k * nat L) (rows s))) [0..<n])"
    by (intro arg_cong [where f = concat] map_cong) simp_all
  also have "\<dots> = rows s" unfolding windows_prefix using enough by simp
  finally show ?thesis .
qed

end

lemma count_and_page_Inr: "count_and_page E c l p counted rows s = (Inr (xs, cnt), s') \<Longrightarrow>
    s' = s \<and> xs = window p (rows s) \<and> cnt = length (counted s)"
  by (auto simp: count_and_page_def io_Inr)

interpretation users: paged "ListUsers E q"
  "\<lambda>s. map scan_user_source (by_newest u_created u_id (filter (user_matches E (TrimSpace q)) (users s)))" for E q
  by unfold_locales (auto simp: ListUsers_def Let_def dest!: count_and_page_Inr)

interpretation invitations: paged "ListInvitations E now"
  "\<lambda>s. map (scan_invitation now) (by_newest i_created i_id (invitations s))" for E now
  by unfold_locales (auto simp: ListInvitations_def dest!: count_and_page_Inr)

interpretation logouts: paged "ListLogoutGrants E outstanding"
  "\<lambda>s. map scan_logout_grant (by_newest g_created g_id
     (filter (\<lambda>g. \<not> outstanding \<or> g_completed g = None) (grants s)))" for E outstanding
  by unfold_locales (auto simp: ListLogoutGrants_def Let_def dest!: count_and_page_Inr)

lemma requester_arg_success: "requester_arg E l q s = (Inr r, s') \<longleftrightarrow>
    s' = s \<and> (case q of None \<Rightarrow> r = None | Some u \<Rightarrow> r \<noteq> None \<and> r = uuid_in E u)"
  by (cases q) (auto simp: requester_arg_def io_Inr)

definition cast :: "env \<Rightarrow> string \<Rightarrow> string option" where
  "cast E i = Option.bind (nullable i) (uuid_in E)"

lemma requester_cast: "requester_arg E l (nullable i) s = (Inr r, s') \<Longrightarrow> r = cast E i \<and> s' = s"
  by (auto simp: requester_arg_success cast_def split: option.splits)

interpretation events: paged "ListAuditEvents E f"
  "\<lambda>s. map scan_audit (by_newest a_created a_id
     (filter (event_matches f (cast E (af_Subject f)) (cast E (af_Actor f))) (audits s)))" for E f
  by unfold_locales (auto simp: ListAuditEvents_def bindS_Inr dest!: count_and_page_Inr requester_cast)

definition idle_of :: "db \<Rightarrow> duration" where
  "idle_of s = BrowserIdleTimeout (policy_of_row (the (policy s)))"

lemma read_policy_Inr: "read_SessionPolicy E s = (Inr p, s') \<Longrightarrow> s' = s \<and> policy s \<noteq> None \<and> p = policy_of_row (the (policy s))"
  by (auto simp: read_SessionPolicy_def io_Inr split: option.splits)

interpretation account_sessions: paged "ListSessions E userID"
  "\<lambda>s. map (scan_session (go_now E) (idle_of s))
     (by_newest s_created s_id (filter (\<lambda>r. Some (s_user r) = uuid_in E userID) (sessions s)))" for E userID
  by unfold_locales
    (auto simp: ListSessions_def bindS_Inr uuid_arg_Inr idle_of_def dest!: count_and_page_Inr read_policy_Inr)

lemma join_user_single:
  assumes "schema_ok s" "r \<in> set (sessions s)"
  shows "\<exists>u \<in> set (users s). u_id u = s_user r \<and> join_user now idle (users s) r =
    [\<lparr>listed_Session = scan_session now idle r, listed_Username = u_username u, listed_Email = u_email u, listed_Role = u_role u\<rparr>]"
proof -
  from assms obtain u where u: "u \<in> set (users s)" "u_id u = s_user r"
    unfolding schema_ok_def by (metis image_subset_iff imageE)
  then obtain A B where AB: "users s = A @ u # B" by (meson split_list)
  have d: "distinct (map u_id (users s))" using assms(1) by (rule schema_user_ids)
  have "filter (\<lambda>x. u_id x = s_user r) A = []" "filter (\<lambda>x. u_id x = s_user r) B = []"
    using d u(2) unfolding AB filter_empty_conv by (auto, metis image_eqI, metis image_eqI)
  with u AB show ?thesis by (intro bexI [of _ u]) (simp_all add: join_user_def)
qed

definition joined :: "env \<Rightarrow> SessionFilter \<Rightarrow> db \<Rightarrow> AccountSession list" where
  "joined E f s = concat (map (join_user (go_now E) (idle_of s) (users s)) (by_newest s_created s_id
     (filter (selected f (cast E (filter_UserID f)) (go_now E) (idle_of s)) (sessions s))))"

lemma join_users_rows:
  assumes "schema_ok s" "set rs \<subseteq> set (sessions s)"
  shows "map (fst \<circ> listed_Session) (concat (map (join_user now idle (users s)) rs)) = rs"
  using assms(2)
proof (induction rs)
  case (Cons r rs)
  then have r: "r \<in> set (sessions s)" by simp
  from join_user_single [OF assms(1) r, of now idle] obtain u :: user_row where
    "join_user now idle (users s) r = [\<lparr>listed_Session = scan_session now idle r, listed_Username = u_username u,
       listed_Email = u_email u, listed_Role = u_role u\<rparr>]" by blast
  with Cons show ?case by (simp add: scan_session_def)
qed simp

lemma joined_sessions:
  "schema_ok s \<Longrightarrow> map (fst \<circ> listed_Session) (joined E f s) =
     by_newest s_created s_id (filter (selected f (cast E (filter_UserID f)) (go_now E) (idle_of s)) (sessions s))"
  unfolding joined_def by (rule join_users_rows) auto

interpretation all_sessions: paged "ListAllSessions E f" "joined E f" for E f
proof
  fix s p xs cnt s'
  assume ok: "schema_ok s" and run: "ListAllSessions E f p s = (Inr (xs, cnt), s')"
  let ?sel = "filter (selected f (cast E (filter_UserID f)) (go_now E) (idle_of s)) (sessions s)"
  from run have "s' = s \<and> xs = window (normalized p) (joined E f s) \<and> cnt = length ?sel"
    by (auto simp: ListAllSessions_def bindS_Inr guardS_Inr Let_def joined_def idle_of_def
        dest!: read_policy_Inr requester_cast count_and_page_Inr)
  moreover have "length (joined E f s) = length ?sel"
    using arg_cong [OF joined_sessions [OF ok, of E f], of length] by simp
  ultimately show "s' = s \<and> xs = window (normalized p) (joined E f s) \<and> cnt = length (joined E f s)" by simp
qed

lemma sorted_insort_by:
  assumes "\<And>x y. le x y \<or> le y x" "\<And>x y z. le x y \<Longrightarrow> le y z \<Longrightarrow> le x z"
  shows "sorted_wrt le xs \<Longrightarrow> sorted_wrt le (insort_by le x xs)"
proof (induction xs)
  case (Cons y ys)
  show ?case
  proof (cases "le x y")
    case True
    with Cons.prems assms(2) [OF True] show ?thesis by auto
  next
    case False
    with assms(1) have "le y x" by blast
    with Cons False show ?thesis by auto
  qed
qed simp

lemma sorted_sort_by:
  assumes "\<And>x y. le x y \<or> le y x" "\<And>x y z. le x y \<Longrightarrow> le y z \<Longrightarrow> le x z"
  shows "sorted_wrt le (sort_by le xs)"
  unfolding sort_by_def by (induction xs) (auto intro: sorted_insort_by [OF assms])

lemma by_newest_sorted: "sorted_wrt (\<lambda>x y. created x \<ge> created y) (by_newest created ident xs)"
proof -
  have "sorted_wrt (\<lambda>x y. created x > created y \<or> created x = created y \<and> ident x \<le> ident y) (by_newest created ident xs)"
    unfolding by_newest_def by (rule sorted_sort_by) auto
  then show ?thesis by (rule sorted_wrt_mono_rel [rotated]) auto
qed

text \<open>Reading the sessions of all accounts page by page, until the reported number of rows is covered,
  shows every session the filter selects exactly once, newest first, and no page is larger than asked
  for. The number comes from a count without the join that the page makes: they agree because every
  session belongs to an account.\<close>

theorem all_sessions_pages_cover:
  assumes ok: "schema_ok s" and L: "0 < L" "L \<le> 500" and n: "0 < n" "cnt \<le> n * nat L"
    and pages: "\<forall>k < n. ListAllSessions E f \<lparr>Limit = L, Offset = int k * L\<rparr> s = (Inr (pages k, cnt), s)"
  shows "let got = map (fst \<circ> listed_Session) (concat (map pages [0..<n])) in
    distinct got \<and> set got = {r \<in> set (sessions s). selected f (cast E (filter_UserID f)) (go_now E) (idle_of s) r} \<and>
    cnt = length got \<and> sorted_wrt (\<lambda>x y. s_created x \<ge> s_created y) got"
proof -
  have "cnt = length (joined E f s)"
    using all_sessions.fetch_window [OF ok, of E f] pages n(1) by blast
  moreover from this have cover: "concat (map pages [0..<n]) = joined E f s"
    using all_sessions.pages_cover [OF ok L pages] n(2) by simp
  moreover have "distinct (sessions s)"
    using ok by (auto simp: schema_ok_def sessions_unique_def distinct_map)
  ultimately show ?thesis
    unfolding Let_def cover joined_sessions [OF ok] using arg_cong [OF joined_sessions [OF ok, of E f], of length]
    by (auto intro: by_newest_sorted)
qed

definition any_session :: SessionFilter where
  "any_session = \<lparr>filter_UserID = [], filter_ActiveOnly = True, filter_Since = None\<rparr>"

theorem all_sessions_pages_cover_witness:
  "\<exists>page. ListAllSessions example_env any_session \<lparr>Limit = 1, Offset = 0\<rparr> example_db = (Inr (page, 1), example_db) \<and>
     length page = 1"
proof -
  have sel: "filter (selected any_session None 0 43200000000000) (sessions example_db) = [example_session ''s1'' ''u1'']"
    by (simp add: example_db_def selected_def any_session_def live_def example_session_def)
  have one: "length (by_newest s_created s_id [example_session ''s1'' ''u1'']) = 1" by simp
  have norm: "normalized \<lparr>Limit = 1, Offset = 0\<rparr> = \<lparr>Limit = 1, Offset = 0\<rparr>"
    by (intro normalized_id) (simp_all add: maximumPageLimit_def)
  obtain page where page: "ListAllSessions example_env any_session \<lparr>Limit = 1, Offset = 0\<rparr> example_db = (Inr (page, 1), example_db)"
    by (auto simp: ListAllSessions_def bindS_def example_read_policy guardS_def retS_def any_session_def requester_arg_def
        nullable_def count_and_page_def query_def stmt_def Let_def example_idle sel [unfolded any_session_def])
  have "\<forall>k < (1::nat). ListAllSessions example_env any_session \<lparr>Limit = 1, Offset = int k * 1\<rparr> example_db =
      (Inr ((\<lambda>_. page) k, 1), example_db)" using page by simp
  from all_sessions_pages_cover [OF example_db_ok _ _ _ _ this] page show ?thesis by (auto simp: Let_def)
qed

lemma requester_bind: "requester_arg E l q s = (Inr r, s') \<Longrightarrow> r = Option.bind q (uuid_in E) \<and> s' = s"
  by (auto simp: requester_arg_success split: option.splits)

text \<open>An audit event that was recorded is found again: by its identifier, with everything its caller
  stated, and in the listing of its event type. Recording fails only as a whole and changes nothing
  but the record.\<close>

theorem audit_event_roundtrip:
  assumes run: "RecordAuditEvent E entry now s = (r, s')" and ok: "schema_ok s"
    and canonical: "\<forall>i. uuid_in E' (randomUUID E i) = Some (randomUUID E i)" "\<not> fault E' ''read audit event''"
  shows "(\<forall>e. r = Inl e \<longrightarrow> s' = s) \<and> (r = Inr () \<longrightarrow>
    (\<exists>a. fst (read_AuditEvent E' (randomUUID E 0) s') = Inr (scan_audit a) \<and> a_event a = EventType entry \<and>
       a_details a = Details entry \<and> a_address a = RemoteAddress entry \<and> a_created a = now \<and>
       a_actor a = Option.bind (nullableUUID (ActorUserID entry)) (uuid_in E) \<and>
       a_subject a = Option.bind (nullableUUID (SubjectUserID entry)) (uuid_in E) \<and>
       s' = s\<lparr>audits := audits s @ [a]\<rparr> \<and>
       (\<forall>events cnt t. EventType entry \<noteq> [] \<longrightarrow>
          ListAuditEvents E' \<lparr>af_Subject = [], af_Actor = [], af_Type = EventType entry, af_Since = None, af_Until = None\<rparr>
            \<lparr>Limit = 0, Offset = 0\<rparr> s' = (Inr (events, cnt), t) \<longrightarrow>
          cnt > length (filter (\<lambda>x. a_event x = EventType entry) (audits s)))))"
proof (cases r)
  case (Inl e)
  then show ?thesis
    using run by (auto simp: RecordAuditEvent_def bindS_def guardS_def retS_def failS_def split: if_splits dest: tx_Inl)
next
  case (Inr u)
  from run [unfolded Inr] obtain a where
    put: "put_audits (audits s @ [a]) () s = Inr (u, s')" and a: "a_id a = randomUUID E 0" "a_event a = EventType entry"
      "a_details a = Details entry" "a_address a = RemoteAddress entry" "a_created a = now"
      "a_actor a = Option.bind (nullableUUID (ActorUserID entry)) (uuid_in E)"
      "a_subject a = Option.bind (nullableUUID (SubjectUserID entry)) (uuid_in E)"
    unfolding RecordAuditEvent_def io_Inr by (auto dest!: requester_bind)
  then have s': "s' = s\<lparr>audits := audits s @ [a]\<rparr>" and uniq: "distinct (map a_id (audits s @ [a]))" by (simp_all add: put_Inr)
  have find: "find (\<lambda>x. a_id x = randomUUID E 0) (audits s') = Some a"
    using uniq a(1) by (intro find_unique [where f = a_id]) (auto simp: s')
  have read: "fst (read_AuditEvent E' (randomUUID E 0) s') = Inr (scan_audit a)"
    using canonical find by (simp add: read_AuditEvent_def bindS_def uuid_arg_def retS_def query_def stmt_def)
  have "schema_ok s'" using ok by (simp add: s' schema_ok_def)
  moreover have "filter (event_matches \<lparr>af_Subject = [], af_Actor = [], af_Type = EventType entry, af_Since = None, af_Until = None\<rparr>
      (cast E' []) (cast E' [])) (audits s') = filter (\<lambda>x. a_event x = EventType entry) (audits s) @ [a]"
    if "EventType entry \<noteq> []"
    using that a(2) by (simp add: s' event_matches_def [abs_def] cast_def nullable_def)
  ultimately have "cnt > length (filter (\<lambda>x. a_event x = EventType entry) (audits s))"
    if "EventType entry \<noteq> []" "ListAuditEvents E' \<lparr>af_Subject = [], af_Actor = [], af_Type = EventType entry, af_Since = None, af_Until = None\<rparr>
      \<lparr>Limit = 0, Offset = 0\<rparr> s' = (Inr (events, cnt), t)" for events cnt t
    using events.fetch_window [OF _ that(2)] that(1) by simp
  with read a s' Inr show ?thesis by auto
qed

definition example_entry :: AuditEntry where
  "example_entry = \<lparr>EventType = ''app.created'', ActorUserID = ''u1'', SubjectUserID = [], SessionID = ''s1'',
     RemoteAddress = None, Details = [(''slug'', DText ''wiki'')]\<rparr>"

lemma example_event_texts: "TrimSpace ''app.created'' = ''app.created''" "TrimSpace ''u1'' = ''u1''" "TrimSpace [] = []"
  "TrimSpace ''s1'' = ''s1''"
  by code_simp+

lemma example_recorded: "\<exists>t. RecordAuditEvent example_env example_entry 5 example_db = (Inr (), t)"
  by (simp add: RecordAuditEvent_def example_entry_def guardS_def bindS_def retS_def tx_def requester_arg_def nullableUUID_def
      example_event_texts uuid_arg_def stmt_def put_audits_def optional_ref_def example_uuid)
     (simp add: example_db_def example_user_def example_session_def)

theorem audit_event_roundtrip_witness:
  "\<exists>t a. RecordAuditEvent example_env example_entry 5 example_db = (Inr (), t) \<and>
     fst (read_AuditEvent example_env (randomUUID example_env 0) t) = Inr (scan_audit a) \<and> a_event a = ''app.created'' \<and>
     a_actor a = Some ''u1''"
proof -
  obtain t where t: "RecordAuditEvent example_env example_entry 5 example_db = (Inr (), t)" using example_recorded by blast
  with audit_event_roundtrip [OF t example_db_ok, of example_env] show ?thesis
    by (auto simp: example_entry_def nullableUUID_def example_event_texts)
qed

text \<open>The identity-source count of the metrics looks at the recorded GitHub login, while the account itself
  is a GitHub account by its numeric ID. A GitHub account whose login was released, because someone else
  took the login over, is therefore missing from the count, although the user list shows it as a GitHub
  account.\<close>

theorem metrics_miscount_released_login:
  assumes m: "read_Metrics E now s = (Inr m, s')"
    and u: "u \<in> set (users s)" "u_github_id u \<noteq> None" "u_github_login u = None"
    and logins: "\<forall>v \<in> set (users s). u_github_login v \<noteq> None \<longrightarrow> u_github_id v \<noteq> None"
  shows "at_key (met_ByIdentitySource m) ''github'' <
    length (filter (\<lambda>v. IdentitySource (scan_user_source v) = IdentitySourceGitHub) (users s))"
proof -
  have "met_ByIdentitySource m = countInto metrics_source (users s)"
    using m by (auto simp: read_Metrics_def io_Inr dest!: read_policy_Inr)
  then have "at_key (met_ByIdentitySource m) ''github'' = length (filter (\<lambda>v. metrics_source v = ''github'') (users s))"
    by (simp add: at_key_def countInto_def Let_def)
  also have "filter (\<lambda>v. metrics_source v = ''github'') (users s) = filter (\<lambda>v. u_github_login v \<noteq> None) (users s)"
    by (intro filter_cong refl) (auto simp: metrics_source_def)
  also have "length \<dots> < length (filter (\<lambda>v. u_github_id v \<noteq> None) (users s))"
  proof -
    obtain A B where AB: "users s = A @ u # B" using u(1) by (meson split_list)
    have le: "length (filter (\<lambda>v. u_github_login v \<noteq> None) xs) \<le> length (filter (\<lambda>v. u_github_id v \<noteq> None) xs)"
      if "set xs \<subseteq> set (users s)" for xs
      using that logins by (induction xs) auto
    have "set A \<subseteq> set (users s)" "set B \<subseteq> set (users s)" by (auto simp: AB)
    then show ?thesis using le [of A] le [of B] u(2,3) by (simp add: AB del: not_None_eq)
  qed
  also have "filter (\<lambda>v. u_github_id v \<noteq> None) (users s) =
      filter (\<lambda>v. IdentitySource (scan_user_source v) = IdentitySourceGitHub) (users s)"
    by (intro filter_cong refl) (auto simp: scan_user_source_def identity_source_def IdentitySourceGitHub_def
        IdentitySourceEntra_def IdentitySourceLocal_def)
  finally show ?thesis .
qed

definition example_released_db :: db where
  "example_released_db = example_db\<lparr>users := [example_user ''u1'' ''alice'',
     (example_user ''u2'' ''bob'')\<lparr>u_github_id := Some 7\<rparr>]\<rparr>"

theorem metrics_miscount_released_login_witness:
  "\<exists>m. read_Metrics example_env 0 example_released_db = (Inr m, example_released_db) \<and>
     at_key (met_ByIdentitySource m) ''github'' <
       length (filter (\<lambda>v. IdentitySource (scan_user_source v) = IdentitySourceGitHub) (users example_released_db))"
proof -
  have p: "read_SessionPolicy example_env example_released_db = (Inr example_policy, example_released_db)"
    by (rule example_read_policy) (simp add: example_released_db_def)
  obtain m where m: "read_Metrics example_env 0 example_released_db = (Inr m, example_released_db)"
    by (simp add: read_Metrics_def bindS_def query_def stmt_def retS_def p)
  moreover have "(example_user ''u2'' ''bob'')\<lparr>u_github_id := Some 7\<rparr> \<in> set (users example_released_db)"
    by (simp add: example_released_db_def)
  moreover have "\<forall>v \<in> set (users example_released_db). u_github_login v \<noteq> None \<longrightarrow> u_github_id v \<noteq> None"
    by (simp add: example_released_db_def example_user_def)
  moreover have "u_github_id ((example_user ''u2'' ''bob'')\<lparr>u_github_id := Some 7\<rparr>) \<noteq> None"
    "u_github_login ((example_user ''u2'' ''bob'')\<lparr>u_github_id := Some 7\<rparr>) = None"
    by (simp_all add: example_user_def)
  ultimately have "at_key (met_ByIdentitySource m) ''github'' <
      length (filter (\<lambda>v. IdentitySource (scan_user_source v) = IdentitySourceGitHub) (users example_released_db))"
    by (intro metrics_miscount_released_login [OF m])
  with m show ?thesis by blast
qed

lemma RecordAuditEvent_quiet: "obeys quiet (RecordAuditEvent E entry now)"
  unfolding RecordAuditEvent_def by (intro qt.keeps requester_arg_quiet qt.keeps_stmt) (erule quiet_audits)

subsection \<open>Recording on behalf of an actor\<close>

text \<open>\<open>actor\<close> and \<open>(*Server).record\<close> of \<open>internal/app/operations.go\<close>: a failure to record is logged and
  never fails the operation it describes.\<close>

record actor =
  actor_UserID :: string
  actor_SessionID :: string
  actor_Address :: "string option"
  actor_Kind :: string

definition set_detail :: "string \<Rightarrow> detail \<Rightarrow> details \<Rightarrow> details" where
  "set_detail k v ds = filter (\<lambda>(k', _). k' \<noteq> k) ds @ [(k, v)]"

definition labelled :: "actor \<Rightarrow> details \<Rightarrow> details" where
  "labelled who ds = (if actor_UserID who = []
     then set_detail ''actor_kind'' (DText (if actor_Kind who = [] then ''service'' else actor_Kind who)) ds else ds)"

definition record_event :: "env \<Rightarrow> actor \<Rightarrow> string \<Rightarrow> string \<Rightarrow> details \<Rightarrow> unit store" where
  "record_event E who eventType subject ds = (\<lambda>s. (Inr (), snd (RecordAuditEvent E
     \<lparr>EventType = eventType, ActorUserID = actor_UserID who, SubjectUserID = subject, SessionID = actor_SessionID who,
       RemoteAddress = actor_Address who, Details = labelled who ds\<rparr> (go_now E) s)))"

definition service_actor :: actor where
  "service_actor = \<lparr>actor_UserID = [], actor_SessionID = [], actor_Address = None, actor_Kind = []\<rparr>"

lemma RecordAuditEvent_frame: "\<exists>xs. snd (RecordAuditEvent E entry now s) = s\<lparr>audits := xs\<rparr>"
proof -
  obtain r t where run: "RecordAuditEvent E entry now s = (r, t)" by (cases "RecordAuditEvent E entry now s")
  have "\<exists>xs. t = s\<lparr>audits := xs\<rparr>"
  proof (cases r)
    case (Inl e)
    with run have "t = s"
      by (auto simp: RecordAuditEvent_def bindS_def guardS_def retS_def failS_def split: if_splits dest: tx_Inl)
    then show ?thesis by (intro exI [of _ "audits s"]) simp
  next
    case (Inr u)
    with run show ?thesis unfolding RecordAuditEvent_def by (auto simp: io_Inr put_Inr dest!: requester_bind)
  qed
  with run show ?thesis by simp
qed

lemma record_event_frame: "\<exists>xs. record_event E who l sub ds s = (Inr (), s\<lparr>audits := xs\<rparr>)"
  using RecordAuditEvent_frame by (simp add: record_event_def)

lemma record_event_Inr: "record_event E who l sub ds s = (r, s') \<Longrightarrow> r = Inr () \<and> (\<exists>xs. s' = s\<lparr>audits := xs\<rparr>)"
  using record_event_frame [of E who l sub ds s] by auto

lemma record_event_quiet: "obeys quiet (record_event E who l sub ds)"
  using RecordAuditEvent_quiet by (simp add: obeys_def record_event_def)

end
