(* ===== verification/GitHub_Rules.thy ===== *)
theory GitHub_Rules
  imports Audit_Log
begin

text \<open>
  GitHub access rules: the rule table of \<open>internal/identity/store.go\<close>, the GitHub API client of
  \<open>internal/github/teams.go\<close> and the evaluation of the rules at sign-in (\<open>githubRole\<close> and
  \<open>githubUserRuleMatches\<close> of \<open>internal/app/app.go\<close>). GitHub is not part of the repository: what it
  answers is a parameter, one decoded reply per request.
\<close>

subsection \<open>The rule table\<close>

record GitHubRoleMapping =
  map_ID :: string
  map_Kind :: string
  map_Target :: string
  map_GitHubUserID :: int
  map_Role :: Role
  map_CreatedAt :: time

definition scan_mapping :: "mapping_row \<Rightarrow> GitHubRoleMapping" where
  "scan_mapping m = \<lparr>map_ID = m_id m, map_Kind = m_kind m, map_Target = m_target m,
     map_GitHubUserID = (case m_github_user m of None \<Rightarrow> 0 | Some n \<Rightarrow> n), map_Role = m_role m,
     map_CreatedAt = m_created m\<rparr>"

definition ValidateGitHubRoleMapping :: "string \<Rightarrow> string \<Rightarrow> Role \<Rightarrow> error option" where
  "ValidateGitHubRoleMapping kind target role =
     (if kind \<noteq> ''user'' \<and> kind \<noteq> ''organization'' \<and> kind \<noteq> ''team''
      then Some (invalidInput ''GitHub mapping kind must be user, organization, or team'')
      else if TrimSpace target = [] \<or> kind = ''team'' \<and> length (split_on CHR ''/'' (TrimSpace target)) \<noteq> 2
      then Some (invalidInput ''GitHub mapping target is invalid'')
      else if role \<noteq> RoleDeveloper \<and> role \<noteq> RoleAdmin
      then Some (invalidInput ''GitHub mapping role is invalid'')
      else None)"

definition normalizeGitHubTarget :: "env \<Rightarrow> string \<Rightarrow> string \<Rightarrow> string" where
  "normalizeGitHubTarget E kind target =
     (if kind = ''user'' \<or> kind = ''organization'' \<or> kind = ''team'' then ToLower E (TrimSpace target)
      else TrimSpace target)"

definition checkedS :: "error option \<Rightarrow> ('s, unit) io" where
  "checkedS e = (case e of None \<Rightarrow> retS () | Some x \<Rightarrow> failS x)"

definition insert_rule ::
  "env \<Rightarrow> string \<Rightarrow> string \<Rightarrow> string \<Rightarrow> string \<Rightarrow> int option \<Rightarrow> Role \<Rightarrow> GitHubRoleMapping store" where
  "insert_rule E l i kind target user role = stmt E l (\<lambda>s.
     let m = \<lparr>m_id = i, m_kind = kind, m_target = target, m_github_user = user, m_role = role, m_created = db_now E\<rparr>
     in put_mappings (mappings s @ [m]) (scan_mapping m) s)"

definition EnsureInitialGitHubRoleMappings :: "env \<Rightarrow> string \<Rightarrow> string \<Rightarrow> unit store" where
  "EnsureInitialGitHubRoleMappings E developerTeam adminTeam =
     bindS (checkedS (ValidateGitHubRoleMapping ''team'' developerTeam RoleDeveloper)) (\<lambda>_.
     bindS (checkedS (ValidateGitHubRoleMapping ''team'' adminTeam RoleAdmin)) (\<lambda>_.
     tx E ''initial GitHub mappings''
      (bindS (stmt E ''record initial GitHub mappings'' (\<lambda>s.
         if ''initial_github_role_mappings'' \<in> set (metadata s) then Inr (False, s)
         else Inr (True, s\<lparr>metadata := metadata s @ [''initial_github_role_mappings'']\<rparr>))) (\<lambda>inserted.
       if \<not> inserted then retS ()
       else
         bindS (insert_rule E ''create initial GitHub mapping'' (randomUUID E 0) ''team''
           (normalizeGitHubTarget E ''team'' developerTeam) None RoleDeveloper) (\<lambda>_.
         bindS (insert_rule E ''create initial GitHub mapping'' (randomUUID E 1) ''team''
           (normalizeGitHubTarget E ''team'' adminTeam) None RoleAdmin) (\<lambda>_.
         retS ()))))))"

definition CreateGitHubRoleMapping :: "env \<Rightarrow> string \<Rightarrow> string \<Rightarrow> int \<Rightarrow> Role \<Rightarrow> GitHubRoleMapping store" where
  "CreateGitHubRoleMapping E kind target githubUserID role =
     bindS (checkedS (ValidateGitHubRoleMapping kind target role)) (\<lambda>_.
     bindS (guardS ((kind = ''user'') = (githubUserID > 0))
       (invalidInput ''only a GitHub user rule names a GitHub account ID, and it must'')) (\<lambda>_.
     classified (insert_rule E ''create GitHub role mapping'' (randomUUID E 0) kind
       (normalizeGitHubTarget E kind target) (if githubUserID > 0 then Some githubUserID else None) role)))"

text \<open>\<open>ORDER BY kind,target\<close>.\<close>

definition rule_le :: "env \<Rightarrow> mapping_row \<Rightarrow> mapping_row \<Rightarrow> bool" where
  "rule_le E x y \<longleftrightarrow> (if m_kind x = m_kind y then text_le E (m_target x) (m_target y)
     else text_le E (m_kind x) (m_kind y))"

definition ListGitHubRoleMappings :: "env \<Rightarrow> GitHubRoleMapping list store" where
  "ListGitHubRoleMappings E = query E ''list GitHub role mappings'' (\<lambda>s.
     map scan_mapping (sort_by (rule_le E) (mappings s)))"

definition bindable :: "string \<Rightarrow> int \<Rightarrow> mapping_row list \<Rightarrow> mapping_row \<Rightarrow> bool" where
  "bindable i githubUserID ms m \<longleftrightarrow> m_id m = i \<and> m_kind m = ''user'' \<and> m_github_user m = None \<and>
     \<not> list_ex (\<lambda>x. m_github_user x = Some githubUserID) ms"

definition BindGitHubUserMapping :: "env \<Rightarrow> string \<Rightarrow> int \<Rightarrow> bool store" where
  "BindGitHubUserMapping E i githubUserID =
     bindS (guardS (githubUserID > 0) (invalidInput ''GitHub account ID must be positive'')) (\<lambda>_.
     bindS (uuid_arg E ''bind GitHub user rule'' i) (\<lambda>u.
     classified (stmt E ''bind GitHub user rule'' (\<lambda>s.
       put_mappings (upd (bindable u githubUserID (mappings s)) (\<lambda>m. m\<lparr>m_github_user := Some githubUserID\<rparr>) (mappings s))
         (length (filter (bindable u githubUserID (mappings s)) (mappings s)) = 1) s))))"

definition DeleteGitHubRoleMapping :: "env \<Rightarrow> string \<Rightarrow> GitHubRoleMapping store" where
  "DeleteGitHubRoleMapping E i =
     bindS (uuid_arg E ''delete GitHub role mapping'' i) (\<lambda>u.
     bindS (stmt E ''delete GitHub role mapping'' (\<lambda>s.
       put_mappings (filter (\<lambda>m. m_id m \<noteq> u) (mappings s)) (find (\<lambda>m. m_id m = u) (mappings s)) s)) (\<lambda>r.
     case r of None \<Rightarrow> failS ErrGitHubRoleMappingNotFound | Some m \<Rightarrow> retS (scan_mapping m)))"

definition possibly_granted :: "env \<Rightarrow> GitHubRoleMapping \<Rightarrow> user_row \<Rightarrow> bool" where
  "possibly_granted E m u \<longleftrightarrow> u_disabled u = None \<and>
     (if map_Kind m = ''user'' \<and> map_GitHubUserID m > 0 then u_github_id u = Some (map_GitHubUserID m)
      else if map_Kind m = ''user'' then map_option (pg_lower E) (u_github_login u) = Some (pg_lower E (map_Target m))
      else u_github_id u \<noteq> None \<and> u_role u = map_Role m)"

definition GitHubAccountsPossiblyGrantedBy :: "env \<Rightarrow> GitHubRoleMapping \<Rightarrow> string list store" where
  "GitHubAccountsPossiblyGrantedBy E m = query E ''list accounts granted by a GitHub rule'' (\<lambda>s.
     map u_id (filter (possibly_granted E m) (users s)))"

definition GitHubUserID :: "env \<Rightarrow> int \<Rightarrow> string store" where
  "GitHubUserID E githubID =
     bindS (query E ''read user by GitHub ID'' (\<lambda>s. find (\<lambda>u. u_github_id u = Some githubID) (users s))) (\<lambda>r.
     case r of None \<Rightarrow> failS ErrUserNotFound | Some u \<Rightarrow> retS (u_id u))"

subsection \<open>GitHub's API\<close>

text \<open>What a request got: no response, or a status with the decoded body (\<open>None\<close> when it does not decode).\<close>

datatype 'a reply = NoReply | Reply (status_code: nat) (decoded: "'a option")

definition read_reply :: "string \<Rightarrow> string \<Rightarrow> 'a reply \<Rightarrow> error + 'a" where
  "read_reply verb noun r = (case r of NoReply \<Rightarrow> Inl (Failed (''request GitHub '' @ verb))
     | Reply st body \<Rightarrow> if st \<noteq> 200 then Inl (Failed (''GitHub '' @ noun @ '' returned HTTP '' @ decimal st))
         else (case body of None \<Rightarrow> Inl (Failed (''decode GitHub '' @ verb)) | Some x \<Rightarrow> Inr x))"

record Profile =
  prof_ID :: int
  prof_Login :: string
  prof_Email :: string

record Team =
  Slug :: string
  TeamOrganization :: string

record OrganizationMembership =
  State :: string
  Organization :: string

record EmailAddress =
  email_Address :: string
  email_Primary :: bool
  email_Verified :: bool

definition is_alnum :: "char \<Rightarrow> bool" where
  "is_alnum c \<longleftrightarrow> CHR ''A'' \<le> c \<and> c \<le> CHR ''Z'' \<or> CHR ''a'' \<le> c \<and> c \<le> CHR ''z'' \<or> CHR ''0'' \<le> c \<and> c \<le> CHR ''9''"

text \<open>\<open>(?:[A-Za-z0-9]|-[A-Za-z0-9]){0,n}$\<close>.\<close>

fun login_tail :: "nat \<Rightarrow> string \<Rightarrow> bool" where
  "login_tail n [] = True"
| "login_tail 0 (c # cs) = False"
| "login_tail (Suc n) (c # cs) = (if is_alnum c then login_tail n cs
     else c = CHR ''-'' \<and> (case cs of [] \<Rightarrow> False | d # ds \<Rightarrow> is_alnum d \<and> login_tail n ds))"

definition loginPattern :: "string \<Rightarrow> bool" where
  "loginPattern s = (case s of [] \<Rightarrow> False | c # cs \<Rightarrow> is_alnum c \<and> login_tail 38 cs)"

text \<open>\<open>AccountID\<close>, with GitHub's answer for each login: the status and the account's ID and login.\<close>

definition AccountID :: "env \<Rightarrow> (string \<Rightarrow> (int \<times> string) reply) \<Rightarrow> string \<Rightarrow> error + int" where
  "AccountID E account login0 = (let login = TrimSpace login0 in
     if \<not> loginPattern login then Inl ErrInvalidLogin
     else case account login of NoReply \<Rightarrow> Inl (Failed ''request GitHub account'')
       | Reply st body \<Rightarrow>
         if st = 404 then Inl ErrAccountNotFound
         else if st \<noteq> 200 then Inl (Failed (''GitHub account lookup returned HTTP '' @ decimal st))
         else (case body of None \<Rightarrow> Inl (Failed ''decode GitHub account'')
           | Some (i, name) \<Rightarrow> if i = 0 \<or> \<not> EqualFold E name login
               then Inl (Failed ''GitHub account lookup returned a different account'') else Inr i))"

definition primaryVerifiedEmail :: "EmailAddress list reply \<Rightarrow> error + string" where
  "primaryVerifiedEmail r = (case read_reply ''emails'' ''emails'' r of Inl e \<Rightarrow> Inl e
     | Inr emails \<Rightarrow> (case find (\<lambda>x. email_Primary x \<and> email_Verified x \<and> TrimSpace (email_Address x) \<noteq> []) emails of
         None \<Rightarrow> Inl (Failed ''GitHub account has no primary verified email'')
       | Some x \<Rightarrow> Inr (email_Address x)))"

definition read_Profile :: "string \<Rightarrow> Profile reply \<Rightarrow> EmailAddress list reply \<Rightarrow> error + Profile" where
  "read_Profile accessToken user emails =
     (if TrimSpace accessToken = [] then Inl (Failed ''GitHub access token must not be empty'')
      else case read_reply ''user'' ''user'' user of Inl e \<Rightarrow> Inl e
      | Inr profile0 \<Rightarrow> (case primaryVerifiedEmail emails of Inl e \<Rightarrow> Inl e
        | Inr email \<Rightarrow> let profile = profile0\<lparr>prof_Email := email\<rparr> in
            if prof_ID profile = 0 \<or> TrimSpace (prof_Login profile) = [] \<or> TrimSpace (prof_Email profile) = []
            then Inl (Failed ''GitHub user response lacks id, login, or verified email'') else Inr profile))"

text \<open>
  The loop both listings run: pages of 100 until a shorter one. GitHub decides how many pages there
  are, so the loop is partial: \<open>None\<close> is a listing that never ends.
\<close>

partial_function (option) collect_pages ::
  "string \<Rightarrow> ('a list \<Rightarrow> 'b list) \<Rightarrow> (nat \<Rightarrow> 'a list reply) \<Rightarrow> nat \<Rightarrow> 'b list \<Rightarrow> (error + 'b list) option" where
  "collect_pages what keep fetch page acc =
     (case read_reply what what (fetch page) of Inl e \<Rightarrow> Some (Inl e)
      | Inr xs \<Rightarrow> if length xs < 100 then Some (Inr (acc @ keep xs))
          else collect_pages what keep fetch (Suc page) (acc @ keep xs))"

definition Teams :: "string \<Rightarrow> (nat \<Rightarrow> Team list reply) \<Rightarrow> (error + Team list) option" where
  "Teams accessToken fetch = (if TrimSpace accessToken = []
     then Some (Inl (Failed ''GitHub access token must not be empty''))
     else collect_pages ''teams'' (\<lambda>ts. ts) fetch 1 [])"

definition active_organizations :: "OrganizationMembership list \<Rightarrow> string list" where
  "active_organizations ms = filter (\<lambda>login. login \<noteq> [])
     (map (\<lambda>m. TrimSpace (Organization m)) (filter (\<lambda>m. State m = ''active'') ms))"

definition Organizations ::
  "string \<Rightarrow> (nat \<Rightarrow> OrganizationMembership list reply) \<Rightarrow> (error + string list) option" where
  "Organizations accessToken fetch = (if TrimSpace accessToken = []
     then Some (Inl (Failed ''GitHub access token must not be empty''))
     else collect_pages ''organizations'' active_organizations fetch 1 [])"

definition IsMember :: "env \<Rightarrow> error + Team list \<Rightarrow> string \<Rightarrow> string \<Rightarrow> error + bool" where
  "IsMember E teams organization slug = (case teams of Inl e \<Rightarrow> Inl e
     | Inr ts \<Rightarrow> Inr (list_ex (\<lambda>t. EqualFold E (TeamOrganization t) organization \<and> EqualFold E (Slug t) slug) ts))"

definition ParseTeam :: "string \<Rightarrow> error + string \<times> string" where
  "ParseTeam v = (case split_on CHR ''/'' v of
     [organization, slug] \<Rightarrow> if TrimSpace organization = [] \<or> TrimSpace slug = []
       then Inl (Failed ''GitHub team must be organization/slug'') else Inr (organization, slug)
   | _ \<Rightarrow> Inl (Failed ''GitHub team must be organization/slug''))"

subsection \<open>Evaluating the rules\<close>

definition githubUserRuleMatches :: "env \<Rightarrow> GitHubRoleMapping \<Rightarrow> Profile \<Rightarrow> bool store" where
  "githubUserRuleMatches E m profile =
     (if map_GitHubUserID m > 0 then retS (map_GitHubUserID m = prof_ID profile)
      else if prof_ID profile \<le> 0 \<or> \<not> EqualFold E (map_Target m) (prof_Login profile) then retS False
      else (\<lambda>s. case BindGitHubUserMapping E (map_ID m) (prof_ID profile) s of
          (Inl _, s') \<Rightarrow> (Inr False, s')
        | (Inr bound, s') \<Rightarrow> if \<not> bound then (Inr False, s')
            else bindS (record_event E service_actor AuditGitHubMappingBound [] [(''mapping_id'', DText (map_ID m)),
              (''target'', DText (map_Target m)), (''github_user_id'', DNumber (prof_ID profile))]) (\<lambda>_. retS True) s'))"

fun evaluate_rules ::
  "env \<Rightarrow> Profile \<Rightarrow> string set \<Rightarrow> string set \<Rightarrow> GitHubRoleMapping list \<Rightarrow> Role \<Rightarrow> bool \<Rightarrow> (Role \<times> bool) store" where
  "evaluate_rules E profile teams orgs [] role allowed = retS (role, allowed)"
| "evaluate_rules E profile teams orgs (m # ms) role allowed =
     bindS (if map_Kind m = ''user'' then githubUserRuleMatches E m profile else retS False) (\<lambda>user_matches.
     if user_matches \<or> map_Kind m = ''team'' \<and> ToLower E (map_Target m) \<in> teams \<or>
        map_Kind m = ''organization'' \<and> ToLower E (map_Target m) \<in> orgs
     then evaluate_rules E profile teams orgs ms (if map_Role m = RoleAdmin then RoleAdmin else role) True
     else evaluate_rules E profile teams orgs ms role allowed)"

definition githubRole ::
  "env \<Rightarrow> Profile \<Rightarrow> error + Team list \<Rightarrow> error + string list \<Rightarrow> (Role \<times> bool) store" where
  "githubRole E profile teams organizations =
     bindS (ListGitHubRoleMappings E) (\<lambda>ms.
     bindS (if list_ex (\<lambda>m. map_Kind m = ''team'') ms then liftS teams else retS []) (\<lambda>ts.
     bindS (if list_ex (\<lambda>m. map_Kind m = ''organization'') ms then liftS organizations else retS []) (\<lambda>os.
     evaluate_rules E profile
       ((\<lambda>t. ToLower E (TeamOrganization t @ ''/'' @ Slug t)) ` set ts) (ToLower E ` set os) ms RoleDeveloper False)))"

subsection \<open>Rules name accounts by their numeric ID\<close>

text \<open>A rule grants its role to a GitHub account: a user rule by the numeric ID it is bound to, a team or an
  organization rule by membership.\<close>

definition names :: "env \<Rightarrow> Profile \<Rightarrow> string set \<Rightarrow> string set \<Rightarrow> mapping_row \<Rightarrow> bool" where
  "names E profile teams orgs m \<longleftrightarrow> m_kind m = ''user'' \<and> m_github_user m = Some (prof_ID profile) \<or>
     m_kind m = ''team'' \<and> ToLower E (m_target m) \<in> teams \<or>
     m_kind m = ''organization'' \<and> ToLower E (m_target m) \<in> orgs"

definition bind_rule :: "int \<Rightarrow> mapping_row \<Rightarrow> mapping_row" where
  "bind_rule i m = m\<lparr>m_github_user := Some i\<rparr>"

lemma bind_rule_simps [simp]: "m_id (bind_rule i m) = m_id m" "m_kind (bind_rule i m) = m_kind m"
  "m_target (bind_rule i m) = m_target m" "m_role (bind_rule i m) = m_role m"
  "m_github_user (bind_rule i m) = Some i"
  by (simp_all add: bind_rule_def)

definition login_rule :: "env \<Rightarrow> Profile \<Rightarrow> mapping_row \<Rightarrow> bool" where
  "login_rule E profile m \<longleftrightarrow> m_kind m = ''user'' \<and> m_github_user m = None \<and> EqualFold E (m_target m) (prof_Login profile)"

lemma Bind_Inr:
  assumes "BindGitHubUserMapping E i g s = (Inr bound, s')" "uuid_in E i = Some i" "distinct (map m_id (mappings s))"
    "m \<in> set (mappings s)" "m_id m = i"
  shows "(bound \<longleftrightarrow> m_kind m = ''user'' \<and> m_github_user m = None \<and> (\<forall>x \<in> set (mappings s). m_github_user x \<noteq> Some g)) \<and>
    s' = s\<lparr>mappings := upd (\<lambda>x. bound \<and> m_id x = i) (bind_rule g) (mappings s)\<rparr>"
proof -
  let ?P = "bindable i g (mappings s)"
  obtain A B where AB: "mappings s = A @ m # B" using assms(4) by (meson split_list)
  have out: "\<not> ?P x" if "x \<in> set A \<or> x \<in> set B" for x
  proof -
    from that assms(3,5) have "m_id x \<noteq> i" unfolding AB by (auto dest!: in_set_conv_decomp [THEN iffD1])
    then show ?thesis by (simp add: bindable_def)
  qed
  have others: "filter ?P A = []" "filter ?P B = []" using out by (auto simp: filter_empty_conv)
  have ids: "x \<in> set A \<or> x \<in> set B \<Longrightarrow> m_id x \<noteq> i" for x
    using assms(3,5) unfolding AB by (auto dest!: in_set_conv_decomp [THEN iffD1])
  have bound: "bound \<longleftrightarrow> ?P m" and s': "s' = s\<lparr>mappings := upd ?P (bind_rule g) (mappings s)\<rparr>"
    using assms(1,2) others unfolding BindGitHubUserMapping_def bind_rule_def
    by (auto simp: io_Inr put_Inr AB)
  have "upd ?P (bind_rule g) (mappings s) = upd (\<lambda>x. bound \<and> m_id x = i) (bind_rule g) (mappings s)"
    unfolding upd_def using out ids bound assms(5) by (intro map_cong refl) (auto simp: AB)
  with s' bound assms(5) show ?thesis by (auto simp: bindable_def list_ex_iff)
qed

text \<open>Evaluating one user rule: it matches exactly when the table afterwards binds it to the account.\<close>

lemma rule_matches_Inr:
  assumes run: "githubUserRuleMatches E (scan_mapping m) profile s = (r, s')"
    and m: "m \<in> set (mappings s)" "m_kind m = ''user''" and d: "distinct (map m_id (mappings s))"
    and check: "mapping_check m" and uuid: "uuid_in E (m_id m) = Some (m_id m)"
  shows "\<exists>b bound. r = Inr b \<and> mappings s' = upd (\<lambda>x. bound \<and> m_id x = m_id m) (bind_rule (prof_ID profile)) (mappings s) \<and>
    (bound \<longrightarrow> login_rule E profile m) \<and> (b \<longleftrightarrow> bound \<or> m_github_user m = Some (prof_ID profile))"
proof (cases "m_github_user m")
  case (Some n)
  then have "0 < n" using check by (simp add: mapping_check_def)
  with Some run have "r = Inr (n = prof_ID profile)" "s' = s"
    by (auto simp: githubUserRuleMatches_def scan_mapping_def retS_def)
  with Some show ?thesis by (intro exI [of _ "n = prof_ID profile"] exI [of _ False]) (simp add: upd_none)
next
  case None
  show ?thesis
  proof (cases "prof_ID profile \<le> 0 \<or> \<not> EqualFold E (m_target m) (prof_Login profile)")
    case True
    with None run have "r = Inr False" "s' = s"
      by (auto simp: githubUserRuleMatches_def scan_mapping_def retS_def)
    with None show ?thesis by (intro exI [of _ False]) (simp add: upd_none)
  next
    case False
    let ?g = "prof_ID profile"
    obtain res t where bind: "BindGitHubUserMapping E (m_id m) ?g s = (res, t)" by (cases "BindGitHubUserMapping E (m_id m) ?g s")
    show ?thesis
    proof (cases res)
      case (Inl e)
      then have "t = s" using bind
        by (auto simp: BindGitHubUserMapping_def bindS_def guardS_def retS_def failS_def uuid uuid_arg_def classified_def stmt_def
            split: if_splits sum.splits prod.splits)
      with Inl None False run bind have "r = Inr False" "s' = s"
        by (auto simp: githubUserRuleMatches_def scan_mapping_def)
      with None show ?thesis by (intro exI [of _ False]) (simp add: upd_none)
    next
      case (Inr bound)
      have t: "t = s\<lparr>mappings := upd (\<lambda>x. bound \<and> m_id x = m_id m) (bind_rule ?g) (mappings s)\<rparr>"
        using Bind_Inr [OF bind [unfolded Inr] uuid d m(1) refl] by simp
      from Inr None False run bind obtain xs where "r = Inr bound" "s' = t \<or> s' = t\<lparr>audits := xs\<rparr>"
        by (auto simp: githubUserRuleMatches_def scan_mapping_def bindS_def retS_def split: if_splits prod.splits sum.splits
            dest!: record_event_Inr)
      with t None False m(2) show ?thesis by (intro exI [of _ bound]) (auto simp: login_rule_def)
    qed
  qed
qed

definition hit :: "env \<Rightarrow> Profile \<Rightarrow> string set \<Rightarrow> string set \<Rightarrow> string set \<Rightarrow> mapping_row \<Rightarrow> bool" where
  "hit E profile teams orgs B m = names E profile teams orgs (if m_id m \<in> B then bind_rule (prof_ID profile) m else m)"

lemma first_rule_Inr:
  assumes run: "(if m_kind m = ''user'' then githubUserRuleMatches E (scan_mapping m) profile else retS False) s = (r, s')"
    and m: "m \<in> set (mappings s)" and d: "distinct (map m_id (mappings s))"
    and check: "mapping_check m" and uuid: "uuid_in E (m_id m) = Some (m_id m)"
  shows "\<exists>b bound. r = Inr b \<and> mappings s' = upd (\<lambda>x. bound \<and> m_id x = m_id m) (bind_rule (prof_ID profile)) (mappings s) \<and>
    (bound \<longrightarrow> login_rule E profile m) \<and>
    ((b \<or> m_kind m = ''team'' \<and> ToLower E (m_target m) \<in> teams \<or> m_kind m = ''organization'' \<and> ToLower E (m_target m) \<in> orgs)
      \<longleftrightarrow> names E profile teams orgs (if bound then bind_rule (prof_ID profile) m else m))"
proof (cases "m_kind m = ''user''")
  case True
  with run have "githubUserRuleMatches E (scan_mapping m) profile s = (r, s')" by simp
  from rule_matches_Inr [OF this m True d check uuid] obtain b bound where
    "r = Inr b" "mappings s' = upd (\<lambda>x. bound \<and> m_id x = m_id m) (bind_rule (prof_ID profile)) (mappings s)"
    "bound \<longrightarrow> login_rule E profile m" "b \<longleftrightarrow> bound \<or> m_github_user m = Some (prof_ID profile)" by blast
  then show ?thesis using True by (intro exI [of _ b] exI [of _ bound]) (simp add: names_def)
next
  case False
  with run have "r = Inr False" "s' = s" by (simp_all add: retS_def)
  with False show ?thesis by (intro exI [of _ False]) (simp add: names_def upd_none)
qed

lemma upd_upd_ids:
  assumes "i \<notin> B"
  shows "upd (\<lambda>x. m_id x \<in> B) (bind_rule g) (upd (\<lambda>x. bound \<and> m_id x = i) (bind_rule g) xs) =
    upd (\<lambda>x. m_id x \<in> (if bound then insert i B else B)) (bind_rule g) xs"
  using assms by (induction xs) auto

lemma evaluate_Inr:
  assumes "evaluate_rules E profile teams orgs (map scan_mapping ms) role allowed s = (r, s')"
    "set ms \<subseteq> set (mappings s)" "distinct (map m_id ms)" "distinct (map m_id (mappings s))"
    "\<forall>m \<in> set ms. mapping_check m \<and> uuid_in E (m_id m) = Some (m_id m)"
  shows "\<exists>B. mappings s' = upd (\<lambda>x. m_id x \<in> B) (bind_rule (prof_ID profile)) (mappings s) \<and>
    (\<forall>i \<in> B. \<exists>m \<in> set ms. m_id m = i \<and> login_rule E profile m) \<and>
    r = Inr (if \<exists>m \<in> set ms. hit E profile teams orgs B m \<and> m_role m = RoleAdmin then RoleAdmin else role,
      allowed \<or> (\<exists>m \<in> set ms. hit E profile teams orgs B m))"
  using assms
proof (induction ms arbitrary: role allowed s)
  case Nil
  then show ?case by (intro exI [of _ "{}"]) (simp add: retS_def upd_none)
next
  case (Cons m ms)
  let ?g = "prof_ID profile" and ?hit = "hit E profile teams orgs"
  have kind: "map_Kind (scan_mapping m) = m_kind m" "map_Target (scan_mapping m) = m_target m" "map_Role (scan_mapping m) = m_role m"
    by (simp_all add: scan_mapping_def)
  obtain r1 s1 where first: "(if m_kind m = ''user'' then githubUserRuleMatches E (scan_mapping m) profile else retS False) s = (r1, s1)"
    by (metis surj_pair)
  from first_rule_Inr [OF this, of teams orgs] Cons.prems(2,4,5) obtain b bound where
    r1: "r1 = Inr b" and s1: "mappings s1 = upd (\<lambda>x. bound \<and> m_id x = m_id m) (bind_rule ?g) (mappings s)"
    and login: "bound \<longrightarrow> login_rule E profile m" and
    b: "(b \<or> m_kind m = ''team'' \<and> ToLower E (m_target m) \<in> teams \<or> m_kind m = ''organization'' \<and> ToLower E (m_target m) \<in> orgs)
      \<longleftrightarrow> names E profile teams orgs (if bound then bind_rule ?g m else m)" (is "?match \<longleftrightarrow> ?named") by auto
  let ?role = "if ?named \<and> m_role m = RoleAdmin then RoleAdmin else role"
  have rest: "evaluate_rules E profile teams orgs (map scan_mapping ms) ?role (?named \<or> allowed) s1 = (r, s')"
  proof -
    have "(if ?match then evaluate_rules E profile teams orgs (map scan_mapping ms) (if m_role m = RoleAdmin then RoleAdmin else role) True
        else evaluate_rules E profile teams orgs (map scan_mapping ms) role allowed) s1 = (r, s')"
      using Cons.prems(1) unfolding list.map evaluate_rules.simps kind bindS_def first r1 prod.case sum.case .
    then show ?thesis unfolding b by (simp split: if_splits)
  qed
  have other: "m_id x \<noteq> m_id m" if "x \<in> set ms" for x
    using Cons.prems(3) that by simp (metis image_eqI)
  have "set ms \<subseteq> set (mappings s1)"
  proof
    fix x assume x: "x \<in> set ms"
    with Cons.prems(2) have "x \<in> set (mappings s)" "m_id x \<noteq> m_id m" using other by auto
    then show "x \<in> set (mappings s1)" unfolding s1 in_upd by (intro bexI [of _ x]) simp_all
  qed
  moreover have "distinct (map m_id (mappings s1))" using Cons.prems(4) by (simp add: s1)
  moreover have "distinct (map m_id ms)" "\<forall>m \<in> set ms. mapping_check m \<and> uuid_in E (m_id m) = Some (m_id m)"
    using Cons.prems(3,5) by simp_all
  ultimately obtain B where
    B: "mappings s' = upd (\<lambda>x. m_id x \<in> B) (bind_rule ?g) (mappings s1)"
      "\<forall>i \<in> B. \<exists>m \<in> set ms. m_id m = i \<and> login_rule E profile m"
    and r: "r = Inr (if \<exists>m \<in> set ms. ?hit B m \<and> m_role m = RoleAdmin then RoleAdmin else ?role,
      (?named \<or> allowed) \<or> (\<exists>m \<in> set ms. ?hit B m))"
    using Cons.IH [OF rest] by (elim exE conjE meta_impE) iprover+
  have fresh: "m_id m \<notin> B" using B(2) other by blast
  let ?B = "if bound then insert (m_id m) B else B"
  have "?hit ?B x = ?hit B x" if "x \<in> set ms" for x
    using other [OF that] by (simp add: hit_def)
  moreover have "?hit ?B m = ?named" using fresh by (simp add: hit_def)
  ultimately have "r = Inr (if \<exists>m \<in> set (m # ms). ?hit ?B m \<and> m_role m = RoleAdmin then RoleAdmin else role,
      allowed \<or> (\<exists>m \<in> set (m # ms). ?hit ?B m))"
    unfolding r by (simp only: list.set bex_simps Inr_inject Pair_inject cong: bex_cong) auto
  moreover have "mappings s' = upd (\<lambda>x. m_id x \<in> ?B) (bind_rule ?g) (mappings s)"
    unfolding B(1) s1 using upd_upd_ids [OF fresh] .
  moreover have "\<forall>i \<in> ?B. \<exists>m \<in> set (m # ms). m_id m = i \<and> login_rule E profile m"
    using B(2) login by auto
  ultimately show ?case by blast
qed


definition team_targets :: "env \<Rightarrow> error + Team list \<Rightarrow> string set" where
  "team_targets E teams = (case teams of Inl _ \<Rightarrow> {} | Inr ts \<Rightarrow> (\<lambda>t. ToLower E (TeamOrganization t @ ''/'' @ Slug t)) ` set ts)"

definition organization_targets :: "env \<Rightarrow> error + string list \<Rightarrow> string set" where
  "organization_targets E organizations = (case organizations of Inl _ \<Rightarrow> {} | Inr os \<Rightarrow> ToLower E ` set os)"

lemma githubRole_Inr:
  assumes "githubRole E profile teams organizations s = (Inr x, s')"
  shows "\<exists>T R. evaluate_rules E profile T R (map scan_mapping (sort_by (rule_le E) (mappings s))) RoleDeveloper False s = (Inr x, s') \<and>
    (\<forall>m \<in> set (mappings s). names E profile T R m = names E profile (team_targets E teams) (organization_targets E organizations) m)"
proof -
  let ?ms = "map scan_mapping (sort_by (rule_le E) (mappings s))"
  from assms obtain ts os where
    ts: "(if list_ex (\<lambda>m. map_Kind m = ''team'') ?ms then liftS teams else retS []) s = (Inr ts, s)" and
    os: "(if list_ex (\<lambda>m. map_Kind m = ''organization'') ?ms then liftS organizations else retS []) s = (Inr os, s)" and
    ev: "evaluate_rules E profile ((\<lambda>t. ToLower E (TeamOrganization t @ ''/'' @ Slug t)) ` set ts) (ToLower E ` set os) ?ms
      RoleDeveloper False s = (Inr x, s')"
    unfolding githubRole_def ListGitHubRoleMappings_def
    by (auto simp: bindS_Inr query_Inr liftS_Inr retS_Inr split: if_splits)
  have "m_kind m = ''team'' \<Longrightarrow> teams = Inr ts" "m_kind m = ''organization'' \<Longrightarrow> organizations = Inr os"
    if "m \<in> set (mappings s)" for m
    using ts os that by (auto simp: liftS_Inr list_ex_iff scan_mapping_def split: if_splits)
  then have "\<forall>m \<in> set (mappings s). names E profile ((\<lambda>t. ToLower E (TeamOrganization t @ ''/'' @ Slug t)) ` set ts)
      (ToLower E ` set os) m = names E profile (team_targets E teams) (organization_targets E organizations) m"
    by (auto simp: names_def team_targets_def organization_targets_def)
  with ev show ?thesis by blast
qed

text \<open>C31. A GitHub account is let in exactly when, in the rule table as it is afterwards, a rule is bound to its
  numeric ID, or one of its teams or organizations has a rule; it is an administrator exactly when such a
  rule grants that. A login alone opens nothing: a user rule recorded without an ID that names the login is
  bound to the account first, a rule bound to somebody else stays with them, and no other rule changes.\<close>

theorem github_role_follows_rules:
  assumes run: "githubRole E profile teams organizations s = (Inr (role, allowed), s')" and ok: "schema_ok s"
    and uuid: "\<forall>m \<in> set (mappings s). uuid_in E (m_id m) = Some (m_id m)"
  shows "let N = names E profile (team_targets E teams) (organization_targets E organizations) in
    allowed = (\<exists>m \<in> set (mappings s'). N m) \<and>
    role = (if \<exists>m \<in> set (mappings s'). N m \<and> m_role m = RoleAdmin then RoleAdmin else RoleDeveloper) \<and>
    (\<exists>B. mappings s' = upd (\<lambda>m. m_id m \<in> B) (bind_rule (prof_ID profile)) (mappings s) \<and>
      (\<forall>m \<in> set (mappings s). m_id m \<in> B \<longrightarrow> login_rule E profile m))"
proof -
  let ?ms = "sort_by (rule_le E) (mappings s)" and ?bind = "bind_rule (prof_ID profile)"
  let ?N = "names E profile (team_targets E teams) (organization_targets E organizations)"
  from githubRole_Inr [OF run] obtain T R where
    ev: "evaluate_rules E profile T R (map scan_mapping ?ms) RoleDeveloper False s = (Inr (role, allowed), s')" and
    same: "\<forall>m \<in> set (mappings s). names E profile T R m = ?N m" by blast
  have d: "distinct (map m_id (mappings s))" and check: "\<forall>m \<in> set (mappings s). mapping_check m"
    using ok by (auto simp: schema_ok_def mappings_unique_def list_all_iff)
  have "distinct (mappings s)" "inj_on m_id (set (mappings s))" using d by (simp_all add: distinct_map)
  then have "distinct (map m_id ?ms)" by (simp add: distinct_map)
  from evaluate_Inr [OF ev _ this d] check uuid obtain B where
    B: "mappings s' = upd (\<lambda>x. m_id x \<in> B) ?bind (mappings s)"
      "\<forall>i \<in> B. \<exists>m \<in> set (mappings s). m_id m = i \<and> login_rule E profile m" and
    res: "role = (if \<exists>m \<in> set (mappings s). hit E profile T R B m \<and> m_role m = RoleAdmin then RoleAdmin else RoleDeveloper)"
      "allowed = (\<exists>m \<in> set (mappings s). hit E profile T R B m)" by auto
  have login: "login_rule E profile m" if m: "m \<in> set (mappings s)" "m_id m \<in> B" for m
  proof -
    from B(2) m(2) obtain x where x: "x \<in> set (mappings s)" "m_id x = m_id m" "login_rule E profile x" by blast
    then have "x = m" using distinct_map_inj_onD [OF d x(1) m(1)] by simp
    with x(3) show ?thesis by simp
  qed
  have "hit E profile T R B m = ?N (if m_id m \<in> B then ?bind m else m)" if "m \<in> set (mappings s)" for m
  proof (cases "m_id m \<in> B")
    case True
    with login [OF that True] show ?thesis by (simp add: hit_def names_def login_rule_def)
  next
    case False
    with same that show ?thesis by (simp add: hit_def)
  qed
  then have "(\<exists>m \<in> set (mappings s'). ?N m \<and> Q (m_role m)) = (\<exists>m \<in> set (mappings s). hit E profile T R B m \<and> Q (m_role m))" for Q
    unfolding B(1) bex_upd by (intro bex_cong refl) simp
  from this [of "\<lambda>_. True"] this [of "\<lambda>r. r = RoleAdmin"] show ?thesis
    unfolding Let_def using res B(1) login by auto
qed

definition example_rule :: mapping_row where
  "example_rule = \<lparr>m_id = ''m1'', m_kind = ''user'', m_target = ''carol'', m_github_user = None, m_role = ''admin'', m_created = 0\<rparr>"

definition example_rules_db :: db where
  "example_rules_db = example_db\<lparr>mappings := [example_rule]\<rparr>"

definition example_profile :: Profile where
  "example_profile = \<lparr>prof_ID = 7, prof_Login = ''Carol'', prof_Email = ''carol@example.org''\<rparr>"

lemma example_rules_ok: "schema_ok example_rules_db"
  using example_db_ok by (simp add: schema_ok_def example_rules_db_def mappings_unique_def example_rule_def mapping_check_def
      known_role_def RoleAdmin_def)

lemma example_fold: "EqualFold example_env ''carol'' ''Carol''"
  by code_simp

lemma example_role: "\<exists>t. githubRole example_env example_profile (Inr []) (Inr []) example_rules_db = (Inr (''admin'', True), t)"
proof -
  have ms: "mappings example_rules_db = [example_rule]" by (simp add: example_rules_db_def)
  have one: "sort_by (rule_le example_env) [example_rule] = [example_rule]" by (simp add: sort_by_def)
  have m: "map_Kind (scan_mapping example_rule) = ''user''" "map_GitHubUserID (scan_mapping example_rule) = 0"
    "map_Target (scan_mapping example_rule) = ''carol''" "map_ID (scan_mapping example_rule) = ''m1''"
    "map_Role (scan_mapping example_rule) = RoleAdmin"
    by (simp_all add: scan_mapping_def example_rule_def RoleAdmin_def)
  have p: "prof_ID example_profile = 7" "prof_Login example_profile = ''Carol''" by (simp_all add: example_profile_def)
  have "\<exists>t. BindGitHubUserMapping example_env ''m1'' 7 example_rules_db = (Inr True, t)"
    by (simp add: BindGitHubUserMapping_def bindS_def guardS_def retS_def uuid_arg_def classified_def stmt_def put_mappings_def ms
        bindable_def example_rule_def mapping_check_def mappings_unique_def known_role_def RoleAdmin_def)
  then obtain t where t: "BindGitHubUserMapping example_env ''m1'' 7 example_rules_db = (Inr True, t)" by blast
  obtain xs where rec: "record_event example_env service_actor AuditGitHubMappingBound [] [(''mapping_id'', DText ''m1''),
      (''target'', DText ''carol''), (''github_user_id'', DNumber 7)] t = (Inr (), t\<lparr>audits := xs\<rparr>)"
    using record_event_frame by blast
  show ?thesis
    by (simp add: githubRole_def ListGitHubRoleMappings_def bindS_def query_def stmt_def ms one m retS_def p example_fold
        githubUserRuleMatches_def t rec RoleAdmin_def [symmetric])
qed

theorem github_role_follows_rules_witness:
  "\<exists>t. githubRole example_env example_profile (Inr []) (Inr []) example_rules_db = (Inr (RoleAdmin, True), t) \<and>
     (\<exists>m \<in> set (mappings t). names example_env example_profile {} {} m \<and> m_role m = RoleAdmin)"
proof -
  obtain t where t: "githubRole example_env example_profile (Inr []) (Inr []) example_rules_db = (Inr (RoleAdmin, True), t)"
    using example_role by (auto simp: RoleAdmin_def)
  have "\<forall>m \<in> set (mappings example_rules_db). uuid_in example_env (m_id m) = Some (m_id m)" by simp
  note follows = github_role_follows_rules [OF t example_rules_ok this]
  have targets: "team_targets example_env (Inr []) = {}" "organization_targets example_env (Inr []) = {}"
    by (simp_all add: team_targets_def organization_targets_def)
  have "RoleAdmin = (if \<exists>m \<in> set (mappings t). names example_env example_profile {} {} m \<and> m_role m = RoleAdmin
      then RoleAdmin else RoleDeveloper)"
    using follows unfolding Let_def targets by blast
  moreover have "RoleAdmin \<noteq> RoleDeveloper" by (simp add: RoleAdmin_def RoleDeveloper_def)
  ultimately have "\<exists>m \<in> set (mappings t). names example_env example_profile {} {} m \<and> m_role m = RoleAdmin"
    by (cases "\<exists>m \<in> set (mappings t). names example_env example_profile {} {} m \<and> m_role m = RoleAdmin") simp_all
  with t show ?thesis by blast
qed

subsection \<open>Reading every page\<close>

lemma collect_pages_complete:
  assumes pages: "\<And>k. fetch (Suc k) = Reply 200 (Some (take 100 (drop (k * 100) xs)))"
    and keep: "\<And>a b. keep (a @ b) = keep a @ keep b"
  shows "collect_pages what keep fetch (Suc k) acc = Some (Inr (acc @ keep (drop (k * 100) xs)))"
proof (induction "length xs - k * 100" arbitrary: k acc rule: less_induct)
  case less
  let ?page = "take 100 (drop (k * 100) xs)"
  have read: "read_reply what what (fetch (Suc k)) = Inr ?page" by (simp add: read_reply_def pages)
  show ?case
  proof (cases "length ?page < 100")
    case True
    then have "?page = drop (k * 100) xs" by simp
    with True read show ?thesis by (subst collect_pages.simps) simp
  next
    case False
    then have "length xs - Suc k * 100 < length xs - k * 100" by simp
    from less [OF this] False read have "collect_pages what keep fetch (Suc k) acc =
        Some (Inr ((acc @ keep ?page) @ keep (drop (Suc k * 100) xs)))"
      by (subst collect_pages.simps) simp
    also have "drop (Suc k * 100) xs = drop 100 (drop (k * 100) xs)" by (simp add: add.commute)
    finally show ?thesis
      using keep [of ?page "drop 100 (drop (k * 100) xs)"] unfolding append_take_drop_id by simp
  qed
qed

lemma active_organizations_append: "active_organizations (a @ b) = active_organizations a @ active_organizations b"
  by (simp add: active_organizations_def)

text \<open>Reading the teams and the organizations of a GitHub account ends and misses nothing, however many pages
  there are, including when the last page is full and an empty one follows: when GitHub serves a list in
  pages of 100, the result is that list, of organizations the active ones.\<close>

theorem memberships_read_completely:
  assumes "TrimSpace accessToken \<noteq> []"
    and "\<forall>k. team_pages (Suc k) = Reply 200 (Some (take 100 (drop (k * 100) ts)))"
    and "\<forall>k. membership_pages (Suc k) = Reply 200 (Some (take 100 (drop (k * 100) ms)))"
  shows "Teams accessToken team_pages = Some (Inr ts) \<and>
    Organizations accessToken membership_pages = Some (Inr (active_organizations ms))"
  using assms collect_pages_complete [of team_pages ts "\<lambda>x. x" "''teams''" 0 "[]"]
    collect_pages_complete [of membership_pages ms active_organizations "''organizations''" 0 "[]"]
  by (simp add: Teams_def Organizations_def active_organizations_append)

theorem memberships_read_completely_witness:
  "Teams ''carol'' (\<lambda>p. Reply 200 (Some (take 100 (drop ((p - 1) * 100) (replicate 250 \<lparr>Slug = ''dev'', TeamOrganization = ''acme''\<rparr>))))) =
     Some (Inr (replicate 250 \<lparr>Slug = ''dev'', TeamOrganization = ''acme''\<rparr>))"
  using memberships_read_completely [of "''carol''"
      "\<lambda>p. Reply 200 (Some (take 100 (drop ((p - 1) * 100) (replicate 250 \<lparr>Slug = ''dev'', TeamOrganization = ''acme''\<rparr>))))"
      "replicate 250 \<lparr>Slug = ''dev'', TeamOrganization = ''acme''\<rparr>" "\<lambda>p. Reply 200 (Some (take 100 (drop ((p - 1) * 100) [])))" "[]"]
  by (simp add: carol_trim)

subsection \<open>Logins\<close>

lemma login_tail_length: "login_tail n s \<Longrightarrow> length s \<le> 2 * n"
  by (induction n s rule: login_tail.induct) (auto split: if_splits list.splits)

lemma login_tail_hyphens: "login_tail n s \<Longrightarrow> (s \<noteq> [] \<longrightarrow> last s \<noteq> CHR ''-'') \<and>
    (\<forall>i. Suc i < length s \<longrightarrow> \<not> (s ! i = CHR ''-'' \<and> s ! Suc i = CHR ''-''))"
proof (induction n s rule: login_tail.induct)
  case (3 n c cs)
  have a: "is_alnum x \<Longrightarrow> x \<noteq> CHR ''-''" for x by (auto simp: is_alnum_def less_eq_char_def)
  show ?case
  proof (cases "is_alnum c")
    case True
    with 3 have "cs \<noteq> [] \<longrightarrow> last cs \<noteq> CHR ''-''" "\<forall>i. Suc i < length cs \<longrightarrow> \<not> (cs ! i = CHR ''-'' \<and> cs ! Suc i = CHR ''-'')"
      by auto
    with a [OF True] show ?thesis by (auto simp: nth_Cons split: nat.splits)
  next
    case False
    with 3 obtain d ds where cs: "cs = d # ds" "is_alnum d" "ds \<noteq> [] \<longrightarrow> last ds \<noteq> CHR ''-''"
      "\<forall>i. Suc i < length ds \<longrightarrow> \<not> (ds ! i = CHR ''-'' \<and> ds ! Suc i = CHR ''-'')"
      by (auto split: list.splits if_splits)
    with a [OF cs(2)] show ?thesis by (auto simp: nth_Cons split: nat.splits)
  qed
qed auto

text \<open>A login the service accepts for a GitHub user rule has only single, interior hyphens and at most 77
  characters, and no lookup is made for anything else. The error message promises a limit of 39, but the
  pattern counts a hyphen and the letter after it as one repetition.\<close>

theorem github_login_shape:
  assumes "AccountID E account login = r" and "r \<noteq> Inl ErrInvalidLogin"
  shows "let s = TrimSpace login in 1 \<le> length s \<and> length s \<le> 77 \<and> hd s \<noteq> CHR ''-'' \<and> last s \<noteq> CHR ''-'' \<and>
    (\<forall>i. Suc i < length s \<longrightarrow> \<not> (s ! i = CHR ''-'' \<and> s ! Suc i = CHR ''-''))"
proof -
  have "loginPattern (TrimSpace login)" using assms by (auto simp: AccountID_def Let_def split: if_splits)
  then obtain c cs where s: "TrimSpace login = c # cs" "is_alnum c" "login_tail 38 cs"
    by (auto simp: loginPattern_def split: list.splits)
  have "c \<noteq> CHR ''-''" using s(2) by (auto simp: is_alnum_def less_eq_char_def)
  then show ?thesis
    using s(1) login_tail_length [OF s(3)] login_tail_hyphens [OF s(3)] by (auto simp: Let_def nth_Cons split: nat.splits)
qed

lemma login_of_77_characters_accepted:
  "loginPattern (''a'' @ concat (replicate 38 ''-a'')) \<and> length (''a'' @ concat (replicate 38 ''-a'')) = 77"
  by code_simp

theorem github_login_shape_witness:
  "AccountID example_env (\<lambda>_. Reply 200 (Some (7, ''carol''))) ''carol'' = Inr 7 \<and> length (TrimSpace ''carol'') \<le> 77"
proof -
  have "loginPattern ''carol''" "EqualFold example_env ''carol'' ''carol''" by code_simp+
  then have r: "AccountID example_env (\<lambda>_. Reply 200 (Some (7, ''carol''))) ''carol'' = Inr 7"
    by (simp add: AccountID_def Let_def carol_trim)
  with github_login_shape [OF r] show ?thesis by (simp add: Let_def)
qed

subsection \<open>Initial rules\<close>

lemma checkedS_Inr: "checkedS e s = (Inr x, s') \<longleftrightarrow> e = None \<and> s' = s"
  by (cases e) (auto simp: checkedS_def retS_def failS_def)

lemma insert_rule_Inr: "insert_rule E l i k t u r s = (Inr x, s') \<Longrightarrow> \<exists>m. s' = s\<lparr>mappings := mappings s @ [m]\<rparr> \<and>
    m_id m = i \<and> m_kind m = k \<and> m_target m = t \<and> m_github_user m = u \<and> m_role m = r \<and> x = scan_mapping m"
  by (auto simp: insert_rule_def io_Inr Let_def put_Inr)

text \<open>The configured default rules are recorded exactly once: the first start adds the developer team and the
  administrator team, and no later start changes the rules again, even after administrators removed them
  or the configuration changed.\<close>

theorem initial_rules_once:
  assumes run: "EnsureInitialGitHubRoleMappings E developerTeam adminTeam s = (Inr (), s')"
  shows "(''initial_github_role_mappings'' \<notin> set (metadata s) \<longrightarrow>
      (\<exists>d a. mappings s' = mappings s @ [d, a] \<and> m_kind d = ''team'' \<and> m_role d = RoleDeveloper \<and>
        m_target d = ToLower E (TrimSpace developerTeam) \<and> m_kind a = ''team'' \<and> m_role a = RoleAdmin \<and>
        m_target a = ToLower E (TrimSpace adminTeam))) \<and>
    (''initial_github_role_mappings'' \<in> set (metadata s) \<longrightarrow> s' = s) \<and>
    (\<forall>E' d' a' t. metadata t = metadata s' \<longrightarrow> snd (EnsureInitialGitHubRoleMappings E' d' a' t) = t)"
proof -
  let ?key = "''initial_github_role_mappings''"
  have already: "snd (EnsureInitialGitHubRoleMappings E' d' a' t) = t" if "?key \<in> set (metadata t)" for E' d' a' t
    using that by (auto simp: EnsureInitialGitHubRoleMappings_def bindS_def checkedS_def retS_def failS_def tx_def stmt_def
        split: option.splits)
  show ?thesis
  proof (cases "?key \<in> set (metadata s)")
    case True
    then have "s' = s" using already [OF True, of E developerTeam adminTeam] run by simp
    with True already show ?thesis by simp
  next
    case False
    from run False obtain s1 d a where s1: "s1 = s\<lparr>metadata := metadata s @ [?key]\<rparr>"
      and d: "m_kind d = ''team''" "m_role d = RoleDeveloper" "m_target d = normalizeGitHubTarget E ''team'' developerTeam"
      and a: "m_kind a = ''team''" "m_role a = RoleAdmin" "m_target a = normalizeGitHubTarget E ''team'' adminTeam"
      and s': "s' = s1\<lparr>mappings := mappings s1 @ [d, a]\<rparr>"
      unfolding EnsureInitialGitHubRoleMappings_def by (auto simp: io_Inr checkedS_Inr dest!: insert_rule_Inr)
    then have "mappings s' = mappings s @ [d, a]" "?key \<in> set (metadata s')" by simp_all
    with d a False already show ?thesis
      by (intro conjI impI exI [of _ d] exI [of _ a]) (simp_all add: normalizeGitHubTarget_def)
  qed
qed

definition example_ids :: env where
  "example_ids = example_env\<lparr>uuid_bytes := (\<lambda>i. replicate 16 (of_nat i))\<rparr>"

lemma example_teams: "TrimSpace ''acme/dev'' = ''acme/dev''" "TrimSpace ''acme/ops'' = ''acme/ops''"
  "ToLower example_ids ''acme/dev'' = ''acme/dev''" "ToLower example_ids ''acme/ops'' = ''acme/ops''"
  "length (split_on CHR ''/'' ''acme/dev'') = 2" "length (split_on CHR ''/'' ''acme/ops'') = 2"
  "randomUUID example_ids 0 \<noteq> randomUUID example_ids 1"
  by code_simp+

lemma example_ids_faults [simp]: "fault example_ids l = False" by (simp add: example_ids_def)

theorem initial_rules_once_witness:
  "\<exists>t. EnsureInitialGitHubRoleMappings example_ids ''acme/dev'' ''acme/ops'' example_db = (Inr (), t) \<and> length (mappings t) = 2 \<and>
     snd (EnsureInitialGitHubRoleMappings example_ids ''acme/ops'' ''acme/dev'' t) = t"
proof -
  have "\<exists>t. EnsureInitialGitHubRoleMappings example_ids ''acme/dev'' ''acme/ops'' example_db = (Inr (), t)"
    using example_teams(7)
    by (simp add: EnsureInitialGitHubRoleMappings_def ValidateGitHubRoleMapping_def example_teams(1-6) checkedS_def bindS_def retS_def
        tx_def stmt_def insert_rule_def Let_def put_mappings_def normalizeGitHubTarget_def mapping_check_def known_role_def
        mappings_unique_def RoleDeveloper_def RoleAdmin_def example_db_def del: One_nat_def)
  then obtain t where t: "EnsureInitialGitHubRoleMappings example_ids ''acme/dev'' ''acme/ops'' example_db = (Inr (), t)" by blast
  with initial_rules_once [OF t] show ?thesis by (auto simp: example_db_def)
qed

subsection \<open>The accounts a rule may have admitted\<close>

lemma named_possibly_granted:
  assumes "names E profile teams orgs m" "mapping_check m" "u_disabled u = None" "u_github_id u = Some (prof_ID profile)"
    "u_role u = m_role m"
  shows "possibly_granted E' (scan_mapping m) u"
  using assms by (auto simp: names_def possibly_granted_def scan_mapping_def mapping_check_def split: option.splits)

lemma insert_rule_quiet: "obeys quiet (insert_rule E l i k t u r)"
  unfolding insert_rule_def Let_def by (intro qt.keeps_stmt) (erule quiet_mappings)

lemma checkedS_quiet: "obeys quiet (checkedS e)"
  by (cases e) (simp_all add: checkedS_def qt.keeps)

lemma EnsureInitialGitHubRoleMappings_quiet: "obeys quiet (EnsureInitialGitHubRoleMappings E d a)"
  unfolding EnsureInitialGitHubRoleMappings_def
  by (intro qt.keeps checkedS_quiet insert_rule_quiet qt.keeps_stmt) (auto simp: quiet_metadata qt.R_refl split: if_splits)

lemma CreateGitHubRoleMapping_quiet: "obeys quiet (CreateGitHubRoleMapping E k t g r)"
  unfolding CreateGitHubRoleMapping_def by (intro qt.keeps checkedS_quiet insert_rule_quiet)

lemma BindGitHubUserMapping_quiet: "obeys quiet (BindGitHubUserMapping E i g)"
  unfolding BindGitHubUserMapping_def by (intro qt.keeps qt.keeps_stmt) (erule quiet_mappings)

lemma DeleteGitHubRoleMapping_quiet: "obeys quiet (DeleteGitHubRoleMapping E i)"
  unfolding DeleteGitHubRoleMapping_def by (intro qt.keeps qt.keeps_stmt) (erule quiet_mappings)

lemmas rule_quiet = EnsureInitialGitHubRoleMappings_quiet CreateGitHubRoleMapping_quiet BindGitHubUserMapping_quiet
  DeleteGitHubRoleMapping_quiet

end
