(* ===== verification/Revocation_Pool.thy ===== *)
theory Revocation_Pool
  imports Shauth_Prelude "HOL-Library.Multiset"
begin

text \<open>
  \<open>revokeOtherHydraSessions\<close> of \<open>internal/app/app.go\<close>: the provider sessions a sign-out has to end are
  handed to at most four workers, and the first failure stops the rest. The pool is a step relation:
  any interleaving of the sender, the workers and the cancellation of the context is a run. What
  Ory Hydra answers is a parameter. The function \<open>pool_result\<close> is the specification the rest of the
  service relies on; \<open>pool_refines\<close> shows that every run that is not cancelled from outside implements
  it, and \<open>pool_cancelled_from_outside\<close> that a cancelled one does not.
\<close>

subsection \<open>The sessions to end\<close>

definition revocation_targets :: "string list \<Rightarrow> string list \<Rightarrow> string list" where
  "revocation_targets sessionIDs excludedIDs = filter (\<lambda>i. \<not> (i \<noteq> [] \<and> i \<in> set excludedIDs)) sessionIDs"

definition pool_limit :: "string list \<Rightarrow> nat" where
  "pool_limit targets = min 4 (length targets)"

subsection \<open>The pool\<close>

record revocation =
  waiting :: "string list"          \<comment> \<open>not handed to a worker yet\<close>
  sending :: bool                   \<comment> \<open>the loop \<open>sendSessions\<close> still runs\<close>
  ready :: nat                      \<comment> \<open>workers waiting on \<open>jobs\<close>\<close>
  busy :: "string list"             \<comment> \<open>requests in flight\<close>
  acked :: "string list"            \<comment> \<open>sessions Ory Hydra has ended\<close>
  failures :: "string list"         \<comment> \<open>requests that failed; their workers have returned\<close>
  firstError :: "string option"     \<comment> \<open>the session whose failure is reported\<close>
  cancelled :: bool                 \<comment> \<open>\<open>revocationContext\<close> is done\<close>

definition pool_start :: "string list \<Rightarrow> revocation" where
  "pool_start targets = \<lparr>waiting = targets, sending = True, ready = pool_limit targets, busy = [], acked = [],
     failures = [], firstError = None, cancelled = False\<rparr>"

text \<open>
  \<open>hydra i\<close>: the deletion of session \<open>i\<close> is answered with 204 or 404. A request whose context is
  cancelled may fail whatever the provider would answer. \<open>outside\<close>: the caller's context may be
  cancelled, for instance because the browser went away.
\<close>

inductive pool_step :: "(string \<Rightarrow> bool) \<Rightarrow> bool \<Rightarrow> revocation \<Rightarrow> revocation \<Rightarrow> bool"
  for hydra :: "string \<Rightarrow> bool" and outside :: bool where
  send: "sending p \<Longrightarrow> waiting p = x # xs \<Longrightarrow> 0 < ready p \<Longrightarrow>
    pool_step hydra outside p (p\<lparr>waiting := xs, ready := ready p - 1, busy := x # busy p\<rparr>)"
| stop: "sending p \<Longrightarrow> waiting p \<noteq> [] \<Longrightarrow> cancelled p \<Longrightarrow>
    pool_step hydra outside p (p\<lparr>sending := False\<rparr>)"
| close: "sending p \<Longrightarrow> waiting p = [] \<Longrightarrow> pool_step hydra outside p (p\<lparr>sending := False\<rparr>)"
| ack: "x \<in> set (busy p) \<Longrightarrow> hydra x \<Longrightarrow>
    pool_step hydra outside p (p\<lparr>busy := remove1 x (busy p), acked := x # acked p, ready := ready p + 1\<rparr>)"
| fail: "x \<in> set (busy p) \<Longrightarrow> \<not> hydra x \<or> cancelled p \<Longrightarrow>
    pool_step hydra outside p (p\<lparr>busy := remove1 x (busy p), failures := x # failures p,
      firstError := (case firstError p of None \<Rightarrow> Some x | e \<Rightarrow> e), cancelled := True\<rparr>)"
| abandon: "outside \<Longrightarrow> \<not> cancelled p \<Longrightarrow> pool_step hydra outside p (p\<lparr>cancelled := True\<rparr>)"

inductive_cases pool_stepE: "pool_step hydra outside p q"

definition pool_done :: "revocation \<Rightarrow> bool" where
  "pool_done p \<longleftrightarrow> \<not> sending p \<and> busy p = []"

abbreviation pool_run :: "(string \<Rightarrow> bool) \<Rightarrow> bool \<Rightarrow> revocation \<Rightarrow> revocation \<Rightarrow> bool" where
  "pool_run hydra outside \<equiv> (pool_step hydra outside)\<^sup>*\<^sup>*"

text \<open>
  What the callers rely on: without an error every session was ended; with one, some of those the
  provider would end (\<open>reached\<close>, which the interleaving decides) were ended before the pool stopped.
\<close>

definition pool_result :: "(string \<Rightarrow> bool) \<Rightarrow> string set \<Rightarrow> string list \<Rightarrow> bool \<times> string list" where
  "pool_result hydra reached targets =
     (if list_all hydra targets then (True, targets)
      else (False, filter (\<lambda>i. hydra i \<and> i \<in> reached) targets))"

subsection \<open>Invariant\<close>

definition pool_inv :: "(string \<Rightarrow> bool) \<Rightarrow> bool \<Rightarrow> string list \<Rightarrow> revocation \<Rightarrow> bool" where
  "pool_inv hydra outside targets p \<longleftrightarrow>
     mset targets = mset (waiting p) + mset (busy p) + mset (acked p) + mset (failures p) \<and>
     ready p + length (busy p) + length (failures p) = pool_limit targets \<and>
     list_all hydra (acked p) \<and>
     (firstError p = None \<longleftrightarrow> failures p = []) \<and>
     (firstError p \<noteq> None \<longrightarrow> cancelled p) \<and>
     (\<not> outside \<longrightarrow> cancelled p \<longrightarrow> firstError p \<noteq> None) \<and>
     (\<forall>x. \<not> outside \<longrightarrow> firstError p = Some x \<longrightarrow> \<not> hydra x \<and> x \<in> set targets) \<and>
     (sending p \<or> waiting p = [] \<or> cancelled p)"

lemma pool_inv_start: "pool_inv hydra outside targets (pool_start targets)"
  by (simp add: pool_inv_def pool_start_def)

lemma mset_take_out: "x \<in> set xs \<Longrightarrow> mset xs = add_mset x (mset (remove1 x xs))"
  by simp

lemma length_take_out: "x \<in> set xs \<Longrightarrow> length xs = Suc (length (remove1 x xs))"
  using length_pos_if_in_set [of x xs] by (simp add: length_remove1)

lemma pool_inv_step:
  assumes "pool_step hydra outside p q" "pool_inv hydra outside targets p"
  shows "pool_inv hydra outside targets q"
  using assms(1)
proof (cases rule: pool_step.cases)
  case (ack x)
  define ys where "ys = remove1 x (busy p)"
  have "mset (busy p) = add_mset x (mset ys)" "length (busy p) = Suc (length ys)"
    unfolding ys_def using mset_take_out [OF ack(2)] length_take_out [OF ack(2)] .
  with ack(3) assms(2) show ?thesis unfolding ack(1) ys_def [symmetric] by (auto simp: pool_inv_def)
next
  case (fail x)
  define ys where "ys = remove1 x (busy p)"
  have ys: "mset (busy p) = add_mset x (mset ys)" "length (busy p) = Suc (length ys)"
    unfolding ys_def using mset_take_out [OF fail(2)] length_take_out [OF fail(2)] .
  have "x \<in># mset targets" using assms(2) ys(1) by (simp add: pool_inv_def)
  then have "x \<in> set targets" by simp
  with fail(3) assms(2) ys show ?thesis
    unfolding fail(1) ys_def [symmetric] by (auto simp: pool_inv_def split: option.splits)
qed (use assms(2) in \<open>auto simp: pool_inv_def\<close>)

lemma pool_inv_run: "pool_run hydra outside p q \<Longrightarrow> pool_inv hydra outside targets p \<Longrightarrow> pool_inv hydra outside targets q"
  by (induction rule: rtranclp_induct) (auto intro: pool_inv_step)

lemmas pool_reachable = pool_inv_run [OF _ pool_inv_start]

subsection \<open>Every run ends\<close>

definition pool_measure :: "revocation \<Rightarrow> nat" where
  "pool_measure p = 3 * length (waiting p) + 2 * length (busy p) + (if sending p then 1 else 0) +
     (if cancelled p then 0 else 1)"

lemma pool_step_decreases: "pool_step hydra outside p q \<Longrightarrow> pool_measure q < pool_measure p"
proof (induction rule: pool_step.induct)
  case (ack x p)
  then show ?case using length_take_out [OF ack(1)] by (simp add: pool_measure_def)
next
  case (fail x p)
  then show ?case using length_take_out [OF fail(1)] by (simp add: pool_measure_def)
qed (auto simp: pool_measure_def)

lemma pool_progress:
  assumes "pool_inv hydra outside targets p" "\<not> pool_done p"
  shows "\<exists>q. pool_step hydra outside p q"
proof (cases "busy p")
  case (Cons x xs)
  then have "x \<in> set (busy p)" by simp
  then show ?thesis by (cases "hydra x") (blast intro: pool_step.intros)+
next
  case Nil
  with assms(2) have sending: "sending p" by (simp add: pool_done_def)
  show ?thesis
  proof (cases "waiting p")
    case Nil
    with sending show ?thesis by (blast intro: pool_step.close)
  next
    case (Cons y ys)
    show ?thesis
    proof (cases "ready p")
      case (Suc n)
      with Cons sending show ?thesis by (metis pool_step.send zero_less_Suc)
    next
      case 0
      have "pool_limit targets > 0"
        using assms(1) Cons by (cases targets) (auto simp: pool_inv_def pool_limit_def)
      with 0 Nil assms(1) have "failures p \<noteq> []" by (auto simp: pool_inv_def)
      then have "firstError p \<noteq> None" "cancelled p" using assms(1) by (auto simp: pool_inv_def)
      with Cons sending show ?thesis by (metis list.distinct(1) pool_step.stop)
    qed
  qed
qed

lemma pool_reaches_end:
  assumes "pool_inv hydra outside targets p"
  shows "\<exists>q. pool_run hydra outside p q \<and> pool_done q"
  using assms
proof (induction "pool_measure p" arbitrary: p rule: less_induct)
  case less
  show ?case
  proof (cases "pool_done p")
    case False
    then obtain q where q: "pool_step hydra outside p q" using pool_progress less.prems by blast
    from less.hyps [OF pool_step_decreases [OF q]] pool_inv_step [OF q less.prems] obtain t where
      "pool_run hydra outside q t" "pool_done t" by blast
    with q show ?thesis by (meson converse_rtranclp_into_rtranclp)
  qed blast
qed

text \<open>C32. However the sender, the workers and the provider interleave, at most four revocation requests are in
  flight, a run that has not ended can continue, and every run ends within a fixed number of steps.\<close>

theorem pool_bounded_and_ends:
  assumes "pool_run hydra outside (pool_start targets) p"
  shows "length (busy p) \<le> 4 \<and> (pool_done p \<or> (\<exists>q. pool_step hydra outside p q)) \<and>
    (\<exists>q. pool_run hydra outside p q \<and> pool_done q) \<and>
    pool_measure p \<le> 3 * length targets + 2 \<and> (\<forall>q. pool_step hydra outside p q \<longrightarrow> pool_measure q < pool_measure p)"
proof -
  have I: "pool_inv hydra outside targets p" using pool_reachable [OF assms] .
  then have "length (busy p) \<le> 4" by (auto simp: pool_inv_def pool_limit_def)
  moreover have "pool_measure p \<le> pool_measure (pool_start targets)"
    using assms by (induction rule: rtranclp_induct) (auto dest: pool_step_decreases)
  moreover have "pool_measure (pool_start targets) = 3 * length targets + 2"
    by (simp add: pool_measure_def pool_start_def)
  ultimately show ?thesis using pool_progress [OF I] pool_reaches_end [OF I] pool_step_decreases by metis
qed

text \<open>C33. Every run that is not cancelled from outside implements the specification: it reports no error exactly
  when the provider ended every session, and an error only when a revocation really failed; what had been
  ended by then is among the sessions asked for.\<close>

theorem pool_refines:
  assumes "pool_run hydra False (pool_start targets) p" "pool_done p"
  shows "\<exists>reached. pool_result hydra reached targets = (firstError p = None, filter (\<lambda>i. i \<in> set (acked p)) targets) \<and>
    mset (acked p) \<subseteq># mset targets \<and> (firstError p = None \<longrightarrow> mset (acked p) = mset targets)"
proof -
  have I: "pool_inv hydra False targets p" using pool_reachable [OF assms(1)] .
  have ok: "list_all hydra (acked p)" using I by (simp add: pool_inv_def)
  show ?thesis
  proof (cases "firstError p")
    case None
    with I assms(2) have all: "mset (acked p) = mset targets" by (auto simp: pool_inv_def pool_done_def)
    then have "set (acked p) = set targets" by (metis set_mset_mset)
    with ok None all show ?thesis by (intro exI [of _ "{}"]) (auto simp: pool_result_def list_all_iff)
  next
    case (Some x)
    then have "\<not> hydra x" "x \<in> set targets" using I by (auto simp: pool_inv_def)
    then have "\<not> list_all hydra targets" by (auto simp: list_all_iff)
    moreover have "mset (acked p) \<subseteq># mset targets" using I by (simp add: pool_inv_def)
    moreover have "filter (\<lambda>i. hydra i \<and> i \<in> set (acked p)) targets = filter (\<lambda>i. i \<in> set (acked p)) targets"
      using ok by (intro filter_cong) (auto simp: list_all_iff)
    ultimately show ?thesis using Some by (intro exI [of _ "set (acked p)"]) (simp add: pool_result_def)
  qed
qed

text \<open>When the caller's context is cancelled the pool can stop handing out sessions and still report no error:
  sessions that were never asked to end count as ended.\<close>

theorem pool_cancelled_from_outside:
  assumes "targets \<noteq> []" "hydra = (\<lambda>_. True)"
  shows "\<exists>p. pool_run hydra True (pool_start targets) p \<and> pool_done p \<and> firstError p = None \<and> acked p = []"
proof -
  let ?a = "(pool_start targets)\<lparr>cancelled := True\<rparr>"
  have "pool_step hydra True (pool_start targets) ?a"
    by (rule pool_step.abandon) (simp_all add: pool_start_def)
  moreover have "pool_step hydra True ?a (?a\<lparr>sending := False\<rparr>)"
    by (rule pool_step.stop) (simp_all add: pool_start_def assms)
  ultimately have "pool_run hydra True (pool_start targets) (?a\<lparr>sending := False\<rparr>)"
    by (meson r_into_rtranclp rtranclp.rtrancl_into_rtrancl)
  then show ?thesis by (intro exI [of _ "?a\<lparr>sending := False\<rparr>"]) (simp add: pool_done_def pool_start_def)
qed

subsection \<open>Witnesses\<close>

lemma pool_then: "pool_step hydra outside p q \<Longrightarrow> pool_run hydra outside q t \<Longrightarrow> pool_run hydra outside p t"
  by (rule converse_rtranclp_into_rtranclp)

lemma example_pool_run:
  "pool_run (\<lambda>i. i = ''h1'') False (pool_start [''h1'', ''h2''])
     \<lparr>waiting = [], sending = False, ready = 1, busy = [], acked = [''h1''], failures = [''h2''],
       firstError = Some ''h2'', cancelled = True\<rparr>"
proof -
  let ?H = "\<lambda>i. i = ''h1''"
  let ?s = "\<lambda>w sn i b a f e c. \<lparr>waiting = w, sending = sn, ready = i, busy = b, acked = a, failures = f, firstError = e, cancelled = c\<rparr>"
  have s1: "pool_step ?H False (?s [''h1'', ''h2''] True 2 [] [] [] None False) (?s [''h2''] True 1 [''h1''] [] [] None False)"
    using pool_step.send [of "?s [''h1'', ''h2''] True 2 [] [] [] None False" "''h1''" "[''h2'']" ?H False] by simp
  have s2: "pool_step ?H False (?s [''h2''] True 1 [''h1''] [] [] None False) (?s [] True 0 [''h2'', ''h1''] [] [] None False)"
    using pool_step.send [of "?s [''h2''] True 1 [''h1''] [] [] None False" "''h2''" "[]" ?H False] by simp
  have s3: "pool_step ?H False (?s [] True 0 [''h2'', ''h1''] [] [] None False) (?s [] True 1 [''h2''] [''h1''] [] None False)"
    using pool_step.ack [of "''h1''" "?s [] True 0 [''h2'', ''h1''] [] [] None False" ?H False] by simp
  have s4: "pool_step ?H False (?s [] True 1 [''h2''] [''h1''] [] None False) (?s [] True 1 [] [''h1''] [''h2''] (Some ''h2'') True)"
    using pool_step.fail [of "''h2''" "?s [] True 1 [''h2''] [''h1''] [] None False" ?H False] by simp
  have s5: "pool_step ?H False (?s [] True 1 [] [''h1''] [''h2''] (Some ''h2'') True) (?s [] False 1 [] [''h1''] [''h2''] (Some ''h2'') True)"
    using pool_step.close [of "?s [] True 1 [] [''h1''] [''h2''] (Some ''h2'') True" ?H False] by simp
  have start: "pool_start [''h1'', ''h2''] = ?s [''h1'', ''h2''] True 2 [] [] [] None False"
    by (simp add: pool_start_def pool_limit_def)
  show ?thesis
    unfolding start by (rule pool_then [OF s1 pool_then [OF s2 pool_then [OF s3 pool_then [OF s4 pool_then [OF s5 rtranclp.rtrancl_refl]]]]])
qed

theorem pool_refines_witness:
  "\<exists>reached. pool_result (\<lambda>i. i = ''h1'') reached [''h1'', ''h2''] = (False, [''h1''])"
  using pool_refines [OF example_pool_run] by (simp add: pool_done_def)

theorem pool_bounded_and_ends_witness:
  "\<exists>q. pool_run (\<lambda>i. i = ''h1'') False (pool_start [''h1'', ''h2'', ''h3'', ''h4'', ''h5'', ''h6'']) q \<and> pool_done q"
  using pool_bounded_and_ends [where p = "pool_start [''h1'', ''h2'', ''h3'', ''h4'', ''h5'', ''h6'']" and hydra = "\<lambda>i. i = ''h1''" and outside = False and targets = "[''h1'', ''h2'', ''h3'', ''h4'', ''h5'', ''h6'']"]
  by blast

theorem pool_cancelled_from_outside_witness:
  "\<exists>p. pool_run (\<lambda>_. True) True (pool_start [''h1'']) p \<and> pool_done p \<and> firstError p = None \<and> acked p = []"
  using pool_cancelled_from_outside [of "[''h1'']" "\<lambda>_. True"] by simp

end
