(* ===== verification/Operations.thy ===== *)
theory Operations
  imports GitHub_Rules Revocation_Pool
begin

text \<open>
  The operations the HTTP handlers share (\<open>internal/app/operations.go\<close>) and the requests they send to Ory
  Hydra (\<open>internal/app/app.go\<close>). They compose the identity store,
  the revocation pool and Ory Hydra's administration API. Hydra, the mailer and GitHub are parameters:
  the server record says what each of them answers. The world is the database together with what Hydra
  has acknowledged and what was mailed. Every call of the store has an environment of its own
  (\<open>sv_env V i\<close>): its own clock, faults and random draws.
\<close>

subsection \<open>The world\<close>

datatype hydra_call =
    DeleteLogin string                  \<comment> \<open>\<open>DELETE \<dots>/sessions/login?sid=\<close>\<close>
  | DeleteSubjectLogin string           \<comment> \<open>\<open>DELETE \<dots>/sessions/login?subject=\<close>\<close>
  | DeleteSubjectConsent string         \<comment> \<open>\<open>DELETE \<dots>/sessions/consent?subject=\<dots>&all=true\<close>\<close>
  | AcceptLogout string
  | RejectLogout string
  | AcceptLogin string string string int      \<comment> \<open>challenge, subject, \<open>identity_provider_session_id\<close>, \<open>remember_for\<close>\<close>
  | AcceptConsent string "string list" details int \<comment> \<open>challenge, \<open>grant_scope\<close>, the claims of both tokens, \<open>remember_for\<close>\<close>
  | RejectConsent string

record hydraLogoutRequest =
  lr_SessionID :: string
  lr_Subject :: string
  lr_RPInitiated :: bool
  lr_ClientID :: string

record server =
  sv_env :: "nat \<Rightarrow> env"
  hydra_status :: "hydra_call \<Rightarrow> nat option"           \<comment> \<open>the status of the answer, \<open>None\<close> without one\<close>
  reached_sessions :: "string list \<Rightarrow> string set"     \<comment> \<open>how far a stopping pool got\<close>
  redirect_of :: "string \<Rightarrow> string"                    \<comment> \<open>\<open>redirect_to\<close> of an accepted logout challenge\<close>
  logout_request_of :: "string \<Rightarrow> hydraLogoutRequest option" \<comment> \<open>the decoded request of a challenge, when Hydra has it\<close>
  mail_sent :: "string \<Rightarrow> bool"
  github_account :: "string \<Rightarrow> (int \<times> string) reply"
  SessionResetToken :: string
  TokenHookToken :: string

record world =
  store :: db
  acknowledged :: "hydra_call list"
  mailed :: "(string \<times> string) list"

type_synonym 'a app = "(world, 'a) io"

definition inDb :: "'a store \<Rightarrow> 'a app" where
  "inDb m = (\<lambda>w. case m (store w) of (r, s') \<Rightarrow> (r, w\<lparr>store := s'\<rparr>))"

text \<open>\<open>if err != nil\<close> with a branch of its own: the error becomes a value.\<close>

definition tryS :: "('s, 'a) io \<Rightarrow> ('s, error + 'a) io" where
  "tryS m = (\<lambda>s. case m s of (r, s') \<Rightarrow> (Inr r, s'))"

definition now_of :: "server \<Rightarrow> nat \<Rightarrow> time" where
  "now_of V i = go_now (sv_env V i)"

definition note_event :: "server \<Rightarrow> nat \<Rightarrow> actor \<Rightarrow> string \<Rightarrow> string \<Rightarrow> details \<Rightarrow> unit app" where
  "note_event V i who eventType subject ds = inDb (record_event (sv_env V i) who eventType subject ds)"

subsection \<open>Ory Hydra\<close>

definition call_hydra :: "server \<Rightarrow> hydra_call \<Rightarrow> nat set \<Rightarrow> unit app" where
  "call_hydra V c accepted = (\<lambda>w. case hydra_status V c of None \<Rightarrow> (Inl (Failed ''no answer from Ory Hydra''), w)
     | Some st \<Rightarrow> if st \<in> accepted then (Inr (), w\<lparr>acknowledged := acknowledged w @ [c]\<rparr>)
         else (Inl (Failed (''Ory Hydra returned HTTP '' @ decimal st)), w))"

text \<open>A login session Hydra no longer holds is already revoked.\<close>

definition revokeHydraLoginSession :: "server \<Rightarrow> string \<Rightarrow> unit app" where
  "revokeHydraLoginSession V sessionID = call_hydra V (DeleteLogin sessionID) {204, 404}"

definition ends_session :: "server \<Rightarrow> string \<Rightarrow> bool" where
  "ends_session V sessionID \<longleftrightarrow> (\<exists>st \<in> {204, 404}. hydra_status V (DeleteLogin sessionID) = Some st)"

text \<open>The pool, by its specification \<open>pool_result\<close>; its context is not cancelled from outside.\<close>

definition revokeOtherHydraSessions :: "server \<Rightarrow> string list \<Rightarrow> string list \<Rightarrow> unit app" where
  "revokeOtherHydraSessions V sessionIDs excludedIDs = (\<lambda>w.
     let targets = revocation_targets sessionIDs excludedIDs in
     case pool_result (ends_session V) (reached_sessions V targets) targets of (ok, ended) \<Rightarrow>
       (if ok then Inr () else Inl (Failed ''Ory Hydra login session deletion failed''),
        w\<lparr>acknowledged := acknowledged w @ map DeleteLogin ended\<rparr>))"

definition revokeHydraSubjectSessions :: "server \<Rightarrow> string \<Rightarrow> unit app" where
  "revokeHydraSubjectSessions V subject =
     bindS (call_hydra V (DeleteSubjectLogin subject) {204}) (\<lambda>_.
     call_hydra V (DeleteSubjectConsent subject) {204})"

definition revokeHydraSessions :: "server \<Rightarrow> nat \<Rightarrow> string \<Rightarrow> unit app" where
  "revokeHydraSessions V i subject =
     bindS (inDb (UserHydraLoginSessionIDs (sv_env V i) subject)) (\<lambda>ids.
     bindS (revokeOtherHydraSessions V ids []) (\<lambda>_.
     revokeHydraSubjectSessions V subject))"

subsection \<open>Accounts\<close>

definition isSelf :: "actor \<Rightarrow> string \<Rightarrow> bool" where
  "isSelf a userID \<longleftrightarrow> actor_UserID a \<noteq> [] \<and> actor_UserID a = userID"

definition uuidPathPattern :: "string \<Rightarrow> bool" where
  "uuidPathPattern i \<longleftrightarrow> identifierPattern i"

definition requireUUID :: "string \<Rightarrow> error \<Rightarrow> ('s, unit) io" where
  "requireUUID i missing = guardS (uuidPathPattern i) missing"

definition createUser :: "server \<Rightarrow> string \<Rightarrow> string \<Rightarrow> string \<Rightarrow> Role \<Rightarrow> actor \<Rightarrow> User app" where
  "createUser V username email password role requester =
     bindS (inDb (CreatePasswordUser (sv_env V 0) username email password role)) (\<lambda>user.
     bindS (note_event V 1 requester AuditAccountCreated (ID user)
       [(''username'', DText (Username user)), (''email'', DText (Email user)), (''role'', DText (UserRole user))]) (\<lambda>_.
     retS user))"

definition disableUser :: "server \<Rightarrow> string \<Rightarrow> actor \<Rightarrow> User app" where
  "disableUser V userID requester =
     bindS (requireUUID userID ErrUserNotFound) (\<lambda>_.
     bindS (guardS (\<not> isSelf requester userID) ErrSelfDisable) (\<lambda>_.
     bindS (inDb (DisableUser (sv_env V 0) userID (now_of V 0))) (\<lambda>ids.
     bindS (tryS (bindS (revokeOtherHydraSessions V ids []) (\<lambda>_. revokeHydraSubjectSessions V userID))) (\<lambda>revoked.
     case revoked of
       Inl _ \<Rightarrow> bindS (note_event V 1 requester AuditAccountDisabled userID
           [(''revoked_provider_sessions'', DNumber 0), (''oauth_revocation'', DText ''failed'')]) (\<lambda>_.
         failS (DependencyError ''the account was disabled and its sessions ended, but OAuth session revocation did not complete''))
     | Inr _ \<Rightarrow> bindS (inDb (UserByID (sv_env V 1) userID)) (\<lambda>user.
         bindS (note_event V 2 requester AuditAccountDisabled userID
           [(''username'', DText (Username user)), (''revoked_provider_sessions'', DNumber (int (length ids)))]) (\<lambda>_.
         retS user))))))"

definition enableUser :: "server \<Rightarrow> string \<Rightarrow> actor \<Rightarrow> User app" where
  "enableUser V userID requester =
     bindS (requireUUID userID ErrUserNotFound) (\<lambda>_.
     bindS (inDb (EnableUser (sv_env V 0) userID (now_of V 0))) (\<lambda>_.
     bindS (inDb (UserByID (sv_env V 1) userID)) (\<lambda>user.
     bindS (note_event V 2 requester AuditAccountEnabled userID [(''username'', DText (Username user))]) (\<lambda>_.
     retS user))))"

subsection \<open>Invitations\<close>

definition createInvitation :: "server \<Rightarrow> string \<Rightarrow> Role \<Rightarrow> actor \<Rightarrow> Invitation app" where
  "createInvitation V email role requester =
     bindS (inDb (CreateInvitation (sv_env V 0) email role (actor_UserID requester) (now_of V 0))) (\<lambda>(raw, inv).
     if \<not> mail_sent V (inv_Email inv) then
       bindS (tryS (inDb (RevokeInvitation (sv_env V 1) (inv_ID inv) (now_of V 1)))) (\<lambda>_.
       failS (DependencyError ''the invitation email could not be sent, so the invitation was withdrawn''))
     else
       bindS (\<lambda>w. (Inr (), w\<lparr>mailed := mailed w @ [(inv_Email inv, raw)]\<rparr>)) (\<lambda>_.
       bindS (note_event V 1 requester AuditInvitationCreated []
         [(''invitation_id'', DText (inv_ID inv)), (''email'', DText (inv_Email inv)), (''role'', DText (inv_Role inv))]) (\<lambda>_.
       retS inv)))"

definition claimInvitation :: "server \<Rightarrow> string \<Rightarrow> string \<Rightarrow> string \<Rightarrow> actor \<Rightarrow> User app" where
  "claimInvitation V token username password requester =
     bindS (inDb (AcceptInvitation (sv_env V 0) token username password (now_of V 0))) (\<lambda>user.
     let ds = [(''username'', DText (Username user)), (''email'', DText (Email user)), (''role'', DText (UserRole user)),
       (''via'', DText ''invitation'')] in
     bindS (note_event V 1 requester AuditInvitationAccepted (ID user) ds) (\<lambda>_.
     bindS (note_event V 2 requester AuditAccountCreated (ID user) ds) (\<lambda>_.
     retS user)))"

definition revokeInvitation :: "server \<Rightarrow> string \<Rightarrow> actor \<Rightarrow> unit app" where
  "revokeInvitation V i requester =
     bindS (requireUUID i ErrInvitationNotRevocable) (\<lambda>_.
     bindS (inDb (RevokeInvitation (sv_env V 0) i (now_of V 0))) (\<lambda>_.
     note_event V 1 requester AuditInvitationRevoked [] [(''invitation_id'', DText i)]))"

subsection \<open>Sessions\<close>

text \<open>The result names the session and the account it belonged to.\<close>

definition revokeSession :: "server \<Rightarrow> string \<Rightarrow> actor \<Rightarrow> (string \<times> string) app" where
  "revokeSession V sessionID requester =
     bindS (requireUUID sessionID ErrSessionNotFound) (\<lambda>_.
     bindS (inDb (SessionUserID (sv_env V 0) sessionID)) (\<lambda>userID.
     bindS (tryS (inDb (RevokeSession (sv_env V 1) sessionID (now_of V 1)))) (\<lambda>local.
     case local of
       Inl e \<Rightarrow> if e \<noteq> ErrActiveSessionNotFound then failS e
         else bindS (inDb (HydraLoginSessionIDs (sv_env V 2) sessionID)) (\<lambda>ids.
           bindS (tryS (revokeOtherHydraSessions V ids [])) (\<lambda>revoked.
           case revoked of
             Inl _ \<Rightarrow> failS (DependencyError ''the session ended, but OAuth session revocation did not complete'')
           | Inr _ \<Rightarrow> failS e))
     | Inr _ \<Rightarrow>
         bindS (inDb (HydraLoginSessionIDs (sv_env V 2) sessionID)) (\<lambda>ids.
         bindS (tryS (revokeOtherHydraSessions V ids [])) (\<lambda>revoked.
         case revoked of
           Inl _ \<Rightarrow> bindS (note_event V 3 requester AuditSessionRevoked userID [(''session_id'', DText sessionID),
               (''revoked_provider_sessions'', DNumber 0), (''oauth_revocation'', DText ''failed'')]) (\<lambda>_.
             failS (DependencyError ''the session ended, but OAuth session revocation did not complete''))
         | Inr _ \<Rightarrow> bindS (note_event V 3 requester AuditSessionRevoked userID [(''session_id'', DText sessionID),
               (''revoked_provider_sessions'', DNumber (int (length ids)))]) (\<lambda>_.
             retS (sessionID, userID)))))))"

definition revokeUserSessions :: "server \<Rightarrow> string \<Rightarrow> string \<Rightarrow> actor \<Rightarrow> string app" where
  "revokeUserSessions V userID0 email requester =
     bindS (if userID0 = [] then
         bindS (guardS (email \<noteq> []) (invalidInput ''provide a user identifier or an email address'')) (\<lambda>_.
         inDb (UserIDByEmail (sv_env V 0) email))
       else retS userID0) (\<lambda>userID.
     bindS (requireUUID userID ErrUserNotFound) (\<lambda>_.
     bindS (inDb (RevokeUserSessions (sv_env V 1) userID (now_of V 1))) (\<lambda>_.
     bindS (tryS (revokeHydraSessions V 2 userID)) (\<lambda>revoked.
     case revoked of
       Inl _ \<Rightarrow> bindS (note_event V 3 requester AuditAccountSessionsEnded userID
           [(''addressed_by_email'', DFlag (email \<noteq> [])), (''oauth_revocation'', DText ''failed'')]) (\<lambda>_.
         failS (DependencyError ''the sessions ended, but OAuth session revocation did not complete''))
     | Inr _ \<Rightarrow> bindS (note_event V 3 requester AuditAccountSessionsEnded userID
           [(''addressed_by_email'', DFlag (email \<noteq> []))]) (\<lambda>_.
         retS userID)))))"

definition tokenActor :: "string option \<Rightarrow> actor" where
  "tokenActor address = \<lparr>actor_UserID = [], actor_SessionID = [], actor_Address = address, actor_Kind = ''token''\<rparr>"

subsection \<open>GitHub access rules\<close>

definition createGitHubMapping :: "server \<Rightarrow> string \<Rightarrow> string \<Rightarrow> Role \<Rightarrow> actor \<Rightarrow> GitHubRoleMapping app" where
  "createGitHubMapping V kind target role requester =
     bindS (checkedS (ValidateGitHubRoleMapping kind target role)) (\<lambda>_.
     bindS (if kind = ''user'' then (case AccountID (sv_env V 0) (github_account V) target of
           Inl e \<Rightarrow> failS (if e = ErrAccountNotFound \<or> e = ErrInvalidLogin then e
             else DependencyError ''GitHub could not confirm the account; try again'')
         | Inr i \<Rightarrow> retS i)
       else retS 0) (\<lambda>githubUserID.
     bindS (inDb (CreateGitHubRoleMapping (sv_env V 1) kind target githubUserID role)) (\<lambda>m.
     bindS (note_event V 2 requester AuditGitHubMappingCreated []
       ([(''mapping_id'', DText (map_ID m)), (''kind'', DText (map_Kind m)), (''target'', DText (map_Target m)),
         (''role'', DText (map_Role m))] @
        (if map_GitHubUserID m > 0 then [(''github_user_id'', DNumber (map_GitHubUserID m))] else []))) (\<lambda>_.
     retS m))))"

text \<open>\<open>for _, userID := range accounts\<close>: every account is tried; the failures are counted. Each account's
  operation has a server of its own.\<close>

fun end_all_sessions :: "(nat \<Rightarrow> server) \<Rightarrow> nat \<Rightarrow> string list \<Rightarrow> actor \<Rightarrow> nat app" where
  "end_all_sessions V i [] requester = retS 0"
| "end_all_sessions V i (u # us) requester =
     bindS (tryS (revokeUserSessions (V i) u [] requester)) (\<lambda>r.
     bindS (end_all_sessions V (Suc i) us requester) (\<lambda>n.
     retS (case r of Inl _ \<Rightarrow> Suc n | Inr _ \<Rightarrow> n)))"

definition deleteGitHubMapping :: "server \<Rightarrow> (nat \<Rightarrow> server) \<Rightarrow> string \<Rightarrow> actor \<Rightarrow> unit app" where
  "deleteGitHubMapping V W mappingID requester =
     bindS (requireUUID mappingID ErrGitHubRoleMappingNotFound) (\<lambda>_.
     bindS (inDb (DeleteGitHubRoleMapping (sv_env V 0) mappingID)) (\<lambda>m.
     bindS (note_event V 1 requester AuditGitHubMappingDeleted [] [(''mapping_id'', DText (map_ID m)),
       (''kind'', DText (map_Kind m)), (''target'', DText (map_Target m)), (''role'', DText (map_Role m))]) (\<lambda>_.
     bindS (tryS (inDb (GitHubAccountsPossiblyGrantedBy (sv_env V 2) m))) (\<lambda>listed.
     case listed of
       Inl _ \<Rightarrow> failS (DependencyError ''the rule was removed, but the sessions it granted could not be listed; end them from the sessions page'')
     | Inr accounts \<Rightarrow> bindS (end_all_sessions W 0 accounts requester) (\<lambda>failed.
         if failed > 0
         then failS (DependencyError (''the rule was removed, but '' @ decimal failed @ '' of '' @ decimal (length accounts) @
           '' affected accounts could not be signed out; end their sessions from the sessions page''))
         else retS ())))))"

subsection \<open>Results and frames\<close>

lemma inDb_Inr: "inDb m w = (Inr x, w') \<longleftrightarrow> (\<exists>s'. m (store w) = (Inr x, s') \<and> w' = w\<lparr>store := s'\<rparr>)"
  by (auto simp: inDb_def split: prod.splits)

lemma inDb_run: "inDb m w = (r, w') \<longleftrightarrow> (\<exists>s'. m (store w) = (r, s') \<and> w' = w\<lparr>store := s'\<rparr>)"
  by (auto simp: inDb_def split: prod.splits)

lemma tryS_Inr: "tryS m s = (Inr r, s') \<longleftrightarrow> m s = (r, s')"
  by (auto simp: tryS_def split: prod.splits)

lemma tryS_total: "\<exists>r s'. tryS m s = (Inr r, s')"
  by (auto simp: tryS_def split: prod.splits)

lemma sum_Inr: "(case z of Inl e \<Rightarrow> f e | Inr x \<Rightarrow> g x) s = (r, s') \<longleftrightarrow>
    (\<exists>e. z = Inl e \<and> f e s = (r, s')) \<or> (\<exists>x. z = Inr x \<and> g x s = (r, s'))"
  by (cases z) auto

lemma guarded:
  assumes "bindS (guardS b e) f w = (r, w')"
  obtains "r = Inl e" "w' = w" | "b" "f () w = (r, w')"
  using assms by (auto simp: bindS_def guardS_def retS_def failS_def split: if_splits)

lemma then_obeys:
  assumes "bindS m f w = (r, w')" and "\<And>x. obeys R (f x)"
    and "\<And>x w1. m w = (Inr x, w1) \<Longrightarrow> R w1 w' \<Longrightarrow> thesis" and "\<And>e. m w = (Inl e, w') \<Longrightarrow> r = Inl e \<Longrightarrow> thesis"
  shows thesis
proof (cases "m w")
  case (Pair z w1)
  then show thesis using assms by (cases z) (auto simp: bindS_def dest: obeysD)
qed

lemma call_hydra_Inr: "call_hydra V c A w = (Inr x, w') \<longleftrightarrow>
    (\<exists>st \<in> A. hydra_status V c = Some st) \<and> w' = w\<lparr>acknowledged := acknowledged w @ [c]\<rparr>"
  by (auto simp: call_hydra_def split: option.splits if_splits)

lemma revokeOther_Inr: "revokeOtherHydraSessions V ids ex w = (Inr x, w') \<Longrightarrow>
    w' = w\<lparr>acknowledged := acknowledged w @ map DeleteLogin (revocation_targets ids ex)\<rparr>"
  by (auto simp: revokeOtherHydraSessions_def Let_def pool_result_def split: if_splits prod.splits)

lemma targets_all [simp]: "revocation_targets ids [] = ids"
  by (simp add: revocation_targets_def)

lemmas app_Inr = io_Inr inDb_Inr tryS_Inr sum_Inr call_hydra_Inr

lemma same_audits [simp]: "\<exists>xs. s = s\<lparr>audits := xs\<rparr>"
  by (intro exI [of _ "audits s"]) simp

text \<open>What the provider calls and the audit log may change.\<close>

definition aside :: "world \<Rightarrow> world \<Rightarrow> bool" where
  "aside w w' \<longleftrightarrow> (\<exists>xs. store w' = store w\<lparr>audits := xs\<rparr>) \<and> set (acknowledged w) \<subseteq> set (acknowledged w')"

interpretation asd: contract aside
proof unfold_locales
  fix s t u :: world
  show "aside s s" by (simp add: aside_def)
  show "aside s t \<Longrightarrow> aside t u \<Longrightarrow> aside s u" by (auto simp: aside_def)
qed

lemma keeps_try: "obeys R m \<Longrightarrow> obeys R (tryS m)"
  by (simp add: obeys_def tryS_def split_beta)

lemma keeps_sum: "(\<And>e. obeys R (f e)) \<Longrightarrow> (\<And>x. obeys R (g x)) \<Longrightarrow> obeys R (case z of Inl e \<Rightarrow> f e | Inr x \<Rightarrow> g x)"
  by (cases z) auto

lemma note_event_aside: "obeys aside (note_event V i who l sub ds)"
  unfolding obeys_def
proof
  fix w :: world
  obtain xs where "record_event (sv_env V i) who l sub ds (store w) = (Inr (), store w\<lparr>audits := xs\<rparr>)"
    using record_event_frame by blast
  then show "aside w (snd (note_event V i who l sub ds w))"
    by (auto simp: note_event_def inDb_def aside_def)
qed

lemma call_hydra_aside: "obeys aside (call_hydra V c A)"
  by (auto simp: obeys_def call_hydra_def aside_def split: option.splits)

lemma revokeOther_aside: "obeys aside (revokeOtherHydraSessions V ids ex)"
  by (auto simp: obeys_def revokeOtherHydraSessions_def aside_def Let_def split: prod.splits)

lemma revokeSubject_aside: "obeys aside (revokeHydraSubjectSessions V subject)"
  unfolding revokeHydraSubjectSessions_def by (intro asd.keeps call_hydra_aside)

lemma inDb_read_aside: "(\<And>s. snd (m s) = s) \<Longrightarrow> obeys aside (inDb m)"
  by (simp add: obeys_def inDb_def split_beta aside_def)

lemma UserByID_state [simp]: "snd (UserByID E i s) = s"
  by (auto simp: UserByID_def bindS_def uuid_arg_def query_def stmt_def retS_def failS_def split: option.split)

lemmas aside_rules = asd.keeps keeps_try keeps_sum note_event_aside call_hydra_aside revokeOther_aside
  revokeSubject_aside inDb_read_aside [OF UserByID_state]

definition disabled_in :: "db \<Rightarrow> string \<Rightarrow> bool" where
  "disabled_in s u \<longleftrightarrow> (\<forall>y \<in> set (users s). u_id y = u \<longrightarrow> u_disabled y \<noteq> None)"

lemma aside_contained: "aside w w' \<Longrightarrow> contained (store w) u \<and> disabled_in (store w) u \<Longrightarrow>
    contained (store w') u \<and> disabled_in (store w') u"
  by (auto simp: aside_def contained_def disabled_in_def)

lemma DisableUser_contains:
  assumes "DisableUser E userID now s = (Inr hs, s')" "uuid_in E userID = Some u"
  shows "contained s' u \<and> disabled_in s' u"
proof -
  from assms have s': "s' = s\<lparr>sessions := revoke_rows (unrevoked_ids s u) now (sessions s),
           users := upd (\<lambda>y. u_id y = u)
             (\<lambda>y. y\<lparr>u_disabled := (case u_disabled y of None \<Rightarrow> Some now | d \<Rightarrow> d)\<rparr>) (users s)\<rparr>"
    by (auto elim: DisableUser_Inr)
  show ?thesis using revoke_unrevoked_contains [of s u now]
    by (auto simp: contained_def disabled_in_def s' ball_upd split: option.splits)
qed

lemma set_hydra_of_user: "set (hydra_of_browsers E (sessions_of_user s u) s) =
    h_id ` {h \<in> set (hydra_logins s). \<exists>r \<in> set (sessions s). s_id r = h_browser h \<and> s_user r = u}"
proof -
  have "set (filter (\<lambda>h. h_browser h \<in> set (sessions_of_user s u)) (hydra_logins s)) =
      {h \<in> set (hydra_logins s). \<exists>r \<in> set (sessions s). s_id r = h_browser h \<and> s_user r = u}"
    by (force simp: sessions_of_user_def)
  then show ?thesis by (simp only: hydra_of_browsers_def set_sort_by set_remdups set_map)
qed

lemma DisableUser_Inl: "DisableUser E userID now s = (Inl e, s') \<Longrightarrow> s' = s"
  unfolding DisableUser_def by (erule tx_Inl)


subsection \<open>Disabling an account\<close>

lemma disableUser_cases:
  assumes "disableUser V userID requester w = (r, w')"
  obtains (refused) e where "r = Inl e" "w' = w"
  | (disabled) hs s' where "uuidPathPattern userID" "\<not> isSelf requester userID"
      "DisableUser (sv_env V 0) userID (now_of V 0) (store w) = (Inr hs, s')" "aside (w\<lparr>store := s'\<rparr>) w'"
  using assms unfolding disableUser_def requireUUID_def
proof (elim guarded)
  fix e assume "r = Inl e" "w' = w"
  then show thesis by (rule refused)
next
  fix e assume "r = Inl e" "w' = w"
  then show thesis by (rule refused)
next
  assume g: "uuidPathPattern userID" "\<not> isSelf requester userID"
  assume "bindS (inDb (DisableUser (sv_env V 0) userID (now_of V 0))) (\<lambda>ids.
     bindS (tryS (bindS (revokeOtherHydraSessions V ids []) (\<lambda>_. revokeHydraSubjectSessions V userID))) (\<lambda>revoked.
     case revoked of
       Inl _ \<Rightarrow> bindS (note_event V 1 requester AuditAccountDisabled userID
           [(''revoked_provider_sessions'', DNumber 0), (''oauth_revocation'', DText ''failed'')]) (\<lambda>_.
         failS (DependencyError ''the account was disabled and its sessions ended, but OAuth session revocation did not complete''))
     | Inr _ \<Rightarrow> bindS (inDb (UserByID (sv_env V 1) userID)) (\<lambda>user.
         bindS (note_event V 2 requester AuditAccountDisabled userID
           [(''username'', DText (Username user)), (''revoked_provider_sessions'', DNumber (int (length ids)))]) (\<lambda>_.
         retS user)))) w = (r, w')"
  then show thesis
  proof (rule then_obeys [where R = aside])
    fix hs w1 assume "inDb (DisableUser (sv_env V 0) userID (now_of V 0)) w = (Inr hs, w1)" "aside w1 w'"
    then obtain s' where "DisableUser (sv_env V 0) userID (now_of V 0) (store w) = (Inr hs, s')"
      "aside (w\<lparr>store := s'\<rparr>) w'" by (auto simp: inDb_Inr)
    with g show thesis by (rule disabled)
  next
    fix e assume "inDb (DisableUser (sv_env V 0) userID (now_of V 0)) w = (Inl e, w')" "r = Inl e"
    then show thesis by (intro refused) (auto simp: inDb_run dest: DisableUser_Inl)
  qed (intro aside_rules)
qed

lemma disableUser_acknowledged:
  assumes run: "disableUser V userID requester w = (r, w')" and r: "r = Inr usr"
    and dis: "DisableUser (sv_env V 0) userID (now_of V 0) (store w) = (Inr hs, s')"
    and u: "\<And>i. uuid_in (sv_env V i) userID = Some u" and D: "contained s' u \<and> disabled_in s' u"
  shows "ID usr = u \<and> DisabledAt usr \<noteq> None \<and>
      {DeleteSubjectLogin userID, DeleteSubjectConsent userID} \<union> DeleteLogin ` set hs \<subseteq> set (acknowledged w')"
proof -
  from run [unfolded r] dis obtain w1 w2 x xs where
    w1: "revokeOtherHydraSessions V hs [] (w\<lparr>store := s'\<rparr>) = (Inr (), w1)" and
    w2: "revokeHydraSubjectSessions V userID w1 = (Inr (), w2)" and
    w3: "UserByID (sv_env V 1) userID (store w2) = (Inr usr, x)" and
    w4: "note_event V 2 requester AuditAccountDisabled userID xs (w2\<lparr>store := x\<rparr>) = (Inr (), w')"
    unfolding disableUser_def requireUUID_def by (auto simp: app_Inr)
  have ack: "acknowledged w2 = acknowledged w @ map DeleteLogin hs @ [DeleteSubjectLogin userID, DeleteSubjectConsent userID]"
    using w2 revokeOther_Inr [OF w1] by (auto simp: revokeHydraSubjectSessions_def app_Inr)
  have "aside (w2\<lparr>store := x\<rparr>) w'" using note_event_aside w4 by (rule obeysD)
  with ack have sub: "{DeleteSubjectLogin userID, DeleteSubjectConsent userID} \<union> DeleteLogin ` set hs \<subseteq> set (acknowledged w')"
    by (auto simp: aside_def)
  have "aside (w\<lparr>store := s'\<rparr>) w2"
    using asd.R_trans [OF obeysD [OF revokeOther_aside w1] obeysD [OF revokeSubject_aside w2]] .
  then have off: "disabled_in (store w2) u" using D aside_contained [of "w\<lparr>store := s'\<rparr>" w2] by simp
  from w3 u obtain y where "y \<in> set (users (store w2))" "u_id y = u" "usr = scan_user_source y"
    unfolding UserByID_def by (auto simp: io_Inr dest!: find_SomeD)
  with off sub show ?thesis by (auto simp: scan_user_source_def scan_user_def disabled_in_def)
qed

text \<open>C10. Disabling an account through the administration interface: a refused request (a malformed identifier, the
  administrator's own account, an unknown account, a failed transaction) changes nothing. Otherwise, whatever the
  provider answers, the account is disabled, every one of its browser sessions is revoked and none of its tokens
  authenticates; and success is reported only when Hydra acknowledged the end of every provider session correlated
  with the account and of the account's own login and consent sessions.\<close>

theorem disable_operation_contains:
  assumes ok: "schema_ok (store w)" and run: "disableUser V userID requester w = (r, w')"
    and u: "\<And>i. uuid_in (sv_env V i) userID = Some u"
  shows "(isSelf requester userID \<longrightarrow> (\<exists>e. r = Inl e) \<and> w' = w) \<and>
    (w' = w \<or> contained (store w') u \<and> disabled_in (store w') u \<and>
       (\<forall>E raw now touch usr row s'. currentUser E raw now touch (store w') = (Inr (usr, row), s') \<longrightarrow> ID usr \<noteq> u)) \<and>
    (\<forall>usr. r = Inr usr \<longrightarrow> contained (store w') u \<and> disabled_in (store w') u \<and> ID usr = u \<and> DisabledAt usr \<noteq> None \<and>
       {DeleteSubjectLogin userID, DeleteSubjectConsent userID} \<subseteq> set (acknowledged w') \<and>
       (\<forall>h \<in> set (hydra_logins (store w)). \<forall>row \<in> set (sessions (store w)).
          s_id row = h_browser h \<and> s_user row = u \<longrightarrow> DeleteLogin (h_id h) \<in> set (acknowledged w')))"
  using run
proof (cases rule: disableUser_cases)
  case (refused e)
  then show ?thesis by simp
next
  case (disabled hs s')
  have D: "contained s' u \<and> disabled_in s' u" using DisableUser_contains [OF disabled(3) u] .
  then have C: "contained (store w') u \<and> disabled_in (store w') u"
    using aside_contained [OF disabled(4)] by simp
  note acks = disableUser_acknowledged [OF run _ disabled(3) u D]
  have hs: "set hs = h_id ` {h \<in> set (hydra_logins (store w)). \<exists>r \<in> set (sessions (store w)). s_id r = h_browser h \<and> s_user r = u}"
  proof -
    from disabled(3) u have "hs = hydra_of_browsers (sv_env V 0) (sessions_of_user (store w) u) (store w)"
      by (auto elim: DisableUser_Inr)
    then show ?thesis by (simp only: set_hydra_of_user)
  qed
  have ended: "DeleteLogin (h_id h) \<in> set (acknowledged w')"
    if "r = Inr usr" "h \<in> set (hydra_logins (store w))" "row \<in> set (sessions (store w))" "s_id row = h_browser h \<and> s_user row = u"
    for usr h row
  proof -
    have "h_id h \<in> set hs" unfolding hs using that(2-4) by blast
    with acks [OF that(1)] show ?thesis by blast
  qed
  have refuses: "\<forall>E raw now touch usr row s'. currentUser E raw now touch (store w') = (Inr (usr, row), s') \<longrightarrow> ID usr \<noteq> u"
    using contained_refuses C by blast
  show ?thesis
  proof (intro conjI)
    show "isSelf requester userID \<longrightarrow> (\<exists>e. r = Inl e) \<and> w' = w" using disabled(2) by simp
    show "w' = w \<or> contained (store w') u \<and> disabled_in (store w') u \<and>
       (\<forall>E raw now touch usr row s'. currentUser E raw now touch (store w') = (Inr (usr, row), s') \<longrightarrow> ID usr \<noteq> u)"
      using C refuses by simp
    show "\<forall>usr. r = Inr usr \<longrightarrow> contained (store w') u \<and> disabled_in (store w') u \<and> ID usr = u \<and> DisabledAt usr \<noteq> None \<and>
       {DeleteSubjectLogin userID, DeleteSubjectConsent userID} \<subseteq> set (acknowledged w') \<and>
       (\<forall>h \<in> set (hydra_logins (store w)). \<forall>row \<in> set (sessions (store w)).
          s_id row = h_browser h \<and> s_user row = u \<longrightarrow> DeleteLogin (h_id h) \<in> set (acknowledged w'))"
      using C acks ended by simp
  qed
qed


subsection \<open>Examples\<close>

definition example_app_env :: env where
  "example_app_env = example_env\<lparr>uuid_in := (\<lambda>_. Some ''u1'')\<rparr>"

definition example_server :: server where
  "example_server = \<lparr>sv_env = (\<lambda>_. example_app_env), hydra_status = (\<lambda>_. Some 204), reached_sessions = (\<lambda>_. {}),
     redirect_of = (\<lambda>_. ''https://wiki.example.org/''), logout_request_of = (\<lambda>_. None), mail_sent = (\<lambda>_. True),
     github_account = (\<lambda>_. NoReply), SessionResetToken = ''reset'', TokenHookToken = ''hook''\<rparr>"

definition example_world :: world where
  "example_world = \<lparr>store = example_db, acknowledged = [], mailed = []\<rparr>"

definition alice_id :: string where
  "alice_id = ''00000000-0000-4000-8000-000000000001''"

lemma alice_pattern: "uuidPathPattern alice_id" by code_simp

lemma example_server_simps [simp]: "sv_env example_server i = example_app_env" "hydra_status example_server c = Some 204"
  "store example_world = example_db" "uuid_in example_app_env x = Some ''u1''" "acknowledged example_world = []"
  "fault example_app_env l = False" "now_of example_server i = 0" "TokenHookToken example_server = ''hook''"
  "ends_session example_server h"
  by (simp_all add: example_server_def example_world_def example_app_env_def now_of_def ends_session_def example_env_def)

lemma bindS_to: "m s = (Inr x, s1) \<Longrightarrow> f x s1 = t \<Longrightarrow> bindS m f s = t"
  by (simp add: bindS_def)

lemma example_app_disable:
  "DisableUser example_app_env alice_id 0 example_db = (Inr [''h1''],
     example_db\<lparr>sessions := [(example_session ''s1'' ''u1'')\<lparr>s_revoked := Some 0\<rparr>],
       users := [(example_user ''u1'' ''alice'')\<lparr>u_disabled := Some 0\<rparr>, example_user ''u2'' ''bob'']\<rparr>)"
  by (simp add: DisableUser_def io_defs revokeSessionSnapshot_def example_db_def example_session_def
      example_user_def unrevoked_ids_def sessions_of_user_def hydra_of_browsers_def sort_by_def revoke_rows_def image_iff
      put_defs sessions_unique_def users_unique_def users_check_def known_role_def RoleDeveloper_def entra_key_def)

lemma guard_passes: "b \<Longrightarrow> guardS b e s = (Inr (), s)"
  by (simp add: guardS_def retS_def)

lemma note_event_total: "\<exists>w'. note_event V i who l sub ds w = (Inr (), w')"
  using record_event_frame [of "sv_env V i" who l sub ds "store w"] by (auto simp: note_event_def inDb_def)

theorem disable_operation_contains_witness:
  "\<exists>usr w'. disableUser example_server alice_id service_actor example_world = (Inr usr, w') \<and>
     contained (store w') ''u1'' \<and> DeleteLogin ''h1'' \<in> set (acknowledged w')"
proof -
  have "\<exists>usr w'. disableUser example_server alice_id service_actor example_world = (Inr usr, w')"
  proof -
    let ?w = "example_world\<lparr>store := example_db\<lparr>sessions := [(example_session ''s1'' ''u1'')\<lparr>s_revoked := Some 0\<rparr>],
       users := [(example_user ''u1'' ''alice'')\<lparr>u_disabled := Some 0\<rparr>, example_user ''u2'' ''bob'']\<rparr>\<rparr>"
    have self: "\<not> isSelf service_actor alice_id" by (simp add: isSelf_def service_actor_def)
    have "\<exists>w1. bindS (revokeOtherHydraSessions example_server [''h1''] []) (\<lambda>_. revokeHydraSubjectSessions example_server alice_id) ?w
        = (Inr (), w1) \<and> store w1 = store ?w"
      by (simp add: bindS_def revokeOtherHydraSessions_def revokeHydraSubjectSessions_def call_hydra_def pool_result_def)
    then obtain w1 where w1: "bindS (revokeOtherHydraSessions example_server [''h1''] [])
        (\<lambda>_. revokeHydraSubjectSessions example_server alice_id) ?w = (Inr (), w1)" "store w1 = store ?w" by blast
    have us: "find (\<lambda>x. u_id x = ''u1'') (users (store w1)) = Some ((example_user ''u1'' ''alice'')\<lparr>u_disabled := Some 0\<rparr>)"
      by (simp add: w1(2) example_user_def)
    have "\<exists>usr. UserByID example_app_env alice_id (store w1) = (Inr usr, store w1)"
      by (simp add: UserByID_def bindS_def uuid_arg_def query_def stmt_def retS_def us)
    then obtain usr where usr: "UserByID example_app_env alice_id (store w1) = (Inr usr, store w1)" by blast
    obtain w2 where w2: "note_event example_server 2 service_actor AuditAccountDisabled alice_id
        [(''username'', DText (Username usr)), (''revoked_provider_sessions'', DNumber 1)] w1 = (Inr (), w2)"
      using note_event_total by blast
    have d: "inDb (DisableUser (sv_env example_server 0) alice_id (now_of example_server 0)) example_world = (Inr [''h1''], ?w)"
      by (simp add: inDb_def example_app_disable)
    have t: "tryS (bindS (revokeOtherHydraSessions example_server [''h1''] [])
        (\<lambda>_. revokeHydraSubjectSessions example_server alice_id)) ?w = (Inr (Inr ()), w1)"
      by (simp only: tryS_def w1(1) prod.case)
    have y: "inDb (UserByID (sv_env example_server 1) alice_id) w1 = (Inr usr, w1)"
      by (simp add: inDb_def usr)
    have "disableUser example_server alice_id service_actor example_world = (Inr usr, w2)"
      unfolding disableUser_def requireUUID_def
      by (rule bindS_to, rule guard_passes, rule alice_pattern, rule bindS_to, rule guard_passes, rule self, rule bindS_to,
          rule d, rule bindS_to, rule t, simp only: sum.case, rule bindS_to, rule y, rule bindS_to, simp add: w2, simp add: retS_def)
    then show ?thesis by blast
  qed
  then obtain usr w' where run: "disableUser example_server alice_id service_actor example_world = (Inr usr, w')" by blast
  have ok: "schema_ok (store example_world)" using example_db_ok by simp
  have "\<lparr>h_id = ''h1'', h_browser = ''s1'', h_created = 0\<rparr> \<in> set (hydra_logins example_db)"
    "example_session ''s1'' ''u1'' \<in> set (sessions example_db)" by (simp_all add: example_db_def)
  with disable_operation_contains [OF ok run, of "''u1''"] run show ?thesis
    by (fastforce simp: example_session_def)
qed

end
