(* ===== verification/Sign_In.thy ===== *)
theory Sign_In
  imports Operations
begin

text \<open>
  Signing in to the service and to the applications: \<open>passwordLogin\<close>, \<open>startSession\<close> and \<open>current\<close> of
  \<open>internal/app/app.go\<close>, and the token hook of \<open>internal/app/token_hook.go\<close>, which Hydra asks before it
  issues any token.
\<close>

subsection \<open>Signing in\<close>

text \<open>\<open>current\<close>: the account and session of the browser's cookie.\<close>

definition current :: "server \<Rightarrow> nat \<Rightarrow> string option \<Rightarrow> (User \<times> session_row) app" where
  "current V i cookie = (case cookie of None \<Rightarrow> failS (Failed ''no browser session cookie'')
     | Some raw \<Rightarrow> inDb (CurrentUser (sv_env V i) raw (now_of V i)))"

definition visitorActor :: "string option \<Rightarrow> actor" where
  "visitorActor address = \<lparr>actor_UserID = [], actor_SessionID = [], actor_Address = address, actor_Kind = ''visitor''\<rparr>"

definition browserActor :: "string option \<Rightarrow> User \<Rightarrow> session_row \<Rightarrow> actor" where
  "browserActor address user session = \<lparr>actor_UserID = ID user, actor_SessionID = s_id session,
     actor_Address = address, actor_Kind = []\<rparr>"

definition recordSignIn ::
  "server \<Rightarrow> nat \<Rightarrow> string option \<Rightarrow> string \<Rightarrow> string \<Rightarrow> string \<Rightarrow> string \<Rightarrow> string \<Rightarrow> unit app" where
  "recordSignIn V i address eventType method username subject why =
     note_event V i (visitorActor address) eventType subject
       ([(''method'', DText method), (''username'', DText username)] @
        (if why = [] then [] else [(''reason'', DText why)]))"

definition shift :: "nat \<Rightarrow> server \<Rightarrow> server" where
  "shift k V = V\<lparr>sv_env := (\<lambda>i. sv_env V (k + i))\<rparr>"

text \<open>\<open>startSession\<close>: the new session's token and row, or nothing when it could not be started.\<close>

definition startSession ::
  "server \<Rightarrow> string option \<Rightarrow> User \<Rightarrow> string \<Rightarrow> string option \<Rightarrow> (string \<times> session_row) option app" where
  "startSession V cookie user agent address =
     bindS (tryS (current V 0 cookie)) (\<lambda>previous.
     bindS (case previous of Inl _ \<Rightarrow> retS ()
       | Inr (previousUser, previousSession) \<Rightarrow>
         if ID previousUser \<noteq> ID user
         then bindS (tryS (revokeSession (shift 2 V) (s_id previousSession)
             (browserActor address previousUser previousSession))) (\<lambda>_. retS ())
         else bindS (tryS (inDb (RevokeSession (sv_env V 1) (s_id previousSession) (now_of V 1)))) (\<lambda>_. retS ())) (\<lambda>_.
     bindS (tryS (inDb (CreateSession (sv_env V 6) (ID user) agent address (now_of V 6)))) (\<lambda>created.
     case created of Inl _ \<Rightarrow> retS None | Inr session \<Rightarrow> retS (Some session))))"

text \<open>What the person sees; \<open>Aborted\<close> is a handler that panicked.\<close>

datatype login_answer = Unavailable503 | TooManyAttempts | InvalidCredentials | Aborted | SessionNotStarted
  | SignedIn string

definition passwordLogin ::
  "server \<Rightarrow> string option \<Rightarrow> string \<Rightarrow> string \<Rightarrow> string \<Rightarrow> string option \<Rightarrow> login_answer app" where
  "passwordLogin V cookie form_username password agent address = (\<lambda>w.
     let username = TrimSpace form_username in
     case PasswordSignInThrottled (sv_env V 0) username address (now_of V 0) (store w) of
       (_, Some e) \<Rightarrow> (Inr Unavailable503, w)
     | (True, None) \<Rightarrow> bindS (recordSignIn V 1 address AuditSignInBlocked ''password'' username [] ''too many recent failures'') (\<lambda>_.
         retS TooManyAttempts) w
     | (False, None) \<Rightarrow>
         let attempt = AuthenticatePassword (sv_env V 1) username password (store w) in
         (case outcome attempt of
            Inl e \<Rightarrow> if e \<noteq> refused then (Inr Aborted, w)
              else bindS (recordSignIn V 2 address
                (if reason attempt = SignInReasonDisabled then AuditSignInBlocked else AuditSignInFailed)
                ''password'' username [] (reason attempt)) (\<lambda>_. retS InvalidCredentials) w
          | Inr user \<Rightarrow> bindS (startSession (shift 3 V) cookie user agent address) (\<lambda>started.
              case started of None \<Rightarrow> retS SessionNotStarted
              | Some (raw, _) \<Rightarrow> bindS (recordSignIn V 2 address AuditSignInSucceeded ''password'' (Username user) (ID user) []) (\<lambda>_.
                  retS (SignedIn raw))) w))"

subsection \<open>The token hook\<close>

definition oidcIdentityClaims :: "User \<Rightarrow> details" where
  "oidcIdentityClaims user = [(''sub'', DText (ID user)), (''email'', DText (Email user)),
     (''email_verified'', DFlag (EmailVerified user)), (''preferred_username'', DText (Username user)),
     (''role'', DText (UserRole user))]"

text \<open>\<open>maps.Copy\<close>.\<close>

definition copy_claims :: "details \<Rightarrow> details \<Rightarrow> details" where
  "copy_claims dst src = fold (\<lambda>(k, v). set_detail k v) src dst"

definition tokenHookGrant :: "string list \<Rightarrow> string" where
  "tokenHookGrant kinds =
     (if kinds = [] then []
      else if list_all (\<lambda>g. g = ''authorization_code'' \<or> g = ''refresh_token'') kinds then ''account''
      else if kinds = [''client_credentials''] then ''client_credentials'' else [])"

record hydraTokenHookRequest =
  hook_GrantTypes :: "string list"
  hook_ClaimSubject :: string
  hook_Subject :: string
  hook_IDExtra :: details
  hook_Extra :: details

datatype hook_answer = Unauthorized401 | BadRequest400 | NoContent204 | Forbidden403 string | Failure500 string
  | Claims200 details details

text \<open>\<open>Claims.Extra["sid"].(string)\<close>, empty when it is absent or not a string.\<close>

definition sid_claim :: "details \<Rightarrow> string" where
  "sid_claim ds = (case map_of ds ''sid'' of Some (DText t) \<Rightarrow> t | _ \<Rightarrow> [])"

definition bearerTokenMatches :: "string list \<Rightarrow> string \<Rightarrow> bool" where
  "bearerTokenMatches values expected =
     (case values of [v] \<Rightarrow> length v \<ge> 7 \<and> map ascii_lower (take 7 v) = ''bearer '' \<and> drop 7 v = expected | _ \<Rightarrow> False)"

text \<open>The handler, with the \<open>Authorization\<close> headers and the decoded body (\<open>None\<close> when it is not valid JSON).\<close>

definition hydraTokenHook :: "server \<Rightarrow> string list \<Rightarrow> hydraTokenHookRequest option \<Rightarrow> db \<Rightarrow> hook_answer" where
  "hydraTokenHook V authorization body s =
     (if \<not> bearerTokenMatches authorization (TokenHookToken V) then Unauthorized401
      else case body of None \<Rightarrow> BadRequest400 | Some request \<Rightarrow>
      if tokenHookGrant (hook_GrantTypes request) = ''client_credentials'' then NoContent204
      else if tokenHookGrant (hook_GrantTypes request) \<noteq> ''account''
      then Forbidden403 ''Shauth issues account tokens only through the authorization code grant''
      else
        let subject = (if hook_ClaimSubject request = [] then hook_Subject request else hook_ClaimSubject request);
            sid = sid_claim (hook_IDExtra request) in
        if \<not> uuidPathPattern subject then Forbidden403 ''the token's subject is not a Shauth account''
        else if sid = [] then Forbidden403 ''the token is not bound to a sign-in session''
        else case fst (ProviderSessionAccount (sv_env V 0) sid s) of
          Inl e \<Rightarrow> if e = ErrSessionNotFound then Forbidden403 ''the sign-in session behind this token has ended''
            else Failure500 ''the sign-in session could not be read''
        | Inr (account, inForce) \<Rightarrow>
          if \<not> inForce \<or> account \<noteq> subject then Forbidden403 ''the sign-in session behind this token has ended''
          else (case fst (UserByID (sv_env V 1) subject s) of
              Inl e \<Rightarrow> if e = ErrUserNotFound then Forbidden403 ''the account is disabled or no longer exists''
                else Failure500 ''the account could not be read''
            | Inr user \<Rightarrow> if DisabledAt user \<noteq> None then Forbidden403 ''the account is disabled or no longer exists''
                else Claims200 (copy_claims (hook_Extra request) (oidcIdentityClaims user))
                  (copy_claims (hook_IDExtra request) (oidcIdentityClaims user))))"

subsection \<open>Tokens follow the account\<close>

lemma map_of_set_detail: "map_of (set_detail k v ds) k' = (if k' = k then Some v else map_of ds k')"
proof -
  have "map_of (filter (\<lambda>(k', _). k' \<noteq> k) ds) k' = (if k' = k then None else map_of ds k')"
    by (induction ds) auto
  then show ?thesis by (auto simp: set_detail_def map_add_def split: option.splits)
qed

lemma hydraTokenHook_Claims:
  assumes "hydraTokenHook V auth body s = Claims200 access idt"
  obtains request subject user where "body = Some request" "bearerTokenMatches auth (TokenHookToken V)"
    and "tokenHookGrant (hook_GrantTypes request) = ''account''"
    and "fst (ProviderSessionAccount (sv_env V 0) (sid_claim (hook_IDExtra request)) s) = Inr (subject, True)"
    and "fst (UserByID (sv_env V 1) subject s) = Inr user" "DisabledAt user = None"
    and "access = copy_claims (hook_Extra request) (oidcIdentityClaims user)"
    and "idt = copy_claims (hook_IDExtra request) (oidcIdentityClaims user)"
  using assms unfolding hydraTokenHook_def Let_def
  by (auto split: if_splits option.splits sum.splits prod.splits)

lemma ProviderSessionAccount_Inr: "fst (ProviderSessionAccount E h s) = Inr (u, b) \<longleftrightarrow>
    \<not> fault E ''read provider session correlation'' \<and> (\<exists>row. correlated s h = Some row \<and> u = s_user row \<and> b = (s_revoked row = None))"
  by (auto simp: ProviderSessionAccount_def io_defs split: option.splits)

lemma UserByID_Inr: "fst (UserByID E i s) = Inr usr \<longleftrightarrow> \<not> fault E ''read user'' \<and>
    (\<exists>u x. uuid_in E i = Some u \<and> find (\<lambda>x. u_id x = u) (users s) = Some x \<and> usr = scan_user_source x)"
  by (auto simp: UserByID_def io_defs split: option.splits)

text \<open>C11. Before a token is issued or refreshed the account is read again. Claims are answered only to a caller with
  the hook's credential, for a provider session whose browser session is not revoked and whose account is enabled;
  they carry the account's current role, address and name, and keep the provider's own session identifier. After an
  account was disabled no token is issued for any of its sessions.\<close>

theorem token_hook_current:
  assumes hook: "hydraTokenHook V auth body s = Claims200 access idt"
  shows "\<exists>request row user. body = Some request \<and> bearerTokenMatches auth (TokenHookToken V) \<and>
    correlated s (sid_claim (hook_IDExtra request)) = Some row \<and> s_revoked row = None \<and>
    user \<in> set (users s) \<and> uuid_in (sv_env V 1) (s_user row) = Some (u_id user) \<and> u_disabled user = None \<and>
    (\<forall>claims \<in> {access, idt}. map_of claims ''sub'' = Some (DText (u_id user)) \<and>
       map_of claims ''role'' = Some (DText (u_role user)) \<and> map_of claims ''email'' = Some (DText (u_email user)) \<and>
       map_of claims ''email_verified'' = Some (DFlag (u_email_verified user)) \<and>
       map_of claims ''preferred_username'' = Some (DText (u_username user))) \<and>
    map_of idt ''sid'' = map_of (hook_IDExtra request) ''sid'' \<and>
    (\<forall>E userID now hs s0. DisableUser E userID now s0 = (Inr hs, s) \<longrightarrow> uuid_in E userID \<noteq> Some (s_user row))"
  using hook
proof (rule hydraTokenHook_Claims)
  fix request subject user
  assume body: "body = Some request" and bearer: "bearerTokenMatches auth (TokenHookToken V)"
    and sess: "fst (ProviderSessionAccount (sv_env V 0) (sid_claim (hook_IDExtra request)) s) = Inr (subject, True)"
    and acc: "fst (UserByID (sv_env V 1) subject s) = Inr user" "DisabledAt user = None"
    and claims: "access = copy_claims (hook_Extra request) (oidcIdentityClaims user)"
      "idt = copy_claims (hook_IDExtra request) (oidcIdentityClaims user)"
  from sess obtain row where row: "correlated s (sid_claim (hook_IDExtra request)) = Some row" "s_revoked row = None"
    "subject = s_user row" by (auto simp: ProviderSessionAccount_Inr)
  from acc obtain x where x: "x \<in> set (users s)" "uuid_in (sv_env V 1) subject = Some (u_id x)" "user = scan_user_source x"
    by (auto simp: UserByID_Inr dest!: find_SomeD)
  have mem: "row \<in> set (sessions s)"
    using row(1) by (auto simp: correlated_def dest!: session_of_SomeD split: option.splits)
  have gone: "uuid_in E userID \<noteq> Some (s_user row)" if "DisableUser E userID now s0 = (Inr hs, s)" for E userID now hs s0
  proof
    assume "uuid_in E userID = Some (s_user row)"
    then have "contained s (s_user row)" using DisableUser_contains [OF that] by blast
    with mem row(2) show False unfolding contained_def by blast
  qed
  have u: "ID user = u_id x" "UserRole user = u_role x" "Email user = u_email x" "EmailVerified user = u_email_verified x"
    "Username user = u_username x" "DisabledAt user = u_disabled x"
    by (simp_all add: x(3) scan_user_source_def scan_user_def)
  show ?thesis
    using body bearer row x(1,2) acc(2) gone
    by (intro exI [of _ request] exI [of _ row] exI [of _ x])
      (simp add: claims copy_claims_def oidcIdentityClaims_def map_of_set_detail u)
qed


definition example_hook_db :: db where
  "example_hook_db = example_db\<lparr>users := [example_user alice_id ''alice''], sessions := [example_session ''s1'' alice_id]\<rparr>"

definition example_hook_server :: server where
  "example_hook_server = example_server\<lparr>sv_env := (\<lambda>_. example_env)\<rparr>"

definition example_hook_request :: hydraTokenHookRequest where
  "example_hook_request = \<lparr>hook_GrantTypes = [''refresh_token''], hook_ClaimSubject = alice_id, hook_Subject = [],
     hook_IDExtra = [(''sid'', DText ''h1''), (''role'', DText ''admin'')], hook_Extra = []\<rparr>"

theorem token_hook_current_witness:
  "\<exists>access idt. hydraTokenHook example_hook_server [''Bearer hook''] (Some example_hook_request) example_hook_db = Claims200 access idt \<and>
     map_of idt ''role'' = Some (DText ''developer'') \<and> map_of idt ''sid'' = Some (DText ''h1'')"
proof -
  let ?D = example_hook_db
  let ?q = example_hook_request
  let ?u = "example_user alice_id ''alice''"
  have c: "correlated ?D ''h1'' = Some (example_session ''s1'' alice_id)"
    by (simp add: correlated_def session_of_def example_hook_db_def example_db_def example_session_def)
  have sid: "sid_claim (hook_IDExtra ?q) = ''h1''" by (simp add: sid_claim_def example_hook_request_def)
  have bearer: "bearerTokenMatches [''Bearer hook''] ''hook''" by code_simp
  have p: "fst (ProviderSessionAccount example_env ''h1'' ?D) = Inr (alice_id, True)"
    unfolding ProviderSessionAccount_Inr using c by (simp add: example_session_def)
  have f: "find (\<lambda>x. u_id x = alice_id) (users ?D) = Some ?u" by (simp add: example_hook_db_def example_user_def)
  have a: "fst (UserByID example_env alice_id ?D) = Inr (scan_user_source ?u)"
    unfolding UserByID_Inr using f by simp
  have env: "sv_env example_hook_server i = example_env" "TokenHookToken example_hook_server = ''hook''" for i
    by (simp_all add: example_hook_server_def example_server_def)
  have g: "tokenHookGrant (hook_GrantTypes ?q) = ''account''" "hook_ClaimSubject ?q = alice_id" "alice_id \<noteq> []"
    by (simp_all add: tokenHookGrant_def example_hook_request_def alice_id_def)
  have d: "DisabledAt (scan_user_source ?u) = None" by (simp add: scan_user_source_def scan_user_def example_user_def)
  have run: "\<exists>access idt. hydraTokenHook example_hook_server [''Bearer hook''] (Some ?q) ?D = Claims200 access idt"
    by (simp add: hydraTokenHook_def env bearer g alice_pattern sid p a d)
  then obtain access idt where run: "hydraTokenHook example_hook_server [''Bearer hook''] (Some ?q) ?D = Claims200 access idt" by blast
  from token_hook_current [OF run] have "map_of idt ''role'' = Some (DText ''developer'')" "map_of idt ''sid'' = Some (DText ''h1'')"
    by (auto simp: example_hook_db_def example_user_def example_hook_request_def)
  with run show ?thesis by blast
qed

subsection \<open>Guessing passwords\<close>

text \<open>The failures the throttle counts for a name.\<close>

definition counted :: "string \<Rightarrow> time \<Rightarrow> db \<Rightarrow> nat" where
  "counted name since s = length (filter (\<lambda>a. password_failure since a \<and>
     detail_text (a_details a) ''username'' = Some name) (audits s))"

lemma length_filter_mono:
  assumes "\<And>x. x \<in> set xs \<Longrightarrow> P x \<Longrightarrow> Q x"
  shows "length (filter P xs) \<le> length (filter Q xs)"
  using assms by (induction xs) (auto simp: le_SucI)

lemma counted_mono: "since' \<le> since \<Longrightarrow> counted name since s \<le> counted name since' s"
  unfolding counted_def by (rule length_filter_mono) (auto simp: password_failure_def)

lemma counted_append: "audits s' = audits s @ xs \<Longrightarrow> counted name since s \<le> counted name since s'"
  by (simp add: counted_def)

text \<open>
  A campaign of guesses against one name: \<open>k\<close> attempts that were answered \<open>Invalid username or password\<close>
  after the password was compared (the account is not disabled) and were recorded, between anything else that only appends to the audit log. All attempts
  start within one throttle window after \<open>since\<close>.
\<close>

inductive guesses :: "string \<Rightarrow> time \<Rightarrow> nat \<Rightarrow> world \<Rightarrow> bool" for name since where
  start: "guesses name since 0 w"
| other: "guesses name since k w \<Longrightarrow> audits (store w') = audits (store w) @ xs \<Longrightarrow> guesses name since k w'"
| guess: "guesses name since k w \<Longrightarrow> passwordLogin V cookie name password agent address w = (Inr InvalidCredentials, w') \<Longrightarrow>
    reason (AuthenticatePassword (sv_env V 1) name password (store w)) \<noteq> SignInReasonDisabled \<Longrightarrow>
    audits (store w') \<noteq> audits (store w) \<Longrightarrow>
    since < now_of V 2 \<Longrightarrow> now_of V 0 \<le> since + PasswordFailureWindow \<Longrightarrow> guesses name since (Suc k) w'"

lemma record_event_appends:
  assumes "record_event E who l sub ds s = (r, s')" "audits s' \<noteq> audits s"
  obtains a where "audits s' = audits s @ [a]" "a_event a = l" "a_details a = labelled who ds" "a_created a = go_now E"
    "a_address a = actor_Address who"
proof -
  let ?e = "\<lparr>EventType = l, ActorUserID = actor_UserID who, SubjectUserID = sub, SessionID = actor_SessionID who,
       RemoteAddress = actor_Address who, Details = labelled who ds\<rparr>"
  obtain z t where z: "RecordAuditEvent E ?e (go_now E) s = (z, t)" by fastforce
  with assms have t: "s' = t" "audits t \<noteq> audits s" by (auto simp: record_event_def)
  show thesis
  proof (cases z)
    case (Inl e)
    with z have "t = s"
      by (auto simp: RecordAuditEvent_def bindS_def guardS_def retS_def failS_def split: if_splits dest: tx_Inl)
    with t show thesis by simp
  next
    case (Inr x)
    from z [unfolded Inr] obtain p s1 q s2 v s3 a where
      r: "requester_arg E ''record audit event'' (nullableUUID (actor_UserID who)) s = (Inr p, s1)"
        "requester_arg E ''record audit event'' (nullableUUID sub) s1 = (Inr q, s2)"
        "requester_arg E ''record audit event'' (nullableUUID (actor_SessionID who)) s2 = (Inr v, s3)"
      and a: "put_audits (audits s3 @ [a]) () s3 = Inr (x, t)" "a_event a = l"
      "a_details a = labelled who ds" "a_created a = go_now E" "a_address a = actor_Address who"
      by (auto simp: RecordAuditEvent_def io_Inr)
    have "s3 = s" using r [THEN requester_bind] by simp
    with a have "audits t = audits s @ [a]" by (auto simp: put_audits_def split: if_splits)
    with a(2-5) t(1) show thesis by (intro that) auto
  qed
qed

lemma recordSignIn_total: "\<exists>w'. recordSignIn V i address l method n sub why w = (Inr (), w')"
  unfolding recordSignIn_def by (rule note_event_total)

lemma recordSignIn_appends:
  assumes "recordSignIn V i address l method n sub why w = (Inr (), w')" "audits (store w') \<noteq> audits (store w)"
  obtains a where "audits (store w') = audits (store w) @ [a]" "a_event a = l" "a_created a = now_of V i"
    "map_of (a_details a) ''method'' = Some (DText method)" "map_of (a_details a) ''username'' = Some (DText n)"
proof -
  from assms(1) obtain ds s' where r: "record_event (sv_env V i) (visitorActor address) l sub ds (store w) = (Inr (), s')" "store w' = s'"
    and ds: "map_of ds ''method'' = Some (DText method)" "map_of ds ''username'' = Some (DText n)"
    by (auto simp: recordSignIn_def note_event_def inDb_Inr)
  from r(1) assms(2) [unfolded r(2)] obtain a where a: "audits s' = audits (store w) @ [a]" "a_event a = l"
    "a_details a = labelled (visitorActor address) ds" "a_created a = go_now (sv_env V i)"
    by (rule record_event_appends)
  show thesis
    using a ds r(2) by (intro that [of a]) (simp_all add: now_of_def labelled_def visitorActor_def map_of_set_detail)
qed

lemma passwordLogin_refused:
  assumes run: "passwordLogin V cookie name password agent address w = (Inr InvalidCredentials, w')" and name: "TrimSpace name = name"
    and enabled: "reason (AuthenticatePassword (sv_env V 1) name password (store w)) \<noteq> SignInReasonDisabled"
  shows "PasswordSignInThrottled (sv_env V 0) name address (now_of V 0) (store w) = (False, None)"
    and "recordSignIn V 2 address AuditSignInFailed ''password'' name []
      (reason (AuthenticatePassword (sv_env V 1) name password (store w))) w = (Inr (), w')"
proof -
  obtain b e where th: "PasswordSignInThrottled (sv_env V 0) name address (now_of V 0) (store w) = (b, e)" by fastforce
  let ?a = "AuthenticatePassword (sv_env V 1) name password (store w)"
  obtain w1 where w1: "recordSignIn V 1 address AuditSignInBlocked ''password'' name [] ''too many recent failures'' w = (Inr (), w1)"
    using recordSignIn_total by blast
  have be: "\<not> b \<and> e = None"
    using run by (cases e; cases b) (simp_all add: passwordLogin_def Let_def name th bindS_def w1 retS_def del: One_nat_def)
  have no: "\<not> bindS (startSession V' cookie user agent address) (\<lambda>started.
              case started of None \<Rightarrow> retS SessionNotStarted
              | Some (raw, _) \<Rightarrow> bindS (recordSignIn V 2 address AuditSignInSucceeded ''password'' (Username user) (ID user) []) (\<lambda>_.
                  retS (SignedIn raw))) w = (Inr InvalidCredentials, w')" for V' user
    by (auto simp: io_Inr split: option.splits)
  obtain w2 where w2: "recordSignIn V 2 address AuditSignInFailed ''password'' name [] (reason ?a) w = (Inr (), w2)"
    using recordSignIn_total by blast
  have "outcome ?a = Inl refused \<and> w' = w2"
  proof (cases "outcome ?a")
    case (Inl e')
    then show ?thesis using run be enabled
      by (simp add: passwordLogin_def Let_def name th bindS_def w2 retS_def del: One_nat_def split: if_splits)
  next
    case (Inr user)
    with run be no [of "shift 3 V" user] show ?thesis by (simp add: passwordLogin_def Let_def name th del: One_nat_def)
  qed
  with be th w2 show "PasswordSignInThrottled (sv_env V 0) name address (now_of V 0) (store w) = (False, None)"
    and "recordSignIn V 2 address AuditSignInFailed ''password'' name [] (reason ?a) w = (Inr (), w')" by simp_all
qed

lemma passwordLogin_counts:
  assumes run: "passwordLogin V cookie name password agent address w = (Inr InvalidCredentials, w')"
    and enabled: "reason (AuthenticatePassword (sv_env V 1) name password (store w)) \<noteq> SignInReasonDisabled"
    and recorded: "audits (store w') \<noteq> audits (store w)" and name: "TrimSpace name = name"
    and t: "since < now_of V 2"
  shows "counted name (now_of V 0 - PasswordFailureWindow) (store w) < PasswordFailuresPerUsername \<and>
    counted name since (store w') = Suc (counted name since (store w))"
proof -
  have th: "PasswordSignInThrottled (sv_env V 0) name address (now_of V 0) (store w) = (False, None)"
    and ev: "recordSignIn V 2 address AuditSignInFailed ''password'' name []
      (reason (AuthenticatePassword (sv_env V 1) name password (store w))) w = (Inr (), w')"
    using passwordLogin_refused [OF run name enabled] by simp_all
  obtain a where a: "audits (store w') = audits (store w) @ [a]" "a_event a = AuditSignInFailed" "a_created a = now_of V 2"
    "map_of (a_details a) ''method'' = Some (DText ''password'')" "map_of (a_details a) ''username'' = Some (DText name)"
    using ev recorded by (rule recordSignIn_appends)
  then have "password_failure since a" "detail_text (a_details a) ''username'' = Some name"
    using t by (simp_all add: password_failure_def detail_text_def AuditSignInFailed_def)
  then have "counted name since (store w') = Suc (counted name since (store w))" by (simp add: counted_def a(1))
  moreover have "counted name (now_of V 0 - PasswordFailureWindow) (store w) < PasswordFailuresPerUsername"
    using th by (auto simp: PasswordSignInThrottled_def Let_def counted_def name split: if_splits)
  ultimately show ?thesis by simp
qed



lemma example_attempt: "AuthenticatePassword example_app_env ''alice'' ''wrong'' example_db =
    \<lparr>outcome = Inl refused, reason = SignInReasonWrongSecret, compared = [CHR ''$'' # ''correct horse battery'']\<rparr>"
proof -
  have t: "TrimSpace ''alice'' = ''alice''" by code_simp
  have f: "find (\<lambda>u. u_username u = ''alice'' \<and> \<not> u_is_validation u) (users example_db) = Some (example_user ''u1'' ''alice'')"
    by (simp add: example_db_def example_user_def)
  show ?thesis
    using f by (simp add: AuthenticatePassword_def t) (simp add: example_user_def example_app_env_def example_env_def coalesce_def)
qed

lemma example_refused:
  "\<exists>w'. passwordLogin example_server None ''alice'' ''wrong'' [] None example_world = (Inr InvalidCredentials, w') \<and>
     audits (store w') \<noteq> audits (store example_world)"
proof -
  have t: "TrimSpace ''alice'' = ''alice''" "TrimSpace ''sign_in.failed'' = ''sign_in.failed''" "TrimSpace [] = []" by code_simp+
  have th: "PasswordSignInThrottled example_app_env ''alice'' None 0 example_db = (False, None)"
    by (simp add: PasswordSignInThrottled_def example_db_def PasswordFailuresPerUsername_def PasswordFailuresPerAddress_def)
  note a = example_attempt
  have "\<exists>w'. recordSignIn example_server 2 None AuditSignInFailed ''password'' ''alice'' [] SignInReasonWrongSecret example_world = (Inr (), w')
      \<and> audits (store w') \<noteq> audits (store example_world)"
    by (simp add: recordSignIn_def note_event_def inDb_def record_event_def visitorActor_def RecordAuditEvent_def guardS_def bindS_def
        retS_def tx_def requester_arg_def nullableUUID_def stmt_def put_audits_def optional_ref_def AuditSignInFailed_def t)
      (simp add: example_db_def)
  then obtain w' where w': "recordSignIn example_server 2 None AuditSignInFailed ''password'' ''alice'' [] SignInReasonWrongSecret example_world
      = (Inr (), w')" "audits (store w') \<noteq> audits (store example_world)" by blast
  have "passwordLogin example_server None ''alice'' ''wrong'' [] None example_world = (Inr InvalidCredentials, w')"
    using w'(1) by (simp add: passwordLogin_def t th a bindS_def retS_def SignInReasonWrongSecret_def SignInReasonDisabled_def)
  with w'(2) show ?thesis by blast
qed


end
