(* ===== verification/OIDC_Clients.thy ===== *)
theory OIDC_Clients
  imports Operations "HOL-Library.Multiset"
begin

text \<open>
  OAuth client registrations: what \<open>internal/app/app.go\<close> accepts as a client, the requests it sends to Ory Hydra's
  client administration, and the operations of \<open>internal/app/operations.go\<close> that keep Hydra's clients, the
  application catalog and the session policy in step.
\<close>

subsection \<open>Client registrations\<close>

record oidcClient =
  ClientID :: string
  ClientName :: string
  RedirectURIs :: "string list"
  PostLogoutRedirectURIs :: "string list"
  FrontChannelLogoutURI :: string
  BackChannelLogoutURI :: string
  GrantTypes :: "string list"
  ResponseTypes :: "string list"
  TokenEndpointAuth :: string

record oidcClientInput =
  in_ID :: string
  in_Name :: string
  in_Secret :: string
  in_RedirectURIs :: "string list"
  in_PostLogoutRedirectURIs :: "string list"
  in_FrontChannelLogoutURI :: string
  in_BackChannelLogoutURI :: string

text \<open>\<open>^[a-z][a-z0-9-]{2,127}$\<close>; \<open>$\<close> without the flag \<open>m\<close> is the end of the text.\<close>

definition oidcClientIDPattern :: "string \<Rightarrow> bool" where
  "oidcClientIDPattern x \<longleftrightarrow> 3 \<le> length x \<and> length x \<le> 128 \<and> CHR ''a'' \<le> hd x \<and> hd x \<le> CHR ''z'' \<and>
     list_all (\<lambda>c. CHR ''a'' \<le> c \<and> c \<le> CHR ''z'' \<or> CHR ''0'' \<le> c \<and> c \<le> CHR ''9'' \<or> c = CHR ''-'') (tl x)"

definition deletableOIDCClientID :: "string \<Rightarrow> bool" where
  "deletableOIDCClientID x \<longleftrightarrow> \<not> (x = [] \<or> length x > 128 \<or> x = ''.'' \<or> x = ''..'') \<and>
     \<not> list_ex (\<lambda>c. c \<le> CHR '' '' \<or> c = CHR 0x7F \<or> c = CHR ''/'' \<or> c = CHR 0x5C \<or> c = CHR ''?'' \<or> c = CHR ''#'') x"

definition isLoopbackRedirect :: "env \<Rightarrow> url \<Rightarrow> bool" where
  "isLoopbackRedirect E u =
     (let host = trim_set ''[]'' (ToLower E (url_hostname u)) in
      host = ''localhost'' \<or> has_suffix ''.localhost'' host \<or> host = ''::1'' \<or> ip_loopback E host)"

text \<open>The text of an error that quotes a value keeps the label and the value.\<close>

fun validateClientURIs :: "env \<Rightarrow> string \<Rightarrow> string \<Rightarrow> string list \<Rightarrow> error option" where
  "validateClientURIs E field label [] = None"
| "validateClientURIs E field label (raw # uris) =
     (if raw = [] then validateClientURIs E field label uris
      else case url_Parse E raw of
        None \<Rightarrow> Some (InvalidInput field (label @ '' '' @ raw @ '' must be an absolute URI without user information or a fragment''))
      | Some u \<Rightarrow>
          if url_scheme u = [] \<or> url_host u = [] \<or> url_has_user u \<or> url_fragment u \<noteq> []
          then Some (InvalidInput field (label @ '' '' @ raw @ '' must be an absolute URI without user information or a fragment''))
          else if url_scheme u \<noteq> ''https'' \<and> \<not> isLoopbackRedirect E u
          then Some (InvalidInput field (label @ '' '' @ raw @ '' must use HTTPS unless it targets loopback''))
          else validateClientURIs E field label uris)"

definition sameOrigin :: "env \<Rightarrow> string \<times> string \<Rightarrow> url \<Rightarrow> bool" where
  "sameOrigin E origin u \<longleftrightarrow> EqualFold E (fst origin) (url_scheme u) \<and> EqualFold E (snd origin) (url_host u)"

text \<open>The loop of \<open>oidcClientOrigin\<close>; an origin is a scheme and a host.\<close>

fun origin_loop :: "env \<Rightarrow> (string \<times> string) option \<Rightarrow> string list \<Rightarrow> error + (string \<times> string) option" where
  "origin_loop E origin [] = Inr origin"
| "origin_loop E origin (raw # rest) =
     (if raw = [] then origin_loop E origin rest
      else case url_Parse E raw of
        None \<Rightarrow> Inl (invalidInput (''application coordinate '' @ raw @ '' is invalid''))
      | Some u \<Rightarrow> (case origin of
          None \<Rightarrow> origin_loop E (Some (ToLower E (url_scheme u), ToLower E (url_host u))) rest
        | Some o' \<Rightarrow> if sameOrigin E o' u then origin_loop E origin rest
            else Inl (InvalidInput ''redirect_uris'' ''all redirect and logout URIs must use one application origin'')))"

definition oidcClientOrigin ::
  "env \<Rightarrow> string list \<Rightarrow> string list \<Rightarrow> string \<Rightarrow> string \<Rightarrow> error + (string \<times> string)" where
  "oidcClientOrigin E redirects postLogouts front back =
     (case origin_loop E None (redirects @ postLogouts @ [front, back]) of
        Inl e \<Rightarrow> Inl e
      | Inr None \<Rightarrow> Inl (invalidInput ''application origin is unavailable'')
      | Inr (Some origin) \<Rightarrow> Inr origin)"

text \<open>The first of several checks that fails.\<close>

fun first_Some :: "'a option list \<Rightarrow> 'a option" where
  "first_Some [] = None"
| "first_Some (None # xs) = first_Some xs"
| "first_Some (Some x # xs) = Some x"

definition validate_input :: "env \<Rightarrow> oidcClientInput \<Rightarrow> error option" where
  "validate_input E i =
     (case first_error
       [(\<not> oidcClientIDPattern (in_ID i), InvalidInput ''client_id'' (''client ID must contain 3'' @ [CHR 0xE2, CHR 0x80, CHR 0x93] @
           ''128 lowercase letters, digits, or hyphens and start with a letter'')),
        (TrimSpace (in_Name i) = [], InvalidInput ''client_name'' ''client name is required''),
        (length (in_Secret i) < 32, InvalidInput ''client_secret'' ''client secret must contain at least 32 characters''),
        (in_RedirectURIs i = [], InvalidInput ''redirect_uris'' ''at least one redirect URI is required''),
        (in_PostLogoutRedirectURIs i = [], InvalidInput ''post_logout_redirect_uris'' ''at least one post-logout redirect URI is required''),
        (in_FrontChannelLogoutURI i = [] \<and> in_BackChannelLogoutURI i = [],
           InvalidInput ''frontchannel_logout_uri'' ''a front-channel or back-channel logout URI is required'')] of
        Some e \<Rightarrow> Some e
      | None \<Rightarrow> first_Some
         [validateClientURIs E ''redirect_uris'' ''redirect URI'' (in_RedirectURIs i),
          validateClientURIs E ''post_logout_redirect_uris'' ''post-logout redirect URI'' (in_PostLogoutRedirectURIs i),
          validateClientURIs E ''frontchannel_logout_uri'' ''front-channel logout URI'' [in_FrontChannelLogoutURI i],
          validateClientURIs E ''backchannel_logout_uri'' ''back-channel logout URI'' [in_BackChannelLogoutURI i],
          (case oidcClientOrigin E (in_RedirectURIs i) (in_PostLogoutRedirectURIs i) (in_FrontChannelLogoutURI i) (in_BackChannelLogoutURI i) of
             Inl e \<Rightarrow> Some e | Inr _ \<Rightarrow> None)])"

definition registeredOIDCClient :: "oidcClientInput \<Rightarrow> oidcClient" where
  "registeredOIDCClient i = \<lparr>ClientID = in_ID i, ClientName = [], RedirectURIs = in_RedirectURIs i,
     PostLogoutRedirectURIs = in_PostLogoutRedirectURIs i, FrontChannelLogoutURI = in_FrontChannelLogoutURI i,
     BackChannelLogoutURI = in_BackChannelLogoutURI i, GrantTypes = [''authorization_code'', ''refresh_token''],
     ResponseTypes = [''code''], TokenEndpointAuth = ''client_secret_post''\<rparr>"

text \<open>
  \<open>(&url.URL{Scheme, Host, Path}).String()\<close> escapes the host: \<open>url.escape\<close> in the mode for hosts.
\<close>

definition host_plain :: "char \<Rightarrow> bool" where
  "host_plain c \<longleftrightarrow> CHR ''a'' \<le> c \<and> c \<le> CHR ''z'' \<or> CHR ''A'' \<le> c \<and> c \<le> CHR ''Z'' \<or> CHR ''0'' \<le> c \<and> c \<le> CHR ''9'' \<or>
     c \<in> set ''-_.~!$&()*+,;=:[]<>'' \<or> c = CHR 0x22 \<or> c = CHR 0x27"

definition percent :: "char \<Rightarrow> string" where
  "percent c = (if host_plain c then [c]
     else [CHR ''%'', ''0123456789ABCDEF'' ! (of_char c div 16), ''0123456789ABCDEF'' ! (of_char c mod 16)])"

definition managedAppLogoutBridgeURL :: "env \<Rightarrow> string \<Rightarrow> string option" where
  "managedAppLogoutBridgeURL E launchURL = (case url_Parse E launchURL of None \<Rightarrow> None
     | Some u \<Rightarrow> if url_scheme u = [] \<or> url_host u = [] then None
         else Some (url_scheme u @ ''://'' @ concat (map percent (url_host u)) @ ''/auth/shauth/logout/complete''))"

definition validateManagedAppClient :: "env \<Rightarrow> app_row \<Rightarrow> oidcClient \<Rightarrow> error option" where
  "validateManagedAppClient E a c =
     (case first_error
       [(app_client a \<noteq> ClientID c, invalidInput ''managed app OpenID Connect client does not match the registered client''),
        (TokenEndpointAuth c \<noteq> ''client_secret_post'' \<and> TokenEndpointAuth c \<noteq> ''client_secret_basic'',
           invalidInput ''managed app OpenID Connect client must authenticate with its client secret''),
        (''authorization_code'' \<notin> set (GrantTypes c) \<or> list_ex (\<lambda>g. g \<noteq> ''authorization_code'' \<and> g \<noteq> ''refresh_token'') (GrantTypes c),
           invalidInput ''managed app OpenID Connect client may use only the authorization code and refresh token grants''),
        (ResponseTypes c \<noteq> [''code''], invalidInput ''managed app OpenID Connect client must use only the code response type''),
        (RedirectURIs c = [], invalidInput ''managed app OpenID Connect client must register a redirect URI''),
        (FrontChannelLogoutURI c = [] \<and> BackChannelLogoutURI c = [],
           invalidInput ''managed app OpenID Connect client must register a front-channel or back-channel logout URI'')] of
        Some e \<Rightarrow> Some e
      | None \<Rightarrow>
      case first_Some
         [validateClientURIs E [] ''redirect URI'' (RedirectURIs c),
          validateClientURIs E [] ''post-logout redirect URI'' (PostLogoutRedirectURIs c),
          validateClientURIs E [] ''front-channel logout URI'' [FrontChannelLogoutURI c],
          validateClientURIs E [] ''back-channel logout URI'' [BackChannelLogoutURI c]] of
        Some e \<Rightarrow> Some e
      | None \<Rightarrow>
      case url_Parse E (app_launch_url a) of
        None \<Rightarrow> Some (invalidInput ''managed app launch URL is invalid'')
      | Some launch \<Rightarrow>
      case managedAppLogoutBridgeURL E (app_launch_url a) of
        None \<Rightarrow> Some (Failed ''managed app launch URL is invalid'')
      | Some bridge \<Rightarrow>
      if PostLogoutRedirectURIs c \<noteq> [bridge]
      then Some (invalidInput ''managed app must register only its exact Shauth logout bridge URI'')
      else case oidcClientOrigin E (RedirectURIs c) (PostLogoutRedirectURIs c) (FrontChannelLogoutURI c) (BackChannelLogoutURI c) of
        Inl e \<Rightarrow> Some e
      | Inr origin \<Rightarrow> if sameOrigin E origin launch then None
          else Some (InvalidInput ''launch_url'' ''managed app and OpenID Connect client must use one application origin''))"

text \<open>\<open>json.Marshal\<close> of the contract's fields, the lists sorted by bytes, is a parameter.\<close>

definition contract_payload :: "oidcClient \<Rightarrow> string \<times> string list \<times> string list \<times> string \<times> string \<times> string list \<times> string list \<times> string" where
  "contract_payload c = (ClientID c, sort (RedirectURIs c), sort (PostLogoutRedirectURIs c), FrontChannelLogoutURI c,
     BackChannelLogoutURI c, sort (GrantTypes c), sort (ResponseTypes c), TokenEndpointAuth c)"

definition oidcClientContractHash ::
  "(string \<times> string list \<times> string list \<times> string \<times> string \<times> string list \<times> string list \<times> string \<Rightarrow> string) \<Rightarrow> env \<Rightarrow> oidcClient \<Rightarrow> string" where
  "oidcClientContractHash marshal E c = hex_encode (map of_char (sha256 E (marshal (contract_payload c))))"

text \<open>The counting loop of \<open>sameStringSet\<close>.\<close>

fun count_down :: "(string \<Rightarrow> int) \<Rightarrow> string list \<Rightarrow> bool" where
  "count_down want [] = True"
| "count_down want (v # vs) = (let want' = want(v := want v - 1) in if want' v < 0 then False else count_down want' vs)"

definition sameStringSet :: "string list \<Rightarrow> string list \<Rightarrow> bool" where
  "sameStringSet left right \<longleftrightarrow> length left = length right \<and>
     count_down (fold (\<lambda>v want. want(v := want v + 1)) left (\<lambda>_. 0)) right"


lemma fold_counts: "fold (\<lambda>v want. want(v := want v + 1)) xs want v = want v + int (count (mset xs) v)"
  by (induction xs arbitrary: want) auto

lemma count_down_iff: "(\<And>v. 0 \<le> want v) \<Longrightarrow> count_down want xs \<longleftrightarrow> (\<forall>v. int (count (mset xs) v) \<le> want v)"
proof (induction xs arbitrary: want)
  case (Cons x xs)
  show ?case
  proof (cases "want x = 0")
    case True
    then have "\<not> (\<forall>v. int (count (mset (x # xs)) v) \<le> want v)" by (intro notI) (drule spec [of _ x], simp)
    with True show ?thesis by (simp del: mset.simps)
  next
    case False
    with Cons.prems [of x] have pos: "1 \<le> want x" by linarith
    then have "count_down (want(x := want x - 1)) xs \<longleftrightarrow> (\<forall>v. int (count (mset xs) v) \<le> (want(x := want x - 1)) v)"
      using Cons.prems by (intro Cons.IH) auto
    also have "\<dots> \<longleftrightarrow> (\<forall>v. int (count (mset (x # xs)) v) \<le> want v)" by auto
    finally show ?thesis using pos by simp
  qed
qed simp

text \<open>The comparison of registered with configured coordinates is equality up to order: \<open>sameStringSet\<close> holds
  exactly for rearrangements of the same list, repetitions included.\<close>

theorem same_string_set_iff: "sameStringSet left right \<longleftrightarrow> mset left = mset right"
proof
  assume same: "sameStringSet left right"
  then have "mset right \<subseteq># mset left"
    by (simp add: sameStringSet_def count_down_iff fold_counts subseteq_mset_def)
  moreover have "size (mset left) = size (mset right)" using same by (simp add: sameStringSet_def)
  ultimately show "mset left = mset right" by (metis mset_subset_size nat_less_le subset_mset.less_le)
next
  assume same: "mset left = mset right"
  then have "length left = length right" by (rule mset_eq_length)
  moreover have "count_down (fold (\<lambda>v want. want(v := want v + 1)) left (\<lambda>_. 0)) right"
    by (subst count_down_iff) (simp_all add: fold_counts same)
  ultimately show "sameStringSet left right" by (simp add: sameStringSet_def)
qed

definition coordinates :: "oidcClient \<Rightarrow> string list" where
  "coordinates c = RedirectURIs c @ PostLogoutRedirectURIs c @ [FrontChannelLogoutURI c, BackChannelLogoutURI c]"

text \<open>A coordinate Shauth stands behind: absolute, without credentials or fragment, HTTPS or loopback.\<close>

definition safe_uri :: "env \<Rightarrow> url \<Rightarrow> bool" where
  "safe_uri E u \<longleftrightarrow> url_scheme u \<noteq> [] \<and> url_host u \<noteq> [] \<and> \<not> url_has_user u \<and> url_fragment u = [] \<and>
     (url_scheme u = ''https'' \<or> isLoopbackRedirect E u)"

lemma validateClientURIs_None: "validateClientURIs E field label uris = None \<longleftrightarrow>
    (\<forall>raw \<in> set uris. raw \<noteq> [] \<longrightarrow> (\<exists>u. url_Parse E raw = Some u \<and> safe_uri E u))"
  by (induction uris) (auto simp: safe_uri_def split: option.split)

lemma first_Some_None: "first_Some xs = None \<longleftrightarrow> (\<forall>x \<in> set xs. x = None)"
  by (induction xs rule: first_Some.induct) auto

lemma origin_loop_Some:
  "origin_loop E (Some o') raws = Inr r \<longleftrightarrow> r = Some o' \<and>
     (\<forall>raw \<in> set raws. raw \<noteq> [] \<longrightarrow> (\<exists>u. url_Parse E raw = Some u \<and> sameOrigin E o' u))"
  by (induction raws) (auto split: option.splits)

lemma origin_loop_None:
  "origin_loop E None raws = Inr (Some origin) \<Longrightarrow>
     (\<forall>raw \<in> set raws. raw \<noteq> [] \<longrightarrow> (\<exists>u. url_Parse E raw = Some u \<and>
        (sameOrigin E origin u \<or> origin = (ToLower E (url_scheme u), ToLower E (url_host u)))))"
  by (induction raws) (auto simp: origin_loop_Some split: option.splits if_splits)

lemma oidcClientOrigin_Inr:
  "oidcClientOrigin E rs ps f b = Inr origin \<Longrightarrow> raw \<in> set (rs @ ps @ [f, b]) \<Longrightarrow> raw \<noteq> [] \<Longrightarrow>
     \<exists>u. url_Parse E raw = Some u \<and> (sameOrigin E origin u \<or> origin = (ToLower E (url_scheme u), ToLower E (url_host u)))"
  using origin_loop_None [of E "rs @ ps @ [f, b]" origin]
  by (auto simp: oidcClientOrigin_def split: sum.splits option.splits)

lemma case_error_None: "(case z of None \<Rightarrow> r | Some e \<Rightarrow> Some e) = None \<longleftrightarrow> z = None \<and> r = None"
  by (cases z) auto

lemma case_result_None: "(case z of Inl e \<Rightarrow> Some e | Inr x \<Rightarrow> None) = None \<longleftrightarrow> (\<exists>x. z = Inr x)"
  by (cases z) auto

lemma first_error_Cons: "first_error ((bad, e) # xs) = None \<longleftrightarrow> \<not> bad \<and> first_error xs = None"
  by simp

lemma first_Some_Cons: "first_Some (x # xs) = None \<longleftrightarrow> x = None \<and> first_Some xs = None"
  by (cases x) auto

lemmas check_None = case_error_None case_result_None first_error_Cons first_Some_Cons validateClientURIs_None

lemma validate_input_None: "validate_input E i = None \<longleftrightarrow>
    oidcClientIDPattern (in_ID i) \<and> TrimSpace (in_Name i) \<noteq> [] \<and> 32 \<le> length (in_Secret i) \<and> in_RedirectURIs i \<noteq> [] \<and>
    in_PostLogoutRedirectURIs i \<noteq> [] \<and> (in_FrontChannelLogoutURI i \<noteq> [] \<or> in_BackChannelLogoutURI i \<noteq> []) \<and>
    (\<forall>raw \<in> set (coordinates (registeredOIDCClient i)). raw \<noteq> [] \<longrightarrow> (\<exists>u. url_Parse E raw = Some u \<and> safe_uri E u)) \<and>
    (\<exists>origin. oidcClientOrigin E (in_RedirectURIs i) (in_PostLogoutRedirectURIs i) (in_FrontChannelLogoutURI i) (in_BackChannelLogoutURI i) = Inr origin)"
proof -
  have coords: "(\<forall>raw \<in> set (coordinates (registeredOIDCClient i)). P raw) \<longleftrightarrow>
      (\<forall>raw \<in> set (in_RedirectURIs i). P raw) \<and> (\<forall>raw \<in> set (in_PostLogoutRedirectURIs i). P raw) \<and>
      (\<forall>raw \<in> set [in_FrontChannelLogoutURI i]. P raw) \<and> (\<forall>raw \<in> set [in_BackChannelLogoutURI i]. P raw)" for P
    by (auto simp: coordinates_def registeredOIDCClient_def)
  show ?thesis
    unfolding validate_input_def check_None coords by (simp only: first_error.simps first_Some.simps not_less simp_thms conj_assoc) blast
qed

lemma validateManagedAppClient_None: "validateManagedAppClient E a c = None \<longleftrightarrow>
    app_client a = ClientID c \<and> (TokenEndpointAuth c = ''client_secret_post'' \<or> TokenEndpointAuth c = ''client_secret_basic'') \<and>
    ''authorization_code'' \<in> set (GrantTypes c) \<and> (\<forall>g \<in> set (GrantTypes c). g = ''authorization_code'' \<or> g = ''refresh_token'') \<and>
    ResponseTypes c = [''code''] \<and> RedirectURIs c \<noteq> [] \<and> (FrontChannelLogoutURI c \<noteq> [] \<or> BackChannelLogoutURI c \<noteq> []) \<and>
    (\<forall>raw \<in> set (coordinates c). raw \<noteq> [] \<longrightarrow> (\<exists>u. url_Parse E raw = Some u \<and> safe_uri E u)) \<and>
    (\<exists>launch bridge origin. url_Parse E (app_launch_url a) = Some launch \<and>
       managedAppLogoutBridgeURL E (app_launch_url a) = Some bridge \<and> PostLogoutRedirectURIs c = [bridge] \<and>
       oidcClientOrigin E (RedirectURIs c) (PostLogoutRedirectURIs c) (FrontChannelLogoutURI c) (BackChannelLogoutURI c) = Inr origin \<and>
       sameOrigin E origin launch)"
proof -
  have coords: "(\<forall>raw \<in> set (coordinates c). P raw) \<longleftrightarrow>
      (\<forall>raw \<in> set (RedirectURIs c). P raw) \<and> (\<forall>raw \<in> set (PostLogoutRedirectURIs c). P raw) \<and>
      (\<forall>raw \<in> set [FrontChannelLogoutURI c]. P raw) \<and> (\<forall>raw \<in> set [BackChannelLogoutURI c]. P raw)" for P
    by (auto simp: coordinates_def)
  have rest: "(case url_Parse E (app_launch_url a) of
        None \<Rightarrow> Some e1
      | Some launch \<Rightarrow>
      case managedAppLogoutBridgeURL E (app_launch_url a) of
        None \<Rightarrow> Some e2
      | Some bridge \<Rightarrow>
      if PostLogoutRedirectURIs c \<noteq> [bridge] then Some e3
      else case oidcClientOrigin E (RedirectURIs c) (PostLogoutRedirectURIs c) (FrontChannelLogoutURI c) (BackChannelLogoutURI c) of
        Inl e \<Rightarrow> Some e
      | Inr origin \<Rightarrow> if sameOrigin E origin launch then None else Some e4) = None \<longleftrightarrow>
    (\<exists>launch bridge origin. url_Parse E (app_launch_url a) = Some launch \<and>
       managedAppLogoutBridgeURL E (app_launch_url a) = Some bridge \<and> PostLogoutRedirectURIs c = [bridge] \<and>
       oidcClientOrigin E (RedirectURIs c) (PostLogoutRedirectURIs c) (FrontChannelLogoutURI c) (BackChannelLogoutURI c) = Inr origin \<and>
       sameOrigin E origin launch)" for e1 e2 e3 e4
    by (auto split: option.split sum.split)
  show ?thesis
    unfolding validateManagedAppClient_def check_None coords rest list_ex_iff
    by (simp only: first_error.simps first_Some.simps simp_thms conj_assoc de_Morgan_conj de_Morgan_disj not_not bex_simps)
qed

text \<open>
  What Shauth registers it also stands behind: when the input passes validation and its only post-logout destination is
  the application's logout bridge on the client's origin, the registered client is accepted for the application.
\<close>

theorem registered_clients_are_accepted:
  assumes "validate_input E i = None" "app_client a = in_ID i" "url_Parse E (app_launch_url a) = Some launch"
    and "managedAppLogoutBridgeURL E (app_launch_url a) = Some bridge" "in_PostLogoutRedirectURIs i = [bridge]"
    and "\<And>origin. oidcClientOrigin E (in_RedirectURIs i) [bridge] (in_FrontChannelLogoutURI i) (in_BackChannelLogoutURI i) = Inr origin \<Longrightarrow>
         sameOrigin E origin launch"
  shows "validateManagedAppClient E a (registeredOIDCClient i) = None"
  using assms unfolding validateManagedAppClient_None validate_input_None by (auto simp: registeredOIDCClient_def)

text \<open>C36. A client Shauth accepts for an application, however it was registered, authenticates with a secret, uses only the
  code flow, can be told about a logout, has only safe coordinates, all of one origin with the launch page, and returns
  from logout nowhere but to the bridge.\<close>

theorem accepted_clients_are_safe:
  assumes "validateManagedAppClient E a c = None"
  shows "app_client a = ClientID c \<and> TokenEndpointAuth c \<in> {''client_secret_post'', ''client_secret_basic''} \<and>
    ''authorization_code'' \<in> set (GrantTypes c) \<and> set (GrantTypes c) \<subseteq> {''authorization_code'', ''refresh_token''} \<and>
    ResponseTypes c = [''code''] \<and> (FrontChannelLogoutURI c \<noteq> [] \<or> BackChannelLogoutURI c \<noteq> []) \<and>
    (\<exists>bridge. managedAppLogoutBridgeURL E (app_launch_url a) = Some bridge \<and> PostLogoutRedirectURIs c = [bridge]) \<and>
    (\<exists>origin launch. url_Parse E (app_launch_url a) = Some launch \<and> sameOrigin E origin launch \<and>
       (\<forall>raw \<in> set (coordinates c). raw \<noteq> [] \<longrightarrow> (\<exists>u. url_Parse E raw = Some u \<and> safe_uri E u \<and>
          (sameOrigin E origin u \<or> origin = (ToLower E (url_scheme u), ToLower E (url_host u))))))"
  using assms unfolding validateManagedAppClient_None
proof (elim conjE exE)
  fix launch bridge origin
  assume c: "app_client a = ClientID c" "TokenEndpointAuth c = ''client_secret_post'' \<or> TokenEndpointAuth c = ''client_secret_basic''"
      "''authorization_code'' \<in> set (GrantTypes c)" "\<forall>g \<in> set (GrantTypes c). g = ''authorization_code'' \<or> g = ''refresh_token''"
      "ResponseTypes c = [''code'']" "FrontChannelLogoutURI c \<noteq> [] \<or> BackChannelLogoutURI c \<noteq> []"
    and safe: "\<forall>raw \<in> set (coordinates c). raw \<noteq> [] \<longrightarrow> (\<exists>u. url_Parse E raw = Some u \<and> safe_uri E u)"
    and o: "url_Parse E (app_launch_url a) = Some launch" "managedAppLogoutBridgeURL E (app_launch_url a) = Some bridge"
      "PostLogoutRedirectURIs c = [bridge]" "sameOrigin E origin launch"
      "oidcClientOrigin E (RedirectURIs c) (PostLogoutRedirectURIs c) (FrontChannelLogoutURI c) (BackChannelLogoutURI c) = Inr origin"
  have "\<exists>u. url_Parse E raw = Some u \<and> safe_uri E u \<and>
      (sameOrigin E origin u \<or> origin = (ToLower E (url_scheme u), ToLower E (url_host u)))"
    if raw: "raw \<in> set (coordinates c)" "raw \<noteq> []" for raw
    using safe [rule_format, OF raw] oidcClientOrigin_Inr [OF o(5) raw [unfolded coordinates_def]] by auto
  with o have "\<exists>origin launch. url_Parse E (app_launch_url a) = Some launch \<and> sameOrigin E origin launch \<and>
       (\<forall>raw \<in> set (coordinates c). raw \<noteq> [] \<longrightarrow> (\<exists>u. url_Parse E raw = Some u \<and> safe_uri E u \<and>
          (sameOrigin E origin u \<or> origin = (ToLower E (url_scheme u), ToLower E (url_host u)))))" by blast
  moreover have "set (GrantTypes c) \<subseteq> {''authorization_code'', ''refresh_token''}"
    by (rule subsetI) (use c(4) in \<open>simp only: insert_iff empty_iff simp_thms\<close>)
  moreover have "\<exists>bridge. managedAppLogoutBridgeURL E (app_launch_url a) = Some bridge \<and> PostLogoutRedirectURIs c = [bridge]"
    using o(2,3) by blast
  ultimately show ?thesis using c by (simp only: insert_iff empty_iff simp_thms)
qed

definition example_client_input :: oidcClientInput where
  "example_client_input = \<lparr>in_ID = ''wiki-client'', in_Name = ''Wiki'', in_Secret = replicate 32 CHR ''s'',
     in_RedirectURIs = [''https://wiki/auth/callback''], in_PostLogoutRedirectURIs = [''https://wiki/auth/shauth/logout/complete''],
     in_FrontChannelLogoutURI = [], in_BackChannelLogoutURI = ''https://wiki/auth/backchannel-logout''\<rparr>"

lemma example_client_valid: "validate_input example_env example_client_input = None"
  by code_simp

lemma example_client_accepted:
  "validateManagedAppClient example_env (example_app ''wiki'') (registeredOIDCClient example_client_input) = None"
  by code_simp

theorem accepted_clients_are_safe_witness:
  "ResponseTypes (registeredOIDCClient example_client_input) = [''code''] \<and>
   PostLogoutRedirectURIs (registeredOIDCClient example_client_input) = [''https://wiki/auth/shauth/logout/complete'']"
proof -
  have bridge: "managedAppLogoutBridgeURL example_env (app_launch_url (example_app ''wiki'')) =
      Some ''https://wiki/auth/shauth/logout/complete''" by code_simp
  note safe = accepted_clients_are_safe [OF example_client_accepted]
  have "ResponseTypes (registeredOIDCClient example_client_input) = [''code'']"
    using safe by (elim conjE)
  moreover have "PostLogoutRedirectURIs (registeredOIDCClient example_client_input) = [''https://wiki/auth/shauth/logout/complete'']"
    using safe unfolding bridge by (elim conjE exE) (simp only: option.inject)
  ultimately show ?thesis by (rule conjI)
qed

subsection \<open>Listing the clients\<close>

text \<open>
  \<open>page_token\<close> stands for \<open>url.Parse\<close> and \<open>Query().Get("page_token")\<close>; \<open>None\<close> is a URL that does not parse.
\<close>

definition is_next :: "string \<Rightarrow> bool" where
  "is_next parameter \<longleftrightarrow> TrimSpace parameter = ''rel='' @ [CHR 0x22] @ ''next'' @ [CHR 0x22] \<or> TrimSpace parameter = ''rel=next''"

fun next_link :: "(string \<Rightarrow> string option) \<Rightarrow> string list \<Rightarrow> error + string" where
  "next_link page_token [] = Inr []"
| "next_link page_token (link # links) =
     (let parts = split_on (CHR '';'') link in
      if length parts < 2 \<or> \<not> list_ex is_next (tl parts) then next_link page_token links
      else let rawURL = TrimSpace (hd parts) in
        if length rawURL < 2 \<or> hd rawURL \<noteq> CHR ''<'' \<or> last rawURL \<noteq> CHR ''>''
        then Inl (Failed ''Hydra client pagination returned a malformed next link'')
        else case page_token (butlast (tl rawURL)) of
          None \<Rightarrow> Inl (Failed ''parse Hydra client pagination link'')
        | Some token \<Rightarrow> if token = [] then Inl (Failed ''Hydra client pagination next link has no page token'') else Inr token)"

definition nextHydraPageToken :: "(string \<Rightarrow> string option) \<Rightarrow> string \<Rightarrow> error + string" where
  "nextHydraPageToken page_token linkHeader = next_link page_token (split_on (CHR '','') linkHeader)"

text \<open>A page of clients: its status, the decoded clients (\<open>None\<close> when the body does not decode) and the \<open>Link\<close> header.\<close>

record 'c client_page =
  pg_status :: nat
  pg_clients :: "'c list option"
  pg_link :: string

text \<open>
  The loop of \<open>listHydraClients\<close>. Hydra is the finite table of the page tokens it answers, the first page under the
  empty token; a token it does not answer is a failed request.
\<close>

function list_clients_from ::
  "(string \<Rightarrow> string option) \<Rightarrow> (string \<times> 'c client_page) list \<Rightarrow> string list \<Rightarrow> string \<Rightarrow> 'c list \<Rightarrow> error + 'c list" where
  "list_clients_from page_token pages seen token clients =
     (case map_of pages token of None \<Rightarrow> Inl (Failed ''no answer from Ory Hydra'')
      | Some page \<Rightarrow>
        if pg_status page \<noteq> 200 then Inl (Failed (''Hydra list clients returned '' @ decimal (pg_status page)))
        else case pg_clients page of None \<Rightarrow> Inl (Failed ''decode Hydra clients'')
        | Some cs \<Rightarrow>
          (case nextHydraPageToken page_token (pg_link page) of Inl e \<Rightarrow> Inl e
           | Inr t \<Rightarrow> if t = [] then Inr (clients @ cs)
               else if t \<in> set seen then Inl (Failed ''Hydra client pagination repeated page token'')
               else list_clients_from page_token pages (t # seen) t (clients @ cs)))"
  by pat_completeness auto
termination
proof (relation "measure (\<lambda>(page_token, pages, seen, token, clients).
    2 * card (fst ` set pages - set seen) + (if token \<in> fst ` set pages then 1 else 0))", goal_cases)
  case (2 page_token pages seen token clients page cs t)
  then have token: "token \<in> fst ` set pages" by (auto dest: map_of_SomeD intro: rev_image_eqI)
  show ?case
  proof (cases "t \<in> fst ` set pages")
    case True
    with 2 have "fst ` set pages - set (t # seen) \<subset> fst ` set pages - set seen" by auto
    then have "card (fst ` set pages - set (t # seen)) < card (fst ` set pages - set seen)"
      by (intro psubset_card_mono) auto
    with token show ?thesis by simp
  next
    case False
    then have "fst ` set pages - set (t # seen) = fst ` set pages - set seen" by auto
    with False token show ?thesis by simp
  qed
qed simp

declare list_clients_from.simps [simp del]

definition listHydraClients :: "(string \<Rightarrow> string option) \<Rightarrow> (string \<times> 'c client_page) list \<Rightarrow> error + 'c list" where
  "listHydraClients page_token pages = list_clients_from page_token pages [] [] []"

text \<open>The pages from a token to the last one, each linked to the next.\<close>

inductive page_chain :: "(string \<Rightarrow> string option) \<Rightarrow> (string \<times> 'c client_page) list \<Rightarrow> string \<Rightarrow> string list \<Rightarrow> 'c list \<Rightarrow> bool"
  for page_token pages where
  last_page: "map_of pages token = Some page \<Longrightarrow> pg_status page = 200 \<Longrightarrow> pg_clients page = Some cs \<Longrightarrow>
    nextHydraPageToken page_token (pg_link page) = Inr [] \<Longrightarrow> page_chain page_token pages token [] cs"
| linked_page: "map_of pages token = Some page \<Longrightarrow> pg_status page = 200 \<Longrightarrow> pg_clients page = Some cs \<Longrightarrow>
    nextHydraPageToken page_token (pg_link page) = Inr t \<Longrightarrow> t \<noteq> [] \<Longrightarrow> page_chain page_token pages t ts ds \<Longrightarrow>
    page_chain page_token pages token (t # ts) (cs @ ds)"

lemma list_clients_sound:
  "list_clients_from page_token pages seen token clients = Inr r \<Longrightarrow>
     \<exists>ts ds. page_chain page_token pages token ts ds \<and> r = clients @ ds \<and> distinct ts \<and> set ts \<inter> set seen = {}"
proof (induction page_token pages seen token clients rule: list_clients_from.induct)
  case (1 page_token pages seen token clients)
  from "1.prems" obtain page cs t where page: "map_of pages token = Some page" "pg_status page = 200" "pg_clients page = Some cs"
    "nextHydraPageToken page_token (pg_link page) = Inr t"
    by (subst (asm) list_clients_from.simps) (auto split: option.splits if_splits sum.splits)
  show ?case
  proof (cases "t = []")
    case True
    with page "1.prems" have "r = clients @ cs" by (subst (asm) list_clients_from.simps) simp
    with page True last_page [of pages token page cs page_token] show ?thesis by (intro exI [of _ "[]"] exI [of _ cs]) simp
  next
    case False
    with page "1.prems" have t: "t \<notin> set seen" "list_clients_from page_token pages (t # seen) t (clients @ cs) = Inr r"
      by (auto simp: list_clients_from.simps [of page_token pages seen] split: if_splits)
    from "1.IH" [OF page(1) _ page(3,4) False t(1) t(2)] page(2) obtain ts ds where
      "page_chain page_token pages t ts ds" "r = (clients @ cs) @ ds" "distinct ts" "set ts \<inter> set (t # seen) = {}" by auto
    with linked_page [OF page False] t(1) show ?thesis
      by (intro exI [of _ "t # ts"] exI [of _ "cs @ ds"]) auto
  qed
qed

lemma list_clients_complete:
  "page_chain page_token pages token ts ds \<Longrightarrow> distinct ts \<Longrightarrow> set ts \<inter> set seen = {} \<Longrightarrow>
     list_clients_from page_token pages seen token clients = Inr (clients @ ds)"
proof (induction arbitrary: seen clients rule: page_chain.induct)
  case (last_page token page cs)
  then show ?case by (subst list_clients_from.simps) simp
next
  case (linked_page token page cs t ts ds)
  then have "list_clients_from page_token pages (t # seen) t (clients @ cs) = Inr ((clients @ cs) @ ds)"
    by (intro linked_page.IH) auto
  with linked_page show ?case by (subst list_clients_from.simps) simp
qed


end
