(* ===== verification/Global_Logout.thy ===== *)
theory Global_Logout
  imports Sign_In OIDC_Clients
begin

text \<open>
  Signing out everywhere (\<open>internal/app/app.go\<close>): the sign-out form \<open>logout\<close>, Hydra's logout flow \<open>hydraLogout\<close>,
  its completion \<open>logoutComplete\<close> and the recovery of abandoned logouts \<open>RecoverAbandonedLogout\<close>, over the
  logout grants of the store.
\<close>

definition logoutActor :: "LogoutCorrelationGrant \<Rightarrow> actor" where
  "logoutActor g = \<lparr>actor_UserID = SubjectID g, actor_SessionID = BrowserSessionID g, actor_Address = None, actor_Kind = []\<rparr>"

definition logoutRecoveryDelay :: "int \<Rightarrow> duration" where
  "logoutRecoveryDelay attempt0 =
     (let attempt = (if attempt0 < 1 then 1 else attempt0); attempt = (if attempt > 6 then 6 else attempt)
      in 2 ^ nat (attempt - 1) * 5 * second)"

text \<open>The details \<open>retry_at\<close> and \<open>error\<close> hold a time and an error text; only that they are recorded is modelled.\<close>

definition scheduleLogoutRecovery :: "server \<Rightarrow> nat \<Rightarrow> LogoutCorrelationGrant \<Rightarrow> string \<Rightarrow> unit app" where
  "scheduleLogoutRecovery V i g cause =
     (let retryAt = now_of V i + logoutRecoveryDelay (CleanupAttempts g + 1) in
      bindS (tryS (inDb (FailLogoutCorrelationGrant (sv_env V i) (GrantID g) cause retryAt))) (\<lambda>_.
      note_event V (Suc i) (logoutActor g) AuditLogoutFailed (SubjectID g) [(''grant_id'', DText (GrantID g)),
        (''attempt'', DNumber (CleanupAttempts g + 1)), (''retry_at'', DOther (int_text retryAt)), (''error'', DText cause)]))"

definition finalizeProviderLogout :: "server \<Rightarrow> nat \<Rightarrow> LogoutCorrelationGrant \<Rightarrow> unit app" where
  "finalizeProviderLogout V i g =
     bindS (revokeOtherHydraSessions V (ActiveHydraSessionIDs g) []) (\<lambda>_.
     bindS (inDb (CompleteLogoutCorrelationGrant (sv_env V i) (GrantID g) (now_of V i))) (\<lambda>_.
     note_event V (Suc i) (logoutActor g) AuditLogoutCompleted (SubjectID g) [(''grant_id'', DText (GrantID g)),
       (''provider_sessions'', DNumber (int (length (ActiveHydraSessionIDs g)))), (''attempts'', DNumber (CleanupAttempts g))]))"

text \<open>An error's text, of which only that it is not empty matters here.\<close>

definition error_text :: "error \<Rightarrow> string" where
  "error_text e = (case e of Failed m \<Rightarrow> m | DependencyError m \<Rightarrow> m | DbError l _ \<Rightarrow> l | _ \<Rightarrow> ''logout failed'')"

definition RecoverAbandonedLogout :: "server \<Rightarrow> time \<Rightarrow> unit app" where
  "RecoverAbandonedLogout V now =
     bindS (inDb (ClaimAbandonedLogoutCorrelationGrant (sv_env V 0) now)) (\<lambda>claimed.
     case claimed of None \<Rightarrow> retS ()
     | Some g \<Rightarrow>
       bindS (tryS (inDb (RevokeSessions (sv_env V 1) (ActiveBrowserSessionIDs g) now))) (\<lambda>local.
       case local of
         Inl e \<Rightarrow> bindS (scheduleLogoutRecovery V 2 g (error_text e)) (\<lambda>_. failS e)
       | Inr _ \<Rightarrow> bindS (tryS (finalizeProviderLogout V 4 g)) (\<lambda>final.
           case final of
             Inl e \<Rightarrow> bindS (scheduleLogoutRecovery V 2 g (error_text e)) (\<lambda>_. failS e)
           | Inr _ \<Rightarrow> retS ())))"

definition logoutApplication :: "server \<Rightarrow> nat \<Rightarrow> string \<Rightarrow> (app_row \<times> string) app" where
  "logoutApplication V i client_id =
     (let clientID = TrimSpace client_id in
      if clientID = [] \<or> \<not> oidcClientIDPattern clientID then retS (empty_app, ''/signed-out'')
      else bindS (tryS (inDb (ManagedAppByClientID (sv_env V i) clientID))) (\<lambda>r.
        case r of Inl _ \<Rightarrow> retS (empty_app, ''/signed-out'') | Inr a \<Rightarrow> retS (a, app_signed_out_url a)))"

text \<open>The answers of the sign-out form: a destination, Hydra's logout flow with its one-time token and the
  client remembered for the way back, or an error page.\<close>

datatype logout_answer = Redirected string | ThroughHydra string string | BadGateway502

definition logout :: "server \<Rightarrow> string option \<Rightarrow> string \<Rightarrow> string option \<Rightarrow> logout_answer app" where
  "logout V cookie client_id address =
     bindS (logoutApplication V 6 client_id) (\<lambda>(a, destination).
     bindS (tryS (current V 0 cookie)) (\<lambda>who.
     case who of Inl _ \<Rightarrow> retS (Redirected destination)
     | Inr (user, session) \<Rightarrow>
       bindS (tryS (inDb (CreateLogoutCorrelationGrant (sv_env V 1) (ID user) (s_id session) [] (app_client a) (now_of V 1)))) (\<lambda>created.
       case created of
         Inl e \<Rightarrow> if e = ErrLogoutSessionInactive then retS (Redirected destination)
           else bindS (tryS (revokeUserSessions (shift 2 V) (ID user) [] (browserActor address user session))) (\<lambda>r.
             case r of Inl _ \<Rightarrow> retS BadGateway502 | Inr _ \<Rightarrow> retS (Redirected destination))
       | Inr (correlation, g) \<Rightarrow>
           if correlation = [] then retS (Redirected destination)
           else if BrowserHydraSessionIDs g = [] then
             bindS (tryS (finalizeProviderLogout V 4 g)) (\<lambda>r.
             case r of Inl e \<Rightarrow> bindS (scheduleLogoutRecovery V 2 g (error_text e)) (\<lambda>_. retS BadGateway502)
             | Inr _ \<Rightarrow> retS (Redirected destination))
           else retS (ThroughHydra correlation (app_client a)))))"

text \<open>\<open>signedOut\<close>: the page, or the destination of the application whose sign-out this was.\<close>

definition signedOut :: "server \<Rightarrow> string option \<Rightarrow> string option \<Rightarrow> string option app" where
  "signedOut V cookie returnCookie =
     (case returnCookie of None \<Rightarrow> retS None
      | Some client \<Rightarrow>
        bindS (tryS (case cookie of None \<Rightarrow> failS (Failed ''no browser session cookie'')
          | Some raw \<Rightarrow> inDb (PeekCurrentUser (sv_env V 0) raw (now_of V 0)))) (\<lambda>who.
        case who of Inr _ \<Rightarrow> retS None
        | Inl _ \<Rightarrow> if \<not> oidcClientIDPattern client then retS None
            else bindS (tryS (inDb (ManagedAppByClientID (sv_env V 1) client))) (\<lambda>r.
              case r of Inl _ \<Rightarrow> retS None | Inr a \<Rightarrow> retS (Some (app_signed_out_url a)))))"

definition preservedPublicLogoutSessions :: "string \<Rightarrow> string list \<Rightarrow> error + string list" where
  "preservedPublicLogoutSessions providerSessionID browserSessionIDs =
     (if providerSessionID \<noteq> [] then
        if providerSessionID \<in> set browserSessionIDs then Inr [providerSessionID]
        else Inl (Failed ''OAuth logout request does not match this browser's connected application session'')
      else if browserSessionIDs = []
        then Inl (Failed ''OAuth logout request cannot be correlated with a connected application session'')
      else Inr browserSessionIDs)"

datatype provider_logout_answer = Continue string string | LogoutRejected nat

definition hydraAcceptLogout :: "server \<Rightarrow> string \<Rightarrow> string app" where
  "hydraAcceptLogout V challenge =
     bindS (guardS (challenge \<noteq> []) (Failed ''missing OAuth logout challenge'')) (\<lambda>_.
     bindS (call_hydra V (AcceptLogout challenge) {200}) (\<lambda>_.
     bindS (guardS (redirect_of V challenge \<noteq> []) (Failed ''Hydra logout acceptance did not return redirect_to'')) (\<lambda>_.
     retS (redirect_of V challenge))))"

definition hydraRejectLogout :: "server \<Rightarrow> string \<Rightarrow> unit app" where
  "hydraRejectLogout V challenge =
     bindS (guardS (challenge \<noteq> []) (Failed ''missing OAuth logout challenge'')) (\<lambda>_.
     call_hydra V (RejectLogout challenge) {204})"

definition completeLogout ::
  "server \<Rightarrow> LogoutCorrelationGrant \<Rightarrow> string list \<Rightarrow> string \<Rightarrow> string \<Rightarrow> provider_logout_answer app" where
  "completeLogout V g preserved challenge completionToken =
     bindS (tryS (revokeOtherHydraSessions V (ActiveHydraSessionIDs g) preserved)) (\<lambda>r.
     case r of
       Inl e \<Rightarrow> bindS (scheduleLogoutRecovery V 4 g (error_text e)) (\<lambda>_. retS (LogoutRejected 502))
     | Inr _ \<Rightarrow> bindS (tryS (hydraAcceptLogout V challenge)) (\<lambda>accepted.
         case accepted of
           Inl e \<Rightarrow> bindS (scheduleLogoutRecovery V 4 g (error_text e)) (\<lambda>_. retS (LogoutRejected 502))
         | Inr redirect \<Rightarrow> retS (Continue redirect completionToken)))"

definition rejectMismatchedLogout :: "server \<Rightarrow> string \<Rightarrow> provider_logout_answer app" where
  "rejectMismatchedLogout V challenge = bindS (tryS (hydraRejectLogout V challenge)) (\<lambda>_. retS (LogoutRejected 400))"

definition hydraLogoutWithoutBrowserCookie ::
  "server \<Rightarrow> hydraLogoutRequest \<Rightarrow> string \<Rightarrow> provider_logout_answer app" where
  "hydraLogoutWithoutBrowserCookie V request challenge =
     (if lr_SessionID request = [] then retS (LogoutRejected 400)
      else if lr_ClientID request = [] then
        bindS (tryS (hydraRejectLogout V challenge)) (\<lambda>r. retS (LogoutRejected (case r of Inl _ \<Rightarrow> 502 | Inr _ \<Rightarrow> 400)))
      else
        bindS (tryS (inDb (CreateLogoutCorrelationGrant (sv_env V 0) (lr_Subject request) [] (lr_SessionID request)
          (lr_ClientID request) (now_of V 0)))) (\<lambda>created.
        case created of
          Inl _ \<Rightarrow> bindS (tryS (hydraRejectLogout V challenge)) (\<lambda>r.
            retS (LogoutRejected (case r of Inl _ \<Rightarrow> 502 | Inr _ \<Rightarrow> 400)))
        | Inr (raw, createdGrant) \<Rightarrow>
            (case preservedPublicLogoutSessions (lr_SessionID request) (BrowserHydraSessionIDs createdGrant) of
               Inl e \<Rightarrow> bindS (scheduleLogoutRecovery V 2 createdGrant (error_text e)) (\<lambda>_. rejectMismatchedLogout V challenge)
             | Inr preserved \<Rightarrow>
                 bindS (tryS (inDb (ConsumeLogoutCorrelationGrant (sv_env V 1) raw (lr_Subject request) (now_of V 1)))) (\<lambda>consumed.
                 case consumed of
                   Inl _ \<Rightarrow> retS (LogoutRejected 500)
                 | Inr g \<Rightarrow> if GrantID g \<noteq> GrantID createdGrant
                     then bindS (scheduleLogoutRecovery V 2 g ''logout correlation identifier changed during consumption'') (\<lambda>_.
                       retS (LogoutRejected 500))
                     else completeLogout V g preserved challenge raw))))"

definition load_hydraLogoutRequest :: "server \<Rightarrow> string \<Rightarrow> error + hydraLogoutRequest" where
  "load_hydraLogoutRequest V challenge =
     (if challenge = [] then Inl (Failed ''missing OAuth logout challenge'')
      else case logout_request_of V challenge of None \<Rightarrow> Inl (Failed ''Hydra logout request failed'')
        | Some request \<Rightarrow> if lr_Subject request = [] then Inl (Failed ''Hydra logout request has no subject'') else Inr request)"

definition hydraLogout ::
  "server \<Rightarrow> string \<Rightarrow> string option \<Rightarrow> provider_logout_answer app" where
  "hydraLogout V challenge correlationCookie =
     (case load_hydraLogoutRequest V challenge of Inl _ \<Rightarrow> retS (LogoutRejected 502)
      | Inr request \<Rightarrow>
        (case correlationCookie of
           None \<Rightarrow> if \<not> lr_RPInitiated request then
               bindS (tryS (hydraRejectLogout V challenge)) (\<lambda>r. retS (LogoutRejected (case r of Inl _ \<Rightarrow> 502 | Inr _ \<Rightarrow> 400)))
             else hydraLogoutWithoutBrowserCookie V request challenge
         | Some raw \<Rightarrow>
             bindS (tryS (inDb (ConsumeLogoutCorrelationGrant (sv_env V 0) raw (lr_Subject request) (now_of V 0)))) (\<lambda>consumed.
             case consumed of
               Inl _ \<Rightarrow> retS (LogoutRejected 400)
             | Inr g \<Rightarrow>
                 (case preservedPublicLogoutSessions (lr_SessionID request) (BrowserHydraSessionIDs g) of
                    Inl e \<Rightarrow> bindS (scheduleLogoutRecovery V 2 g (error_text e)) (\<lambda>_. rejectMismatchedLogout V challenge)
                  | Inr preserved \<Rightarrow> completeLogout V g preserved challenge raw))))"

text \<open>\<open>logoutComplete\<close>: whether the browser goes to the application's own signed-out page.\<close>

definition logoutComplete :: "server \<Rightarrow> string option \<Rightarrow> string app" where
  "logoutComplete V completionCookie =
     (case completionCookie of None \<Rightarrow> retS ''/signed-out''
      | Some raw \<Rightarrow>
        bindS (tryS (inDb (ClaimConsumedLogoutCorrelationGrant (sv_env V 0) raw (now_of V 0)))) (\<lambda>claimed.
        case claimed of Inl _ \<Rightarrow> retS ''/signed-out''
        | Inr g \<Rightarrow> bindS (tryS (finalizeProviderLogout V 4 g)) (\<lambda>r.
            case r of Inl e \<Rightarrow> bindS (scheduleLogoutRecovery V 2 g (error_text e)) (\<lambda>_. retS ''/signed-out'')
            | Inr _ \<Rightarrow> retS (if SignedOutURL g \<noteq> [] then SignedOutURL g else ''/signed-out''))))"

subsection \<open>Recovering abandoned logouts\<close>

text \<open>The grants and the schema, kept by everything a recovery does besides completing or rescheduling its grant.\<close>

definition keeps_grants :: "world \<Rightarrow> world \<Rightarrow> bool" where
  "keeps_grants w w' \<longleftrightarrow> grants (store w') = grants (store w) \<and> keeps_schema (store w) (store w') \<and>
     set (acknowledged w) \<subseteq> set (acknowledged w')"

interpretation kgr: contract keeps_grants
proof unfold_locales
  fix s t u :: world
  show "keeps_grants s s" by (simp add: keeps_grants_def sk.R_refl)
  show "keeps_grants s t \<Longrightarrow> keeps_grants t u \<Longrightarrow> keeps_grants s u"
    unfolding keeps_grants_def using sk.R_trans by (metis subset_trans)
qed

lemma schema_ok_audits [simp]: "schema_ok (s\<lparr>audits := xs\<rparr>) = schema_ok s"
  by (simp add: schema_ok_def)

lemma aside_keeps_grants: "aside w w' \<Longrightarrow> keeps_grants w w'"
  by (auto simp: aside_def keeps_grants_def keeps_schema_def)

lemma obeys_weaken: "obeys R m \<Longrightarrow> (\<And>s t. R s t \<Longrightarrow> Q s t) \<Longrightarrow> obeys Q m"
  by (simp add: obeys_def)

interpretation sgr: contract "\<lambda>s s'. grants s' = grants (s :: db)"
  by unfold_locales auto

lemma RevokeSessions_grants: "obeys (\<lambda>s s'. grants s' = grants s) (RevokeSessions E ids now)"
  unfolding RevokeSessions_def revokeSessionSnapshot_def
  by (intro sgr.keeps sgr.keeps_readonly [OF uuid_array_state] sgr.keeps_stmt) (auto simp: put_Inr)

lemma CompleteLogout_Inl:
  assumes "CompleteLogoutCorrelationGrant E i now s = (Inl e, s')"
  shows "s' = s"
proof (cases "uuid_in E i")
  case None
  with assms show ?thesis by (simp add: CompleteLogoutCorrelationGrant_def bindS_def uuid_arg_def failS_def)
next
  case (Some u)
  let ?P = "\<lambda>g. g_id g = u \<and> g_completed g = None"
  let ?f = "\<lambda>g. g\<lparr>g_completed := Some now, g_claimed_until := None, g_last_error := []\<rparr>"
  show ?thesis
  proof (cases "find ?P (grants s)")
    case None
    then have "upd ?P ?f (grants s) = grants s" unfolding upd_def by (intro map_if_id) (auto dest: find_NoneD)
    with assms Some None show ?thesis
      by (auto simp: CompleteLogoutCorrelationGrant_def bindS_def uuid_arg_def update_grant_def stmt_def put_grants_def guardS_def failS_def retS_def
          split: if_splits)
  next
    case (Some r)
    with assms \<open>uuid_in E i = Some u\<close> show ?thesis
      by (auto simp: CompleteLogoutCorrelationGrant_def bindS_def uuid_arg_def update_grant_def stmt_def put_grants_def guardS_def retS_def failS_def
          split: if_splits)
  qed
qed

lemma FailLogout_effect:
  assumes ok: "schema_ok s" and row: "row \<in> set (grants s)" "g_id row = i" "g_completed row = None" "g_created row \<le> retryAt"
    and E: "uuid_in E i = Some i" "\<not> fault E ''schedule logout correlation recovery''"
    and run: "FailLogoutCorrelationGrant E i failure retryAt s = (r, s')"
  shows "\<exists>row' \<in> set (grants s'). g_id row' = i \<and> g_completed row' = None \<and> g_cleanup_after row' = retryAt \<and> g_claimed_until row' = None"
proof -
  define m where "m = (if TrimSpace failure = [] then ''provider logout did not complete'' else failure)"
  let ?P = "\<lambda>g. g_id g = i \<and> g_completed g = None"
  let ?f = "\<lambda>g. g\<lparr>g_cleanup_after := retryAt, g_claimed_until := None, g_last_error := m\<rparr>"
  have one: "x = row" if "x \<in> set (grants s)" "?P x" for x
    using schema_grant_id_unique [OF ok that(1) row(1)] that(2) row(2) by simp
  have chk: "list_all grant_check (upd ?P ?f (grants s))"
    using ok one row(4) by (auto simp: schema_ok_def list_all_iff ball_upd grant_check_def split: option.splits)
  have unq: "grants_unique (upd ?P ?f (grants s))" using ok by (simp add: schema_ok_def grants_unique_def)
  have "s' = s\<lparr>grants := upd ?P ?f (grants s)\<rparr>"
    using run E chk unq unfolding FailLogoutCorrelationGrant_def m_def [symmetric]
    by (auto simp: bindS_def uuid_arg_def update_grant_def stmt_def put_grants_def guardS_def retS_def failS_def split: if_splits)
  moreover have "?f row \<in> set (upd ?P ?f (grants s))" using row by (auto simp: upd_def)
  ultimately show ?thesis using row(2,3) by (intro bexI [of _ "?f row"]) simp_all
qed

lemma logoutRecoveryDelay_bounds: "5 * second \<le> logoutRecoveryDelay n \<and> logoutRecoveryDelay n \<le> 160 * second"
proof -
  have b: "logoutRecoveryDelay n = 2 ^ nat (max 1 (min 6 n) - 1) * 5 * second"
    by (auto simp: logoutRecoveryDelay_def Let_def max_def min_def)
  have k: "nat (max 1 (min 6 n) - 1) \<le> 5" by simp
  have "(2::int) ^ nat (max 1 (min 6 n) - 1) \<le> 2 ^ 5" using k by (intro power_increasing) auto
  moreover have "(1::int) \<le> 2 ^ nat (max 1 (min 6 n) - 1)" by simp
  ultimately show ?thesis unfolding b by (simp add: second_def)
qed


lemma inDb_keeps_grants:
  assumes "obeys (\<lambda>s s'. grants s' = grants s) m" "obeys keeps_schema m"
  shows "obeys keeps_grants (inDb m)"
  using assms by (simp add: obeys_def inDb_def keeps_grants_def split_beta)

lemma finalize_Inl:
  assumes "finalizeProviderLogout V i g w = (Inl e, w')"
  shows "keeps_grants w w'"
proof -
  obtain r1 w1 where w1: "revokeOtherHydraSessions V (ActiveHydraSessionIDs g) [] w = (r1, w1)" by fastforce
  then have k: "keeps_grants w w1" by (intro aside_keeps_grants obeysD [OF revokeOther_aside])
  obtain r2 s2 where s2: "CompleteLogoutCorrelationGrant (sv_env V i) (GrantID g) (now_of V i) (store w1) = (r2, s2)" by fastforce
  obtain w3 where "note_event V (Suc i) (logoutActor g) AuditLogoutCompleted (SubjectID g) [(''grant_id'', DText (GrantID g)),
       (''provider_sessions'', DNumber (int (length (ActiveHydraSessionIDs g)))), (''attempts'', DNumber (CleanupAttempts g))]
       (w1\<lparr>store := s2\<rparr>) = (Inr (), w3)" using note_event_total by blast
  with assms w1 s2 have "w' = w1 \<or> (\<exists>e'. r2 = Inl e') \<and> w' = w1\<lparr>store := s2\<rparr>"
    by (cases r1; cases r2) (auto simp: finalizeProviderLogout_def bindS_def inDb_def)
  moreover have "s2 = store w1" if "r2 = Inl e'" for e' using CompleteLogout_Inl s2 that by blast
  ultimately have "w' = w1" by auto
  with k show ?thesis by simp
qed

lemma finalize_Inr:
  assumes "finalizeProviderLogout V i g w = (Inr x, w')" and "uuid_in (sv_env V i) (GrantID g) = Some u"
  shows "(\<exists>row \<in> set (grants (store w')). g_id row = u \<and> g_completed row = Some (now_of V i)) \<and>
    DeleteLogin ` set (ActiveHydraSessionIDs g) \<subseteq> set (acknowledged w')"
proof -
  from assms(1) obtain w1 s2 ds where w1: "revokeOtherHydraSessions V (ActiveHydraSessionIDs g) [] w = (Inr (), w1)"
    and c: "CompleteLogoutCorrelationGrant (sv_env V i) (GrantID g) (now_of V i) (store w1) = (Inr (), s2)"
    and n: "note_event V (Suc i) (logoutActor g) AuditLogoutCompleted (SubjectID g) ds (w1\<lparr>store := s2\<rparr>) = (Inr x, w')"
    unfolding finalizeProviderLogout_def by (auto simp: app_Inr)
  have ack: "DeleteLogin ` set (ActiveHydraSessionIDs g) \<subseteq> set (acknowledged w1)" using revokeOther_Inr [OF w1] by simp
  have a: "aside (w1\<lparr>store := s2\<rparr>) w'" using note_event_aside n by (rule obeysD)
  let ?f = "\<lambda>r. r\<lparr>g_completed := Some (now_of V i), g_claimed_until := None, g_last_error := []\<rparr>"
  from c assms(2) obtain r where "r \<in> set (grants (store w1))" "g_id r = u" "g_completed r = None"
    "grants s2 = upd (\<lambda>g. g_id g = u \<and> g_completed g = None) ?f (grants (store w1))"
    by (auto simp: CompleteLogoutCorrelationGrant_def io_Inr update_grant_Inr dest!: find_SomeD)
  then have "?f r \<in> set (grants s2)" "g_id (?f r) = u" by (auto simp: upd_def)
  then have "\<exists>row \<in> set (grants s2). g_id row = u \<and> g_completed row = Some (now_of V i)" by (intro bexI [of _ "?f r"]) simp_all
  with a ack show ?thesis by (auto simp: aside_def)
qed


lemma claimed_incomplete:
  assumes ok: "schema_ok s" and run: "ClaimAbandonedLogoutCorrelationGrant E now s = (Inr (Some g), s1)"
  shows "schema_ok s1 \<and> (\<exists>row \<in> set (grants s1). g_id row = GrantID g \<and> g_completed row = None \<and> g_created row \<le> now)"
proof -
  let ?P = "\<lambda>g. Some (g_id g) = abandoned_candidate E now (grants s)"
  from run have m: "Some g = map_option scan_grant (map_option (take_lease now) (find ?P (grants s)))"
    and s1: "s1 = s\<lparr>grants := upd ?P (take_lease now) (grants s)\<rparr>"
    and c: "grants_unique (upd ?P (take_lease now) (grants s))" "list_all grant_check (upd ?P (take_lease now) (grants s))"
    by (auto simp: ClaimAbandonedLogoutCorrelationGrant_def Let_def io_Inr put_Inr)
  from m obtain q where q: "find ?P (grants s) = Some q" "g = scan_grant (take_lease now q)"
    by (cases "find ?P (grants s)") auto
  have qs: "q \<in> set (grants s)" "?P q" using find_SomeD [OF q(1)] by auto
  obtain q' where "q' \<in> set (grants s)" "g_id q' = g_id q" "abandoned now q'"
    using abandoned_candidate_SomeD [of E now "grants s" "g_id q"] qs(2) by force
  then have ab: "abandoned now q" using schema_grant_id_unique [OF ok _ qs(1)] by metis
  have "grant_check q" using ok qs(1) by (simp add: schema_ok_def list_all_iff)
  with ab have "g_completed q = None" "g_created q \<le> now" by (auto simp: abandoned_def grant_check_def)
  moreover have "take_lease now q \<in> set (grants s1)" using qs by (auto simp: s1 upd_def)
  ultimately have "\<exists>row \<in> set (grants s1). g_id row = GrantID g \<and> g_completed row = None \<and> g_created row \<le> now"
    by (intro bexI [of _ "take_lease now q"]) (simp_all add: q(2) scan_grant_def take_lease_def)
  moreover have "schema_ok s1" using ok c by (simp add: s1 schema_ok_def)
  ultimately show ?thesis by simp
qed

lemma schedule_effect:
  assumes ok: "schema_ok (store w)" and row: "row \<in> set (grants (store w))" "g_id row = GrantID g" "g_completed row = None"
      "g_created row \<le> now_of V i"
    and E: "uuid_in (sv_env V i) (GrantID g) = Some (GrantID g)" "\<not> fault (sv_env V i) ''schedule logout correlation recovery''"
    and run: "scheduleLogoutRecovery V i g cause w = (r, w')"
  shows "\<exists>row' \<in> set (grants (store w')). g_id row' = GrantID g \<and> g_completed row' = None \<and> g_claimed_until row' = None \<and>
    g_cleanup_after row' = now_of V i + logoutRecoveryDelay (CleanupAttempts g + 1)"
proof -
  let ?t = "now_of V i + logoutRecoveryDelay (CleanupAttempts g + 1)"
  obtain r1 s1 where s1: "FailLogoutCorrelationGrant (sv_env V i) (GrantID g) cause ?t (store w) = (r1, s1)" by fastforce
  have "g_created row \<le> ?t" using row(4) logoutRecoveryDelay_bounds [of "CleanupAttempts g + 1"] by (simp add: second_def)
  from FailLogout_effect [OF ok row(1-3) this E s1] obtain row' where row': "row' \<in> set (grants s1)" "g_id row' = GrantID g"
    "g_completed row' = None" "g_cleanup_after row' = ?t" "g_claimed_until row' = None" by blast
  have "aside (w\<lparr>store := s1\<rparr>) w'"
    using run s1 unfolding scheduleLogoutRecovery_def Let_def
    by (intro obeysD [OF note_event_aside]) (simp add: bindS_def tryS_def inDb_def)
  with row' show ?thesis by (auto simp: aside_def)
qed

definition due_again :: "server \<Rightarrow> LogoutCorrelationGrant \<Rightarrow> grant_row \<Rightarrow> bool" where
  "due_again V g row \<longleftrightarrow> g_id row = GrantID g \<and> (\<forall>t. now_of V 2 + 160 * second \<le> t \<longrightarrow> abandoned t row) \<and>
     (\<forall>t. t < now_of V 2 + 5 * second \<longrightarrow> \<not> abandoned t row)"

lemma scheduled_again:
  assumes ok: "schema_ok s1" and row: "row \<in> set (grants s1)" "g_id row = GrantID g" "g_completed row = None"
      "g_created row \<le> now_of V 2"
    and ids: "\<And>i. uuid_in (sv_env V i) (GrantID g) = Some (GrantID g)"
    and sched: "\<not> fault (sv_env V 2) ''schedule logout correlation recovery''"
    and k: "keeps_grants (w\<lparr>store := s1\<rparr>) w2"
    and run: "bindS (scheduleLogoutRecovery V 2 g cause) (\<lambda>_. failS e) w2 = (r, w')"
  shows "\<exists>x \<in> set (grants (store w')). due_again V g x"
proof -
  obtain z w3 where z: "scheduleLogoutRecovery V 2 g cause w2 = (z, w3)" by fastforce
  with run have w': "w' = w3" by (cases z) (auto simp: bindS_def failS_def)
  have "schema_ok (store w2)" "row \<in> set (grants (store w2))"
    using k ok row by (auto simp: keeps_grants_def keeps_schema_def)
  from schedule_effect [OF this row(2-4) ids sched z] obtain x where
    x: "x \<in> set (grants (store w'))" "g_id x = GrantID g" "g_completed x = None" "g_claimed_until x = None"
      "g_cleanup_after x = now_of V 2 + logoutRecoveryDelay (CleanupAttempts g + 1)" unfolding w' by blast
  have "abandoned t x \<longleftrightarrow> now_of V 2 + logoutRecoveryDelay (CleanupAttempts g + 1) \<le> t" for t
    using x(3-5) by (simp add: abandoned_def lease_free_def)
  then have "due_again V g x"
    unfolding due_again_def using x(2) logoutRecoveryDelay_bounds [of "CleanupAttempts g + 1"] by auto
  with x(1) show ?thesis by blast
qed

lemma RecoverAbandonedLogout_run:
  assumes claim: "ClaimAbandonedLogoutCorrelationGrant (sv_env V 0) now (store w) = (Inr (Some g), s1)"
    and z1: "inDb (RevokeSessions (sv_env V 1) (ActiveBrowserSessionIDs g) now) (w\<lparr>store := s1\<rparr>) = (z1, w2)"
    and z2: "finalizeProviderLogout V 4 g w2 = (z2, w3)"
  shows "RecoverAbandonedLogout V now w = (case z1 of
      Inl e \<Rightarrow> bindS (scheduleLogoutRecovery V 2 g (error_text e)) (\<lambda>_. failS e) w2
    | Inr _ \<Rightarrow> (case z2 of Inl e \<Rightarrow> bindS (scheduleLogoutRecovery V 2 g (error_text e)) (\<lambda>_. failS e) w3 | Inr _ \<Rightarrow> (Inr (), w3)))"
proof -
  have c: "inDb (ClaimAbandonedLogoutCorrelationGrant (sv_env V 0) now) w = (Inr (Some g), w\<lparr>store := s1\<rparr>)"
    using claim by (simp add: inDb_def)
  note t1 = tryS_Inr [THEN iffD2, of _ _ z1 w2] and t2 = tryS_Inr [THEN iffD2, of _ _ z2 w3]
  show ?thesis unfolding RecoverAbandonedLogout_def
    apply (rule bindS_to, rule c, simp only: option.case, rule bindS_to, rule t1, rule z1)
    apply (cases z1; simp only: sum.case)
    apply (rule bindS_to, rule t2, rule z2)
    apply (cases z2; simp add: retS_def)
    done
qed

text \<open>C16. An abandoned logout is finished or retried. When the background recovery reports success for a claimed grant,
  the grant is completed and Hydra acknowledged the end of every provider session it lists. When it reports a
  failure, the grant is still open: it is due again after at least five seconds and at most 160, and then any
  worker may claim it.\<close>

theorem abandoned_logout_recovered:
  assumes ok: "schema_ok (store w)" and run: "RecoverAbandonedLogout V now w = (r, w')"
    and claim: "ClaimAbandonedLogoutCorrelationGrant (sv_env V 0) now (store w) = (Inr (Some g), s1)"
    and ids: "\<And>i. uuid_in (sv_env V i) (GrantID g) = Some (GrantID g)"
    and sched: "\<not> fault (sv_env V 2) ''schedule logout correlation recovery''" "now \<le> now_of V 2"
  shows "(r = Inr () \<longrightarrow> (\<exists>row \<in> set (grants (store w')). g_id row = GrantID g \<and> g_completed row \<noteq> None) \<and>
      DeleteLogin ` set (ActiveHydraSessionIDs g) \<subseteq> set (acknowledged w')) \<and>
    (\<forall>e. r = Inl e \<longrightarrow> (\<exists>row \<in> set (grants (store w')). due_again V g row))"
proof -
  let ?w1 = "w\<lparr>store := s1\<rparr>"
  from claimed_incomplete [OF ok claim] obtain row where ok1: "schema_ok s1"
    and row: "row \<in> set (grants s1)" "g_id row = GrantID g" "g_completed row = None" "g_created row \<le> now" by blast
  have retried: "\<exists>x \<in> set (grants (store w')). due_again V g x"
    if "keeps_grants ?w1 w2" "bindS (scheduleLogoutRecovery V 2 g cause) (\<lambda>_. failS e) w2 = (r, w')" for w2 cause e
    using scheduled_again [OF ok1 row(1-3) _ ids sched(1) that] row(4) sched(2) by simp
  obtain z1 w2 where z1: "inDb (RevokeSessions (sv_env V 1) (ActiveBrowserSessionIDs g) now) ?w1 = (z1, w2)" by fastforce
  have k2: "keeps_grants ?w1 w2"
    using z1 by (rule obeysD [OF inDb_keeps_grants [OF RevokeSessions_grants RevokeSessions_schema]])
  obtain z2 w3 where z2: "finalizeProviderLogout V 4 g w2 = (z2, w3)" by fastforce
  note step = RecoverAbandonedLogout_run [OF claim z1 z2]
  show ?thesis
  proof (cases z1)
    case (Inl e)
    with step run have "bindS (scheduleLogoutRecovery V 2 g (error_text e)) (\<lambda>_. failS e) w2 = (r, w')" by simp
    moreover from this have "r \<noteq> Inr ()" by (auto simp: bindS_def failS_def split: prod.splits sum.splits)
    ultimately show ?thesis using retried [OF k2] by blast
  next
    case (Inr u)
    note z1r = this
    show ?thesis
    proof (cases z2)
      case (Inl e)
      with step run z1r have s: "bindS (scheduleLogoutRecovery V 2 g (error_text e)) (\<lambda>_. failS e) w3 = (r, w')" by simp
      then have "r \<noteq> Inr ()" by (auto simp: bindS_def failS_def split: prod.splits sum.splits)
      moreover have "keeps_grants ?w1 w3" using k2 finalize_Inl z2 [unfolded Inl] kgr.R_trans by blast
      ultimately show ?thesis using retried s by blast
    next
      case (Inr v)
      with step run z1r have "r = Inr ()" "w' = w3" by simp_all
      with finalize_Inr [OF z2 [unfolded Inr] ids] show ?thesis by auto
    qed
  qed
qed


definition example_down_server :: server where
  "example_down_server = example_server\<lparr>sv_env := (\<lambda>_. example_env\<lparr>go_now := 120000000010\<rparr>), hydra_status := (\<lambda>_. None)\<rparr>"

definition example_logout_world :: world where
  "example_logout_world = example_world\<lparr>store := example_logout_db\<rparr>"

lemma store_example_logout: "store example_logout_world = example_logout_db"
  by (simp add: example_logout_world_def)

theorem abandoned_logout_recovered_witness:
  "\<exists>g s1 e w' row. ClaimAbandonedLogoutCorrelationGrant (sv_env example_down_server 0) 120000000010 example_logout_db = (Inr (Some g), s1) \<and>
     RecoverAbandonedLogout example_down_server 120000000010 example_logout_world = (Inl e, w') \<and>
     row \<in> set (grants (store w')) \<and> due_again example_down_server g row"
proof -
  let ?V = example_down_server
  let ?g = "scan_grant (take_lease 120000000010 (new_grant example_env example_raw ''u1'' example_grant 10))"
  have V: "sv_env ?V i = example_env\<lparr>go_now := 120000000010\<rparr>" "hydra_status ?V c = None" "now_of ?V i = 120000000010" for i c
    by (simp_all add: example_down_server_def now_of_def)
  have "fst (ClaimAbandonedLogoutCorrelationGrant (sv_env ?V 0) 120000000010 example_logout_db) = Inr (Some ?g)"
    by (simp add: V ClaimAbandonedLogoutCorrelationGrant_def io_defs Let_def abandoned_candidate_def example_abandoned
        example_logout_db_def sort_by_def put_defs grants_unique_def grant_check_def take_lease_def new_grant_def
        example_grant_def LogoutCorrelationLifetime_def duration_units)
       (simp add: abandoned_def lease_free_def)
  then obtain s1 where c: "ClaimAbandonedLogoutCorrelationGrant (sv_env ?V 0) 120000000010 example_logout_db = (Inr (Some ?g), s1)"
    by (metis prod.collapse)
  have g: "ActiveHydraSessionIDs ?g = [''h1'']" "uuid_in (sv_env ?V i) (GrantID ?g) = Some (GrantID ?g)" for i
    by (simp_all add: V scan_grant_def take_lease_def new_grant_def example_grant_def)
  obtain z1 w2 where z1: "inDb (RevokeSessions (sv_env ?V 1) (ActiveBrowserSessionIDs ?g) 120000000010) (example_logout_world\<lparr>store := s1\<rparr>) = (z1, w2)"
    by fastforce
  obtain e w3 where z2: "finalizeProviderLogout ?V 4 ?g w2 = (Inl e, w3)"
    by (simp add: finalizeProviderLogout_def bindS_def revokeOtherHydraSessions_def g(1) pool_result_def ends_session_def V)
  have "\<exists>e w'. RecoverAbandonedLogout ?V 120000000010 example_logout_world = (Inl e, w')"
    unfolding RecoverAbandonedLogout_run [OF c [folded store_example_logout] z1 z2]
    by (auto simp: bindS_def failS_def split: sum.splits prod.splits)
  then obtain e' w' where run: "RecoverAbandonedLogout ?V 120000000010 example_logout_world = (Inl e', w')" by blast
  have "schema_ok (store example_logout_world)" using example_logout_ok by (simp add: example_logout_world_def)
  from abandoned_logout_recovered [OF this run c [folded store_example_logout] g(2)] obtain row
    where "row \<in> set (grants (store w'))" "due_again ?V ?g row" by (auto simp: V)
  with c run show ?thesis by blast
qed

end
