(* ===== verification/Identity_Machine.thy ===== *)
theory Identity_Machine
  imports Validation_Queue Global_Logout
begin

text \<open>
  The service as a state machine. A step is one method of the identity store; the runs of \<open>store_step\<close> contain every
  interleaving of handlers, workers and replicas. The relation \<open>evolves\<close> (the schema and the validation queue
  stay sound, sessions only move towards their end) is a \<open>contract\<close> that every method keeps, and every handler
  is a run (\<open>runs_on\<close>), so the invariants hold in every state the service can reach.
\<close>

subsection \<open>Operations on sessions and logouts leave the validation queue alone\<close>

lemma pool_writes:
  "put_sessions ss x s = Inr (y, s') \<Longrightarrow> same_pool s s'"
  "put_hydra hs x s = Inr (y, s') \<Longrightarrow> same_pool s s'"
  "put_grants gs x s = Inr (y, s') \<Longrightarrow> same_pool s s'"
  by (auto simp: put_Inr same_pool_def)

lemma insert_hydra_pool: "insert_hydra h b now s = Inr (n, s') \<Longrightarrow> same_pool s s'"
  by (auto simp: insert_hydra_def same_pool_def put_Inr split: if_splits)

lemma upd_users_pool:
  "put_users (upd P f (users s)) x s = Inr (y, s') \<Longrightarrow>
    (\<And>u. u_is_validation (f u) = u_is_validation u \<and> u_validation_run (f u) = u_validation_run u) \<Longrightarrow> same_pool s s'"
  by (auto simp: put_Inr same_pool_def pool_upd)

lemmas pk_reads = logout_reads [THEN pk.keeps_readonly] pk.keeps_readonly [OF read_SessionPolicy_state]
  pk.keeps_readonly [OF uuid_array_state]

lemma revokeSessionSnapshot_pool: "obeys same_pool (revokeSessionSnapshot E ids now)"
  unfolding revokeSessionSnapshot_def by (intro pk.keeps_stmt) (erule pool_writes)

lemma UpdateSessionPolicy_pool: "obeys same_pool (UpdateSessionPolicy E p)"
  unfolding UpdateSessionPolicy_def
  by (intro pk.keeps pk.keeps_stmt) (auto simp: put_Inr Let_def same_pool_def split: option.splits if_splits)

lemma CreateSession_pool: "obeys same_pool (CreateSession E userID agent ip now)"
  unfolding CreateSession_def by (intro pk.keeps pk_reads pk.keeps_stmt) (auto simp: Let_def intro: pool_writes)

lemma currentUser_pool: "obeys same_pool (currentUser E raw now touch)"
  unfolding currentUser_def by (intro pk.keeps pk_reads pk.keeps_stmt) (auto intro: pool_writes)

lemma RecordHydraLoginSession_pool: "obeys same_pool (RecordHydraLoginSession E b h now)"
  unfolding RecordHydraLoginSession_def recordCorrelation_def
  by (intro pk.keeps pk_reads pk.keeps_stmt) (auto intro: pool_writes insert_hydra_pool)

lemma DisableUser_pool: "obeys same_pool (DisableUser E userID now)"
  unfolding DisableUser_def
  by (intro pk.keeps revokeSessionSnapshot_pool pk.keeps_stmt) (erule upd_users_pool, simp)

lemma EnableUser_pool: "obeys same_pool (EnableUser E userID now)"
  unfolding EnableUser_def by (intro pk.keeps pk.keeps_stmt) (erule upd_users_pool, simp)

lemma RevokeSession_pool: "obeys same_pool (RevokeSession E i now)"
  unfolding RevokeSession_def by (intro pk.keeps pk.keeps_stmt) (auto intro: pool_writes)

lemma RevokeSessions_pool: "obeys same_pool (RevokeSessions E ids now)"
  unfolding RevokeSessions_def by (intro pk.keeps pk_reads revokeSessionSnapshot_pool)

lemma RevokeUserSessions_pool: "obeys same_pool (RevokeUserSessions E userID now)"
  unfolding RevokeUserSessions_def by (intro pk.keeps pk_reads revokeSessionSnapshot_pool)

lemma update_grant_pool: "obeys same_pool (update_grant E l P f)"
  unfolding update_grant_def by (intro pk.keeps_stmt) (auto intro: pool_writes)

lemma logout_pool:
  "obeys same_pool (CreateLogoutCorrelationGrant E sub b x c now)"
  "obeys same_pool (ConsumeLogoutCorrelationGrant E raw sub now)"
  "obeys same_pool (ClaimAbandonedLogoutCorrelationGrant E now)"
  "obeys same_pool (ClaimConsumedLogoutCorrelationGrant E raw now)"
  "obeys same_pool (CompleteLogoutCorrelationGrant E i now)"
  "obeys same_pool (FailLogoutCorrelationGrant E i failure now)"
  "obeys same_pool (DeleteCompletedLogoutCorrelationGrants E cutoff limit)"
  unfolding CreateLogoutCorrelationGrant_def storeGrant_def ConsumeLogoutCorrelationGrant_def ClaimAbandonedLogoutCorrelationGrant_def
    ClaimConsumedLogoutCorrelationGrant_def CompleteLogoutCorrelationGrant_def FailLogoutCorrelationGrant_def
    DeleteCompletedLogoutCorrelationGrants_def
  subgoal by (intro pk.keeps pk_reads revokeSessionSnapshot_pool pk.keeps_stmt) (auto intro: pool_writes)
  subgoal by (intro pk.keeps update_grant_pool)
  subgoal by (intro pk.keeps pk.keeps_stmt) (auto simp: Let_def intro: pool_writes)
  subgoal by (intro pk.keeps update_grant_pool)
  subgoal by (intro pk.keeps update_grant_pool)
  subgoal by (intro pk.keeps update_grant_pool)
  subgoal by (intro pk.keeps pk.keeps_stmt) (auto simp: Let_def intro: pool_writes)
  done

subsection \<open>The validation queue leaves sessions alone\<close>

interpretation ses: contract "\<lambda>s s'. sessions s' = sessions (s :: db)"
  by unfold_locales auto

abbreviation same_sessions :: "db \<Rightarrow> db \<Rightarrow> bool" where
  "same_sessions \<equiv> (\<lambda>s s'. sessions s' = sessions s)"

lemmas ses_reads = requester_arg_state [THEN ses.keeps_readonly] load_state [THEN ses.keeps_readonly]
  find_app_state [THEN ses.keeps_readonly]

lemma delete_runs_sessions [simp]: "sessions (delete_runs P s) = sessions s"
  by (simp add: delete_runs_def)

lemma enqueue_each_sessions: "obeys same_sessions (enqueue_each E i all targets q now)"
  unfolding enqueue_each_def enqueueAppValidation_def enqueue_direction_def insert_run_def
  by (intro ses.keeps ses_reads ses.keeps_stmt) (auto simp: put_Inr split: if_splits)

lemma enqueue_all_sessions: "obeys same_sessions (enqueueAllAppValidations E i q now)"
  unfolding enqueueAllAppValidations_def by (intro ses.keeps ses_reads enqueue_each_sessions)

lemma catalog_sessions:
  "obeys same_sessions (EnqueueAppValidations E ref q now)"
  "obeys same_sessions (CreateManagedApp E a)"
  "obeys same_sessions (ReconcileBootstrapManagedApp E a)"
  "obeys same_sessions (ReconcileManagedAppOIDCContract E i h)"
  "obeys same_sessions (DeleteManagedApp E ref owned)"
  unfolding EnqueueAppValidations_def CreateManagedApp_def ReconcileBootstrapManagedApp_def ReconcileManagedAppOIDCContract_def
    DeleteManagedApp_def
  subgoal by (intro ses.keeps ses_reads enqueue_each_sessions)
  subgoal by (intro ses.keeps enqueue_all_sessions ses.keeps_stmt) (auto simp: Let_def put_Inr)
  subgoal by (intro ses.keeps enqueue_all_sessions ses.keeps_stmt) (auto simp: upsert_app_def Let_def put_Inr split: option.splits if_splits)
  subgoal by (intro ses.keeps ses_reads enqueue_all_sessions ses.keeps_stmt) (auto simp: put_Inr)
  subgoal by (intro ses.keeps ses_reads enqueue_all_sessions ses.keeps_stmt) (auto simp: delete_app_def Let_def)
  done

lemma reap_sessions: "obeys same_sessions (reap E now)"
  unfolding reap_def by (intro ses.keeps ses.keeps_stmt) (auto simp: put_Inr)

lemma ensure_slots_sessions: "obeys same_sessions (ensure_slots E i n e k slots)"
proof (induction slots arbitrary: i)
  case Nil
  show ?case unfolding ensure_slots.simps by (intro ses.keeps)
next
  case (Cons x xs)
  show ?case unfolding ensure_slots.simps ensure_slot_def
    by (intro ses.keeps ses.keeps_stmt Cons.IH) (auto simp: put_Inr Let_def)
qed

lemma insert_bootstraps_sessions: "obeys same_sessions (insert_bootstraps E i u t paths)"
proof (induction paths arbitrary: i)
  case Nil
  show ?case unfolding insert_bootstraps.simps by (intro ses.keeps)
next
  case (Cons x xs)
  show ?case unfolding insert_bootstraps.simps by (intro ses.keeps ses.keeps_stmt Cons.IH) (auto simp: put_Inr)
qed

lemma worker_sessions:
  "obeys same_sessions (ExpireAbandonedAppValidation E now)"
  "obeys same_sessions (ClaimAppValidation E now)"
  "obeys same_sessions (CompleteAppValidation E runID status failure now)"
  "obeys same_sessions (EnsureValidationUsers E username email)"
  unfolding ExpireAbandonedAppValidation_def ClaimAppValidation_def check_out_def CompleteAppValidation_def EnsureValidationUsers_def
  subgoal by (intro ses.keeps reap_sessions)
  subgoal by (intro ses.keeps reap_sessions ses.keeps_stmt) (auto simp: put_Inr)
  subgoal by (intro ses.keeps ses.keeps_stmt) (auto simp: put_Inr)
  subgoal by (intro ses.keeps ensure_slots_sessions)
  done

lemma insert_bootstraps_quiet: "obeys quiet (insert_bootstraps E i u t paths)"
proof (induction paths arbitrary: i)
  case Nil
  show ?case unfolding insert_bootstraps.simps by (intro qt.keeps)
next
  case (Cons x xs)
  show ?case unfolding insert_bootstraps.simps by (intro qt.keeps qt.keeps_stmt Cons.IH) (erule quiet_bootstraps)
qed

lemma schema_ok_bootstraps [simp]: "schema_ok (s\<lparr>bootstraps := xs\<rparr>) = schema_ok s"
  by (simp add: schema_ok_def)

lemma bootstrap_quiet:
  "obeys quiet (CreateValidationBrowserBootstraps E runID paths now)"
  "obeys quiet (ConsumeValidationBrowserBootstrap E raw now)"
  unfolding CreateValidationBrowserBootstraps_def ConsumeValidationBrowserBootstrap_def
  subgoal by (intro qt.keeps qt.keeps_stmt insert_bootstraps_quiet)
      (auto simp: quiet_def same_pool_def keeps_schema_def)
  subgoal by (intro qt.keeps qt.keeps_stmt) (auto simp: qt.R_refl split: option.splits intro: quiet_bootstraps)
  done


subsection \<open>The step relation\<close>

text \<open>
  One step is one method of the store, called by any handler, worker or replica with any arguments, at any time
  and with any failures. A handler is a sequence of such steps, so the runs of this relation contain every
  interleaving of concurrent handlers at the granularity of the store's methods.
\<close>

inductive store_step :: "db \<Rightarrow> db \<Rightarrow> bool" where
  "store_step s (snd (UpdateSessionPolicy E p s))"
| "store_step s (snd (CreateSession E userID agent ip now s))"
| "store_step s (snd (CurrentUser E raw now s))"
| "store_step s (snd (RecordHydraLoginSession E browser h now s))"
| "store_step s (snd (DisableUser E userID now s))"
| "store_step s (snd (EnableUser E userID now s))"
| "store_step s (snd (RevokeSession E i now s))"
| "store_step s (snd (RevokeSessions E ids now s))"
| "store_step s (snd (RevokeUserSessions E userID now s))"
| "store_step s (snd (CreateLogoutCorrelationGrant E sub browser h client now s))"
| "store_step s (snd (ConsumeLogoutCorrelationGrant E raw sub now s))"
| "store_step s (snd (ClaimAbandonedLogoutCorrelationGrant E now s))"
| "store_step s (snd (ClaimConsumedLogoutCorrelationGrant E raw now s))"
| "store_step s (snd (CompleteLogoutCorrelationGrant E i now s))"
| "store_step s (snd (FailLogoutCorrelationGrant E i failure now s))"
| "store_step s (snd (DeleteCompletedLogoutCorrelationGrants E cutoff limit s))"
| "store_step s (snd (CreatePasswordUser E username email password role s))"
| "store_step s (snd (EnsureBootstrapAdmin E email password s))"
| "store_step s (snd (CreateInvitation E email role requester now s))"
| "store_step s (snd (AcceptInvitation E raw username password now s))"
| "store_step s (snd (RevokeInvitation E i now s))"
| "store_step s (snd (FindOrCreateGitHubUser E githubID login email role s))"
| "store_step s (snd (FindOrCreateEntraUser E tenant ob username email verified s))"
| "store_step s (snd (EnsureInitialGitHubRoleMappings E developers admins s))"
| "store_step s (snd (CreateGitHubRoleMapping E kind target githubID role s))"
| "store_step s (snd (BindGitHubUserMapping E i githubID s))"
| "store_step s (snd (DeleteGitHubRoleMapping E i s))"
| "store_step s (snd (RecordAuditEvent E entry now s))"
| "store_step s (snd (CreateManagedApp E a s))"
| "store_step s (snd (ReconcileBootstrapManagedApp E a s))"
| "store_step s (snd (ReconcileManagedAppOIDCContract E i h s))"
| "store_step s (snd (DeleteManagedApp E ref owned s))"
| "store_step s (snd (EnqueueAppValidations E ref requester' now s))"
| "store_step s (snd (ClaimAppValidation E now s))"
| "store_step s (snd (CompleteAppValidation E runID status failure now s))"
| "store_step s (snd (ExpireAbandonedAppValidation E now s))"
| "store_step s (snd (EnsureValidationUsers E username email s))"
| "store_step s (snd (CreateValidationBrowserBootstraps E runID paths now s))"
| "store_step s (snd (ConsumeValidationBrowserBootstrap E raw now s))"

text \<open>What every step keeps.\<close>

definition evolves :: "db \<Rightarrow> db \<Rightarrow> bool" where
  "evolves s s' \<longleftrightarrow> keeps_queue s s' \<and> sessions_mono s s'"

interpretation ev: contract evolves
  by unfold_locales (auto simp: evolves_def qk.R_refl sm.R_refl intro: qk.R_trans sm.R_trans)

lemma evolves_pool: "obeys same_pool m \<Longrightarrow> obeys keeps_schema m \<Longrightarrow> obeys sessions_mono m \<Longrightarrow> obeys evolves m"
  by (simp add: obeys_def evolves_def same_pool_keeps)

lemma evolves_quiet: "obeys quiet m \<Longrightarrow> obeys evolves m"
  using quiet_keeps_queue [of m] quiet_sessions_mono [of m] by (simp add: obeys_def evolves_def)

lemma evolves_queue: "obeys keeps_queue m \<Longrightarrow> obeys same_sessions m \<Longrightarrow> obeys evolves m"
  by (simp add: obeys_def evolves_def sessions_mono_same)

lemma CurrentUser_evolves: "obeys evolves (CurrentUser E raw now)"
  unfolding CurrentUser_def by (rule evolves_pool [OF currentUser_pool currentUser_schema currentUser_mono])

lemmas session_evolves =
  evolves_pool [OF UpdateSessionPolicy_pool UpdateSessionPolicy_schema UpdateSessionPolicy_mono]
  evolves_pool [OF CreateSession_pool CreateSession_schema CreateSession_mono]
  CurrentUser_evolves
  evolves_pool [OF RecordHydraLoginSession_pool RecordHydraLoginSession_schema RecordHydraLoginSession_mono]
  evolves_pool [OF DisableUser_pool DisableUser_schema DisableUser_mono]
  evolves_pool [OF EnableUser_pool EnableUser_schema EnableUser_mono]
  evolves_pool [OF RevokeSession_pool RevokeSession_schema RevokeSession_mono]
  evolves_pool [OF RevokeSessions_pool RevokeSessions_schema RevokeSessions_mono]
  evolves_pool [OF RevokeUserSessions_pool RevokeUserSessions_schema RevokeUserSessions_mono]

lemmas logout_evolves =
  evolves_pool [OF logout_pool(1) CreateLogoutCorrelationGrant_mono(3,2)]
  evolves_pool [OF logout_pool(2) ConsumeLogoutCorrelationGrant_mono(4,3)]
  evolves_pool [OF logout_pool(3) ClaimAbandonedLogoutCorrelationGrant_mono(4,3)]
  evolves_pool [OF logout_pool(4) ClaimConsumedLogoutCorrelationGrant_mono(4,3)]
  evolves_pool [OF logout_pool(5) CompleteLogoutCorrelationGrant_mono(4,3)]
  evolves_pool [OF logout_pool(6) FailLogoutCorrelationGrant_mono(4,3)]
  evolves_pool [OF logout_pool(7) DeleteCompletedLogoutCorrelationGrants_mono(3,2)]

lemmas quiet_evolves = account_quiet [THEN evolves_quiet] EnsureInitialGitHubRoleMappings_quiet [THEN evolves_quiet]
  CreateGitHubRoleMapping_quiet [THEN evolves_quiet] BindGitHubUserMapping_quiet [THEN evolves_quiet]
  DeleteGitHubRoleMapping_quiet [THEN evolves_quiet] RecordAuditEvent_quiet [THEN evolves_quiet]
  bootstrap_quiet [THEN evolves_quiet]

lemmas queue_evolves =
  evolves_queue [OF EnqueueAppValidations_queue catalog_sessions(1)]
  evolves_queue [OF CreateManagedApp_queue catalog_sessions(2)]
  evolves_queue [OF ReconcileBootstrapManagedApp_queue catalog_sessions(3)]
  evolves_queue [OF ReconcileManagedAppOIDCContract_queue catalog_sessions(4)]
  evolves_queue [OF DeleteManagedApp_queue catalog_sessions(5)]
  evolves_queue [OF ExpireAbandonedAppValidation_queue worker_sessions(1)]
  evolves_queue [OF ClaimAppValidation_queue worker_sessions(2)]
  evolves_queue [OF CompleteAppValidation_queue worker_sessions(3)]
  evolves_queue [OF EnsureValidationUsers_queue worker_sessions(4)]

lemmas all_evolve = session_evolves logout_evolves quiet_evolves queue_evolves

lemma store_step_evolves: "store_step s s' \<Longrightarrow> evolves s s'"
  by (induction rule: store_step.induct) (rule all_evolve [unfolded obeys_def, THEN spec])+

abbreviation store_run :: "db \<Rightarrow> db \<Rightarrow> bool" where
  "store_run \<equiv> store_step\<^sup>*\<^sup>*"

lemma store_run_evolves: "store_run s s' \<Longrightarrow> evolves s s'"
  by (induction rule: rtranclp_induct) (auto intro: ev.R_refl ev.R_trans store_step_evolves)


subsection \<open>Handlers are runs of the store\<close>

definition runs_on :: "world \<Rightarrow> world \<Rightarrow> bool" where
  "runs_on w w' \<longleftrightarrow> store_run (store w) (store w')"

interpretation rn: contract runs_on
  by unfold_locales (auto simp: runs_on_def)

lemma runs_step: "(\<And>s. store_step s (snd (m s))) \<Longrightarrow> obeys runs_on (inDb m)"
  by (auto simp: obeys_def runs_on_def inDb_def split_beta)

lemma runs_read: "(\<And>s. snd (m s) = s) \<Longrightarrow> obeys runs_on (inDb m)"
  by (simp add: obeys_def runs_on_def inDb_def split_beta)

lemma runs_local: "(\<And>w. store (snd (m w)) = store w) \<Longrightarrow> obeys runs_on m"
  by (simp add: obeys_def runs_on_def)

lemma note_event_runs: "obeys runs_on (note_event V i who l sub ds)"
  unfolding note_event_def by (rule runs_step) (simp add: record_event_def store_step.intros)

lemma provider_runs:
  "obeys runs_on (call_hydra V c A)" "obeys runs_on (revokeOtherHydraSessions V ids ex)"
  by (rule runs_local; simp add: call_hydra_def revokeOtherHydraSessions_def Let_def split: option.split prod.split)+

lemma store_reads [simp]:
  "snd (UserHydraLoginSessionIDs E u s) = s" "snd (HydraLoginSessionIDs E i s) = s" "snd (SessionUserID E i s) = s"
  "snd (UserIDByEmail E email s) = s" "snd (GitHubAccountsPossiblyGrantedBy E m s) = s" "snd (ManagedAppByClientID E c s) = s"
  by (auto simp: UserHydraLoginSessionIDs_def HydraLoginSessionIDs_def SessionUserID_def UserIDByEmail_def
      GitHubAccountsPossiblyGrantedBy_def ManagedAppByClientID_def io_defs split: option.splits)

lemmas reads_run = store_reads [THEN runs_read] runs_read [OF UserByID_state]
lemmas handler_runs = rn.keeps keeps_try keeps_sum note_event_runs provider_runs reads_run

lemma subject_runs: "obeys runs_on (revokeHydraSubjectSessions V u)" "obeys runs_on (revokeHydraSessions V i u)"
  unfolding revokeHydraSessions_def revokeHydraSubjectSessions_def by (intro handler_runs)+

lemma account_runs:
  "obeys runs_on (createUser V username email password role who)"
  "obeys runs_on (disableUser V userID who)"
  "obeys runs_on (enableUser V userID who)"
  "obeys runs_on (claimInvitation V token username password who)"
  "obeys runs_on (revokeInvitation V i who)"
  unfolding createUser_def disableUser_def enableUser_def claimInvitation_def revokeInvitation_def requireUUID_def
  by (intro handler_runs subject_runs runs_step store_step.intros)+


lemma mail_runs: "obeys runs_on (\<lambda>w. (Inr (), w\<lparr>mailed := f w\<rparr>))"
  by (rule runs_local) simp

lemma createInvitation_runs: "obeys runs_on (createInvitation V email role who)"
  unfolding createInvitation_def by (intro handler_runs mail_runs runs_step store_step.intros)

lemma session_runs:
  "obeys runs_on (revokeSession V sessionID who)"
  "obeys runs_on (revokeUserSessions V userID email who)"
  unfolding revokeSession_def revokeUserSessions_def requireUUID_def
  by (intro handler_runs subject_runs runs_step store_step.intros)+

lemma checkedS_runs: "obeys runs_on (checkedS e)"
  by (rule runs_local) (simp add: checkedS_def failS_def retS_def split: option.split)

lemma end_all_runs: "obeys runs_on (end_all_sessions W i us who)"
proof (induction us arbitrary: i)
  case Nil
  show ?case unfolding end_all_sessions.simps by (intro handler_runs)
next
  case (Cons u us)
  show ?case unfolding end_all_sessions.simps by (intro handler_runs session_runs Cons.IH)
qed

lemma rule_runs:
  "obeys runs_on (createGitHubMapping V kind target role who)"
  "obeys runs_on (deleteGitHubMapping V W mappingID who)"
  unfolding createGitHubMapping_def deleteGitHubMapping_def requireUUID_def
  by (intro handler_runs checkedS_runs end_all_runs runs_step store_step.intros)+

lemma current_runs: "obeys runs_on (current V i cookie)"
  unfolding current_def by (intro handler_runs runs_step store_step.intros)

lemma startSession_runs: "obeys runs_on (startSession V cookie user agent address)"
  unfolding startSession_def by (intro handler_runs current_runs session_runs runs_step store_step.intros)

lemma recordSignIn_runs: "obeys runs_on (recordSignIn V i address l method n sub why)"
  unfolding recordSignIn_def by (intro handler_runs)

lemma passwordLogin_runs: "obeys runs_on (passwordLogin V cookie name password agent address)"
proof -
  have r: "runs_on w (snd (bindS (recordSignIn V i address l kind n sub why) (\<lambda>_. retS x) w))" for i l kind n sub why and x :: login_answer and w
    by (rule spec [OF iffD1 [OF obeys_def]]) (intro handler_runs recordSignIn_runs)
  have s: "runs_on w (snd (bindS (startSession V' cookie user agent address) (\<lambda>started.
              case started of None \<Rightarrow> retS SessionNotStarted
              | Some (raw, _) \<Rightarrow> bindS (recordSignIn V 2 address AuditSignInSucceeded ''password'' (Username user) (ID user) []) (\<lambda>_.
                  retS (SignedIn raw))) w))" for V' user w
    by (rule spec [OF iffD1 [OF obeys_def]]) (intro handler_runs startSession_runs recordSignIn_runs)
  show ?thesis
    unfolding obeys_def passwordLogin_def Let_def
    by (intro allI) (simp add: r s rn.R_refl split: prod.split option.split bool.split sum.split)
qed

lemma logout_step_runs:
  "obeys runs_on (scheduleLogoutRecovery V i g cause)" "obeys runs_on (finalizeProviderLogout V i g)"
  "obeys runs_on (hydraAcceptLogout V challenge)" "obeys runs_on (hydraRejectLogout V challenge)"
  "obeys runs_on (logoutApplication V i client)"
  unfolding scheduleLogoutRecovery_def finalizeProviderLogout_def hydraAcceptLogout_def hydraRejectLogout_def logoutApplication_def
  by (intro handler_runs runs_step store_step.intros)+

lemma completeLogout_runs: "obeys runs_on (completeLogout V g preserved challenge token)" "obeys runs_on (rejectMismatchedLogout V challenge)"
  unfolding completeLogout_def rejectMismatchedLogout_def by (intro handler_runs logout_step_runs)+

lemma cookieless_runs: "obeys runs_on (hydraLogoutWithoutBrowserCookie V request challenge)"
  unfolding hydraLogoutWithoutBrowserCookie_def
  by (intro handler_runs logout_step_runs completeLogout_runs runs_step store_step.intros)

lemma logout_runs:
  "obeys runs_on (logout V cookie client address)"
  "obeys runs_on (hydraLogout V challenge correlation)"
  "obeys runs_on (logoutComplete V completion)"
  "obeys runs_on (RecoverAbandonedLogout V now)"
  unfolding logout_def hydraLogout_def logoutComplete_def RecoverAbandonedLogout_def
  by (intro handler_runs current_runs session_runs logout_step_runs completeLogout_runs cookieless_runs runs_step store_step.intros)+


subsection \<open>Properties of the whole service\<close>

text \<open>The database as the migrations leave it.\<close>

definition fresh_db :: "time \<Rightarrow> db" where
  "fresh_db now = \<lparr>users = [], sessions = [], hydra_logins = [], grants = [], invitations = [], mappings = [], metadata = [],
     policy = Some \<lparr>p_absolute = 2592000, p_idle = 43200, p_oidc = 2592000, p_access = 900, p_id_token = 900,
       p_refresh = 2592000, p_updated = now\<rparr>, apps = [], runs = [], bootstraps = [], audits = []\<rparr>"

text \<open>C1. In every reachable database the schema's constraints hold and the validation queue is sound: at most three
  checks run, no application takes part in two of them, and each running check has exactly the validation accounts
  that are checked out for it.\<close>

theorem service_invariant:
  assumes "store_run (fresh_db t) s"
  shows "schema_ok s \<and> queue_ok s \<and> length (running s) \<le> 3"
proof -
  have "schema_ok (fresh_db t) \<and> queue_ok (fresh_db t)"
    by (simp add: fresh_db_def schema_ok_def queue_ok_def running_def users_unique_def users_check_def sessions_unique_def
        grants_unique_def invitations_unique_def mappings_unique_def runs_unique_def apps_unique_def)
  with store_run_evolves [OF assms] have "schema_ok s \<and> queue_ok s" by (simp add: evolves_def keeps_queue_def)
  then show ?thesis by (simp add: queue_ok_def appValidationConcurrencyLimit_def)
qed

text \<open>C2. A revoked session is dead for good: once a session is revoked, no sequence of operations, by any handler,
  worker or replica, makes its token authenticate again.\<close>

theorem revoked_session_stays_dead:
  assumes ok: "schema_ok s" "queue_ok s" and row: "row \<in> set (sessions s)" "s_revoked row \<noteq> None"
    and token: "s_token_hash row = Some (sha256 E raw)" and run: "store_run s s'"
  shows "\<exists>e. fst (currentUser E raw now touch s') = Inl e"
proof (rule ccontr)
  assume "\<not> ?thesis"
  then obtain usr r s'' where c: "currentUser E raw now touch s' = (Inr (usr, r), s'')"
    by (metis prod.collapse sumE surj_pair)
  from store_run_evolves [OF run] ok have ok': "schema_ok s'" and mono: "sessions_mono s s'"
    by (auto simp: evolves_def keeps_queue_def)
  from mono row obtain row' where row': "row' \<in> set (sessions s')" "s_token_hash row' = Some (sha256 E raw)" "s_revoked row' \<noteq> None"
    using token by (auto simp: sessions_mono_def session_le_def)
  obtain p :: SessionPolicy and x y where "active_session s' (sha256 E raw) now (BrowserIdleTimeout p) = Some (x, y)"
    using currentUser_active [OF c] by blast
  from active_session_SomeD [OF this] have "y \<in> set (sessions s')" "s_token_hash y = Some (sha256 E raw)" "s_revoked y = None"
    by (auto simp: live_def)
  with row' schema_token_unique [OF ok'] show False by metis
qed


subsection \<open>Witnesses\<close>

theorem service_invariant_witness:
  "queue_ok (snd (ClaimAppValidation example_env 7 (snd (CreatePasswordUser example_env ''carol'' ''carol@example.org''
     ''correct horse battery'' ''developer'' (fresh_db 0)))))"
proof -
  let ?s = "snd (CreatePasswordUser example_env ''carol'' ''carol@example.org'' ''correct horse battery'' ''developer'' (fresh_db 0))"
  have "store_run (fresh_db 0) ?s" by (intro r_into_rtranclp store_step.intros)
  moreover have "store_step ?s (snd (ClaimAppValidation example_env 7 ?s))" by (intro store_step.intros)
  ultimately have "store_run (fresh_db 0) (snd (ClaimAppValidation example_env 7 ?s))" by (rule rtranclp.rtrancl_into_rtrancl)
  from service_invariant [OF this] show ?thesis by blast
qed

theorem revoked_session_stays_dead_witness:
  "\<exists>e. fst (currentUser example_env ''s1'' 30 True (snd (EnableUser example_env ''u1'' 20 example_logout_db))) = Inl e"
proof -
  let ?r = "(example_session ''s1'' ''u1'')\<lparr>s_revoked := Some 10\<rparr>"
  have q: "queue_ok example_logout_db"
    by (simp add: queue_ok_def running_def example_logout_db_def example_db_def example_user_def)
  have r: "?r \<in> set (sessions example_logout_db)" "s_revoked ?r \<noteq> None" "s_token_hash ?r = Some (sha256 example_env ''s1'')"
    by (simp_all add: example_logout_db_def example_session_def example_env_def)
  have "store_run example_logout_db (snd (EnableUser example_env ''u1'' 20 example_logout_db))"
    by (intro r_into_rtranclp store_step.intros)
  from revoked_session_stays_dead [OF example_logout_ok q r this] show ?thesis .
qed

end
