(* ===== verification/Browser_Requests.thy ===== *)
theory Browser_Requests
  imports Global_Logout Base64_URL
begin

text \<open>
  What every browser request passes before a handler sees it (\<open>internal/app/app.go\<close>): the cross-site checks of
  \<open>csrfPosts\<close>, the caller's address \<open>clientIP\<close>, the local destinations \<open>relativeNext\<close>, \<open>strictRelativeNext\<close> and
  \<open>isOIDCNext\<close>, cookies, error pages and the sign-in page \<open>login\<close>.
\<close>

subsection \<open>Requests and answers\<close>

text \<open>The parts of a parsed \<open>url.URL\<close> the handlers read; \<open>wu_uri\<close> is \<open>RequestURI()\<close>, \<open>wu_query\<close> is \<open>Query().Get\<close>.\<close>

record web_url =
  wu_scheme :: string
  wu_host :: string
  wu_has_user :: bool
  wu_path :: string
  wu_raw_query :: string
  wu_fragment :: string
  wu_uri :: string
  wu_query :: "string \<Rightarrow> string"

text \<open>
  The deployment's configuration and, as parameters, the functions of Go's libraries whose results the handlers
  only pass on: URLs, query escaping and IP addresses (in canonical text).
\<close>

record site =
  PublicURLScheme :: string
  PublicURLHost :: string
  AllowInsecureCookies :: bool
  EntraEnabled :: bool
  EntraTenantID :: string
  ValidatorToken :: string
  web_Parse :: "string \<Rightarrow> web_url option"
  web_ParseRequestURI :: "string \<Rightarrow> web_url option"
  query_escape :: "string \<Rightarrow> string"
  split_host_port :: "string \<Rightarrow> string option"
  parse_ip :: "string \<Rightarrow> string option"
  loopback_ip :: "string \<Rightarrow> bool"
  private_ip :: "string \<Rightarrow> bool"
  link_local_ip :: "string \<Rightarrow> bool"

record web_request =
  wq_method :: string
  wq_path :: string
  wq_uri :: string
  wq_header :: "string \<Rightarrow> string"                    \<comment> \<open>\<open>Header.Get\<close>\<close>
  wq_authorization :: "string list"
  wq_cookies :: "(string \<times> string) list"
  wq_query :: "string \<Rightarrow> string"                     \<comment> \<open>\<open>URL.Query().Get\<close>\<close>
  wq_form :: "(string \<times> string list) list option"   \<comment> \<open>\<open>Form\<close>, or \<open>None\<close> when \<open>ParseForm\<close> fails\<close>
  wq_remote :: string
  wq_agent :: string

definition cookie_of :: "web_request \<Rightarrow> string \<Rightarrow> string option" where
  "cookie_of r name = map_of (wq_cookies r) name"

definition form_values :: "(string \<times> string list) list \<Rightarrow> string \<Rightarrow> string list" where
  "form_values f k = (case map_of f k of None \<Rightarrow> [] | Some vs \<Rightarrow> vs)"

definition form_get :: "(string \<times> string list) list \<Rightarrow> string \<Rightarrow> string" where
  "form_get f k = (case form_values f k of [] \<Rightarrow> [] | v # _ \<Rightarrow> v)"

record web_cookie =
  ck_name :: string
  ck_value :: string
  ck_path :: string
  ck_http_only :: bool
  ck_secure :: bool
  ck_max_age :: int

text \<open>An error page with its status and message, the sign-in page with its destination and message, the consent
  page with client and described scopes, a redirect, or the JSON and plain answers, which are their status.\<close>

datatype web_answer = ErrorPage nat string | SignInPage nat string string | ConsentPage string "(string \<times> string) list"
  | RedirectTo nat string | PlainAnswer nat | NotFound404

record web_response =
  answer :: web_answer
  new_cookies :: "web_cookie list"

abbreviation respond :: "web_answer \<Rightarrow> web_response" where
  "respond a \<equiv> \<lparr>answer = a, new_cookies = []\<rparr>"

definition with_cookies :: "web_cookie list \<Rightarrow> web_response \<Rightarrow> web_response" where
  "with_cookies cs p = p\<lparr>new_cookies := cs @ new_cookies p\<rparr>"

text \<open>\<open>expireCookieAtPath\<close>.\<close>

definition expireCookieAtPath :: "site \<Rightarrow> string \<Rightarrow> string \<Rightarrow> web_cookie" where
  "expireCookieAtPath S name path = \<lparr>ck_name = name, ck_value = [], ck_path = path, ck_http_only = True,
     ck_secure = (\<not> AllowInsecureCookies S), ck_max_age = -1\<rparr>"

definition callback_cookie :: "site \<Rightarrow> string \<Rightarrow> string \<Rightarrow> string \<Rightarrow> int \<Rightarrow> web_cookie" where
  "callback_cookie S name val path age = \<lparr>ck_name = name, ck_value = val, ck_path = path, ck_http_only = True,
     ck_secure = (\<not> AllowInsecureCookies S), ck_max_age = age\<rparr>"

definition browserSessionCookie :: string where "browserSessionCookie = ''shauth_session''"
definition csrfCookie :: string where "csrfCookie = ''shauth_csrf''"

text \<open>\<open>if err != nil { \<dots> return }\<close>: the error branch and the rest.\<close>

definition orElse :: "('s, 'a) io \<Rightarrow> (error \<Rightarrow> ('s, 'b) io) \<Rightarrow> ('a \<Rightarrow> ('s, 'b) io) \<Rightarrow> ('s, 'b) io" where
  "orElse m failed go = (\<lambda>s. case m s of (Inl e, s') \<Rightarrow> failed e s' | (Inr x, s') \<Rightarrow> go x s')"

definition pure :: "error + 'a \<Rightarrow> ('s, 'a) io" where
  "pure z = (\<lambda>s. (z, s))"

definition newState :: "server \<Rightarrow> nat \<Rightarrow> ('s, string) io" where
  "newState V i = randomToken (sv_env V i) 0"

subsection \<open>Local destinations\<close>

definition relativeNext :: "site \<Rightarrow> string \<Rightarrow> string" where
  "relativeNext S val =
     (if val = [] then ''/''
      else case web_Parse S val of None \<Rightarrow> ''/''
      | Some u \<Rightarrow> if wu_scheme u \<noteq> [] \<or> wu_host u \<noteq> [] \<or> take 1 (wu_path u) \<noteq> ''/'' \<or> take 2 (wu_path u) = ''//'' \<or>
          CHR 0x5C \<in> set (wu_path u) then ''/''
        else wu_uri u)"

definition strictRelativeNext :: "site \<Rightarrow> string \<Rightarrow> bool" where
  "strictRelativeNext S val \<longleftrightarrow> val \<noteq> [] \<and>
     (case web_ParseRequestURI S val of None \<Rightarrow> False
      | Some u \<Rightarrow> wu_scheme u = [] \<and> wu_host u = [] \<and> \<not> wu_has_user u \<and> wu_fragment u = [] \<and>
          take 1 (wu_path u) = ''/'' \<and> take 2 (wu_path u) \<noteq> ''//'' \<and> CHR 0x5C \<notin> set (wu_path u) \<and> wu_uri u = val)"

definition isOIDCNext :: "site \<Rightarrow> string \<Rightarrow> bool" where
  "isOIDCNext S val = (case web_Parse S val of None \<Rightarrow> False
     | Some u \<Rightarrow> wu_path u = ''/oauth/login'' \<or> wu_path u = ''/oauth/consent'')"

subsection \<open>The caller's address\<close>

definition peerIP :: "site \<Rightarrow> web_request \<Rightarrow> string option" where
  "peerIP S r = (case split_host_port S (wq_remote r) of Some host \<Rightarrow> parse_ip S host | None \<Rightarrow> parse_ip S (wq_remote r))"

definition isPrivatePeer :: "site \<Rightarrow> string \<Rightarrow> bool" where
  "isPrivatePeer S a \<longleftrightarrow> loopback_ip S a \<or> private_ip S a \<or> link_local_ip S a"

definition clientIP :: "site \<Rightarrow> web_request \<Rightarrow> string option" where
  "clientIP S r = (case peerIP S r of None \<Rightarrow> None
     | Some peer \<Rightarrow> if \<not> isPrivatePeer S peer then Some peer
         else let forwarded = wq_header r ''X-Forwarded-For'' in
           if forwarded = [] then Some peer
           else case parse_ip S (TrimSpace (last (split_on CHR '','' forwarded))) of
             None \<Rightarrow> Some peer | Some nearest \<Rightarrow> Some nearest)"

subsection \<open>Cross-site requests\<close>

definition starts :: "string \<Rightarrow> string \<Rightarrow> bool" where
  "starts p s \<longleftrightarrow> take (length p) s = p"

definition providerOwnedPath :: "string \<Rightarrow> bool" where
  "providerOwnedPath path \<longleftrightarrow> starts ''/oauth2/'' path \<or> path = ''/userinfo'' \<or> starts ''/.well-known/'' path"

definition isPublicOrigin :: "site \<Rightarrow> string \<Rightarrow> bool" where
  "isPublicOrigin S origin = (case web_Parse S origin of None \<Rightarrow> False
     | Some u \<Rightarrow> wu_scheme u = PublicURLScheme S \<and> wu_host u = PublicURLHost S \<and> wu_path u = [] \<and> wu_raw_query u = [] \<and>
         wu_fragment u = [] \<and> \<not> wu_has_user u)"

text \<open>The middleware: a refusal, or the handler with the CSRF cookie minted for it.\<close>

datatype csrf_outcome = Refused nat | Served "web_cookie option"

definition csrfPosts :: "server \<Rightarrow> site \<Rightarrow> web_request \<Rightarrow> csrf_outcome" where
  "csrfPosts V S r =
     (let origin = wq_header r ''Origin''; reads = (wq_method r = ''GET'' \<or> wq_method r = ''HEAD'') in
      if reads \<and> cookie_of r csrfCookie = None then
        (case newState V 0 () of (Inl _, _) \<Rightarrow> Refused 500
         | (Inr token, _) \<Rightarrow> Served (Some \<lparr>ck_name = csrfCookie, ck_value = token, ck_path = ''/'', ck_http_only = False,
             ck_secure = (PublicURLScheme S = ''https''), ck_max_age = 0\<rparr>))
      else if \<not> reads \<and> starts ''/internal/'' (wq_path r) \<and> wq_header r ''Authorization'' = [] \<and>
          origin \<noteq> [] \<and> \<not> isPublicOrigin S origin then Refused 403
      else if wq_method r = ''POST'' \<and> \<not> providerOwnedPath (wq_path r) \<and> \<not> starts ''/internal/'' (wq_path r) then
        (case wq_form r of None \<Rightarrow> Refused 400
         | Some f \<Rightarrow>
           (case cookie_of r csrfCookie of None \<Rightarrow> Refused 403
            | Some c \<Rightarrow>
              if c = [] \<or> c \<noteq> form_get f ''_csrf'' then Refused 403
              else if origin \<noteq> [] \<and> origin \<noteq> ''null'' then
                (if isPublicOrigin S origin then Served None else Refused 403)
              else Served None))
      else Served None)"

subsection \<open>The sign-in page\<close>

definition web_login :: "server \<Rightarrow> site \<Rightarrow> web_request \<Rightarrow> string \<Rightarrow> web_response app" where
  "web_login V S r pending_error =
     (let dest = relativeNext S (wq_query r ''next'');
          reauthenticate = (wq_query r ''reauthenticate'' = ''1'' \<and> isOIDCNext S dest) in
      orElse (current V 0 (cookie_of r browserSessionCookie))
        (\<lambda>_. retS (respond (SignInPage 200 dest pending_error)))
        (\<lambda>_. if \<not> reauthenticate then retS (respond (RedirectTo 303 ''/''))
             else retS (respond (SignInPage 200 dest []))))"

subsection \<open>Results\<close>

lemma orElse_run: "orElse m f g s = (case m s of (Inl e, t) \<Rightarrow> f e t | (Inr x, t) \<Rightarrow> g x t)"
  by (simp add: orElse_def)

lemma orElse_cases:
  assumes "orElse m f g s = (r, s')"
  obtains (failed) e t where "m s = (Inl e, t)" "f e t = (r, s')" | (went) x t where "m s = (Inr x, t)" "g x t = (r, s')"
  using assms by (auto simp: orElse_def split: prod.splits sum.splits)

lemma orElse_obeys:
  assumes "contract R" "obeys R m" "\<And>e. obeys R (f e)" "\<And>x. obeys R (g x)"
  shows "obeys R (orElse m f g)"
  unfolding obeys_def
proof
  fix s
  obtain z t where z: "m s = (z, t)" by fastforce
  then have "R s t" using assms(2) by (auto dest: obeysD)
  moreover have "R t (snd (orElse m f g s))"
    using assms(3,4) by (cases z) (auto simp: orElse_run z obeys_def)
  ultimately show "R s (snd (orElse m f g s))" by (rule contract.R_trans [OF assms(1)])
qed


subsection \<open>Whose request it is\<close>

lemma split_on_nonempty: "split_on c xs \<noteq> []"
  by (cases xs) (auto split: list.splits)

lemma split_on_append: "split_on c (xs @ c # ys) = split_on c xs @ split_on c ys"
proof (induction xs)
  case (Cons x xs)
  with split_on_nonempty [of c xs] show ?case by (cases "split_on c xs") auto
qed simp

lemma last_split_on: "c \<notin> set ys \<Longrightarrow> last (split_on c (xs @ c # ys)) = ys"
proof -
  assume "c \<notin> set ys"
  then have "split_on c ys = [ys]" by (induction ys) auto
  then show ?thesis by (simp add: split_on_append)
qed

text \<open>The address recorded against a session is one the caller cannot choose: a public peer is recorded as it is,
  whatever headers it sends, and behind the private gateway it is the entry the gateway appended, whatever the caller
  put before it.\<close>

theorem client_address_not_forgeable:
  assumes "peerIP S r = Some peer"
  shows "(\<not> isPrivatePeer S peer \<longrightarrow> clientIP S r = Some peer) \<and>
    (\<forall>claimed observed a. isPrivatePeer S peer \<longrightarrow> wq_header r ''X-Forwarded-For'' = claimed @ '','' @ observed \<longrightarrow>
       CHR '','' \<notin> set observed \<longrightarrow> parse_ip S (TrimSpace observed) = Some a \<longrightarrow> clientIP S r = Some a)"
  using assms last_split_on [of "CHR '',''"] by (auto simp: clientIP_def Let_def)

text \<open>A page of another site cannot change anything with a person's cookies: a request whose \<open>Origin\<close> is another
  site's is refused when it is a form submission of the service or reaches the machine interfaces without a bearer
  credential, and a form submission is served only with the token of its own CSRF cookie.\<close>

theorem cross_site_requests_refused:
  assumes "wq_method r \<noteq> ''GET''" "wq_method r \<noteq> ''HEAD''"
  shows "(\<not> isPublicOrigin S (wq_header r ''Origin'') \<longrightarrow> wq_header r ''Origin'' \<notin> {[], ''null''} \<longrightarrow>
      (if starts ''/internal/'' (wq_path r) then wq_header r ''Authorization'' = [] else wq_method r = ''POST'' \<and> \<not> providerOwnedPath (wq_path r)) \<longrightarrow>
      (\<exists>n. csrfPosts V S r = Refused n)) \<and>
    (\<forall>x. csrfPosts V S r = Served x \<longrightarrow> wq_method r = ''POST'' \<longrightarrow> \<not> providerOwnedPath (wq_path r) \<longrightarrow> \<not> starts ''/internal/'' (wq_path r) \<longrightarrow>
      x = None \<and> (\<exists>c f. cookie_of r csrfCookie = Some c \<and> c \<noteq> [] \<and> wq_form r = Some f \<and> form_get f ''_csrf'' = c))"
proof -
  have reads: "(wq_method r = ''GET'' \<or> wq_method r = ''HEAD'') = False" using assms by simp
  show ?thesis
    unfolding csrfPosts_def Let_def reads by (auto split: option.splits if_splits)
qed

subsection \<open>An example deployment\<close>

definition example_web_url :: web_url where
  "example_web_url = \<lparr>wu_scheme = ''https'', wu_host = ''hydra.example.org'', wu_has_user = False, wu_path = ''/oauth2/auth'',
     wu_raw_query = ''prompt=login&max_age=100'', wu_fragment = [], wu_uri = ''/oauth2/auth?prompt=login&max_age=100'',
     wu_query = (\<lambda>k. if k = ''prompt'' then ''login'' else if k = ''max_age'' then ''100'' else [])\<rparr>"

definition example_site :: site where
  "example_site = \<lparr>PublicURLScheme = ''https'', PublicURLHost = ''id.example.org'', AllowInsecureCookies = False, EntraEnabled = False,
     EntraTenantID = [], ValidatorToken = [], web_Parse = (\<lambda>_. Some example_web_url), web_ParseRequestURI = (\<lambda>_. None),
     query_escape = (\<lambda>x. x), split_host_port = (\<lambda>_. None), parse_ip = Some, loopback_ip = (\<lambda>_. False),
     private_ip = (\<lambda>a. take 3 a = ''10.''), link_local_ip = (\<lambda>_. False)\<rparr>"

end
