(* ===== verification/OAuth_Flow.thy ===== *)
theory OAuth_Flow
  imports Browser_Requests
begin

text \<open>
  Signing in to an application (\<open>internal/app/app.go\<close>): Hydra sends the browser to \<open>hydraLogin\<close> and then to
  \<open>hydraConsent\<close> and \<open>hydraConsentAccept\<close>. What Hydra knows of a challenge and where it sends the browser next are
  parameters; what it was told is in the world's list of acknowledged calls. Each handler is split where it waits for
  Hydra to accept, so that its properties hold whatever other requests do in the meantime.
\<close>

subsection \<open>Hydra's requests\<close>

record hydraLoginRequest =
  lq_SessionID :: string
  lq_Subject :: string
  lq_Skip :: bool
  lq_RequestURL :: string

record hydraConsentRequest =
  cq_ClientID :: string
  cq_ClientName :: string
  cq_Subject :: string
  cq_Scopes :: "string list"
  cq_LoginSessionID :: string

text \<open>Hydra's answers, decoded: \<open>redirect_to\<close> is \<open>None\<close> when the body is not JSON.\<close>

record hydra_flow =
  login_request :: "string \<Rightarrow> hydraLoginRequest reply"
  consent_request :: "string \<Rightarrow> hydraConsentRequest reply"
  redirect_to :: "hydra_call \<Rightarrow> string option"

definition read_hydra :: "string \<Rightarrow> 'a reply \<Rightarrow> error + 'a" where
  "read_hydra what r = (case r of NoReply \<Rightarrow> Inl (Failed ''no answer from Ory Hydra'')
     | Reply st body \<Rightarrow> if st \<noteq> 200 then Inl (Failed (what @ '' returned HTTP '' @ decimal st))
         else (case body of None \<Rightarrow> Inl (Failed (''decode '' @ what)) | Some x \<Rightarrow> Inr x))"

definition load_hydraLoginRequest :: "hydra_flow \<Rightarrow> string \<Rightarrow> ('s, hydraLoginRequest) io" where
  "load_hydraLoginRequest F challenge =
     bindS (guardS (challenge \<noteq> []) (Failed ''missing OAuth login challenge'')) (\<lambda>_.
     bindS (pure (read_hydra ''Ory Hydra login request'' (login_request F challenge))) (\<lambda>q.
     bindS (guardS (lq_SessionID q \<noteq> []) (Failed ''Ory Hydra login request has no session ID'')) (\<lambda>_.
     retS q)))"

definition load_hydraConsentRequest :: "hydra_flow \<Rightarrow> string \<Rightarrow> ('s, hydraConsentRequest) io" where
  "load_hydraConsentRequest F challenge =
     bindS (pure (read_hydra ''Hydra consent request'' (consent_request F challenge))) (\<lambda>q.
     bindS (guardS (cq_ClientID q \<noteq> [] \<and> cq_Scopes q \<noteq> []) (Failed ''Hydra consent request is missing a client or scopes'')) (\<lambda>_.
     retS q))"

text \<open>\<open>hydraAccept\<close>, whose path and payload are the call.\<close>

definition hydraAccept :: "server \<Rightarrow> hydra_flow \<Rightarrow> string \<Rightarrow> hydra_call \<Rightarrow> string app" where
  "hydraAccept V F challenge c =
     bindS (guardS (challenge \<noteq> []) (Failed ''missing OAuth challenge'')) (\<lambda>_.
     bindS (call_hydra V c {200}) (\<lambda>_.
     case redirect_to F c of None \<Rightarrow> failS (Failed ''decode Hydra answer'')
     | Some target \<Rightarrow> bindS (guardS (target \<noteq> []) (Failed ''Hydra did not return redirect_to'')) (\<lambda>_. retS target)))"

subsection \<open>Fresh sign-ins\<close>

text \<open>\<open>strings.Fields\<close>.\<close>

lemma space_encodings_nonempty: "[] \<notin> set space_encodings"
  by (simp add: space_encodings_def)

function fields_from :: "string \<Rightarrow> string \<Rightarrow> string list" where
  "fields_from acc [] = (if acc = [] then [] else [rev acc])"
| "fields_from acc (c # cs) = (case strip_one space_encodings (c # cs) of
       Some r \<Rightarrow> (if acc = [] then [] else [rev acc]) @ fields_from [] r
     | None \<Rightarrow> fields_from (c # acc) cs)"
  by pat_completeness auto
termination
  by (relation "measure (\<lambda>(acc, s). length s)") (auto dest: strip_one_length [OF _ space_encodings_nonempty])

definition Fields :: "string \<Rightarrow> string list" where
  "Fields s = fields_from [] s"

text \<open>\<open>strconv.ParseInt(s, 10, 64)\<close>.\<close>

definition digit_value :: "char \<Rightarrow> nat" where
  "digit_value c = of_char c - 48"

definition is_digit :: "char \<Rightarrow> bool" where
  "is_digit c \<longleftrightarrow> (48::nat) \<le> of_char c \<and> of_char c \<le> (57::nat)"

definition number :: "string \<Rightarrow> nat" where
  "number s = foldl (\<lambda>n c. 10 * n + digit_value c) 0 s"

definition ParseInt64 :: "string \<Rightarrow> int option" where
  "ParseInt64 s =
     (let (sign, ds) = (case s of [] \<Rightarrow> (1, []) | c # cs \<Rightarrow> if c = CHR ''-'' then (-1, cs) else if c = CHR ''+'' then (1, cs) else (1, s));
          n = sign * int (number ds) in
      if ds = [] \<or> \<not> list_all is_digit ds \<or> n < - (2 ^ 63) \<or> n \<ge> 2 ^ 63 then None else Some n)"

text \<open>The bound \<open>maxAge\<close> is \<open>-1\<close> when there is none; the product with \<open>time.Second\<close> wraps around.\<close>

definition reauthenticationDemand :: "site \<Rightarrow> string \<Rightarrow> bool \<times> duration" where
  "reauthenticationDemand S requestURL =
     (case web_Parse S requestURL of None \<Rightarrow> (False, -1)
      | Some u \<Rightarrow>
        (''login'' \<in> set (Fields (wu_query u ''prompt'')),
         (let raw = wu_query u ''max_age'' in
          if raw = [] then -1
          else case ParseInt64 raw of None \<Rightarrow> -1
          | Some seconds \<Rightarrow> if seconds \<ge> 0 then wrap64 (seconds * second) else -1)))"

definition reauthenticationCookie :: string where "reauthenticationCookie = ''shauth_reauthentication''"

definition digest_hex :: "env \<Rightarrow> string \<Rightarrow> string" where
  "digest_hex E s = hex_encode (map of_char (sha256 E s))"

definition reauthenticationMarker :: "env \<Rightarrow> string \<Rightarrow> time \<Rightarrow> string" where
  "reauthenticationMarker E challenge t = digest_hex E challenge @ ''.'' @ int_text t"

text \<open>\<open>strings.Cut(s, ".")\<close>.\<close>

fun Cut :: "char \<Rightarrow> string \<Rightarrow> string \<times> string \<times> bool" where
  "Cut c [] = ([], [], False)"
| "Cut c (x # xs) = (if x = c then ([], xs, True) else case Cut c xs of (p, q, found) \<Rightarrow> (x # p, q, found))"

definition reauthenticatedSince :: "env \<Rightarrow> string \<Rightarrow> string \<Rightarrow> time \<Rightarrow> bool" where
  "reauthenticatedSince E cookieValue challenge sessionCreated =
     (case Cut CHR ''.'' cookieValue of (prefix, nanos, found) \<Rightarrow>
        if \<not> found \<or> prefix \<noteq> digest_hex E challenge then False
        else case ParseInt64 nanos of None \<Rightarrow> False | Some issued \<Rightarrow> sessionCreated > issued)"

subsection \<open>Login challenges\<close>

text \<open>The decision on a login that Hydra has not remembered: \<open>satisfied\<close>.\<close>

definition fresh_enough :: "server \<Rightarrow> site \<Rightarrow> web_request \<Rightarrow> string \<Rightarrow> session_row \<Rightarrow> hydraLoginRequest \<Rightarrow> bool" where
  "fresh_enough V S r challenge session q =
     (case reauthenticationDemand S (lq_RequestURL q) of (promptLogin, maxAge) \<Rightarrow>
        (promptLogin \<longrightarrow> (case cookie_of r reauthenticationCookie of None \<Rightarrow> False
           | Some c \<Rightarrow> reauthenticatedSince (sv_env V 2) c challenge (s_created session))) \<and>
        \<not> (maxAge \<ge> 0 \<and> now_of V 3 - s_created session > maxAge))"

text \<open>What is carried from Hydra's acceptance to the correlation: the session, Hydra's own session, the browser's
  next stop and the cookies of the answer.\<close>

record accepted_login =
  al_session :: string
  al_provider_session :: string
  al_redirect :: string
  al_cookies :: "web_cookie list"

definition accept_login ::
  "server \<Rightarrow> site \<Rightarrow> hydra_flow \<Rightarrow> web_request \<Rightarrow> (web_response + accepted_login) app" where
  "accept_login V S F r =
     (let challenge = wq_query r ''login_challenge''; page = (\<lambda>st m. retS (Inl (respond (ErrorPage st m)))) in
      if challenge = [] then page 400 ''missing login_challenge''
      else
      orElse (current V 0 (cookie_of r browserSessionCookie))
        (\<lambda>_. retS (Inl (respond (RedirectTo 303 (''/login?next='' @ query_escape S (wq_uri r)))))) (\<lambda>(user, session).
      orElse (inDb (read_SessionPolicy (sv_env V 1))) (\<lambda>_. page 500 ''could not load session policy'') (\<lambda>p.
      orElse (load_hydraLoginRequest F challenge) (\<lambda>_. page 502 ''could not load OAuth login request'') (\<lambda>q.
      if lq_Skip q \<and> lq_Subject q \<noteq> ID user
      then page 403 ''This sign-in request belongs to a different account. Return to the application and sign in again.''
      else if \<not> lq_Skip q \<and> \<not> fresh_enough V S r challenge session q then
        retS (Inl \<lparr>answer = RedirectTo 303 (''/login?reauthenticate=1&next='' @ query_escape S (wq_uri r)),
          new_cookies = [callback_cookie S reauthenticationCookie (reauthenticationMarker (sv_env V 4) challenge (now_of V 4))
            ''/oauth/login'' 600]\<rparr>)
      else
        let cs = (if lq_Skip q then [] else [expireCookieAtPath S reauthenticationCookie ''/oauth/login'']) in
        orElse (hydraAccept V F challenge (AcceptLogin challenge (ID user) (s_id session) (whole_seconds (OIDCSessionLifetime p))))
          (\<lambda>_. retS (Inl (with_cookies cs (respond (ErrorPage 502 ''could not complete OAuth login''))))) (\<lambda>redirect.
        retS (Inr \<lparr>al_session = s_id session, al_provider_session = lq_SessionID q, al_redirect = redirect, al_cookies = cs\<rparr>))))))"

definition correlate_login :: "server \<Rightarrow> accepted_login \<Rightarrow> web_response app" where
  "correlate_login V a =
     orElse (inDb (RecordHydraLoginSession (sv_env V 5) (al_session a) (al_provider_session a) (now_of V 5)))
       (\<lambda>_. bindS (tryS (revokeHydraLoginSession V (al_provider_session a))) (\<lambda>_.
         retS (with_cookies (al_cookies a) (respond (ErrorPage 500 ''could not correlate OAuth login session'')))))
       (\<lambda>_. retS (with_cookies (al_cookies a) (respond (RedirectTo 302 (al_redirect a)))))"

definition hydraLogin :: "server \<Rightarrow> site \<Rightarrow> hydra_flow \<Rightarrow> web_request \<Rightarrow> web_response app" where
  "hydraLogin V S F r = bindS (accept_login V S F r) (\<lambda>x. case x of Inl p \<Rightarrow> retS p | Inr a \<Rightarrow> correlate_login V a)"

subsection \<open>Consent\<close>

definition consentSubjectMismatch :: string where
  "consentSubjectMismatch = ''This authorization request was started by a different account than the one signed in now. Return to the application and sign in again.''"

definition describeScopes :: "string list \<Rightarrow> (string \<times> string) list" where
  "describeScopes = map (\<lambda>scope. (scope,
     if scope = ''openid'' then ''Confirm who you are with your Shauth account.''
     else if scope = ''profile'' then ''See your username.''
     else if scope = ''email'' then ''See your email address and whether it is verified.''
     else if scope = ''offline_access'' then ''Stay connected after you close the application, until you sign out.''
     else ''An application-specific permission.''))"

text \<open>\<open>grantableScopes\<close>: a submitted scope is kept when it was requested and not yet seen.\<close>

definition grantableScopes :: "string list \<Rightarrow> string list \<Rightarrow> string list" where
  "grantableScopes requested submitted =
     fold (\<lambda>scope granted. if scope \<in> set requested \<and> scope \<notin> set granted then granted @ [scope] else granted) submitted []"

definition acceptHydraConsent :: "server \<Rightarrow> hydra_flow \<Rightarrow> nat \<Rightarrow> string \<Rightarrow> string list \<Rightarrow> User \<Rightarrow> string app" where
  "acceptHydraConsent V F i challenge scopes user =
     bindS (inDb (read_SessionPolicy (sv_env V i))) (\<lambda>p.
     hydraAccept V F challenge
       (AcceptConsent challenge scopes (oidcIdentityClaims user) (whole_seconds (OIDCSessionLifetime p))))"

record accepted_consent =
  ac_user :: string
  ac_session :: string
  ac_provider_session :: string
  ac_redirect :: string

text \<open>After the acceptance: the session must still be there, or the provider session is revoked.\<close>

definition confirm_consent :: "server \<Rightarrow> accepted_consent \<Rightarrow> web_response app" where
  "confirm_consent V a =
     orElse (inDb (RevalidateSession (sv_env V 3) (ac_user a) (ac_session a) (now_of V 3)))
       (\<lambda>_. bindS (if ac_provider_session a \<noteq> [] then bindS (tryS (revokeHydraLoginSession V (ac_provider_session a))) (\<lambda>_. retS ())
           else retS ()) (\<lambda>_.
         retS (respond (ErrorPage 409 ''browser session ended before OAuth consent completed''))))
       (\<lambda>_. retS (respond (RedirectTo 302 (ac_redirect a))))"

definition accept_managed_consent ::
  "server \<Rightarrow> site \<Rightarrow> hydra_flow \<Rightarrow> web_request \<Rightarrow> (web_response + accepted_consent) app" where
  "accept_managed_consent V S F r =
     (let page = (\<lambda>st m. retS (Inl (respond (ErrorPage st m)))) in
      orElse (current V 0 (cookie_of r browserSessionCookie))
        (\<lambda>_. retS (Inl (respond (RedirectTo 303 (''/login?next='' @ query_escape S (wq_uri r)))))) (\<lambda>(user, session).
      let challenge = wq_query r ''consent_challenge'' in
      if challenge = [] then page 400 ''missing consent_challenge''
      else
      orElse (load_hydraConsentRequest F challenge)
        (\<lambda>_. page 502 ''The application's authorization request could not be loaded. Return to the application and try again.'') (\<lambda>consent.
      if cq_Subject consent \<noteq> ID user then page 403 consentSubjectMismatch
      else
      orElse (inDb (IsManagedOIDCClient (sv_env V 1) (cq_ClientID consent))) (\<lambda>_. page 500 ''could not identify the connected application'') (\<lambda>managed.
      if managed then
        orElse (acceptHydraConsent V F 2 challenge (cq_Scopes consent) user) (\<lambda>_. page 502 ''could not complete OAuth consent'') (\<lambda>redirect.
        retS (Inr \<lparr>ac_user = ID user, ac_session = s_id session, ac_provider_session = cq_LoginSessionID consent, ac_redirect = redirect\<rparr>))
      else retS (Inl (respond (ConsentPage (if cq_ClientName consent = [] then cq_ClientID consent else cq_ClientName consent)
        (describeScopes (cq_Scopes consent)))))))))"

definition hydraConsent :: "server \<Rightarrow> site \<Rightarrow> hydra_flow \<Rightarrow> web_request \<Rightarrow> web_response app" where
  "hydraConsent V S F r = bindS (accept_managed_consent V S F r) (\<lambda>x. case x of Inl p \<Rightarrow> retS p | Inr a \<Rightarrow> confirm_consent V a)"

definition accept_explicit_consent ::
  "server \<Rightarrow> hydra_flow \<Rightarrow> web_request \<Rightarrow> (web_response + accepted_consent) app" where
  "accept_explicit_consent V F r =
     (let page = (\<lambda>st m. retS (Inl (respond (ErrorPage st m)))) in
      orElse (current V 0 (cookie_of r browserSessionCookie)) (\<lambda>_. retS (Inl (respond (RedirectTo 303 ''/login'')))) (\<lambda>(user, session).
      case wq_form r of None \<Rightarrow> page 400 ''The form could not be read. Go back and try again.''
      | Some f \<Rightarrow>
      let challenge = form_get f ''challenge'' in
      orElse (load_hydraConsentRequest F challenge)
        (\<lambda>_. page 502 ''The application's authorization request could not be loaded. Return to the application and try again.'') (\<lambda>consent.
      if cq_Subject consent \<noteq> ID user then page 403 consentSubjectMismatch
      else if form_get f ''decision'' = ''deny'' then
        orElse (hydraAccept V F challenge (RejectConsent challenge))
          (\<lambda>_. page 502 ''Your refusal could not be sent to the application. Close this page; no access was granted.'')
          (\<lambda>redirect. retS (Inl (respond (RedirectTo 302 redirect))))
      else
        let scopes = grantableScopes (cq_Scopes consent) (form_values f ''scope'') in
        if scopes = [] then page 400 ''No requested permission was granted. Return to the application and try again.''
        else
        orElse (acceptHydraConsent V F 2 challenge scopes user) (\<lambda>_. page 502 ''could not complete OAuth consent'') (\<lambda>redirect.
        retS (Inr \<lparr>ac_user = ID user, ac_session = s_id session, ac_provider_session = cq_LoginSessionID consent, ac_redirect = redirect\<rparr>)))))"

definition hydraConsentAccept :: "server \<Rightarrow> hydra_flow \<Rightarrow> web_request \<Rightarrow> web_response app" where
  "hydraConsentAccept V F r = bindS (accept_explicit_consent V F r) (\<lambda>x. case x of Inl p \<Rightarrow> retS p | Inr a \<Rightarrow> confirm_consent V a)"

subsection \<open>Error codes\<close>

text \<open>\<open>^[a-z_]{1,64}$\<close>.\<close>

definition oauthErrorCodePattern :: "string \<Rightarrow> bool" where
  "oauthErrorCodePattern s \<longleftrightarrow> 1 \<le> length s \<and> length s \<le> 64 \<and> list_all (\<lambda>c. CHR ''a'' \<le> c \<and> c \<le> CHR ''z'' \<or> c = CHR ''_'') s"

text \<open>\<open>hydraError\<close>: the code the page shows and its message.\<close>

definition hydraError :: "web_request \<Rightarrow> string \<times> web_response" where
  "hydraError r =
     (let raw = TrimSpace (wq_query r ''error''); code = (if oauthErrorCodePattern raw then raw else []);
          message = (if code = ''access_denied''
              then ''Authorization was not granted. You can return to the connected application and try again.''
            else if code \<in> {''invalid_client'', ''invalid_request'', ''invalid_scope'', ''unsupported_response_type'', ''unauthorized_client''}
              then ''The connected application sent an invalid authorization request. Contact its administrator if the problem continues.''
            else if code \<in> {''server_error'', ''temporarily_unavailable''}
              then ''The authorization service is temporarily unavailable. Please try again shortly.''
            else ''The authorization request could not be completed. Return to the connected application and try again.'')
      in (code, respond (ErrorPage 400 message)))"


subsection \<open>Numbers and markers\<close>

lemma number_snoc: "number (xs @ [c]) = 10 * number xs + digit_value c"
  by (simp add: number_def)

lemma decimal_number: "number (decimal n) = n \<and> list_all is_digit (decimal n) \<and> decimal n \<noteq> []"
proof (induction n rule: decimal.induct)
  case (1 n)
  have digit: "digit_value (char_of (48 + k)) = k \<and> is_digit (char_of (48 + k))" if "k < 10" for k :: nat
    using that by (simp add: digit_value_def is_digit_def)
  show ?case
  proof (cases "n < 10")
    case True
    then show ?thesis using digit [of n] by (simp add: decimal.simps [of n] number_def)
  next
    case False
    with 1 digit [of "n mod 10"] show ?thesis
      by (simp add: decimal.simps [of n] number_snoc)
  qed
qed

lemma digit_not_sign: "is_digit c \<Longrightarrow> c \<noteq> CHR ''-'' \<and> c \<noteq> CHR ''+'' \<and> c \<noteq> CHR ''.''"
  by (auto simp: is_digit_def)

lemma ParseInt64_decimal: "int n < 2 ^ 63 \<Longrightarrow> ParseInt64 (decimal n) = Some (int n)"
  using decimal_number [of n] digit_not_sign
  by (cases "decimal n") (auto simp: ParseInt64_def Let_def)

lemma ParseInt64_int_text: "- (2 ^ 63) \<le> t \<Longrightarrow> t < 2 ^ 63 \<Longrightarrow> ParseInt64 (int_text t) = Some t"
  using decimal_number [of "nat (- t)"] ParseInt64_decimal [of "nat t"]
  by (auto simp: int_text_def ParseInt64_def Let_def)

lemma Cut_append: "c \<notin> set p \<Longrightarrow> Cut c (p @ c # q) = (p, q, True)"
  by (induction p) auto

lemma hex_has_no_dot: "CHR ''.'' \<notin> set (digest_hex E s)"
  using hex_encode_pattern [of "map of_char (sha256 E s)"]
  by (auto simp: digest_hex_def list_all_iff is_lower_hex_def less_eq_char_def)

text \<open>A marker is worth what it was issued for: its challenge and its time.\<close>

lemma marker_since:
  assumes "sha256 E' = sha256 E" "- (2 ^ 63) \<le> t" "t < 2 ^ 63"
  shows "reauthenticatedSince E' (reauthenticationMarker E challenge t) challenge' created \<longleftrightarrow>
    digest_hex E challenge = digest_hex E challenge' \<and> t < created"
proof -
  have "Cut CHR ''.'' (reauthenticationMarker E challenge t) = (digest_hex E challenge, int_text t, True)"
    using Cut_append [OF hex_has_no_dot] by (simp add: reauthenticationMarker_def)
  then show ?thesis
    using assms by (auto simp: reauthenticatedSince_def ParseInt64_int_text digest_hex_def)
qed

subsection \<open>What an acceptance means\<close>

lemma orElse_page: "orElse m (\<lambda>e. retS (Inl (h e))) g s = (Inr (Inr a), s') \<longleftrightarrow>
    (\<exists>x t. m s = (Inr x, t) \<and> g x t = (Inr (Inr a), s'))"
  by (auto simp: orElse_def retS_def split: prod.splits sum.splits)

lemma orElse_refusal: "orElse m (\<lambda>e. retS (Inl (h e))) (\<lambda>x. retS (Inl (k x))) s \<noteq> (Inr (Inr a), s')"
  by (auto simp: orElse_def retS_def split: prod.splits sum.splits)

lemma read_hydra_Inr: "read_hydra what r = Inr x \<longleftrightarrow> r = Reply 200 (Some x)"
  by (cases r) (auto simp: read_hydra_def split: option.splits)

lemma pure_Inr: "pure z s = (Inr x, s') \<longleftrightarrow> z = Inr x \<and> s' = s"
  by (auto simp: pure_def)

lemma load_login_Inr: "load_hydraLoginRequest F challenge s = (Inr q, s') \<longleftrightarrow>
    s' = s \<and> challenge \<noteq> [] \<and> login_request F challenge = Reply 200 (Some q) \<and> lq_SessionID q \<noteq> []"
  by (auto simp: load_hydraLoginRequest_def io_Inr pure_Inr read_hydra_Inr)

lemma load_consent_Inr: "load_hydraConsentRequest F challenge s = (Inr q, s') \<longleftrightarrow>
    s' = s \<and> consent_request F challenge = Reply 200 (Some q) \<and> cq_ClientID q \<noteq> [] \<and> cq_Scopes q \<noteq> []"
  by (auto simp: load_hydraConsentRequest_def io_Inr pure_Inr read_hydra_Inr)

lemma hydraAccept_Inr: "hydraAccept V F challenge c w = (Inr t, w') \<longleftrightarrow>
    challenge \<noteq> [] \<and> hydra_status V c = Some 200 \<and> redirect_to F c = Some t \<and> t \<noteq> [] \<and>
    w' = w\<lparr>acknowledged := acknowledged w @ [c]\<rparr>"
  by (auto simp: hydraAccept_def app_Inr split: option.splits)

text \<open>The session a handler works with is the live session of the browser's cookie, of an enabled account; reading
  it only records the activity.\<close>

lemma current_Inr:
  assumes "current V i cookie w = (Inr (user, session), w')"
  obtains raw u x where "cookie = Some raw" "u \<in> set (users (store w))" "u_disabled u = None" "user = scan_user u"
    and "x \<in> set (sessions (store w))" "s_user x = u_id u" "s_token_hash x = Some (sha256 (sv_env V i) raw)"
    and "s_revoked x = None" "now_of V i < s_expires x" "session = x\<lparr>s_last_seen := now_of V i\<rparr>"
    and "w' = w\<lparr>store := store w\<lparr>sessions := map (\<lambda>y. if s_id y = s_id x then y\<lparr>s_last_seen := now_of V i\<rparr> else y) (sessions (store w))\<rparr>\<rparr>"
proof -
  from assms obtain raw s' where c: "cookie = Some raw" "currentUser (sv_env V i) raw (now_of V i) True (store w) = (Inr (user, session), s')"
    "w' = w\<lparr>store := s'\<rparr>"
    by (auto simp: current_def CurrentUser_def app_Inr split: option.splits)
  show thesis using current_user_sound [OF c(2)] c(1,3) by (auto intro: that)
qed

lemma accept_login_run:
  assumes "accept_login V S F r w = (Inr (Inr a), w1)"
  obtains user session w0 p q where "current V 0 (cookie_of r browserSessionCookie) w = (Inr (user, session), w0)"
    and "login_request F (wq_query r ''login_challenge'') = Reply 200 (Some q)"
    and "if lq_Skip q then lq_Subject q = ID user else fresh_enough V S r (wq_query r ''login_challenge'') session q"
    and "w1 = w0\<lparr>acknowledged := acknowledged w0 @ [AcceptLogin (wq_query r ''login_challenge'') (ID user) (s_id session)
        (whole_seconds (OIDCSessionLifetime p))]\<rparr>"
    and "read_SessionPolicy (sv_env V 1) (store w0) = (Inr p, store w0)"
    and "al_session a = s_id session" "al_provider_session a = lq_SessionID q" "al_redirect a \<noteq> []"
  using assms unfolding accept_login_def Let_def
  by (auto simp: orElse_page io_Inr inDb_Inr read_SessionPolicy_Inr load_login_Inr hydraAccept_Inr split: if_splits prod.splits intro: that)


lemma recordCorrelation_correlates:
  assumes ok: "schema_ok s" and r: "r \<in> set (sessions s)"
    and run: "recordCorrelation E h now idle u r s = (Inr (), s')"
  shows "correlated s' h = Some r"
proof -
  from recordCorrelation_Inr [OF run] have s': "s' = s\<lparr>hydra_logins := hydra_logins s'\<rparr>" by blast
  have ss: "session_of s' (s_id r) = Some r"
    using session_of_unique [OF ok r] by (subst s') (simp add: session_of_def)
  consider (new) "h \<notin> set (map h_id (hydra_logins s))" "hydra_logins s' = hydra_logins s @ [\<lparr>h_id = h, h_browser = s_id r, h_created = now\<rparr>]"
    | (old) x where "correlated s h = Some x"
      "hydra_logins s' = upd (\<lambda>y. h_id y = h) (\<lambda>y. y\<lparr>h_browser := s_id r, h_created := now\<rparr>) (hydra_logins s)"
    using recordCorrelation_Inr [OF run] by blast
  then show ?thesis
  proof cases
    case new
    then have "find (\<lambda>x. h_id x = h) (hydra_logins s) = None" by (auto simp: find_None_iff)
    with new ss show ?thesis by (simp add: correlated_def find_append)
  next
    case old
    then obtain y where "find (\<lambda>x. h_id x = h) (hydra_logins s) = Some y" by (auto simp: correlated_def split: option.splits)
    with old ss show ?thesis by (simp add: correlated_def find_upd_key)
  qed
qed

lemma RecordHydra_Inl: "RecordHydraLoginSession E b h now s = (Inl e, s') \<Longrightarrow> s' = s"
  using read_SessionPolicy_state [of E s] unfolding RecordHydraLoginSession_def
  by (elim bind_cases) (auto simp: guardS_def retS_def failS_def simp del: read_SessionPolicy_state dest: tx_Inl split: if_splits)

lemma tried_revocation: "tryS (revokeHydraLoginSession V h) w = (Inr z, w') \<Longrightarrow> store w' = store w \<and>
    (acknowledged w' = acknowledged w @ [DeleteLogin h] \<or> \<not> ends_session V h)"
  by (auto simp: tryS_Inr revokeHydraLoginSession_def call_hydra_def ends_session_def split: option.splits if_splits)

lemma tryS_then: "bindS (tryS m) (\<lambda>_. f) w = (r, w') \<Longrightarrow> \<exists>z t. m w = (z, t) \<and> f t = (r, w')"
  by (auto simp: bindS_def tryS_def split: prod.splits)

text \<open>C12. Whoever reaches an application through Shauth is the person whose live browser session asked. When Hydra has
  accepted a login, it was told the account of the session behind the browser's cookie, and no other. Whatever other
  requests do before the handler goes on, the browser is sent back to the application only if that browser session is
  still not revoked and Hydra's session is now correlated with it, so that the token hook finds the same account; if
  the session has ended, nothing is recorded, an error is shown and Hydra's session is deleted, if Hydra answers.\<close>

theorem login_bound_to_live_session:
  assumes accepted: "accept_login V S F r w = (Inr (Inr a), w1)"
    and others: "sessions_mono (store w1) (store w2)" "schema_ok (store w2)"
    and correlate: "correlate_login V a w2 = (Inr p, w3)" and cast: "uuid_in (sv_env V 5) (al_session a) = Some (al_session a)"
  shows "\<exists>x u n. x \<in> set (sessions (store w)) \<and> u \<in> set (users (store w)) \<and> u_disabled u = None \<and>
    s_id x = al_session a \<and> s_user x = u_id u \<and> s_revoked x = None \<and>
    s_token_hash x = map_option (sha256 (sv_env V 0)) (cookie_of r browserSessionCookie) \<and>
    acknowledged w1 = acknowledged w @ [AcceptLogin (wq_query r ''login_challenge'') (u_id u) (s_id x) n] \<and>
    (if \<exists>y. correlated (store w3) (al_provider_session a) = Some y \<and> s_id y = s_id x \<and> s_user y = s_user x \<and> s_revoked y = None \<and>
         answer p = RedirectTo 302 (al_redirect a) then acknowledged w3 = acknowledged w2
     else answer p = ErrorPage 500 ''could not correlate OAuth login session'' \<and> store w3 = store w2 \<and>
       (acknowledged w3 = acknowledged w2 @ [DeleteLogin (al_provider_session a)] \<or> \<not> ends_session V (al_provider_session a)))"
proof -
  obtain user session w0 pol q where c: "current V 0 (cookie_of r browserSessionCookie) w = (Inr (user, session), w0)"
    and "login_request F (wq_query r ''login_challenge'') = Reply 200 (Some q)"
    and "if lq_Skip q then lq_Subject q = ID user else fresh_enough V S r (wq_query r ''login_challenge'') session q"
    and w1: "w1 = w0\<lparr>acknowledged := acknowledged w0 @ [AcceptLogin (wq_query r ''login_challenge'') (ID user) (s_id session)
        (whole_seconds (OIDCSessionLifetime pol))]\<rparr>"
    and "read_SessionPolicy (sv_env V 1) (store w0) = (Inr pol, store w0)"
    and id: "al_session a = s_id session" and "al_provider_session a = lq_SessionID q" "al_redirect a \<noteq> []"
    using accepted by (rule accept_login_run)
  obtain raw u x where x: "cookie_of r browserSessionCookie = Some raw" "u \<in> set (users (store w))" "u_disabled u = None" "user = scan_user u"
    "x \<in> set (sessions (store w))" "s_user x = u_id u" "s_token_hash x = Some (sha256 (sv_env V 0) raw)" "s_revoked x = None"
    "session = x\<lparr>s_last_seen := now_of V 0\<rparr>"
    and w0: "w0 = w\<lparr>store := store w\<lparr>sessions := map (\<lambda>y. if s_id y = s_id x then y\<lparr>s_last_seen := now_of V 0\<rparr> else y) (sessions (store w))\<rparr>\<rparr>"
    using c by (rule current_Inr)
  have "session \<in> set (sessions (store w1))" using x by (auto simp: w1 w0 image_iff intro!: bexI [of _ x])
  then obtain x' where x': "x' \<in> set (sessions (store w2))" "s_id x' = s_id x" "s_user x' = s_user x"
    using others(1) x(9) by (force simp: sessions_mono_def session_le_def)
  let ?h = "al_provider_session a"
  have "(\<exists>y. correlated (store w3) ?h = Some y \<and> s_id y = s_id x \<and> s_user y = s_user x \<and> s_revoked y = None \<and>
        answer p = RedirectTo 302 (al_redirect a)) \<and> acknowledged w3 = acknowledged w2 \<or>
      answer p = ErrorPage 500 ''could not correlate OAuth login session'' \<and> store w3 = store w2 \<and>
       (acknowledged w3 = acknowledged w2 @ [DeleteLogin ?h] \<or> \<not> ends_session V ?h)"
    using correlate unfolding correlate_login_def
  proof (cases rule: orElse_cases)
    case (failed e t)
    then have "store t = store w2" "acknowledged t = acknowledged w2"
      by (auto simp: inDb_run dest: RecordHydra_Inl)
    moreover obtain z t' where "revokeHydraLoginSession V ?h t = (z, t')" "w3 = t'"
      "p = with_cookies (al_cookies a) (respond (ErrorPage 500 ''could not correlate OAuth login session''))"
      using tryS_then [OF failed(2)] by (auto simp: retS_def)
    ultimately show ?thesis
      using tried_revocation [of V ?h t z t'] by (auto simp: tryS_Inr with_cookies_def)
  next
    case (went v t)
    then obtain s' where rec: "RecordHydraLoginSession (sv_env V 5) (al_session a) ?h (now_of V 5) (store w2) = (Inr (), s')"
      and t: "t = w2\<lparr>store := s'\<rparr>" by (auto simp: inDb_run)
    from rec obtain k y where "read_SessionPolicy (sv_env V 5) (store w2) = (Inr k, store w2)"
      and y: "uuid_in (sv_env V 5) (al_session a) = Some (s_id y)" "y \<in> set (sessions (store w2))"
        "live (now_of V 5) (BrowserIdleTimeout k) y"
      and rc: "recordCorrelation (sv_env V 5) ?h (now_of V 5) (BrowserIdleTimeout k) (s_user y) y (store w2) = (Inr (), s')"
      by (rule RecordHydraLoginSession_Inr)
    have "s_id y = s_id x'" using y(1) cast id x(9) x'(2) by simp
    then have "y = x'" using others(2) y(2) x'(1) by (auto simp: schema_ok_def sessions_unique_def dest: distinct_map_inj_onD)
    moreover have "correlated s' ?h = Some y" by (rule recordCorrelation_correlates [OF others(2) y(2) rc])
    ultimately show ?thesis
      using went(2) x' y(3) by (auto simp: retS_def t with_cookies_def live_def)
  qed
  with x show ?thesis
    by (intro exI [of _ x] exI [of _ u] exI [of _ "whole_seconds (OIDCSessionLifetime pol)"]) (auto simp: id w1 w0)
qed



text \<open>C40. A \<open>max_age\<close> of up to 9223372036 seconds (292 years) bounds the age exactly; a larger one wraps around: with
  18446744074 seconds the bound is 290448384 nanoseconds, so no person can sign in quickly enough.\<close>

theorem max_age_wraps:
  assumes "web_Parse S requestURL = Some u"
  shows "(\<forall>n \<le> 9223372036. wu_query u ''max_age'' = decimal n \<longrightarrow> snd (reauthenticationDemand S requestURL) = int n * second) \<and>
    (wu_query u ''max_age'' = ''18446744074'' \<longrightarrow> snd (reauthenticationDemand S requestURL) = 290448384)"
proof -
  have exact: "snd (reauthenticationDemand S requestURL) = int n * second"
    if "n \<le> 9223372036" "wu_query u ''max_age'' = decimal n" for n
  proof -
    have "wrap64 (int n * second) = int n * second" using that(1) by (intro wrap64_id) (simp_all add: second_def)
    moreover have "ParseInt64 (decimal n) = Some (int n)" using that(1) by (intro ParseInt64_decimal) simp
    ultimately show ?thesis using assms that(2) decimal_number [of n] by (simp add: reauthenticationDemand_def Let_def)
  qed
  have big: "ParseInt64 ''18446744074'' = Some 18446744074" "wrap64 (18446744074 * second) = 290448384"
    by (simp_all add: ParseInt64_def number_def digit_value_def is_digit_def wrap64_def int_word_sint second_def)
  have "snd (reauthenticationDemand S requestURL) = 290448384" if "wu_query u ''max_age'' = ''18446744074''"
    unfolding reauthenticationDemand_def Let_def assms option.simps that snd_conv big by simp
  with exact show ?thesis by blast
qed

lemma grantableScopes_prop:
  "distinct (grantableScopes requested submitted) \<and> set (grantableScopes requested submitted) = set requested \<inter> set submitted"
proof -
  let ?step = "\<lambda>scope granted. if scope \<in> set requested \<and> scope \<notin> set granted then granted @ [scope] else granted"
  have "distinct acc \<Longrightarrow> distinct (fold ?step xs acc) \<and> set (fold ?step xs acc) = set acc \<union> (set requested \<inter> set xs)" for acc xs
    by (induction xs arbitrary: acc) auto
  then show ?thesis by (simp add: grantableScopes_def)
qed

lemma acceptHydraConsent_Inr: "acceptHydraConsent V F i challenge scopes user w = (Inr t, w') \<Longrightarrow>
    t \<noteq> [] \<and> (\<exists>n. w' = w\<lparr>acknowledged := acknowledged w @ [AcceptConsent challenge scopes (oidcIdentityClaims user) n]\<rparr>)"
  by (auto simp: acceptHydraConsent_def app_Inr hydraAccept_Inr read_SessionPolicy_Inr)

lemma confirm_consent_cases:
  assumes "confirm_consent V a w = (Inr p, w')"
  obtains s' where "RevalidateSession (sv_env V 3) (ac_user a) (ac_session a) (now_of V 3) (store w) = (Inr (), s')"
      "w' = w\<lparr>store := s'\<rparr>" "answer p = RedirectTo 302 (ac_redirect a)"
    | e where "fst (RevalidateSession (sv_env V 3) (ac_user a) (ac_session a) (now_of V 3) (store w)) = Inl e"
      "answer p = ErrorPage 409 ''browser session ended before OAuth consent completed''"
      "ac_provider_session a \<noteq> [] \<Longrightarrow> DeleteLogin (ac_provider_session a) \<in> set (acknowledged w') \<or> \<not> ends_session V (ac_provider_session a)"
  using assms unfolding confirm_consent_def
proof (cases rule: orElse_cases)
  case (failed e t)
  then have e: "fst (RevalidateSession (sv_env V 3) (ac_user a) (ac_session a) (now_of V 3) (store w)) = Inl e"
    by (auto simp: inDb_run)
  show thesis
  proof (cases "ac_provider_session a = []")
    case True
    with failed(2) show thesis by (intro that(2) [OF e]) (auto simp: bindS_def retS_def)
  next
    case False
    with failed(2) obtain z t' where "tryS (revokeHydraLoginSession V (ac_provider_session a)) t = (Inr z, t')" "w' = t'"
      "answer p = ErrorPage 409 ''browser session ended before OAuth consent completed''"
      by (auto simp: bindS_def tryS_def retS_def split: prod.splits)
    with tried_revocation show thesis by (intro that(2) [OF e]) fastforce+
  qed
next
  case (went x t)
  then show thesis by (intro that(1) [of "store t"]) (auto simp: inDb_run retS_def)
qed

lemma RevalidateSession_Inr: "RevalidateSession E userID b now s = (Inr (), s') \<Longrightarrow>
    \<exists>(p :: SessionPolicy) u x. x \<in> set (sessions s) \<and> u \<in> set (users s) \<and> u_disabled u = None \<and> uuid_in E userID = Some (u_id u) \<and>
      uuid_in E b = Some (s_id x) \<and> s_user x = u_id u \<and> live now (BrowserIdleTimeout p) x"
  unfolding RevalidateSession_def
  by (auto simp: io_Inr lockActiveUser_Inr read_SessionPolicy_Inr dest!: find_SomeD split: option.splits)

lemma accept_explicit_run:
  assumes "accept_explicit_consent V F r w = (Inr (Inr a), w1)"
  obtains user session w0 f q n where "current V 0 (cookie_of r browserSessionCookie) w = (Inr (user, session), w0)"
    and "wq_form r = Some f" "consent_request F (form_get f ''challenge'') = Reply 200 (Some q)" "cq_Subject q = ID user"
    and "form_get f ''decision'' \<noteq> ''deny''" "grantableScopes (cq_Scopes q) (form_values f ''scope'') \<noteq> []"
    and "w1 = w0\<lparr>acknowledged := acknowledged w0 @ [AcceptConsent (form_get f ''challenge'')
        (grantableScopes (cq_Scopes q) (form_values f ''scope'')) (oidcIdentityClaims user) n]\<rparr>"
    and "ac_user a = ID user" "ac_session a = s_id session" "ac_provider_session a = cq_LoginSessionID q" "ac_redirect a \<noteq> []"
proof -
  from assms obtain user session w0 f q t where "current V 0 (cookie_of r browserSessionCookie) w = (Inr (user, session), w0)"
    "wq_form r = Some f" "consent_request F (form_get f ''challenge'') = Reply 200 (Some q)" "cq_Subject q = ID user"
    "form_get f ''decision'' \<noteq> ''deny''" "grantableScopes (cq_Scopes q) (form_values f ''scope'') \<noteq> []"
    "acceptHydraConsent V F 2 (form_get f ''challenge'') (grantableScopes (cq_Scopes q) (form_values f ''scope'')) user w0 = (Inr t, w1)"
    "a = \<lparr>ac_user = ID user, ac_session = s_id session, ac_provider_session = cq_LoginSessionID q, ac_redirect = t\<rparr>"
    unfolding accept_explicit_consent_def Let_def
    by (auto simp: orElse_page orElse_refusal io_Inr load_consent_Inr split: if_splits prod.splits option.splits)
  moreover from acceptHydraConsent_Inr [OF this(7)] obtain n where "t \<noteq> []" "w1 = w0\<lparr>acknowledged := acknowledged w0 @
      [AcceptConsent (form_get f ''challenge'') (grantableScopes (cq_Scopes q) (form_values f ''scope'')) (oidcIdentityClaims user) n]\<rparr>"
    by blast
  ultimately show thesis by (intro that) simp_all
qed

text \<open>C13. Consent releases only what was asked for, to the person who was asked, while that person is signed in. When
  Hydra has accepted an explicit consent, the request belongs to the account of the browser's live session, the
  scopes granted are the requested ones that the form submitted, at least one and none twice, and both tokens carry that account's
  current claims. Whatever other requests do before the handler goes on, the browser is sent to the application only
  if its session is still live and its account enabled; otherwise the provider session is deleted, if Hydra answers.\<close>

theorem consent_bound_to_live_session:
  assumes accepted: "accept_explicit_consent V F r w = (Inr (Inr a), w1)" and confirm: "confirm_consent V a w2 = (Inr p, w3)"
    and cast: "uuid_in (sv_env V 3) (ac_session a) = Some (ac_session a)" "uuid_in (sv_env V 3) (ac_user a) = Some (ac_user a)"
  shows "\<exists>f q u x scopes n. wq_form r = Some f \<and> consent_request F (form_get f ''challenge'') = Reply 200 (Some q) \<and>
    u \<in> set (users (store w)) \<and> x \<in> set (sessions (store w)) \<and> s_user x = u_id u \<and> s_revoked x = None \<and> u_disabled u = None \<and>
    cq_Subject q = u_id u \<and> form_get f ''decision'' \<noteq> ''deny'' \<and>
    acknowledged w1 = acknowledged w @ [AcceptConsent (form_get f ''challenge'') scopes (oidcIdentityClaims (scan_user u)) n] \<and>
    scopes \<noteq> [] \<and> distinct scopes \<and> set scopes = set (cq_Scopes q) \<inter> set (form_values f ''scope'') \<and>
    (answer p = RedirectTo 302 (ac_redirect a) \<and> (\<exists>y v. y \<in> set (sessions (store w2)) \<and> s_id y = s_id x \<and> s_revoked y = None \<and>
        now_of V 3 < s_expires y \<and> v \<in> set (users (store w2)) \<and> u_id v = u_id u \<and> s_user y = u_id v \<and> u_disabled v = None) \<or>
     answer p = ErrorPage 409 ''browser session ended before OAuth consent completed'' \<and>
       (cq_LoginSessionID q = [] \<or> DeleteLogin (cq_LoginSessionID q) \<in> set (acknowledged w3) \<or> \<not> ends_session V (cq_LoginSessionID q)))"
proof -
  obtain user session w0 f q n where c: "current V 0 (cookie_of r browserSessionCookie) w = (Inr (user, session), w0)"
    and f: "wq_form r = Some f" "consent_request F (form_get f ''challenge'') = Reply 200 (Some q)" "cq_Subject q = ID user"
      "form_get f ''decision'' \<noteq> ''deny''" "grantableScopes (cq_Scopes q) (form_values f ''scope'') \<noteq> []"
    and w1: "w1 = w0\<lparr>acknowledged := acknowledged w0 @ [AcceptConsent (form_get f ''challenge'')
        (grantableScopes (cq_Scopes q) (form_values f ''scope'')) (oidcIdentityClaims user) n]\<rparr>"
    and a: "ac_user a = ID user" "ac_session a = s_id session" "ac_provider_session a = cq_LoginSessionID q" "ac_redirect a \<noteq> []"
    using accepted by (rule accept_explicit_run)
  obtain raw u x where x: "cookie_of r browserSessionCookie = Some raw" "u \<in> set (users (store w))" "u_disabled u = None" "user = scan_user u"
    "x \<in> set (sessions (store w))" "s_user x = u_id u" "s_token_hash x = Some (sha256 (sv_env V 0) raw)" "s_revoked x = None"
    "now_of V 0 < s_expires x" "session = x\<lparr>s_last_seen := now_of V 0\<rparr>"
    and w0: "w0 = w\<lparr>store := store w\<lparr>sessions := map (\<lambda>y. if s_id y = s_id x then y\<lparr>s_last_seen := now_of V 0\<rparr> else y) (sessions (store w))\<rparr>\<rparr>"
    using c by (rule current_Inr)
  have ids: "ac_user a = u_id u" "ac_session a = s_id x" using a x by simp_all
  have finish: "answer p = RedirectTo 302 (ac_redirect a) \<and> (\<exists>y v. y \<in> set (sessions (store w2)) \<and> s_id y = s_id x \<and> s_revoked y = None \<and>
        now_of V 3 < s_expires y \<and> v \<in> set (users (store w2)) \<and> u_id v = u_id u \<and> s_user y = u_id v \<and> u_disabled v = None) \<or>
     answer p = ErrorPage 409 ''browser session ended before OAuth consent completed'' \<and>
       (cq_LoginSessionID q = [] \<or> DeleteLogin (cq_LoginSessionID q) \<in> set (acknowledged w3) \<or> \<not> ends_session V (cq_LoginSessionID q))"
    using confirm
  proof (cases rule: confirm_consent_cases)
    case (1 s')
    obtain pol :: SessionPolicy and v y where "y \<in> set (sessions (store w2))" "v \<in> set (users (store w2))" "u_disabled v = None"
      "uuid_in (sv_env V 3) (ac_user a) = Some (u_id v)" "uuid_in (sv_env V 3) (ac_session a) = Some (s_id y)" "s_user y = u_id v"
      "live (now_of V 3) (BrowserIdleTimeout pol) y"
      using RevalidateSession_Inr [OF 1(1)] by blast
    with 1 cast ids show ?thesis by (intro disjI1 conjI exI [of _ y] exI [of _ v]) (simp_all add: live_def)
  next
    case (2 e)
    with a(3) show ?thesis by auto
  qed
  have s: "distinct (grantableScopes (cq_Scopes q) (form_values f ''scope''))"
    "set (grantableScopes (cq_Scopes q) (form_values f ''scope'')) = set (cq_Scopes q) \<inter> set (form_values f ''scope'')"
    using grantableScopes_prop by blast+
  have ack: "acknowledged w1 = acknowledged w @ [AcceptConsent (form_get f ''challenge'')
      (grantableScopes (cq_Scopes q) (form_values f ''scope'')) (oidcIdentityClaims (scan_user u)) n]"
    by (simp add: w1 w0 x(4))
  show ?thesis
    by (rule exI [of _ f], rule exI [of _ q], rule exI [of _ u], rule exI [of _ x],
        rule exI [of _ "grantableScopes (cq_Scopes q) (form_values f ''scope'')"], rule exI [of _ n])
      (intro conjI f x ack s finish; use f(3) x(4) in simp)
qed


subsection \<open>An example sign-in\<close>

definition example_flow_server :: server where
  "example_flow_server = example_server\<lparr>sv_env := (\<lambda>_. example_env), hydra_status := (\<lambda>_. Some 200)\<rparr>"

definition example_login_request :: hydraLoginRequest where
  "example_login_request = \<lparr>lq_SessionID = ''h2'', lq_Subject = [], lq_Skip = False, lq_RequestURL = ''https://hydra.example.org/''\<rparr>"

definition example_consent_request :: hydraConsentRequest where
  "example_consent_request = \<lparr>cq_ClientID = ''wiki'', cq_ClientName = [], cq_Subject = ''u1'', cq_Scopes = [''openid'', ''email''],
     cq_LoginSessionID = ''h2''\<rparr>"

definition example_flow :: hydra_flow where
  "example_flow = \<lparr>login_request = (\<lambda>_. Reply 200 (Some example_login_request)),
     consent_request = (\<lambda>_. Reply 200 (Some example_consent_request)), redirect_to = (\<lambda>_. Some ''https://hydra.example.org/'')\<rparr>"

definition example_request :: web_request where
  "example_request = \<lparr>wq_method = ''GET'', wq_path = ''/oauth/login'', wq_uri = ''/oauth/login'', wq_header = (\<lambda>_. []), wq_authorization = [],
     wq_cookies = [(''shauth_session'', ''s1''), (''shauth_reauthentication'', reauthenticationMarker example_env ''c1'' (- 5))],
     wq_query = (\<lambda>_. ''c1''), wq_form = Some [(''challenge'', [''c1'']), (''scope'', [''email'', ''email'', ''admin''])],
     wq_remote = [], wq_agent = []\<rparr>"

lemma example_flow_env [simp]: "sv_env example_flow_server i = example_env" "hydra_status example_flow_server c = Some 200"
  "now_of example_flow_server i = 0"
  by (simp_all add: example_flow_server_def now_of_def)

lemma example_current_now: "currentUser example_env ''s1'' 0 True example_db =
    (Inr (scan_user (example_user ''u1'' ''alice''), example_session ''s1'' ''u1''), example_db)"
  by (simp add: currentUser_def bindS_def query_def stmt_def retS_def example_read_policy active_session_def
      live_def example_idle example_db_def example_session_def example_user_def put_defs sessions_unique_def)

lemma example_current_account: "current example_flow_server i (Some ''s1'') example_world =
    (Inr (scan_user (example_user ''u1'' ''alice''), example_session ''s1'' ''u1''), example_world)"
  by (simp add: current_def inDb_def CurrentUser_def example_current_now example_world_def)

lemma example_cookies: "cookie_of example_request browserSessionCookie = Some ''s1''"
  "cookie_of example_request reauthenticationCookie = Some (reauthenticationMarker example_env ''c1'' (- 5))"
  by (simp_all add: cookie_of_def example_request_def browserSessionCookie_def reauthenticationCookie_def)

lemma example_demand: "reauthenticationDemand example_site requestURL = (True, 100 * second)"
proof -
  have "Fields ''login'' = [''login'']" "ParseInt64 ''100'' = Some 100" by code_simp+
  then show ?thesis
    by (simp add: reauthenticationDemand_def example_site_def example_web_url_def wrap64_id second_def)
qed

lemma example_fresh: "fresh_enough example_flow_server example_site example_request ''c1'' (example_session ''s1'' ''u1'') example_login_request"
  using marker_since [of example_env example_env "- 5" "''c1''" "''c1''" 0]
  by (simp add: fresh_enough_def example_demand example_cookies second_def) (simp add: example_session_def)

definition example_accepted :: accepted_login where
  "example_accepted = \<lparr>al_session = ''s1'', al_provider_session = ''h2'', al_redirect = ''https://hydra.example.org/'',
     al_cookies = [expireCookieAtPath example_site reauthenticationCookie ''/oauth/login'']\<rparr>"

lemma example_accept: "\<exists>w1. accept_login example_flow_server example_site example_flow example_request example_world = (Inr (Inr example_accepted), w1)
    \<and> store w1 = example_db"
proof -
  have q: "wq_query example_request k = ''c1''" "load_hydraLoginRequest example_flow ''c1'' w = (Inr example_login_request, w)" for k w
    by (simp_all add: load_login_Inr) (simp_all add: example_request_def example_flow_def example_login_request_def)
  have p: "\<exists>p. inDb (read_SessionPolicy example_env) example_world = (Inr p, example_world)"
    using example_read_policy by (auto simp: inDb_def example_world_def)
  have h: "hydraAccept example_flow_server example_flow ''c1'' c w =
      (Inr ''https://hydra.example.org/'', w\<lparr>acknowledged := acknowledged w @ [c]\<rparr>)" for c w
    unfolding hydraAccept_Inr by (simp add: example_flow_def)
  have r: "\<not> lq_Skip example_login_request" "lq_SessionID example_login_request = ''h2''" by (simp_all add: example_login_request_def)
  from p obtain p where p: "inDb (read_SessionPolicy example_env) example_world = (Inr p, example_world)" by blast
  show ?thesis
    unfolding accept_login_def Let_def
    by (simp add: orElse_run q example_cookies example_current_account p r example_fresh h retS_def)
      (simp add: example_accepted_def example_session_def)
qed

lemma example_correlate: "RecordHydraLoginSession example_env ''s1'' ''h2'' 0 example_db =
    (Inr (), example_db\<lparr>hydra_logins := hydra_logins example_db @ [\<lparr>h_id = ''h2'', h_browser = ''s1'', h_created = 0\<rparr>]\<rparr>)"
proof -
  have t: "TrimSpace ''s1'' = ''s1''" "TrimSpace ''h2'' = ''h2''" by code_simp+
  show ?thesis
    by (simp add: RecordHydraLoginSession_def recordCorrelation_def io_defs t example_read_policy lockActiveUser_def
        session_of_def live_def example_idle insert_hydra_def put_defs example_db_def example_session_def example_user_def)
qed

theorem login_bound_to_live_session_witness:
  "\<exists>w1 p w3 y. accept_login example_flow_server example_site example_flow example_request example_world = (Inr (Inr example_accepted), w1) \<and>
     correlate_login example_flow_server example_accepted w1 = (Inr p, w3) \<and> correlated (store w3) ''h2'' = Some y \<and> s_user y = ''u1''"
proof -
  obtain w1 where w1: "accept_login example_flow_server example_site example_flow example_request example_world = (Inr (Inr example_accepted), w1)"
    "store w1 = example_db" using example_accept by blast
  have acc: "al_session example_accepted = ''s1''" "al_provider_session example_accepted = ''h2''" by (simp_all add: example_accepted_def)
  define w3 where "w3 = w1\<lparr>store := example_db\<lparr>hydra_logins := hydra_logins example_db @ [\<lparr>h_id = ''h2'', h_browser = ''s1'', h_created = 0\<rparr>]\<rparr>\<rparr>"
  have "\<exists>p. correlate_login example_flow_server example_accepted w1 = (Inr p, w3) \<and> answer p \<noteq> ErrorPage 500 ''could not correlate OAuth login session''"
    by (simp add: correlate_login_def orElse_run inDb_def acc w1(2) example_correlate retS_def with_cookies_def w3_def)
  then obtain p where p: "correlate_login example_flow_server example_accepted w1 = (Inr p, w3)"
    "answer p \<noteq> ErrorPage 500 ''could not correlate OAuth login session''" by blast
  have ok: "schema_ok (store w1)" "sessions_mono (store w1) (store w1)" "uuid_in (sv_env example_flow_server 5) (al_session example_accepted) = Some (al_session example_accepted)"
    using example_db_ok w1(2) by (simp_all add: sm.R_refl)
  from login_bound_to_live_session [OF w1(1) ok(2,1) p(1) ok(3)] p(2) obtain x y where
    "x \<in> set (sessions example_db)" "correlated (store w3) ''h2'' = Some y" "s_user y = s_user x"
    by (auto simp: acc example_world_def split: if_splits)
  with w1(1) p(1) show ?thesis by (auto simp: example_db_def example_session_def)
qed


theorem max_age_wraps_witness:
  "snd (reauthenticationDemand (example_site\<lparr>web_Parse := \<lambda>_. Some (example_web_url\<lparr>wu_query := \<lambda>_. ''18446744074''\<rparr>)\<rparr>) ''/'') = 290448384"
  using max_age_wraps [of "example_site\<lparr>web_Parse := \<lambda>_. Some (example_web_url\<lparr>wu_query := \<lambda>_. ''18446744074''\<rparr>)\<rparr>" "''/''"] by simp


definition example_consented :: accepted_consent where
  "example_consented = \<lparr>ac_user = ''u1'', ac_session = ''s1'', ac_provider_session = ''h2'', ac_redirect = ''https://hydra.example.org/''\<rparr>"

lemma example_consent: "\<exists>w1. accept_explicit_consent example_flow_server example_flow example_request example_world = (Inr (Inr example_consented), w1)
    \<and> store w1 = example_db"
proof -
  define f where "f = [(''challenge'', [''c1'']), (''scope'', [''email'', ''email'', ''admin''])]"
  have f: "wq_form example_request = Some f" "form_get f ''challenge'' = ''c1''" "form_get f ''decision'' = []"
    "grantableScopes (cq_Scopes example_consent_request) (form_values f ''scope'') = [''email'']"
    by (simp_all add: f_def example_request_def form_get_def form_values_def grantableScopes_def example_consent_request_def)
  have q: "load_hydraConsentRequest example_flow ''c1'' w = (Inr example_consent_request, w)" for w
    by (simp add: load_consent_Inr) (simp add: example_flow_def example_consent_request_def)
  have p: "inDb (read_SessionPolicy example_env) example_world = (Inr example_policy, example_world)"
    by (simp add: inDb_def example_read_policy example_world_def)
  have h: "hydraAccept example_flow_server example_flow ''c1'' c w =
      (Inr ''https://hydra.example.org/'', w\<lparr>acknowledged := acknowledged w @ [c]\<rparr>)" for c w
    unfolding hydraAccept_Inr by (simp add: example_flow_def)
  have a: "\<exists>w1. acceptHydraConsent example_flow_server example_flow 2 ''c1'' [''email''] user example_world =
      (Inr ''https://hydra.example.org/'', w1) \<and> store w1 = example_db" for user
    by (simp add: acceptHydraConsent_def bindS_def p h)
  obtain w1 where a: "acceptHydraConsent example_flow_server example_flow 2 ''c1'' [''email''] (scan_user (example_user ''u1'' ''alice'')) example_world =
      (Inr ''https://hydra.example.org/'', w1)" "store w1 = example_db" using a by blast
  have s: "cq_Subject example_consent_request = ''u1''" "u_id (example_user ''u1'' ''alice'') = ''u1''"
    by (simp_all add: example_consent_request_def example_user_def)
  have "accept_explicit_consent example_flow_server example_flow example_request example_world = (Inr (Inr example_consented), w1)"
    unfolding accept_explicit_consent_def Let_def
    by (simp add: orElse_run example_cookies example_current_account f q s a(1) retS_def)
      (simp add: example_consented_def example_session_def example_consent_request_def)
  with a(2) show ?thesis by blast
qed

lemma example_revalidate: "RevalidateSession example_env ''u1'' ''s1'' 0 example_db = (Inr (), example_db)"
  by (simp add: RevalidateSession_def io_defs example_read_policy lockActiveUser_def live_def example_idle example_db_def
      example_session_def example_user_def)

theorem consent_bound_to_live_session_witness:
  "\<exists>w1 p w3 scopes. accept_explicit_consent example_flow_server example_flow example_request example_world = (Inr (Inr example_consented), w1) \<and>
     confirm_consent example_flow_server example_consented w1 = (Inr p, w3) \<and> answer p = RedirectTo 302 ''https://hydra.example.org/'' \<and>
     distinct scopes \<and> set scopes = {''email''}"
proof -
  obtain w1 where w1: "accept_explicit_consent example_flow_server example_flow example_request example_world = (Inr (Inr example_consented), w1)"
    "store w1 = example_db" using example_consent by blast
  have acc: "ac_session example_consented = ''s1''" "ac_user example_consented = ''u1''"
    "ac_redirect example_consented = ''https://hydra.example.org/''" by (simp_all add: example_consented_def)
  have "\<exists>p w3. confirm_consent example_flow_server example_consented w1 = (Inr p, w3) \<and> answer p = RedirectTo 302 ''https://hydra.example.org/''"
    by (simp add: confirm_consent_def orElse_run inDb_def acc w1(2) example_revalidate retS_def)
  then obtain p w3 where p: "confirm_consent example_flow_server example_consented w1 = (Inr p, w3)"
    "answer p = RedirectTo 302 ''https://hydra.example.org/''" by blast
  have f: "form_values (the (wq_form example_request)) ''scope'' = [''email'', ''email'', ''admin'']"
    "consent_request example_flow x = Reply 200 (Some example_consent_request)" "cq_Scopes example_consent_request = [''openid'', ''email'']" for x
    by (simp_all add: form_values_def example_request_def example_flow_def example_consent_request_def)
  from consent_bound_to_live_session [OF w1(1) p(1)] obtain scopes f' q where "distinct scopes" "wq_form example_request = Some f'"
    "consent_request example_flow (form_get f' ''challenge'') = Reply 200 (Some q)" "set scopes = set (cq_Scopes q) \<inter> set (form_values f' ''scope'')"
    by (auto simp: acc)
  with f have "distinct scopes" "set scopes = {''email''}" by auto
  with w1(1) p show ?thesis by blast
qed

end
