(* ===== verification/Upstream_Sign_In.thy ===== *)
theory Upstream_Sign_In
  imports Browser_Requests Validation_Queue
begin

text \<open>
  Signing in with GitHub or Microsoft Entra ID, and with the one-time link of the validation worker
  (\<open>internal/app/app.go\<close>): leaving for the provider with a state-named cookie, coming back, and what a sign-in does to the
  account's earlier sessions. The OAuth and OpenID Connect libraries, JSON and the providers are parameters.
\<close>

subsection \<open>The transaction a browser carries\<close>

record upstreamTransaction =
  ut_Next :: string
  ut_Verifier :: string
  ut_Nonce :: string

text \<open>What the providers answer, and the library functions whose results the handlers only pass on. The access token
  decides GitHub's replies; an ID token that does not verify, or whose claims do not decode, is \<open>None\<close>.\<close>

record entraClaims =
  ec_Subject :: string
  ec_ObjectID :: string
  ec_TenantID :: string
  ec_Email :: string
  ec_EmailVerified :: bool
  ec_PreferredUsername :: string
  ec_Nonce :: string

record upstream =
  marshal_upstream :: "upstreamTransaction \<Rightarrow> string option"
  unmarshal_upstream :: "string \<Rightarrow> upstreamTransaction option"
  fresh_verifier :: string
  github_url :: "string \<Rightarrow> string \<Rightarrow> string"                    \<comment> \<open>state and verifier\<close>
  entra_url :: "string \<Rightarrow> string \<Rightarrow> string \<Rightarrow> string"          \<comment> \<open>state, nonce and verifier\<close>
  github_exchange :: "string \<Rightarrow> string \<Rightarrow> string + string"     \<comment> \<open>code and verifier to the access token, or the error's text\<close>
  github_user_reply :: "string \<Rightarrow> Profile reply"
  github_email_reply :: "string \<Rightarrow> EmailAddress list reply"
  github_teams :: "string \<Rightarrow> error + Team list"
  github_organizations :: "string \<Rightarrow> error + string list"
  entra_exchange :: "string \<Rightarrow> string \<Rightarrow> string option option" \<comment> \<open>code and verifier to the response's \<open>id_token\<close>\<close>
  entra_verify :: "string \<Rightarrow> string option"
  entra_claims :: "string \<Rightarrow> entraClaims option"

definition encodeUpstreamTransaction :: "upstream \<Rightarrow> upstreamTransaction \<Rightarrow> string option" where
  "encodeUpstreamTransaction G t = map_option b64_encode (marshal_upstream G t)"

definition decodeUpstreamTransaction :: "upstream \<Rightarrow> string \<Rightarrow> upstreamTransaction option" where
  "decodeUpstreamTransaction G val = (case b64_decode val of None \<Rightarrow> None
     | Some plain \<Rightarrow> (case unmarshal_upstream G plain of None \<Rightarrow> None
       | Some t \<Rightarrow> if ut_Verifier t = [] then None else Some t))"

text \<open>\<open>hex.DecodeString\<close> succeeds on an even number of hexadecimal digits of either case.\<close>

definition is_hex :: "char \<Rightarrow> bool" where
  "is_hex c \<longleftrightarrow> is_lower_hex c \<or> CHR ''A'' \<le> c \<and> c \<le> CHR ''F''"

definition decodes_hex :: "string \<Rightarrow> bool" where
  "decodes_hex s \<longleftrightarrow> even (length s) \<and> list_all is_hex s"

definition githubStateCookieName :: "string \<Rightarrow> string" where
  "githubStateCookieName state = ''shauth_github_state_'' @ state"

definition entraStateCookieName :: "string \<Rightarrow> string" where
  "entraStateCookieName state = ''shauth_entra_state_'' @ state"

definition validGitHubStateCookieName :: "string \<Rightarrow> string option" where
  "validGitHubStateCookieName state =
     (if \<not> decodes_hex state \<or> length state div 2 \<noteq> 32 then None else Some (githubStateCookieName state))"

definition validEntraStateCookieName :: "string \<Rightarrow> string option" where
  "validEntraStateCookieName state = (if length state \<noteq> 64 then None
     else if \<not> decodes_hex state then None else Some (entraStateCookieName state))"

text \<open>The transaction a callback belongs to: the cookie named by its \<open>state\<close>.\<close>

definition carried :: "upstream \<Rightarrow> web_request \<Rightarrow> string option \<Rightarrow> string option" where
  "carried G r name = (case name of None \<Rightarrow> None | Some n \<Rightarrow> cookie_of r n)"

definition upstreamSignInCancelled :: "web_request \<Rightarrow> string \<Rightarrow> string \<Rightarrow> web_answer" where
  "upstreamSignInCancelled r provider dest = SignInPage 401 dest
     (if wq_query r ''error'' = ''access_denied''
      then provider @ '' sign-in was cancelled. Choose a sign-in method to try again.''
      else provider @ '' sign-in did not complete. Choose a sign-in method to try again.'')"

text \<open>\<open>startSession\<close> with its cookie, then the sign-in is recorded and the browser goes on.\<close>

definition session_cookie :: "site \<Rightarrow> server \<Rightarrow> nat \<Rightarrow> string \<Rightarrow> session_row \<Rightarrow> web_cookie" where
  "session_cookie S V i raw row = callback_cookie S browserSessionCookie raw ''/'' (whole_seconds (s_expires row - now_of V i))"

definition begin_session ::
  "server \<Rightarrow> site \<Rightarrow> web_request \<Rightarrow> string \<Rightarrow> User \<Rightarrow> string \<Rightarrow> web_cookie list \<Rightarrow> web_response app" where
  "begin_session V S r kind user dest cs =
     bindS (startSession V (cookie_of r browserSessionCookie) user (wq_agent r) (clientIP S r)) (\<lambda>started.
     case started of
       None \<Rightarrow> retS (with_cookies cs (respond (ErrorPage 500 ''Your session could not be started. Try signing in again.'')))
     | Some (raw, row) \<Rightarrow>
         bindS (recordSignIn V 7 (clientIP S r) AuditSignInSucceeded kind (Username user) (ID user) []) (\<lambda>_.
         retS \<lparr>answer = RedirectTo 303 dest, new_cookies = cs @ [session_cookie S V 8 raw row]\<rparr>))"

subsection \<open>GitHub\<close>

definition githubStart :: "server \<Rightarrow> site \<Rightarrow> upstream \<Rightarrow> web_request \<Rightarrow> web_response app" where
  "githubStart V S G r =
     orElse (newState V 0) (\<lambda>_. retS (respond (ErrorPage 500 ''could not begin GitHub login''))) (\<lambda>state.
     case encodeUpstreamTransaction G \<lparr>ut_Next = relativeNext S (wq_query r ''next''), ut_Verifier = fresh_verifier G, ut_Nonce = []\<rparr> of
       None \<Rightarrow> retS (respond (ErrorPage 500 ''GitHub sign-in could not start. Try again.''))
     | Some t \<Rightarrow> retS \<lparr>answer = RedirectTo 302 (github_url G state (fresh_verifier G)),
         new_cookies = [callback_cookie S (githubStateCookieName state) t ''/oauth/github/callback'' 600]\<rparr>)"

definition no_access :: string where
  "no_access = ''This GitHub account is not authorized to use this service. Ask an administrator to grant it access.''"

text \<open>The part of \<open>githubCallback\<close> for an account no rule admits: its sessions end now.\<close>

definition github_denied :: "server \<Rightarrow> site \<Rightarrow> web_request \<Rightarrow> Profile \<Rightarrow> web_answer app" where
  "github_denied V S r profile =
     bindS (recordSignIn V 2 (clientIP S r) AuditSignInFailed ''github'' (prof_Login profile) []
       ''no GitHub access rule grants this account a role'') (\<lambda>_.
     orElse (inDb (GitHubUserID (sv_env V 3) (prof_ID profile)))
       (\<lambda>e. retS (if e = ErrUserNotFound then ErrorPage 403 no_access
          else ErrorPage 502 ''This GitHub account no longer has access, and its existing sessions could not be checked. Try again shortly.''))
       (\<lambda>userID. orElse (revokeUserSessions (shift 10 V) userID [] service_actor)
          (\<lambda>_. retS (ErrorPage 502 ''This GitHub account no longer has access, but its existing sessions could not all be ended. Try again, or ask an administrator to end them.''))
          (\<lambda>_. retS (ErrorPage 403 no_access))))"

text \<open>The part for an admitted account: it is established with the role, a demotion ends its earlier sessions first, and the new
  session begins.\<close>

definition github_admitted :: "server \<Rightarrow> site \<Rightarrow> web_request \<Rightarrow> string \<Rightarrow> Profile \<Rightarrow> Role \<Rightarrow> web_cookie list \<Rightarrow> web_response app" where
  "github_admitted V S r dest profile role cs =
     (let page = (\<lambda>st m. with_cookies cs (respond (ErrorPage st m)));
          note_blocked = (\<lambda>l name sub why. recordSignIn V 4 (clientIP S r) l ''github'' name sub why) in
      orElse (inDb (FindOrCreateGitHubUser (sv_env V 3) (prof_ID profile) (prof_Login profile) (prof_Email profile) role))
        (\<lambda>e. if e = ErrUserInactive
           then bindS (note_blocked AuditSignInBlocked (prof_Login profile) [] SignInReasonDisabled) (\<lambda>_.
             retS (page 403 ''This account is disabled. Ask an administrator to enable it.''))
           else bindS (note_blocked AuditSignInBlocked (prof_Login profile) [] (error_text e)) (\<lambda>_.
             retS (page 500 ''could not establish local account'')))
        (\<lambda>(user, demoted).
         if demoted then
           orElse (revokeUserSessions (shift 10 V) (ID user) [] service_actor)
             (\<lambda>_. bindS (note_blocked AuditSignInFailed (Username user) (ID user) ''the account's administrator sessions could not be ended'') (\<lambda>_.
                retS (page 502 ''Your access changed and your previous sessions could not be ended. Try again.'')))
             (\<lambda>_. begin_session (shift 20 V) S r ''github'' user dest cs)
         else begin_session (shift 20 V) S r ''github'' user dest cs))"

definition githubCallback :: "server \<Rightarrow> site \<Rightarrow> upstream \<Rightarrow> web_request \<Rightarrow> web_response app" where
  "githubCallback V S G r =
     (let expired = ErrorPage 400 ''This GitHub sign-in link has expired or was already used. Sign in again.'';
          name = validGitHubStateCookieName (wq_query r ''state'') in
      case carried G r name of None \<Rightarrow> retS (respond expired)
      | Some val \<Rightarrow>
        let cs = [expireCookieAtPath S (the name) ''/oauth/github/callback''];
            failed = (\<lambda>username why st m. bindS (recordSignIn V 0 (clientIP S r) AuditSignInFailed ''github'' username [] why) (\<lambda>_.
              retS (with_cookies cs (respond (ErrorPage st m))))) in
        (case decodeUpstreamTransaction G val of None \<Rightarrow> retS (with_cookies cs (respond expired))
         | Some t \<Rightarrow>
           if wq_query r ''error'' \<noteq> [] then
             bindS (recordSignIn V 0 (clientIP S r) AuditSignInFailed ''github'' [] [] (''GitHub returned '' @ wq_query r ''error'')) (\<lambda>_.
             retS (with_cookies cs (respond (upstreamSignInCancelled r ''GitHub'' (relativeNext S (ut_Next t))))))
           else (case github_exchange G (wq_query r ''code'') (ut_Verifier t) of
             Inl e \<Rightarrow> failed [] e 502 ''GitHub authorization failed''
           | Inr token \<Rightarrow>
             (case read_Profile token (github_user_reply G token) (github_email_reply G token) of
                Inl e \<Rightarrow> failed [] (error_text e) 502 ''could not read GitHub identity''
              | Inr profile \<Rightarrow>
                orElse (inDb (githubRole (sv_env V 1) profile (github_teams G token) (github_organizations G token)))
                  (\<lambda>e. failed (prof_Login profile) (error_text e) 502 ''could not verify GitHub organization membership'')
                  (\<lambda>(role, allowed). if \<not> allowed
                     then bindS (github_denied V S r profile) (\<lambda>a. retS (with_cookies cs (respond a)))
                     else github_admitted V S r (relativeNext S (ut_Next t)) profile role cs)))))"

subsection \<open>Microsoft Entra ID\<close>

definition entraStart :: "server \<Rightarrow> site \<Rightarrow> upstream \<Rightarrow> web_request \<Rightarrow> web_response app" where
  "entraStart V S G r = (let failed = (\<lambda>_. retS (respond (ErrorPage 500 ''could not begin Microsoft Entra ID login''))) in
     if \<not> EntraEnabled S then retS (respond NotFound404)
     else
     orElse (newState V 0) failed (\<lambda>state.
     orElse (newState V 1) failed (\<lambda>nonce.
     case encodeUpstreamTransaction G \<lparr>ut_Next = relativeNext S (wq_query r ''next''), ut_Verifier = fresh_verifier G, ut_Nonce = nonce\<rparr> of
       None \<Rightarrow> retS (respond (ErrorPage 500 ''Microsoft Entra ID sign-in could not start. Try again.''))
     | Some t \<Rightarrow> retS \<lparr>answer = RedirectTo 302 (entra_url G state nonce (fresh_verifier G)),
         new_cookies = [callback_cookie S (entraStateCookieName state) t ''/oauth/entra/callback'' 600]\<rparr>)))"

definition entraEmail :: "entraClaims \<Rightarrow> string \<times> bool" where
  "entraEmail c = (if TrimSpace (ec_Email c) \<noteq> [] then (TrimSpace (ec_Email c), ec_EmailVerified c)
     else (TrimSpace (ec_PreferredUsername c), False))"

text \<open>\<open>[^a-zA-Z0-9_.-]+\<close> replaced by \<open>-\<close>.\<close>

definition name_char :: "char \<Rightarrow> bool" where
  "name_char c \<longleftrightarrow> is_alnum c \<or> c = CHR ''_'' \<or> c = CHR ''.'' \<or> c = CHR ''-''"

fun dash_runs :: "bool \<Rightarrow> string \<Rightarrow> string" where
  "dash_runs inside [] = []"
| "dash_runs inside (c # cs) = (if name_char c then c # dash_runs False cs
     else if inside then dash_runs True cs else CHR ''-'' # dash_runs True cs)"

definition entraUsername :: "env \<Rightarrow> string \<Rightarrow> string \<Rightarrow> string \<Rightarrow> string" where
  "entraUsername E preferred email objectID =
     (let base0 = takeWhile (\<lambda>c. c \<noteq> CHR ''@'') (TrimSpace preferred);
          base = (if base0 = [] then takeWhile (\<lambda>c. c \<noteq> CHR ''@'') email else base0);
          suffix = take 8 (filter (\<lambda>c. c \<noteq> CHR ''-'') objectID)
      in trim_set ''-.'' (ToLower E (dash_runs False base)) @ ''-'' @ suffix)"

definition entra_matches :: "env \<Rightarrow> site \<Rightarrow> upstreamTransaction \<Rightarrow> entraClaims \<Rightarrow> bool" where
  "entra_matches E S t c \<longleftrightarrow> ec_Nonce c = ut_Nonce t \<and> EqualFold E (ec_TenantID c) (EntraTenantID S) \<and>
     ec_ObjectID c \<noteq> [] \<and> ec_Subject c \<noteq> []"

text \<open>The part of \<open>entraCallback\<close> that decides what the provider said: the claims, or the recorded reason and the page.\<close>

definition entra_identity_of :: "env \<Rightarrow> site \<Rightarrow> upstream \<Rightarrow> web_request \<Rightarrow> upstreamTransaction \<Rightarrow> (string \<times> string \<times> nat \<times> string) + entraClaims" where
  "entra_identity_of E S G r t =
     (case entra_exchange G (wq_query r ''code'') (ut_Verifier t) of
        None \<Rightarrow> Inl ([], ''authorization code exchange failed'', 502, ''Microsoft Entra ID authorization failed'')
      | Some raw \<Rightarrow>
        if raw = None \<or> raw = Some []
        then Inl ([], ''token response omitted the ID token'', 502, ''Microsoft Entra ID authorization omitted the ID token'')
        else (case entra_verify G (the raw) of
          None \<Rightarrow> Inl ([], ''ID token verification failed'', 502, ''Microsoft Entra ID token verification failed'')
        | Some payload \<Rightarrow>
          (case entra_claims G payload of
             None \<Rightarrow> Inl ([], ''ID token claims could not be read'', 502, ''Microsoft Entra ID identity claims were invalid'')
           | Some c \<Rightarrow> if entra_matches E S t c then Inr c
               else Inl (ec_PreferredUsername c, ''nonce, tenant or identity claims did not match'', 403,
                 ''Microsoft Entra ID identity did not match this Shauth tenant''))))"

definition entraCallback :: "server \<Rightarrow> site \<Rightarrow> upstream \<Rightarrow> web_request \<Rightarrow> web_response app" where
  "entraCallback V S G r =
     (let expired = ErrorPage 400 ''This Microsoft Entra ID sign-in link has expired or was already used. Sign in again.'';
          name = validEntraStateCookieName (wq_query r ''state'') in
      if \<not> EntraEnabled S then retS (respond NotFound404)
      else case carried G r name of None \<Rightarrow> retS (respond expired)
      | Some val \<Rightarrow>
        let cs = [expireCookieAtPath S (the name) ''/oauth/entra/callback''] in
        (case decodeUpstreamTransaction G val of None \<Rightarrow> retS (with_cookies cs (respond expired))
         | Some t \<Rightarrow>
           if ut_Nonce t = [] then retS (with_cookies cs (respond expired))
           else if wq_query r ''error'' \<noteq> [] then
             bindS (recordSignIn V 0 (clientIP S r) AuditSignInFailed ''entra'' [] [] (''Microsoft Entra ID returned '' @ wq_query r ''error'')) (\<lambda>_.
             retS (with_cookies cs (respond (upstreamSignInCancelled r ''Microsoft Entra ID'' (relativeNext S (ut_Next t))))))
           else (case entra_identity_of (sv_env V 0) S G r t of
             Inl (username, why, st, m) \<Rightarrow> bindS (recordSignIn V 0 (clientIP S r) AuditSignInFailed ''entra'' username [] why) (\<lambda>_.
               retS (with_cookies cs (respond (ErrorPage st m))))
           | Inr c \<Rightarrow>
             let (email, verified) = entraEmail c in
             orElse (inDb (FindOrCreateEntraUser (sv_env V 1) (ec_TenantID c) (ec_ObjectID c)
                 (entraUsername (sv_env V 1) (ec_PreferredUsername c) email (ec_ObjectID c)) email verified))
               (\<lambda>e. bindS (recordSignIn V 2 (clientIP S r) AuditSignInBlocked ''entra'' email [] (error_text e)) (\<lambda>_.
                 retS (with_cookies cs (respond (ErrorPage 500 ''could not establish local account'')))))
               (\<lambda>user. begin_session (shift 20 V) S r ''entra'' user (relativeNext S (ut_Next t)) cs))))"

subsection \<open>The validation worker's link\<close>

definition validatorBootstrapConsume :: "server \<Rightarrow> site \<Rightarrow> web_request \<Rightarrow> web_response app" where
  "validatorBootstrapConsume V S r =
     (let gone = respond (ErrorPage 410 ''validation browser bootstrap is unavailable'');
          failed = (\<lambda>username sub why. bindS (recordSignIn V 1 (clientIP S r) AuditSignInFailed ''validator_bootstrap'' username sub why) (\<lambda>_. retS gone)) in
      case wq_form r of None \<Rightarrow> retS gone
      | Some f \<Rightarrow>
        if length f \<noteq> 2 \<or> length (form_values f ''_csrf'') \<noteq> 1 \<or> length (form_values f ''token'') \<noteq> 1 then retS gone
        else orElse (inDb (ConsumeValidationBrowserBootstrap (sv_env V 0) (form_get f ''token'') (now_of V 0)))
          (\<lambda>_. failed [] [] ''bootstrap link unavailable'')
          (\<lambda>(user, dest). if \<not> strictRelativeNext S dest then failed (Username user) (ID user) ''bootstrap destination is not local''
             else begin_session (shift 20 V) S r ''validator_bootstrap'' user dest []))"


subsection \<open>Sessions that end stay ended\<close>

text \<open>No session in force appears for an account that had none.\<close>

definition fades :: "db \<Rightarrow> db \<Rightarrow> bool" where
  "fades s s' \<longleftrightarrow> (\<forall>x \<in> set (sessions s'). s_revoked x = None \<longrightarrow> (\<exists>y \<in> set (sessions s). s_user y = s_user x \<and> s_revoked y = None))"

definition fading :: "world \<Rightarrow> world \<Rightarrow> bool" where
  "fading w w' \<longleftrightarrow> fades (store w) (store w')"

interpretation fd: contract fades
  by unfold_locales (auto simp: fades_def, fastforce)

interpretation fw: contract fading
  by unfold_locales (auto simp: fading_def intro: fd.R_refl fd.R_trans)

lemma fades_same: "sessions s' = sessions s \<Longrightarrow> fades s s'"
  by (auto simp: fades_def)

lemma fades_contained: "fades s s' \<Longrightarrow> contained s u \<Longrightarrow> contained s' u"
  unfolding fades_def contained_def by metis

lemma fades_upd:
  assumes "\<And>x. s_user (f x) = s_user x" "\<And>x. s_revoked (f x) = None \<Longrightarrow> s_revoked x = None"
  shows "fades s (s\<lparr>sessions := upd P f (sessions s)\<rparr>)"
  unfolding fades_def
proof (intro ballI impI)
  fix x
  assume "x \<in> set (sessions (s\<lparr>sessions := upd P f (sessions s)\<rparr>))" "s_revoked x = None"
  then obtain y where "y \<in> set (sessions s)" "x = (if P y then f y else y)" "s_revoked x = None" by (auto simp: in_upd)
  with assms show "\<exists>y \<in> set (sessions s). s_user y = s_user x \<and> s_revoked y = None" by (intro bexI [of _ y]) (auto split: if_splits)
qed

lemma CurrentUser_fades: "obeys fades (CurrentUser E raw now)"
  unfolding CurrentUser_def currentUser_def
  by (intro fd.keeps fd.keeps_readonly [OF read_SessionPolicy_state] fd.keeps_stmt) (auto simp: put_Inr intro!: fades_upd)

lemma RevokeSession_fades: "obeys fades (RevokeSession E i now)"
  unfolding RevokeSession_def
  by (intro fd.keeps fd.keeps_stmt) (auto simp: put_Inr revoke_rows_def intro!: fades_upd)

lemma inDb_fading: "obeys fades m \<Longrightarrow> obeys fading (inDb m)"
  by (simp add: obeys_def fading_def inDb_def split_beta)

lemma aside_fading: "aside w w' \<Longrightarrow> fading w w'"
  by (auto simp: aside_def fading_def intro: fades_same)

lemma beside: "obeys aside m \<Longrightarrow> obeys fading m"
  by (simp add: obeys_def aside_fading)

lemma session_reads: "snd (SessionUserID E i s) = s" "snd (HydraLoginSessionIDs E i s) = s"
  by (auto simp: SessionUserID_def HydraLoginSessionIDs_def io_defs split: option.splits)

lemmas fading_rules = fw.keeps keeps_try keeps_sum inDb_fading [OF RevokeSession_fades] inDb_fading [OF CurrentUser_fades]
  note_event_aside [THEN beside] revokeOther_aside [THEN beside] session_reads [THEN fd.keeps_readonly, THEN inDb_fading]

lemma current_fading: "obeys fading (current V i cookie)"
  unfolding current_def by (intro fading_rules)

lemma revokeSession_fading: "obeys fading (revokeSession V i who)"
  unfolding revokeSession_def requireUUID_def by (intro fading_rules)

text \<open>A session begun for an account without sessions in force is its only one.\<close>

lemma startSession_alone:
  assumes run: "startSession V cookie user agent address w = (Inr (Some (raw, row)), w')" and none: "contained (store w) u"
    and x: "x \<in> set (sessions (store w'))" "s_user x = u" "s_revoked x = None"
  shows "x = row" and "s_token_hash row = Some (sha256 (sv_env V 6) raw)"
proof -
  let ?replace = "\<lambda>previous. case previous of Inl _ \<Rightarrow> retS () | Inr (previousUser, previousSession) \<Rightarrow>
         if ID previousUser \<noteq> ID user
         then bindS (tryS (revokeSession (shift 2 V) (s_id previousSession) (browserActor address previousUser previousSession))) (\<lambda>_. retS ())
         else bindS (tryS (inDb (RevokeSession (sv_env V 1) (s_id previousSession) (now_of V 1)))) (\<lambda>_. retS ())"
  from run obtain previous w1 w2 created w3 where c: "tryS (current V 0 cookie) w = (Inr previous, w1)" "?replace previous w1 = (Inr (), w2)"
    and "tryS (inDb (CreateSession (sv_env V 6) (ID user) agent address (now_of V 6))) w2 = (Inr created, w3)"
      "(case created of Inl _ \<Rightarrow> retS None | Inr session \<Rightarrow> retS (Some session)) w3 = (Inr (Some (raw, row)), w')"
    unfolding startSession_def bindS_Inr by (elim exE conjE) (rule that, simp_all)
  then have created: "inDb (CreateSession (sv_env V 6) (ID user) agent address (now_of V 6)) w2 = (Inr (raw, row), w')"
    by (auto simp: tryS_Inr retS_def split: sum.splits)
  have "fading w w1" using c(1) by (rule obeysD [rotated]) (intro keeps_try current_fading)
  moreover have "obeys fading (?replace previous)" by (intro fading_rules revokeSession_fading)
  then have "fading w1 w2" using c(2) by (rule obeysD)
  ultimately have c2: "contained (store w2) u" using none fades_contained by (auto simp: fading_def)
  from created obtain s' where "sessions (store w') = sessions (store w2) @ [row]" "s_token_hash row = Some (sha256 (sv_env V 6) raw)"
    by (auto simp: inDb_Inr CreateSession_Inr put_Inr)
  with c2 x show "x = row" "s_token_hash row = Some (sha256 (sv_env V 6) raw)" by (auto simp: contained_def)
qed

lemma revokeUserSessions_contains:
  assumes run: "revokeUserSessions V i [] who w = (Inr x, w')"
  shows "uuid_in (sv_env V 1) i = Some u \<Longrightarrow> contained (store w') u" and "users (store w') = users (store w)"
proof -
  have rd: "snd (UserHydraLoginSessionIDs E u s) = s" for E u s
    by (auto simp: UserHydraLoginSessionIDs_def io_defs split: option.splits)
  from run obtain j w0 u1 w1 u2 w2 ended w3 where
    "(if i = [] then bindS (guardS (([] :: string) \<noteq> []) (invalidInput ''provide a user identifier or an email address'')) (\<lambda>_.
        inDb (UserIDByEmail (sv_env V 0) [])) else retS i) w = (Inr j, w0)" "requireUUID j ErrUserNotFound w0 = (Inr u1, w1)"
    and r: "inDb (RevokeUserSessions (sv_env V 1) j (now_of V 1)) w1 = (Inr u2, w2)" "tryS (revokeHydraSessions V 2 j) w2 = (Inr ended, w3)"
    and noted: "(case ended of
       Inl _ \<Rightarrow> bindS (note_event V 3 who AuditAccountSessionsEnded j
           [(''addressed_by_email'', DFlag ([] \<noteq> ([] :: string))), (''oauth_revocation'', DText ''failed'')]) (\<lambda>_.
         failS (DependencyError ''the sessions ended, but OAuth session revocation did not complete''))
     | Inr _ \<Rightarrow> bindS (note_event V 3 who AuditAccountSessionsEnded j [(''addressed_by_email'', DFlag ([] \<noteq> ([] :: string)))]) (\<lambda>_. retS j)) w3 = (Inr x, w')"
    unfolding revokeUserSessions_def bindS_Inr by (elim exE conjE) (rule that)
  then have j: "j = i" "w1 = w" by (auto simp: requireUUID_def guardS_def retS_def bindS_def failS_def split: if_splits)
  obtain s1 where s1: "RevokeUserSessions (sv_env V 1) i (now_of V 1) (store w) = (Inr (), s1)" "w2 = w\<lparr>store := s1\<rparr>"
    using r(1) by (auto simp: inDb_Inr j)
  have "aside w2 w3" using r(2) by (rule obeysD [rotated]) (unfold revokeHydraSessions_def, intro aside_rules inDb_read_aside rd)
  moreover have "aside w3 w'" using noted by (rule obeysD [rotated]) (intro aside_rules)
  ultimately have "aside w2 w'" by (rule asd.R_trans)
  then have w': "sessions (store w') = sessions s1" "users (store w') = users s1" by (auto simp: aside_def s1(2))
  from s1(1) obtain v where v: "uuid_in (sv_env V 1) i = Some v"
    "s1 = (store w)\<lparr>sessions := revoke_rows (unrevoked_ids (store w) v) (now_of V 1) (sessions (store w))\<rparr>"
    by (auto simp: RevokeUserSessions_def revokeSessionSnapshot_def io_Inr lockActiveUser_Inr put_Inr)
  then show "users (store w') = users (store w)" using w' by simp
  show "contained (store w') u" if "uuid_in (sv_env V 1) i = Some u"
    using revoke_unrevoked_contains [of "store w" u "now_of V 1"] that v w' by (simp add: contained_def)
qed


subsection \<open>What a GitHub sign-in does\<close>

text \<open>Asking the rules only binds a user rule to the account it names and records that, so \<open>githubRole\<close> keeps every contract
  those two methods keep.\<close>

lemma githubRole_obeys:
  assumes R: "contract R" and bind: "\<And>i g. obeys R (BindGitHubUserMapping E i g)"
    and event: "\<And>l sub ds. obeys R (record_event E service_actor l sub ds)"
  shows "obeys R (githubRole E profile teams organizations)"
proof -
  note rules = contract.keeps [OF R]
  have one: "obeys R (githubUserRuleMatches E m profile)" for m
  proof -
    have "obeys R (bindS (record_event E service_actor l sub ds) (\<lambda>_. retS True))" for l sub ds
      by (intro rules event)
    then have "R s (snd (githubUserRuleMatches E m profile s))" for s
      using obeysD [OF bind, of "map_ID m" "prof_ID profile" s] contract.R_refl [OF R]
      by (auto simp: githubUserRuleMatches_def retS_def obeys_def split: prod.split sum.split intro: contract.R_trans [OF R])
    then show ?thesis by (simp add: obeys_def)
  qed
  have all: "obeys R (evaluate_rules E profile ts os ms role allowed)" for ts os ms role allowed
  proof (induction ms arbitrary: role allowed)
    case Nil
    show ?case unfolding evaluate_rules.simps by (rule rules)
  next
    case (Cons m ms)
    show ?case unfolding evaluate_rules.simps by (intro rules one Cons.IH)
  qed
  have lift: "obeys R (liftS z)" for z
    by (cases z) (simp_all add: liftS_def rules)
  show ?thesis unfolding githubRole_def ListGitHubRoleMappings_def by (intro rules lift all)
qed

lemma githubRole_quiet: "obeys quiet (githubRole E profile teams organizations)"
  by (intro githubRole_obeys qt.contract_axioms BindGitHubUserMapping_quiet record_event_quiet)

lemma recordSignIn_aside: "obeys aside (recordSignIn V i address l kind n sub why)"
  unfolding recordSignIn_def by (rule note_event_aside)

text \<open>The answers that say what became of the account are reached only after GitHub named it and the rules were asked.\<close>

lemma githubCallback_decided:
  assumes run: "githubCallback V S G r w = (Inr p, w')"
    and ans: "answer p = ErrorPage 403 no_access \<or> answer p = RedirectTo 303 dest"
  obtains val t token profile role allowed s1 cs where
    "carried G r (validGitHubStateCookieName (wq_query r ''state'')) = Some val" "decodeUpstreamTransaction G val = Some t"
    "wq_query r ''error'' = []" "github_exchange G (wq_query r ''code'') (ut_Verifier t) = Inr token"
    "read_Profile token (github_user_reply G token) (github_email_reply G token) = Inr profile"
    "githubRole (sv_env V 1) profile (github_teams G token) (github_organizations G token) (store w) = (Inr (role, allowed), s1)"
    "(if \<not> allowed then bindS (github_denied V S r profile) (\<lambda>a. retS (with_cookies cs (respond a)))
      else github_admitted V S r (relativeNext S (ut_Next t)) profile role cs) (w\<lparr>store := s1\<rparr>) = (Inr p, w')"
proof -
  have ended: False if "bindS (recordSignIn V i ad l k n sub why) (\<lambda>_. retS (with_cookies cs (respond (ErrorPage 502 m)))) v = (Inr p, w')"
    for i ad l k n sub why cs m v
    using that ans by (auto simp: io_Inr with_cookies_def)
  have cancelled: False if "bindS (recordSignIn V i ad l k n sub why) (\<lambda>_. retS (with_cookies cs (respond (upstreamSignInCancelled r g b)))) v = (Inr p, w')"
    for i ad l k n sub why cs g b v
    using that ans by (auto simp: io_Inr with_cookies_def upstreamSignInCancelled_def)
  have expired: False if "retS (with_cookies cs (respond (ErrorPage 400 m))) v = (Inr p, w')" for cs m v
    using that ans by (auto simp: io_Inr with_cookies_def)
  obtain val where val: "carried G r (validGitHubStateCookieName (wq_query r ''state'')) = Some val"
    using run ans by (cases "carried G r (validGitHubStateCookieName (wq_query r ''state''))") (auto simp: githubCallback_def Let_def io_Inr)
  note run = run [unfolded githubCallback_def Let_def val option.simps]
  obtain t where t: "decodeUpstreamTransaction G val = Some t"
    using run expired by (cases "decodeUpstreamTransaction G val") (auto simp only: option.simps)
  have e: "wq_query r ''error'' = []"
    using run cancelled by (cases "wq_query r ''error'' = []") (auto simp only: t option.simps if_False if_True not_True_eq_False not_False_eq_True)
  note run = run [unfolded t option.simps e simp_thms if_False]
  have "github_exchange G (wq_query r ''code'') (ut_Verifier t) \<noteq> Inl e" for e
  proof
    assume N: "github_exchange G (wq_query r ''code'') (ut_Verifier t) = Inl e"
    show False by (rule ended [OF run [unfolded N sum.case]])
  qed
  then obtain token where token: "github_exchange G (wq_query r ''code'') (ut_Verifier t) = Inr token"
    by (cases "github_exchange G (wq_query r ''code'') (ut_Verifier t)") blast+
  note run = run [unfolded token sum.case]
  have "read_Profile token (github_user_reply G token) (github_email_reply G token) \<noteq> Inl e" for e
  proof
    assume N: "read_Profile token (github_user_reply G token) (github_email_reply G token) = Inl e"
    show False by (rule ended [OF run [unfolded N sum.case]])
  qed
  then obtain profile where profile: "read_Profile token (github_user_reply G token) (github_email_reply G token) = Inr profile"
    by (cases "read_Profile token (github_user_reply G token) (github_email_reply G token)") blast+
  note run = run [unfolded profile sum.case]
  from run show thesis
  proof (cases rule: orElse_cases)
    case (failed x v)
    then show thesis using ended by blast
  next
    case (went x v)
    obtain role allowed where x: "x = (role, allowed)" by (cases x)
    with went(1) obtain s1 where "githubRole (sv_env V 1) profile (github_teams G token) (github_organizations G token) (store w) = (Inr (role, allowed), s1)"
      "v = w\<lparr>store := s1\<rparr>" by (auto simp: inDb_run)
    with went(2) x val t e token profile show thesis by (intro that) (simp_all only: prod.case)
  qed
qed


lemma github_denied_contains:
  assumes run: "github_denied V S r profile w = (Inr (ErrorPage 403 no_access), w')" and ok: "schema_ok (store w)"
    and u: "u \<in> set (users (store w'))" "u_github_id u = Some (prof_ID profile)" "uuid_in (sv_env V 11) (u_id u) = Some i"
  shows "contained (store w') i"
proof -
  from run obtain x w1 where n: "recordSignIn V 2 (clientIP S r) AuditSignInFailed ''github'' (prof_Login profile) []
       ''no GitHub access rule grants this account a role'' w = (Inr x, w1)"
    and rest: "orElse (inDb (GitHubUserID (sv_env V 3) (prof_ID profile)))
       (\<lambda>e. retS (if e = ErrUserNotFound then ErrorPage 403 no_access
          else ErrorPage 502 ''This GitHub account no longer has access, and its existing sessions could not be checked. Try again shortly.''))
       (\<lambda>userID. orElse (revokeUserSessions (shift 10 V) userID [] service_actor)
          (\<lambda>_. retS (ErrorPage 502 ''This GitHub account no longer has access, but its existing sessions could not all be ended. Try again, or ask an administrator to end them.''))
          (\<lambda>_. retS (ErrorPage 403 no_access))) w1 = (Inr (ErrorPage 403 no_access), w')"
    unfolding github_denied_def bindS_Inr by (elim exE conjE) (rule that)
  from obeysD [OF recordSignIn_aside n] have us: "users (store w1) = users (store w)" by (auto simp: aside_def)
  from rest show ?thesis
  proof (cases rule: orElse_cases)
    case (failed e v)
    then have "GitHubUserID (sv_env V 3) (prof_ID profile) (store w1) = (Inl ErrUserNotFound, store v)" "w' = v"
      by (auto simp: inDb_run retS_def split: if_splits)
    then have "find (\<lambda>u. u_github_id u = Some (prof_ID profile)) (users (store w1)) = None" "users (store w') = users (store w1)"
      by (auto simp: GitHubUserID_def io_defs split: if_splits option.splits)
    with u show ?thesis by (auto simp: find_None_iff)
  next
    case (went userID v)
    then have g: "GitHubUserID (sv_env V 3) (prof_ID profile) (store w1) = (Inr userID, store v)" by (auto simp: inDb_run)
    then obtain y where y: "y \<in> set (users (store w1))" "u_github_id y = Some (prof_ID profile)" "userID = u_id y" and v: "store v = store w1"
      by (auto simp: GitHubUserID_def io_Inr dest!: find_SomeD split: option.splits)
    from went(2) show ?thesis
    proof (cases rule: orElse_cases)
      case (failed e z)
      then show ?thesis by (simp add: retS_def)
    next
      case (went x z)
      then have z: "revokeUserSessions (shift 10 V) userID [] service_actor v = (Inr x, w')" by (simp add: retS_def)
      have "y = u" using u(1) revokeUserSessions_contains(2) [OF z] us v y(1)
        by (intro github_unique [OF ok _ _ y(2) u(2)]) simp_all
      with revokeUserSessions_contains(1) [OF z, of i] u(3) y(3) show ?thesis by (simp add: shift_def)
    qed
  qed
qed

lemma begin_session_alone:
  assumes run: "begin_session V S r kind user dest cs w = (Inr p, w')" "answer p = RedirectTo 303 d" and none: "contained (store w) u"
    and x: "x \<in> set (sessions (store w'))" "s_user x = u" "s_revoked x = None"
  shows "s_token_hash x = Some (sha256 (sv_env V 6) (ck_value (last (new_cookies p))))"
proof -
  from run(1) obtain started w1 where s: "startSession V (cookie_of r browserSessionCookie) user (wq_agent r) (clientIP S r) w = (Inr started, w1)"
    and rest: "(case started of
       None \<Rightarrow> retS (with_cookies cs (respond (ErrorPage 500 ''Your session could not be started. Try signing in again.'')))
     | Some (raw, row) \<Rightarrow>
         bindS (recordSignIn V 7 (clientIP S r) AuditSignInSucceeded kind (Username user) (ID user) []) (\<lambda>_.
         retS \<lparr>answer = RedirectTo 303 dest, new_cookies = cs @ [session_cookie S V 8 raw row]\<rparr>)) w1 = (Inr p, w')"
    unfolding begin_session_def bindS_Inr by (elim exE conjE) (rule that)
  from rest run(2) obtain raw row where st: "started = Some (raw, row)"
    by (cases started) (auto simp: io_Inr with_cookies_def)
  from rest st obtain z where n: "recordSignIn V 7 (clientIP S r) AuditSignInSucceeded kind (Username user) (ID user) [] w1 = (Inr z, w')"
    and p: "p = \<lparr>answer = RedirectTo 303 dest, new_cookies = cs @ [session_cookie S V 8 raw row]\<rparr>"
    by (auto simp: io_Inr)
  have "sessions (store w') = sessions (store w1)" using obeysD [OF recordSignIn_aside n] by (auto simp: aside_def)
  with x have "x \<in> set (sessions (store w1))" by simp
  from startSession_alone [OF s [unfolded st] none this x(2,3)] show ?thesis
    by (simp add: p session_cookie_def callback_cookie_def)
qed

lemma begin_session_answers: "begin_session V S r kind user d cs w = (Inr p, w') \<Longrightarrow> answer p \<noteq> ErrorPage 403 m"
  by (auto simp: begin_session_def io_Inr with_cookies_def split: option.splits)

lemma github_admitted_run:
  assumes run: "github_admitted V S r d profile role cs w = (Inr p, w')"
  shows "answer p \<noteq> ErrorPage 403 no_access"
    and "answer p = RedirectTo 303 dest \<Longrightarrow> \<exists>user demoted s2.
       FindOrCreateGitHubUser (sv_env V 3) (prof_ID profile) (prof_Login profile) (prof_Email profile) role (store w) = (Inr (user, demoted), s2) \<and>
       (demoted \<longrightarrow> (\<exists>x v. revokeUserSessions (shift 10 V) (ID user) [] service_actor (w\<lparr>store := s2\<rparr>) = (Inr x, v) \<and>
          begin_session (shift 20 V) S r ''github'' user d cs v = (Inr p, w')))"
proof -
  have page: "answer p \<noteq> ErrorPage 403 no_access \<and> answer p \<noteq> RedirectTo 303 dest"
    if "bindS (recordSignIn V i ad l k n sub why) (\<lambda>_. retS (with_cookies cs (respond (ErrorPage st m)))) v = (Inr p, w')" "st \<noteq> 403 \<or> m \<noteq> no_access"
    for i ad l k n sub why st m v
    using that by (auto simp: io_Inr with_cookies_def)
  have other: "''This account is disabled. Ask an administrator to enable it.'' \<noteq> no_access" by (simp add: no_access_def)
  have "answer p \<noteq> ErrorPage 403 no_access \<and> (answer p = RedirectTo 303 dest \<longrightarrow> (\<exists>user demoted s2.
       FindOrCreateGitHubUser (sv_env V 3) (prof_ID profile) (prof_Login profile) (prof_Email profile) role (store w) = (Inr (user, demoted), s2) \<and>
       (demoted \<longrightarrow> (\<exists>x v. revokeUserSessions (shift 10 V) (ID user) [] service_actor (w\<lparr>store := s2\<rparr>) = (Inr x, v) \<and>
          begin_session (shift 20 V) S r ''github'' user d cs v = (Inr p, w')))))"
    using run unfolding github_admitted_def Let_def
  proof (cases rule: orElse_cases)
    case (failed e v)
    show ?thesis
    proof (cases "e = ErrUserInactive")
      case True
      from page [OF failed(2) [unfolded if_P [OF True]]] other show ?thesis by blast
    next
      case False
      from page [OF failed(2) [unfolded if_not_P [OF False]]] show ?thesis by simp
    qed
  next
    case (went x v)
    obtain user demoted where x: "x = (user, demoted)" by (cases x)
    with went(1) obtain s2 where s2: "FindOrCreateGitHubUser (sv_env V 3) (prof_ID profile) (prof_Login profile) (prof_Email profile) role (store w) = (Inr (user, demoted), s2)"
      "v = w\<lparr>store := s2\<rparr>" by (auto simp: inDb_run)
    show ?thesis
    proof (cases demoted)
      case True
      note rest = went(2) [unfolded x prod.case if_P [OF True]]
      from rest show ?thesis
      proof (cases rule: orElse_cases)
        case (failed e z)
        from page [OF failed(2)] show ?thesis by simp
      next
        case (went y z)
        with s2 begin_session_answers [OF went(2)] show ?thesis by blast
      qed
    next
      case False
      note rest = went(2) [unfolded x prod.case if_not_P [OF False]]
      with s2 False begin_session_answers [OF rest] show ?thesis by blast
    qed
  qed
  then show "answer p \<noteq> ErrorPage 403 no_access"
    and "answer p = RedirectTo 303 dest \<Longrightarrow> \<exists>user demoted s2.
       FindOrCreateGitHubUser (sv_env V 3) (prof_ID profile) (prof_Login profile) (prof_Email profile) role (store w) = (Inr (user, demoted), s2) \<and>
       (demoted \<longrightarrow> (\<exists>x v. revokeUserSessions (shift 10 V) (ID user) [] service_actor (w\<lparr>store := s2\<rparr>) = (Inr x, v) \<and>
          begin_session (shift 20 V) S r ''github'' user d cs v = (Inr p, w')))" by blast+
qed

lemma github_denied_answers: "github_denied V S r profile w = (Inr a, w') \<Longrightarrow> a \<noteq> RedirectTo n d"
  unfolding github_denied_def bindS_Inr
  by (elim exE conjE orElse_cases) (auto simp: retS_def split: if_splits elim!: orElse_cases)

text \<open>C15. What GitHub sign-in decides takes effect at once. The browser must bring back the cookie of the very state GitHub
  returned, and its verifier goes with the code. An account no rule admits any more is told so only when none of its
  sessions is left in force. An admitted account is established with the role the rules give it, and when that took the
  administrator role away, the session that begins is its only one.\<close>

theorem github_sign_in_takes_effect:
  assumes run: "githubCallback V S G r w = (Inr p, w')" and ok: "schema_ok (store w)"
    and ans: "answer p = ErrorPage 403 no_access \<or> answer p = RedirectTo 303 dest"
  shows "\<exists>name val t token profile role allowed s1. validGitHubStateCookieName (wq_query r ''state'') = Some name \<and>
    cookie_of r name = Some val \<and> decodeUpstreamTransaction G val = Some t \<and>
    github_exchange G (wq_query r ''code'') (ut_Verifier t) = Inr token \<and>
    read_Profile token (github_user_reply G token) (github_email_reply G token) = Inr profile \<and>
    githubRole (sv_env V 1) profile (github_teams G token) (github_organizations G token) (store w) = (Inr (role, allowed), s1) \<and>
    (answer p = ErrorPage 403 no_access \<longrightarrow> \<not> allowed \<and> (\<forall>u i. u \<in> set (users (store w')) \<longrightarrow> u_github_id u = Some (prof_ID profile) \<longrightarrow>
       uuid_in (sv_env V 11) (u_id u) = Some i \<longrightarrow> contained (store w') i)) \<and>
    (answer p = RedirectTo 303 dest \<longrightarrow> allowed \<and> (\<exists>user demoted s2.
       FindOrCreateGitHubUser (sv_env V 3) (prof_ID profile) (prof_Login profile) (prof_Email profile) role s1 = (Inr (user, demoted), s2) \<and>
       (demoted \<longrightarrow> (\<forall>x \<in> set (sessions (store w')). uuid_in (sv_env V 11) (ID user) = Some (s_user x) \<longrightarrow> s_revoked x = None \<longrightarrow>
          s_token_hash x = Some (sha256 (sv_env V 26) (ck_value (last (new_cookies p))))))))"
proof -
  obtain val t token profile role allowed s1 cs where c: "carried G r (validGitHubStateCookieName (wq_query r ''state'')) = Some val"
    "decodeUpstreamTransaction G val = Some t" "wq_query r ''error'' = []" "github_exchange G (wq_query r ''code'') (ut_Verifier t) = Inr token"
    "read_Profile token (github_user_reply G token) (github_email_reply G token) = Inr profile"
    and role: "githubRole (sv_env V 1) profile (github_teams G token) (github_organizations G token) (store w) = (Inr (role, allowed), s1)"
    and rest: "(if \<not> allowed then bindS (github_denied V S r profile) (\<lambda>a. retS (with_cookies cs (respond a)))
      else github_admitted V S r (relativeNext S (ut_Next t)) profile role cs) (w\<lparr>store := s1\<rparr>) = (Inr p, w')"
    using run ans by (rule githubCallback_decided)
  from c(1) obtain name where name: "validGitHubStateCookieName (wq_query r ''state'') = Some name" "cookie_of r name = Some val"
    by (auto simp: carried_def split: option.splits)
  have ok1: "schema_ok s1" using obeysD [OF githubRole_quiet role] ok by (simp add: quiet_def keeps_schema_def)
  have "(answer p = ErrorPage 403 no_access \<longrightarrow> \<not> allowed \<and> (\<forall>u i. u \<in> set (users (store w')) \<longrightarrow> u_github_id u = Some (prof_ID profile) \<longrightarrow>
       uuid_in (sv_env V 11) (u_id u) = Some i \<longrightarrow> contained (store w') i)) \<and>
    (answer p = RedirectTo 303 dest \<longrightarrow> allowed \<and> (\<exists>user demoted s2.
       FindOrCreateGitHubUser (sv_env V 3) (prof_ID profile) (prof_Login profile) (prof_Email profile) role s1 = (Inr (user, demoted), s2) \<and>
       (demoted \<longrightarrow> (\<forall>x \<in> set (sessions (store w')). uuid_in (sv_env V 11) (ID user) = Some (s_user x) \<longrightarrow> s_revoked x = None \<longrightarrow>
          s_token_hash x = Some (sha256 (sv_env V 26) (ck_value (last (new_cookies p))))))))" (is ?decided)
  proof (cases allowed)
    case False
    from rest [unfolded if_P [OF False]] obtain a where a: "github_denied V S r profile (w\<lparr>store := s1\<rparr>) = (Inr a, w')" "answer p = a"
      by (auto simp: bindS_Inr retS_def with_cookies_def)
    have "contained (store w') i" if "a = ErrorPage 403 no_access" "u \<in> set (users (store w'))"
      "u_github_id u = Some (prof_ID profile)" "uuid_in (sv_env V 11) (u_id u) = Some i" for u i
      using github_denied_contains [of V S r profile "w\<lparr>store := s1\<rparr>" w' u i] a that ok1 by simp
    with False a(2) github_denied_answers [OF a(1)] show ?thesis by blast
  next
    case True
    then have adm: "github_admitted V S r (relativeNext S (ut_Next t)) profile role cs (w\<lparr>store := s1\<rparr>) = (Inr p, w')" using rest by simp
    have alone: "\<forall>x \<in> set (sessions (store w')). uuid_in (sv_env V 11) (ID user) = Some (s_user x) \<longrightarrow> s_revoked x = None \<longrightarrow>
          s_token_hash x = Some (sha256 (sv_env V 26) (ck_value (last (new_cookies p))))"
      if "revokeUserSessions (shift 10 V) (ID user) [] service_actor z = (Inr y, v)" "answer p = RedirectTo 303 dest"
        "begin_session (shift 20 V) S r ''github'' user d cs v = (Inr p, w')" for user y z v d
    proof (intro ballI impI)
      fix x assume x: "x \<in> set (sessions (store w'))" "uuid_in (sv_env V 11) (ID user) = Some (s_user x)" "s_revoked x = None"
      have "contained (store v) (s_user x)" using revokeUserSessions_contains(1) [OF that(1)] x(2) by (simp add: shift_def)
      from begin_session_alone [OF that(3,2) this x(1) refl x(3)]
      show "s_token_hash x = Some (sha256 (sv_env V 26) (ck_value (last (new_cookies p))))" by (simp add: shift_def)
    qed
    show ?thesis
    proof (intro conjI impI)
      assume "answer p = ErrorPage 403 no_access"
      with github_admitted_run(1) [OF adm] show "\<not> allowed" "\<forall>u i. u \<in> set (users (store w')) \<longrightarrow> u_github_id u = Some (prof_ID profile) \<longrightarrow>
         uuid_in (sv_env V 11) (u_id u) = Some i \<longrightarrow> contained (store w') i" by blast+
    next
      assume ans: "answer p = RedirectTo 303 dest"
      show allowed by (rule True)
      obtain user demoted s2 where f: "FindOrCreateGitHubUser (sv_env V 3) (prof_ID profile) (prof_Login profile) (prof_Email profile) role s1 = (Inr (user, demoted), s2)"
        and d: "demoted \<longrightarrow> (\<exists>y v. revokeUserSessions (shift 10 V) (ID user) [] service_actor (w\<lparr>store := s1, store := s2\<rparr>) = (Inr y, v) \<and>
          begin_session (shift 20 V) S r ''github'' user (relativeNext S (ut_Next t)) cs v = (Inr p, w'))"
        using github_admitted_run(2) [OF adm ans] by auto
      from d alone [OF _ ans] have "demoted \<longrightarrow> (\<forall>x \<in> set (sessions (store w')). uuid_in (sv_env V 11) (ID user) = Some (s_user x) \<longrightarrow>
          s_revoked x = None \<longrightarrow> s_token_hash x = Some (sha256 (sv_env V 26) (ck_value (last (new_cookies p)))))" by blast
      with f show "\<exists>user demoted s2.
        FindOrCreateGitHubUser (sv_env V 3) (prof_ID profile) (prof_Login profile) (prof_Email profile) role s1 = (Inr (user, demoted), s2) \<and>
        (demoted \<longrightarrow> (\<forall>x \<in> set (sessions (store w')). uuid_in (sv_env V 11) (ID user) = Some (s_user x) \<longrightarrow> s_revoked x = None \<longrightarrow>
          s_token_hash x = Some (sha256 (sv_env V 26) (ck_value (last (new_cookies p))))))" by (intro exI conjI)
    qed
  qed
  with name c role show ?thesis by blast
qed

text \<open>A browser is signed in through Entra ID only by an ID token that verifies, made for this sign-in (its nonce is the one in
  the cookie of the returned state) and for the configured tenant, and as the account bound to its tenant and object.\<close>

theorem entra_sign_in_is_bound:
  assumes run: "entraCallback V S G r w = (Inr p, w')" and ans: "answer p = RedirectTo 303 dest"
  shows "\<exists>name val t raw payload c user s1. EntraEnabled S \<and> validEntraStateCookieName (wq_query r ''state'') = Some name \<and>
    cookie_of r name = Some val \<and> decodeUpstreamTransaction G val = Some t \<and>
    entra_exchange G (wq_query r ''code'') (ut_Verifier t) = Some (Some raw) \<and> entra_verify G raw = Some payload \<and>
    entra_claims G payload = Some c \<and> ec_Nonce c = ut_Nonce t \<and> ec_Nonce c \<noteq> [] \<and>
    EqualFold (sv_env V 0) (ec_TenantID c) (EntraTenantID S) \<and>
    FindOrCreateEntraUser (sv_env V 1) (ec_TenantID c) (ec_ObjectID c)
      (entraUsername (sv_env V 1) (ec_PreferredUsername c) (fst (entraEmail c)) (ec_ObjectID c)) (fst (entraEmail c)) (snd (entraEmail c))
      (store w) = (Inr user, s1)"
proof -
  have ended: False if "bindS (recordSignIn V i ad l k n sub why) (\<lambda>_. retS (with_cookies cs (respond (ErrorPage st m)))) v = (Inr p, w')"
    for i ad l k n sub why cs st m v
    using that ans by (auto simp: io_Inr with_cookies_def)
  have cancelled: False if "bindS (recordSignIn V i ad l k n sub why) (\<lambda>_. retS (with_cookies cs (respond (upstreamSignInCancelled r g b)))) v = (Inr p, w')"
    for i ad l k n sub why cs g b v
    using that ans by (auto simp: io_Inr with_cookies_def upstreamSignInCancelled_def)
  have expired: False if "retS (with_cookies cs (respond (ErrorPage 400 m))) v = (Inr p, w')" for cs m v
    using that ans by (auto simp: io_Inr with_cookies_def)
  have on: "EntraEnabled S" using run ans by (cases "EntraEnabled S") (auto simp: entraCallback_def Let_def io_Inr)
  obtain val where val: "carried G r (validEntraStateCookieName (wq_query r ''state'')) = Some val"
    using run ans on by (cases "carried G r (validEntraStateCookieName (wq_query r ''state''))") (auto simp: entraCallback_def Let_def io_Inr)
  from val obtain name where name: "validEntraStateCookieName (wq_query r ''state'') = Some name" "cookie_of r name = Some val"
    by (auto simp: carried_def split: option.splits)
  note run = run [unfolded entraCallback_def Let_def val option.simps eqTrueI [OF on] not_True_eq_False if_False]
  obtain t where t: "decodeUpstreamTransaction G val = Some t"
    using run expired by (cases "decodeUpstreamTransaction G val") (auto simp only: option.simps)
  note run = run [unfolded t option.simps]
  have n: "ut_Nonce t \<noteq> []"
  proof
    assume N: "ut_Nonce t = []"
    show False by (rule expired [OF run [unfolded if_P [OF N]]])
  qed
  note run = run [unfolded if_not_P [OF n]]
  have e: "wq_query r ''error'' = []"
  proof (rule ccontr)
    assume N: "wq_query r ''error'' \<noteq> []"
    show False by (rule cancelled [OF run [unfolded if_P [OF N]]])
  qed
  note run = run [unfolded e simp_thms if_False]
  have "\<exists>c. entra_identity_of (sv_env V 0) S G r t = Inr c"
  proof (cases "entra_identity_of (sv_env V 0) S G r t")
    case (Inl x)
    obtain username why st m where x: "x = (username, why, st, m)" by (cases x)
    have False by (rule ended [OF run [unfolded Inl x sum.case prod.case]])
    then show ?thesis ..
  qed simp
  then obtain c where c: "entra_identity_of (sv_env V 0) S G r t = Inr c" by blast
  note run = run [unfolded c sum.case]
  obtain raw payload where claims: "entra_exchange G (wq_query r ''code'') (ut_Verifier t) = Some (Some raw)" "entra_verify G raw = Some payload"
    "entra_claims G payload = Some c" "entra_matches (sv_env V 0) S t c"
    using c by (auto simp: entra_identity_of_def split: option.splits if_splits)
  obtain email verified where m: "entraEmail c = (email, verified)" by fastforce
  from run [unfolded m prod.case] obtain user s1 where "FindOrCreateEntraUser (sv_env V 1) (ec_TenantID c) (ec_ObjectID c)
      (entraUsername (sv_env V 1) (ec_PreferredUsername c) email (ec_ObjectID c)) email verified (store w) = (Inr user, s1)"
  proof (cases rule: orElse_cases)
    case (failed x v)
    then show thesis using ended by blast
  next
    case (went x v)
    then show thesis by (auto simp: inDb_run intro: that)
  qed
  with on name t claims n m show ?thesis by (auto simp: entra_matches_def)
qed


subsection \<open>An example\<close>

text \<open>Carol once had access and still has a session; no rule admits her now.\<close>

definition carol :: user_row where
  "carol = (example_user alice_id ''carol'')\<lparr>u_github_id := Some 7, u_github_login := Some ''Carol''\<rparr>"

definition carol_db :: db where
  "carol_db = example_db\<lparr>users := [carol], sessions := [example_session ''s1'' alice_id]\<rparr>"

definition carol_server :: server where
  "carol_server = example_server\<lparr>sv_env := (\<lambda>_. example_env)\<rparr>"

definition carol_world :: world where
  "carol_world = example_world\<lparr>store := carol_db\<rparr>"

definition example_upstream :: upstream where
  "example_upstream = \<lparr>marshal_upstream = (\<lambda>_. Some ''{}''), unmarshal_upstream = (\<lambda>_. Some \<lparr>ut_Next = ''/'', ut_Verifier = ''v1'', ut_Nonce = []\<rparr>),
     fresh_verifier = ''v1'', github_url = (\<lambda>_ _. []), entra_url = (\<lambda>_ _ _. []), github_exchange = (\<lambda>_ _. Inr ''token''),
     github_user_reply = (\<lambda>_. Reply 200 (Some example_profile)), github_email_reply = (\<lambda>_. Reply 200 (Some
       [\<lparr>email_Address = ''carol@example.org'', email_Primary = True, email_Verified = True\<rparr>])),
     github_teams = (\<lambda>_. Inr []), github_organizations = (\<lambda>_. Inr []), entra_exchange = (\<lambda>_ _. None),
     entra_verify = (\<lambda>_. None), entra_claims = (\<lambda>_. None)\<rparr>"

definition example_state :: string where
  "example_state = replicate 64 CHR ''0''"

definition example_return :: web_request where
  "example_return = \<lparr>wq_method = ''GET'', wq_path = ''/oauth/github/callback'', wq_uri = ''/oauth/github/callback'', wq_header = (\<lambda>_. []),
     wq_authorization = [], wq_cookies = [(githubStateCookieName example_state, ''AAAA'')],
     wq_query = (\<lambda>k. if k = ''state'' then example_state else []), wq_form = None, wq_remote = [], wq_agent = []\<rparr>"

lemma carol_server_simps [simp]: "sv_env carol_server i = example_env" "hydra_status carol_server c = Some 204"
  "now_of carol_server i = 0" "ends_session carol_server h" "shift k carol_server = carol_server"
  by (simp_all add: carol_server_def example_server_def now_of_def ends_session_def shift_def)

lemma carol_ok: "schema_ok carol_db"
  by (simp add: schema_ok_def carol_db_def carol_def alice_id_def example_db_def example_user_def example_session_def users_unique_def
      users_check_def known_role_def RoleDeveloper_def sessions_unique_def grants_unique_def
      invitations_unique_def mappings_unique_def runs_unique_def apps_unique_def entra_key_def)

lemma carol_state: "validGitHubStateCookieName example_state = Some (githubStateCookieName example_state)"
  by code_simp

lemma carol_transaction: "decodeUpstreamTransaction example_upstream ''AAAA'' = Some \<lparr>ut_Next = ''/'', ut_Verifier = ''v1'', ut_Nonce = []\<rparr>"
  by code_simp

lemma carol_profile: "read_Profile ''token'' (github_user_reply example_upstream ''token'') (github_email_reply example_upstream ''token'') =
    Inr example_profile"
  by code_simp

lemma carol_unmatched: "githubRole example_env example_profile (Inr []) (Inr []) carol_db = (Inr (RoleDeveloper, False), carol_db)"
  by (simp add: githubRole_def ListGitHubRoleMappings_def bindS_def query_def stmt_def carol_db_def example_db_def sort_by_def retS_def)

lemma carol_pattern: "identifierPattern alice_id" by code_simp

lemma carol_revoke: "RevokeUserSessions example_env alice_id 0 (carol_db\<lparr>audits := xs\<rparr>) =
    (Inr (), carol_db\<lparr>audits := xs, sessions := [(example_session ''s1'' alice_id)\<lparr>s_revoked := Some 0\<rparr>]\<rparr>)"
  by (simp add: RevokeUserSessions_def lockActiveUser_def io_defs revokeSessionSnapshot_def carol_db_def carol_def example_db_def example_session_def
      example_user_def unrevoked_ids_def put_defs sessions_unique_def revoke_rows_def)

lemma carol_revoked: "\<exists>w'. revokeUserSessions carol_server alice_id [] service_actor (w\<lparr>store := carol_db\<lparr>audits := xs\<rparr>\<rparr>) = (Inr alice_id, w')"
proof -
  have given: "alice_id \<noteq> []" by (simp add: alice_id_def)
  let ?w = "w\<lparr>store := carol_db\<lparr>audits := xs, sessions := [(example_session ''s1'' alice_id)\<lparr>s_revoked := Some 0\<rparr>]\<rparr>\<rparr>"
  have "\<exists>w1. revokeHydraSessions carol_server 2 alice_id ?w = (Inr (), w1)"
    by (simp add: revokeHydraSessions_def UserHydraLoginSessionIDs_def io_defs inDb_def revokeOtherHydraSessions_def
       revokeHydraSubjectSessions_def call_hydra_def pool_result_def list_all_iff)
  then obtain w1 where w1: "tryS (revokeHydraSessions carol_server 2 alice_id) ?w = (Inr (Inr ()), w1)" by (auto simp: tryS_def)
  obtain w2 where w2: "note_event carol_server 3 service_actor AuditAccountSessionsEnded alice_id [(''addressed_by_email'', DFlag False)] w1 = (Inr (), w2)"
    using note_event_total by blast
  have r: "inDb (RevokeUserSessions (sv_env carol_server 1) alice_id (now_of carol_server 1)) (w\<lparr>store := carol_db\<lparr>audits := xs\<rparr>\<rparr>) = (Inr (), ?w)"
    by (simp add: inDb_def carol_revoke)
  have "revokeUserSessions carol_server alice_id [] service_actor (w\<lparr>store := carol_db\<lparr>audits := xs\<rparr>\<rparr>) = (Inr alice_id, w2)"
    unfolding revokeUserSessions_def requireUUID_def if_not_P [OF given]
    by (rule bindS_to, simp add: retS_def, rule bindS_to, rule guard_passes, simp add: uuidPathPattern_def carol_pattern, rule bindS_to,
       rule r, rule bindS_to, rule w1, simp only: sum.case, rule bindS_to, simp add: w2, simp add: retS_def)
  then show ?thesis by blast
qed

theorem github_sign_in_takes_effect_witness:
  "\<exists>p w'. githubCallback carol_server example_site example_upstream example_return carol_world = (Inr p, w') \<and>
     answer p = ErrorPage 403 no_access \<and> contained (store w') alice_id"
proof -
  obtain w1 where n: "recordSignIn carol_server 2 (clientIP example_site example_return) AuditSignInFailed ''github'' (prof_Login example_profile) []
       ''no GitHub access rule grants this account a role'' carol_world = (Inr (), w1)"
    using note_event_total unfolding recordSignIn_def by blast
  then obtain xs where st: "store w1 = carol_db\<lparr>audits := xs\<rparr>"
    using obeysD [OF recordSignIn_aside n] by (auto simp: aside_def carol_world_def)
  then have w1: "w1 = w1\<lparr>store := carol_db\<lparr>audits := xs\<rparr>\<rparr>" by (cases w1) simp
  have g: "inDb (GitHubUserID example_env (prof_ID example_profile)) w1 = (Inr alice_id, w1)"
  proof -
    have "GitHubUserID example_env (prof_ID example_profile) (store w1) = (Inr alice_id, store w1)"
      by (simp add: st GitHubUserID_def io_defs carol_db_def carol_def example_profile_def example_user_def)
    then show ?thesis by (cases w1) (simp add: inDb_def)
  qed
  obtain w' where v: "revokeUserSessions carol_server alice_id [] service_actor w1 = (Inr alice_id, w')"
    using carol_revoked w1 by metis
  have d: "github_denied carol_server example_site example_return example_profile carol_world = (Inr (ErrorPage 403 no_access), w')"
    unfolding github_denied_def by (rule bindS_to, rule n) (simp only: orElse_run carol_server_simps g v prod.case sum.case retS_def)
  define cs where "cs = [expireCookieAtPath example_site (githubStateCookieName example_state) ''/oauth/github/callback'']"
  let ?p = "with_cookies cs (respond (ErrorPage 403 no_access))"
  have cookie: "carried example_upstream example_return (Some (githubStateCookieName example_state)) = Some ''AAAA''"
    by (simp add: carried_def cookie_of_def example_return_def)
  have q: "wq_query example_return ''state'' = example_state" "wq_query example_return ''error'' = []" "wq_query example_return ''code'' = []"
    by (simp_all add: example_return_def)
  have e: "github_exchange example_upstream c k = Inr ''token''" "github_teams example_upstream c = Inr []" "github_organizations example_upstream c = Inr []" for c k
    by (simp_all add: example_upstream_def)
  have r: "inDb (githubRole example_env example_profile (Inr []) (Inr [])) carol_world = (Inr (RoleDeveloper, False), carol_world)"
    by (simp add: inDb_def carol_world_def carol_unmatched)
  have run: "githubCallback carol_server example_site example_upstream example_return carol_world = (Inr ?p, w')"
    by (simp only: githubCallback_def Let_def q carol_state cookie option.simps carol_transaction e carol_profile sum.case orElse_run
        carol_server_simps r prod.case simp_thms if_True if_False not_True_eq_False not_False_eq_True bindS_def d retS_def cs_def option.sel)
  have ok: "schema_ok (store carol_world)" by (simp add: carol_world_def carol_ok)
  have a: "answer ?p = ErrorPage 403 no_access" by (simp add: with_cookies_def)
  have u: "carol \<in> set (users (store w'))" using revokeUserSessions_contains(2) [OF v] st by (simp add: carol_db_def)
  from github_sign_in_takes_effect [OF run ok disjI1 [OF a], of "[]"] obtain t :: upstreamTransaction and token profile allowed where t:
    "github_exchange example_upstream (wq_query example_return ''code'') (ut_Verifier t) = Inr token"
    "read_Profile token (github_user_reply example_upstream token) (github_email_reply example_upstream token) = Inr profile"
    "answer ?p = ErrorPage 403 no_access \<longrightarrow> \<not> allowed \<and> (\<forall>u i. u \<in> set (users (store w')) \<longrightarrow> u_github_id u = Some (prof_ID profile) \<longrightarrow>
       uuid_in (sv_env carol_server 11) (u_id u) = Some i \<longrightarrow> contained (store w') i)"
    by (elim exE conjE) (rule that)
  from t(1) have "token = ''token''" by (simp add: e)
  with t(2) have "profile = example_profile" by (simp add: carol_profile)
  moreover have "u_github_id carol = Some (prof_ID example_profile)" "u_id carol = alice_id"
    by (simp_all add: carol_def example_profile_def example_user_def)
  ultimately have "contained (store w') alice_id" using t(3) a u by (simp only: carol_server_simps example_env_simps)
  with run a show ?thesis by blast
qed

end
