(* ===== verification/Browser_Handlers.thy ===== *)
theory Browser_Handlers
  imports Identity_Machine OAuth_Flow Upstream_Sign_In
begin

text \<open>
  The pages of the identity provider over the store machine: every handler, whatever it answers, is a run of store
  methods, so what holds of every reachable database holds after any of them.
\<close>

subsection \<open>Handlers as runs\<close>

lemma more_reads [simp]: "snd (GitHubUserID E i s) = s" "snd (IsManagedOIDCClient E c s) = s" "snd (read_SessionPolicy E s) = s"
  by (auto simp: GitHubUserID_def IsManagedOIDCClient_def read_SessionPolicy_state io_defs split: option.splits)

lemmas page_runs = handler_runs orElse_obeys [OF rn.contract_axioms] more_reads [THEN runs_read] current_runs session_runs startSession_runs recordSignIn_runs

lemma pure_runs: "obeys runs_on (pure z)"
  by (rule runs_local) (simp add: pure_def)

lemma request_runs:
  "obeys runs_on (newState V i)" "obeys runs_on (load_hydraLoginRequest F c)" "obeys runs_on (load_hydraConsentRequest F c)"
  "obeys runs_on (hydraAccept V F c k)" "obeys runs_on (revokeHydraLoginSession V h)"
  unfolding newState_def load_hydraLoginRequest_def load_hydraConsentRequest_def hydraAccept_def revokeHydraLoginSession_def
  by (intro page_runs pure_runs)+

interpretation st: contract store_run
  by unfold_locales auto

lemma runs_of: "obeys store_run m \<Longrightarrow> obeys runs_on (inDb m)"
  by (simp add: obeys_def runs_on_def inDb_def split_beta)

lemma githubRole_runs: "obeys runs_on (inDb (githubRole E profile teams organizations))"
  by (intro runs_of githubRole_obeys st.contract_axioms) (auto simp: obeys_def record_event_def intro!: r_into_rtranclp store_step.intros)

lemma RevalidateSession_runs: "obeys runs_on (inDb (RevalidateSession E u b now))"
  unfolding RevalidateSession_def lockActiveUser_def by (intro runs_of st.keeps st.keeps_readonly [OF read_SessionPolicy_state])

lemmas flow_runs = page_runs pure_runs request_runs githubRole_runs RevalidateSession_runs runs_step store_step.intros

lemma sign_in_runs:
  "obeys runs_on (web_login V S r m)" "obeys runs_on (begin_session V S r kind user dest cs)"
  "obeys runs_on (github_denied V S r profile)"
  unfolding web_login_def begin_session_def github_denied_def Let_def by (intro flow_runs)+

lemma github_admitted_runs: "obeys runs_on (github_admitted V S r dest profile role cs)"
  unfolding github_admitted_def Let_def by (intro flow_runs sign_in_runs)

lemma upstream_runs:
  "obeys runs_on (githubStart V S G r)" "obeys runs_on (githubCallback V S G r)"
  "obeys runs_on (entraStart V S G r)" "obeys runs_on (entraCallback V S G r)"
  "obeys runs_on (validatorBootstrapConsume V S r)"
  unfolding githubStart_def githubCallback_def entraStart_def entraCallback_def validatorBootstrapConsume_def Let_def
  by (intro flow_runs sign_in_runs github_admitted_runs)+

lemma challenge_runs:
  "obeys runs_on (hydraLogin V S F r)" "obeys runs_on (hydraConsent V S F r)" "obeys runs_on (hydraConsentAccept V F r)"
  unfolding hydraLogin_def accept_login_def correlate_login_def hydraConsent_def accept_managed_consent_def hydraConsentAccept_def
    accept_explicit_consent_def confirm_consent_def acceptHydraConsent_def Let_def
  by (intro flow_runs)+

lemmas page_handlers = account_runs createInvitation_runs session_runs rule_runs passwordLogin_runs logout_runs sign_in_runs upstream_runs challenge_runs


end
