(* ===== verification/Gateway_Store.thy ===== *)
theory Gateway_Store
  imports Identity_Schema
begin

text \<open>
  The database of the application gateway: \<open>internal/gateway/store.go\<close> and \<open>internal/gateway/migrations\<close>. The
  gateway is the relying party of a UI-only application: it keeps the application's browser sessions with an
  encrypted ID token, the identifiers of the logout tokens it accepted, and a tombstone for each provider session
  that was logged out. Several gateways share the tables; each works on the rows of its client.
\<close>

subsection \<open>The tables\<close>

record gateway_session_row =
  gs_id :: string
  gs_client :: string
  gs_token_hash :: string
  gs_issuer :: string
  gs_subject :: string
  gs_provider :: string
  gs_ciphertext :: string
  gs_username :: string
  gs_email :: string
  gs_role :: string
  gs_created :: time
  gs_expires :: time
  gs_revoked :: "time option"

record logout_token_row =
  lt_client :: string
  lt_token :: string
  lt_expires :: time

record tombstone_row =
  ts_client :: string
  ts_issuer :: string
  ts_provider :: string
  ts_created :: time
  ts_expires :: time

record gateway_db =
  gw_sessions :: "gateway_session_row list"
  logout_tokens :: "logout_token_row list"
  tombstones :: "tombstone_row list"

type_synonym 'a gateway_io = "(gateway_db, 'a) io"

definition lt_key :: "logout_token_row \<Rightarrow> string \<times> string" where
  "lt_key t = (lt_client t, lt_token t)"

definition ts_key :: "tombstone_row \<Rightarrow> string \<times> string \<times> string" where
  "ts_key t = (ts_client t, ts_issuer t, ts_provider t)"

definition gw_sessions_unique :: "gateway_session_row list \<Rightarrow> bool" where
  "gw_sessions_unique rs \<longleftrightarrow> distinct (map gs_id rs) \<and> distinct (map gs_token_hash rs)"

definition gw_role :: "string \<Rightarrow> bool" where
  "gw_role r \<longleftrightarrow> r = ''developer'' \<or> r = ''admin''"

definition gateway_ok :: "gateway_db \<Rightarrow> bool" where
  "gateway_ok s \<longleftrightarrow> gw_sessions_unique (gw_sessions s) \<and> list_all (\<lambda>r. gw_role (gs_role r)) (gw_sessions s) \<and>
     distinct (map lt_key (logout_tokens s)) \<and>
     distinct (map ts_key (tombstones s)) \<and> list_all (\<lambda>t. ts_created t < ts_expires t) (tombstones s)"

definition put_gw_sessions :: "gateway_session_row list \<Rightarrow> 'a \<Rightarrow> gateway_db \<Rightarrow> pg_code + 'a \<times> gateway_db" where
  "put_gw_sessions rs x s = (if \<not> list_all (\<lambda>r. gw_role (gs_role r)) rs then Inl CheckViolation
     else if gw_sessions_unique rs then Inr (x, s\<lparr>gw_sessions := rs\<rparr>) else Inl UniqueViolation)"

definition put_logout_tokens :: "logout_token_row list \<Rightarrow> 'a \<Rightarrow> gateway_db \<Rightarrow> pg_code + 'a \<times> gateway_db" where
  "put_logout_tokens ts x s = (if distinct (map lt_key ts)
     then Inr (x, s\<lparr>logout_tokens := ts\<rparr>) else Inl UniqueViolation)"

definition put_tombstones :: "tombstone_row list \<Rightarrow> 'a \<Rightarrow> gateway_db \<Rightarrow> pg_code + 'a \<times> gateway_db" where
  "put_tombstones ts x s = (if \<not> list_all (\<lambda>t. ts_created t < ts_expires t) ts then Inl CheckViolation
     else if distinct (map ts_key ts) then Inr (x, s\<lparr>tombstones := ts\<rparr>) else Inl UniqueViolation)"

subsection \<open>The store and its environment\<close>

record gateway_session =
  gID :: string
  gSubject :: string
  gProviderSessionID :: string
  gIDToken :: string
  gUsername :: string
  gEmail :: string
  gRole :: string
  gExpiresAt :: time

text \<open>A \<open>cipher.AEAD\<close>: nonce, text and additional data.\<close>

record aead =
  NonceSize :: nat
  Seal :: "string \<Rightarrow> string \<Rightarrow> string \<Rightarrow> string"
  Open :: "string \<Rightarrow> string \<Rightarrow> string \<Rightarrow> string option"

record gateway_store =
  clientID :: string
  issuer :: string
  aead_of :: aead
  tombstoneLifetime :: duration

text \<open>
  The environment of a gateway call: the database's, the random generator by the purpose of the
  bytes, \<open>json.Marshal\<close> of a list of texts, and AES-GCM for a key.
\<close>

record gateway_env =
  pg :: env
  rand_read :: "string \<Rightarrow> nat \<Rightarrow> string option"
  marshal_strings :: "string list \<Rightarrow> string"
  aes_gcm :: "string \<Rightarrow> aead option"

definition retentionSweepLimit :: nat where "retentionSweepLimit = 500"
definition endedSessionRetention :: duration where "endedSessionRetention = hour"

text \<open>PostgreSQL keeps microseconds: a time of Go is cut when it becomes a \<open>timestamptz\<close>.\<close>

definition pg_time :: "time \<Rightarrow> time" where
  "pg_time t = t div 1000 * 1000"

lemma pg_time_mono: "t \<le> u \<Longrightarrow> pg_time t \<le> pg_time u"
  by (simp add: pg_time_def zdiv_mono1)

lemma pg_time_le: "pg_time t \<le> t"
  by (simp add: pg_time_def)

lemma pg_time_later: "t + 1000 \<le> u \<Longrightarrow> pg_time t < pg_time u"
proof -
  assume "t + 1000 \<le> u"
  then have "(t + 1000) div 1000 \<le> u div 1000" by (rule zdiv_mono1) simp
  then show ?thesis by (simp add: pg_time_def)
qed

lemma pg_time_idem [simp]: "pg_time (pg_time t) = pg_time t"
  by (simp add: pg_time_def)

text \<open>\<open>LIMIT n\<close> without \<open>ORDER BY\<close>.\<close>

definition limited :: "env \<Rightarrow> nat \<Rightarrow> 'a list \<Rightarrow> 'a list" where
  "limited E n xs = take n (rotate (row_pick E) xs)"

lemma set_limited: "set (limited E n xs) \<subseteq> set xs"
  using set_take_subset [of n "rotate (row_pick E) xs"] by (auto simp: limited_def)

definition random_bytes :: "gateway_env \<Rightarrow> string \<Rightarrow> nat \<Rightarrow> ('s, string) io" where
  "random_bytes W purpose n = (case rand_read W purpose n of None \<Rightarrow> failS (Failed purpose) | Some b \<Rightarrow> retS b)"

definition sessionAdditionalData :: "gateway_env \<Rightarrow> string \<Rightarrow> string \<Rightarrow> gateway_session \<Rightarrow> string" where
  "sessionAdditionalData W client iss session =
     marshal_strings W [client, iss, gID session, gSubject session, gProviderSessionID session]"

definition NewStore :: "gateway_env \<Rightarrow> string \<Rightarrow> string \<Rightarrow> string \<Rightarrow> duration \<Rightarrow> error + gateway_store" where
  "NewStore W client iss secret lifetime =
     (if lifetime \<le> 0 then Inl (Failed ''gateway logout tombstone lifetime must be positive'')
      else case aes_gcm W (sha256 (pg W) secret) of
        None \<Rightarrow> Inl (Failed ''create gateway session cipher'')
      | Some a \<Rightarrow> Inr \<lparr>clientID = client, issuer = iss, aead_of = a, tombstoneLifetime = lifetime\<rparr>)"

subsection \<open>Operations\<close>

definition lockProviderSession :: "gateway_env \<Rightarrow> gateway_store \<Rightarrow> string \<Rightarrow> unit gateway_io" where
  "lockProviderSession W S sid =
     bindS (guardS (sid \<noteq> []) (Failed ''provider session ID is required'')) (\<lambda>_.
     query (pg W) ''lock gateway provider session'' (\<lambda>s. ()))"

definition deleteExpiredLogoutTombstones :: "gateway_env \<Rightarrow> time \<Rightarrow> nat \<Rightarrow> unit gateway_io" where
  "deleteExpiredLogoutTombstones W now limit =
     stmt (pg W) ''delete expired gateway logout tombstones'' (\<lambda>s.
       let expired = take limit (sort_by (\<lambda>a b. ts_expires a \<le> ts_expires b)
             (filter (\<lambda>t. ts_expires t \<le> pg_time now) (tombstones s)))
       in put_tombstones (filter (\<lambda>t. ts_key t \<notin> set (map ts_key expired)) (tombstones s)) () s)"

definition deleteExpiredLogoutTokens :: "gateway_env \<Rightarrow> string \<Rightarrow> time \<Rightarrow> unit gateway_io" where
  "deleteExpiredLogoutTokens W client now =
     stmt (pg W) ''delete expired gateway logout tokens'' (\<lambda>s.
       let spent = limited (pg W) retentionSweepLimit
             (filter (\<lambda>t. lt_client t = client \<and> lt_expires t \<le> pg_time now) (logout_tokens s))
       in put_logout_tokens (filter (\<lambda>t. lt_key t \<notin>
            set (map lt_key spent)) (logout_tokens s)) () s)"

definition ended_before :: "time \<Rightarrow> gateway_session_row \<Rightarrow> bool" where
  "ended_before c r \<longleftrightarrow> gs_expires r \<le> c \<or> (case gs_revoked r of None \<Rightarrow> False | Some t \<Rightarrow> t \<le> c)"

definition removeEndedSessions :: "gateway_env \<Rightarrow> gateway_store \<Rightarrow> time \<Rightarrow> unit gateway_io" where
  "removeEndedSessions W S now =
     stmt (pg W) ''remove ended gateway sessions'' (\<lambda>s.
       let dead = limited (pg W) retentionSweepLimit (filter (\<lambda>r. gs_client r = clientID S \<and>
             ended_before (pg_time (now - endedSessionRetention)) r) (gw_sessions s))
       in put_gw_sessions (filter (\<lambda>r. gs_id r \<notin> set (map gs_id dead)) (gw_sessions s)) () s)"

definition tombstoned :: "gateway_store \<Rightarrow> string \<Rightarrow> time \<Rightarrow> gateway_db \<Rightarrow> bool" where
  "tombstoned S sid now s \<longleftrightarrow>
     list_ex (\<lambda>t. ts_key t = (clientID S, issuer S, sid) \<and> pg_time now < ts_expires t) (tombstones s)"

definition Create :: "gateway_env \<Rightarrow> gateway_store \<Rightarrow> gateway_session \<Rightarrow> string \<Rightarrow> time \<Rightarrow> unit gateway_io" where
  "Create W S session browserToken now =
     bindS (random_bytes W ''generate ID-token nonce'' (NonceSize (aead_of S))) (\<lambda>nonce.
     let ciphertext = nonce @ Seal (aead_of S) nonce (gIDToken session)
           (sessionAdditionalData W (clientID S) (issuer S) session)
     in tx (pg W) ''gateway session creation''
      (bindS (lockProviderSession W S (gProviderSessionID session)) (\<lambda>_.
       bindS (deleteExpiredLogoutTombstones W now 1000) (\<lambda>_.
       bindS (removeEndedSessions W S now) (\<lambda>_.
       bindS (deleteExpiredLogoutTokens W (clientID S) now) (\<lambda>_.
       bindS (query (pg W) ''read gateway logout tombstone'' (tombstoned S (gProviderSessionID session) now)) (\<lambda>gone.
       bindS (guardS (\<not> gone) (Failed ''provider session was logged out before callback completion'')) (\<lambda>_.
       bindS (uuid_arg (pg W) ''create gateway session'' (gID session)) (\<lambda>u.
       stmt (pg W) ''create gateway session'' (\<lambda>s. put_gw_sessions (gw_sessions s @
         [\<lparr>gs_id = u, gs_client = clientID S, gs_token_hash = sha256 (pg W) browserToken, gs_issuer = issuer S,
           gs_subject = gSubject session, gs_provider = gProviderSessionID session, gs_ciphertext = ciphertext,
           gs_username = gUsername session, gs_email = gEmail session, gs_role = gRole session,
           gs_created = pg_time now, gs_expires = pg_time (gExpiresAt session), gs_revoked = None\<rparr>]) () s))))))))))"

definition in_force :: "gateway_store \<Rightarrow> string \<Rightarrow> time \<Rightarrow> gateway_session_row \<Rightarrow> bool" where
  "in_force S hash now r \<longleftrightarrow> gs_client r = clientID S \<and> gs_token_hash r = hash \<and> gs_issuer r = issuer S \<and>
     gs_revoked r = None \<and> pg_time now < gs_expires r"

definition scan_gateway_session :: "gateway_session_row \<Rightarrow> gateway_session" where
  "scan_gateway_session r = \<lparr>gID = gs_id r, gSubject = gs_subject r, gProviderSessionID = gs_provider r, gIDToken = [],
     gUsername = gs_username r, gEmail = gs_email r, gRole = gs_role r, gExpiresAt = gs_expires r\<rparr>"

text \<open>The decryption at the end of \<open>Find\<close>: a row that does not decrypt is no session.\<close>

definition decrypt_session :: "gateway_env \<Rightarrow> gateway_store \<Rightarrow> gateway_session_row \<Rightarrow> gateway_session option" where
  "decrypt_session W S r =
     (let n = NonceSize (aead_of S); c = gs_ciphertext r; session = scan_gateway_session r in
      if length c < n then None
      else case Open (aead_of S) (take n c) (drop n c) (sessionAdditionalData W (clientID S) (issuer S) session) of
        None \<Rightarrow> None
      | Some plain \<Rightarrow> Some (session\<lparr>gIDToken := plain\<rparr>))"

definition Find :: "gateway_env \<Rightarrow> gateway_store \<Rightarrow> string \<Rightarrow> time \<Rightarrow> gateway_session gateway_io" where
  "Find W S browserToken now =
     bindS (query (pg W) ''read gateway session'' (\<lambda>s.
       find (in_force S (sha256 (pg W) browserToken) now) (gw_sessions s))) (\<lambda>found.
     case found of None \<Rightarrow> failS ErrGatewaySessionNotFound
     | Some r \<Rightarrow> (case decrypt_session W S r of None \<Rightarrow> failS ErrGatewaySessionNotFound | Some x \<Rightarrow> retS x))"

definition RevokeToken :: "gateway_env \<Rightarrow> gateway_store \<Rightarrow> string \<Rightarrow> time \<Rightarrow> unit gateway_io" where
  "RevokeToken W S browserToken now =
     stmt (pg W) ''revoke gateway session'' (\<lambda>s. put_gw_sessions
       (upd (\<lambda>r. gs_client r = clientID S \<and> gs_token_hash r = sha256 (pg W) browserToken \<and> gs_revoked r = None)
         (gs_revoked_update (\<lambda>_. Some (pg_time now))) (gw_sessions s)) () s)"

text \<open>\<open>ON CONFLICT DO UPDATE\<close>: the tombstone keeps its earliest creation and its latest expiry.\<close>

definition upsert_tombstone :: "gateway_store \<Rightarrow> string \<Rightarrow> time \<Rightarrow> time \<Rightarrow> tombstone_row list \<Rightarrow> tombstone_row list" where
  "upsert_tombstone S sid t0 t1 ts =
     (let k = (clientID S, issuer S, sid) in
      if k \<in> set (map ts_key ts)
      then upd (\<lambda>t. ts_key t = k) (\<lambda>t. t\<lparr>ts_created := min (ts_created t) t0, ts_expires := max (ts_expires t) t1\<rparr>) ts
      else ts @ [\<lparr>ts_client = clientID S, ts_issuer = issuer S, ts_provider = sid, ts_created = t0, ts_expires = t1\<rparr>])"

definition recordLogoutTombstone :: "gateway_env \<Rightarrow> gateway_store \<Rightarrow> string \<Rightarrow> time \<Rightarrow> unit gateway_io" where
  "recordLogoutTombstone W S sid now =
     bindS (deleteExpiredLogoutTombstones W now 1000) (\<lambda>_.
     stmt (pg W) ''record gateway logout tombstone'' (\<lambda>s. put_tombstones
       (upsert_tombstone S sid (pg_time now) (pg_time (now + tombstoneLifetime S)) (tombstones s)) () s))"

text \<open>The \<open>UPDATE\<close> both logout channels share.\<close>

definition revokeProviderRows :: "gateway_env \<Rightarrow> gateway_store \<Rightarrow> string \<Rightarrow> time \<Rightarrow> unit gateway_io" where
  "revokeProviderRows W S sid now =
     stmt (pg W) ''revoke provider session'' (\<lambda>s. put_gw_sessions
       (upd (\<lambda>r. gs_client r = clientID S \<and> gs_issuer r = issuer S \<and> gs_provider r = sid \<and> gs_revoked r = None)
         (gs_revoked_update (\<lambda>_. Some (pg_time now))) (gw_sessions s)) () s)"

definition RevokeFrontchannelSession :: "gateway_env \<Rightarrow> gateway_store \<Rightarrow> string \<Rightarrow> time \<Rightarrow> unit gateway_io" where
  "RevokeFrontchannelSession W S sid now = tx (pg W) ''front-channel logout''
     (bindS (lockProviderSession W S sid) (\<lambda>_.
      bindS (recordLogoutTombstone W S sid now) (\<lambda>_.
      revokeProviderRows W S sid now)))"

fun replayed :: "error \<Rightarrow> error" where
  "replayed (DbError l UniqueViolation) = ErrLogoutTokenReplayed"
| "replayed e = e"

definition recordLogoutToken :: "gateway_env \<Rightarrow> gateway_store \<Rightarrow> string \<Rightarrow> time \<Rightarrow> unit gateway_io" where
  "recordLogoutToken W S jti expiresAt = (\<lambda>s.
     case stmt (pg W) ''record logout token'' (\<lambda>s. put_logout_tokens (logout_tokens s @
       [\<lparr>lt_client = clientID S, lt_token = jti, lt_expires = pg_time expiresAt\<rparr>]) () s) s of
       (Inl e, s') \<Rightarrow> (Inl (replayed e), s') | r \<Rightarrow> r)"

definition RevokeProviderSession ::
  "gateway_env \<Rightarrow> gateway_store \<Rightarrow> string \<Rightarrow> string \<Rightarrow> time \<Rightarrow> time \<Rightarrow> unit gateway_io" where
  "RevokeProviderSession W S sid jti expiresAt now = tx (pg W) ''back-channel logout''
     (bindS (lockProviderSession W S sid) (\<lambda>_.
      bindS (deleteExpiredLogoutTokens W (clientID S) now) (\<lambda>_.
      bindS (recordLogoutToken W S jti expiresAt) (\<lambda>_.
      bindS (recordLogoutTombstone W S sid now) (\<lambda>_.
      revokeProviderRows W S sid now)))))"

text \<open>\<open>None\<close> is a store that was never configured.\<close>

definition Ping :: "gateway_env \<Rightarrow> gateway_store option \<Rightarrow> unit gateway_io" where
  "Ping W S = (case S of None \<Rightarrow> failS (Failed ''gateway session store is not configured'')
     | Some _ \<Rightarrow> query (pg W) ''ping'' (\<lambda>s. ()))"


subsection \<open>The constraints of the schema\<close>

definition keeps_gateway :: "gateway_db \<Rightarrow> gateway_db \<Rightarrow> bool" where
  "keeps_gateway s s' \<longleftrightarrow> (gateway_ok s \<longrightarrow> gateway_ok s')"

interpretation gk: contract keeps_gateway
  by unfold_locales (auto simp: keeps_gateway_def)

lemmas put_gateway_defs = put_gw_sessions_def put_logout_tokens_def put_tombstones_def

lemma put_gateway_ok:
  "put_gw_sessions rs x s = Inr (y, s') \<Longrightarrow> keeps_gateway s s'"
  "put_logout_tokens ts x s = Inr (y, s') \<Longrightarrow> keeps_gateway s s'"
  "put_tombstones us x s = Inr (y, s') \<Longrightarrow> keeps_gateway s s'"
  by (auto simp: put_gateway_defs keeps_gateway_def gateway_ok_def split: if_splits)

lemma random_bytes_state [simp]: "snd (random_bytes W p n s) = s"
  by (simp add: random_bytes_def retS_def failS_def split: option.splits)

lemma recordLogoutToken_state:
  "snd (recordLogoutToken W S jti e s) = snd (stmt (pg W) ''record logout token'' (\<lambda>s. put_logout_tokens (logout_tokens s @
       [\<lparr>lt_client = clientID S, lt_token = jti, lt_expires = pg_time e\<rparr>]) () s) s)"
  by (auto simp: recordLogoutToken_def split: prod.splits sum.splits)

context contract
begin

text \<open>A relation on the gateway's database is kept by every operation once the statements keep it.\<close>

lemma keeps_random: "obeys R (random_bytes W p n)"
  by (simp add: obeys_def R_refl)

end

lemma keeps_gateway_statements:
  "obeys keeps_gateway (lockProviderSession W S sid)"
  "obeys keeps_gateway (deleteExpiredLogoutTombstones W now limit)"
  "obeys keeps_gateway (deleteExpiredLogoutTokens W client now)"
  "obeys keeps_gateway (removeEndedSessions W S now)"
  "obeys keeps_gateway (recordLogoutTombstone W S sid now)"
  "obeys keeps_gateway (revokeProviderRows W S sid now)"
  "obeys keeps_gateway (recordLogoutToken W S jti e)"
  unfolding lockProviderSession_def deleteExpiredLogoutTombstones_def deleteExpiredLogoutTokens_def
    removeEndedSessions_def recordLogoutTombstone_def revokeProviderRows_def obeys_def [of _ "recordLogoutToken W S jti e"]
    recordLogoutToken_state Let_def
  by (intro gk.keeps gk.keeps_stmt allI gk.keeps_stmt [unfolded obeys_def, THEN spec] | erule put_gateway_ok)+

lemma keeps_gateway_operations:
  "obeys keeps_gateway (Create W S session token now)"
  "obeys keeps_gateway (Find W S token now)"
  "obeys keeps_gateway (RevokeToken W S token now)"
  "obeys keeps_gateway (RevokeFrontchannelSession W S sid now)"
  "obeys keeps_gateway (RevokeProviderSession W S sid jti e now)"
  unfolding Create_def Find_def RevokeToken_def RevokeFrontchannelSession_def RevokeProviderSession_def
  by (intro gk.keeps gk.keeps_stmt keeps_gateway_statements gk.keeps_random | erule put_gateway_ok)+


subsection \<open>A logged-out provider session\<close>

definition session_key :: "gateway_session_row \<Rightarrow> string \<times> string \<times> string" where
  "session_key r = (gs_client r, gs_issuer r, gs_provider r)"

text \<open>The provider session is logged out: a tombstone lasts until \<open>T\<close>, and no session of it is in force.\<close>

definition logged_out :: "string \<times> string \<times> string \<Rightarrow> time \<Rightarrow> gateway_db \<Rightarrow> bool" where
  "logged_out k T s \<longleftrightarrow> distinct (map ts_key (tombstones s)) \<and>
     (\<exists>t \<in> set (tombstones s). ts_key t = k \<and> T \<le> ts_expires t) \<and>
     (\<forall>r \<in> set (gw_sessions s). session_key r = k \<longrightarrow> gs_revoked r \<noteq> None)"

definition stays_out :: "string \<times> string \<times> string \<Rightarrow> time \<Rightarrow> gateway_db \<Rightarrow> gateway_db \<Rightarrow> bool" where
  "stays_out k T s s' \<longleftrightarrow> (logged_out k T s \<longrightarrow> logged_out k T s')"

interpretation so: contract "stays_out k T" for k T
  by unfold_locales (auto simp: stays_out_def)

lemma put_logout_tokens_out: "put_logout_tokens ts x s = Inr (y, s') \<Longrightarrow> stays_out k T s s'"
  by (auto simp: put_logout_tokens_def stays_out_def logged_out_def split: if_splits)

lemma put_gw_sessions_out:
  "put_gw_sessions rs x s = Inr (y, s') \<Longrightarrow>
   (\<And>r. r \<in> set rs \<Longrightarrow> session_key r = k \<Longrightarrow> gs_revoked r = None \<Longrightarrow> r \<in> set (gw_sessions s)) \<Longrightarrow>
   stays_out k T s s'"
  by (fastforce simp: put_gw_sessions_def stays_out_def logged_out_def split: if_splits)

lemma put_tombstones_out:
  assumes "put_tombstones ts x s = Inr (y, s')"
    and "\<And>t. distinct (map ts_key (tombstones s)) \<Longrightarrow> t \<in> set (tombstones s) \<Longrightarrow> ts_key t = k \<Longrightarrow> T \<le> ts_expires t \<Longrightarrow>
      \<exists>t' \<in> set ts. ts_key t' = k \<and> T \<le> ts_expires t'"
  shows "stays_out k T s s'"
  using assms by (fastforce simp: put_tombstones_def stays_out_def logged_out_def split: if_splits)

lemma sweep_keeps_tombstone:
  assumes "pg_time now < T"
  shows "obeys (stays_out k T) (deleteExpiredLogoutTombstones W now limit)"
  unfolding deleteExpiredLogoutTombstones_def Let_def
proof (rule so.keeps_stmt, erule put_tombstones_out)
  fix s t
  let ?expired = "take limit (sort_by (\<lambda>a b. ts_expires a \<le> ts_expires b)
    (filter (\<lambda>t. ts_expires t \<le> pg_time now) (tombstones s)))"
  assume t: "distinct (map ts_key (tombstones s))" "t \<in> set (tombstones s)" "ts_key t = k" "T \<le> ts_expires t"
  have "ts_key t \<notin> set (map ts_key ?expired)"
  proof
    assume "ts_key t \<in> set (map ts_key ?expired)"
    then obtain u where u: "u \<in> set ?expired" "ts_key u = ts_key t" by auto
    then have "u \<in> set (tombstones s)" "ts_expires u \<le> pg_time now" by (auto dest: in_set_takeD)
    moreover from this u t have "u = t" by (metis distinct_map_inj_onD)
    ultimately show False using t assms by simp
  qed
  with t show "\<exists>t' \<in> set (filter (\<lambda>t. ts_key t \<notin> set (map ts_key ?expired)) (tombstones s)).
      ts_key t' = k \<and> T \<le> ts_expires t'" by auto
qed

lemma upd_hit: "x \<in> set xs \<Longrightarrow> P x \<Longrightarrow> f x \<in> set (upd P f xs)"
  by (force simp: upd_def)

lemma upd_miss: "x \<in> set xs \<Longrightarrow> \<not> P x \<Longrightarrow> x \<in> set (upd P f xs)"
  by (force simp: upd_def)

lemma upd_clears:
  "r \<in> set (upd P f xs) \<Longrightarrow> (\<And>x. P x \<Longrightarrow> \<not> Q (f x)) \<Longrightarrow> (\<And>x. Q x \<Longrightarrow> P x) \<Longrightarrow> \<not> Q r"
  by (auto simp: upd_def split: if_splits)

lemma upsert_conflict:
  assumes "t \<in> set ts" "ts_key t = (clientID S, issuer S, sid)"
  shows "\<exists>t' \<in> set (upsert_tombstone S sid t0 t1 ts). ts_key t' = ts_key t \<and> ts_expires t \<le> ts_expires t' \<and> t1 \<le> ts_expires t'"
proof -
  let ?t' = "t\<lparr>ts_created := min (ts_created t) t0, ts_expires := max (ts_expires t) t1\<rparr>"
  have "(clientID S, issuer S, sid) \<in> set (map ts_key ts)" using assms by force
  then have "?t' \<in> set (upsert_tombstone S sid t0 t1 ts)"
    using upd_hit [OF assms(1), of "\<lambda>t. ts_key t = (clientID S, issuer S, sid)"] assms(2)
    by (simp add: upsert_tombstone_def)
  moreover have "ts_key ?t' = ts_key t" by (simp add: ts_key_def)
  ultimately show ?thesis by (intro bexI [of _ ?t']) auto
qed

lemma upsert_keeps:
  assumes "t \<in> set ts"
  shows "\<exists>t' \<in> set (upsert_tombstone S sid t0 t1 ts). ts_key t' = ts_key t \<and> ts_expires t \<le> ts_expires t'"
proof (cases "ts_key t = (clientID S, issuer S, sid)")
  case True
  from upsert_conflict [OF assms this] show ?thesis by blast
next
  case False
  with assms upd_miss [OF assms, of "\<lambda>t. ts_key t = (clientID S, issuer S, sid)"]
  have "t \<in> set (upsert_tombstone S sid t0 t1 ts)" by (simp add: upsert_tombstone_def Let_def)
  then show ?thesis by blast
qed

lemma upsert_present:
  "\<exists>t' \<in> set (upsert_tombstone S sid t0 t1 ts). ts_key t' = (clientID S, issuer S, sid) \<and> t1 \<le> ts_expires t'"
proof (cases "(clientID S, issuer S, sid) \<in> set (map ts_key ts)")
  case True
  then obtain t where "t \<in> set ts" "ts_key t = (clientID S, issuer S, sid)" by auto
  from upsert_conflict [OF this] this show ?thesis by fastforce
qed (auto simp: upsert_tombstone_def ts_key_def Let_def)

lemma record_keeps_tombstone:
  assumes "pg_time now < T"
  shows "obeys (stays_out k T) (recordLogoutTombstone W S sid now)"
  unfolding recordLogoutTombstone_def
proof (intro so.keeps_bind sweep_keeps_tombstone assms so.keeps_stmt, erule put_tombstones_out)
  fix s t
  assume t: "t \<in> set (tombstones s)" "ts_key t = k" "T \<le> ts_expires t"
  obtain t' where "t' \<in> set (upsert_tombstone S sid (pg_time now) (pg_time (now + tombstoneLifetime S)) (tombstones s))"
    "ts_key t' = ts_key t" "ts_expires t \<le> ts_expires t'"
    using upsert_keeps [OF t(1)] by blast
  with t show "\<exists>t' \<in> set (upsert_tombstone S sid (pg_time now) (pg_time (now + tombstoneLifetime S)) (tombstones s)).
      ts_key t' = k \<and> T \<le> ts_expires t'" by force
qed

lemma stays_out_statements:
  "obeys (stays_out k T) (lockProviderSession W S sid)"
  "obeys (stays_out k T) (deleteExpiredLogoutTokens W client now)"
  "obeys (stays_out k T) (removeEndedSessions W S now)"
  "obeys (stays_out k T) (revokeProviderRows W S sid now)"
  "obeys (stays_out k T) (RevokeToken W S token now)"
  "obeys (stays_out k T) (recordLogoutToken W S jti e)"
  unfolding lockProviderSession_def deleteExpiredLogoutTokens_def
    removeEndedSessions_def revokeProviderRows_def RevokeToken_def obeys_def [of _ "recordLogoutToken W S jti e"]
    recordLogoutToken_state Let_def
  by (intro so.keeps so.keeps_stmt allI so.keeps_stmt [unfolded obeys_def, THEN spec]
      | erule put_logout_tokens_out | erule put_gw_sessions_out, auto simp: upd_def split: if_splits)+


lemma Create_Inr:
  assumes "Create W S session token now s = (Inr x, s')"
  shows "\<exists>nonce u s1. rand_read W ''generate ID-token nonce'' (NonceSize (aead_of S)) = Some nonce \<and>
    uuid_in (pg W) (gID session) = Some u \<and> \<not> tombstoned S (gProviderSessionID session) now s1 \<and>
    (\<forall>k T. pg_time now < T \<longrightarrow> stays_out k T s s1) \<and> keeps_gateway s s1 \<and> gProviderSessionID session \<noteq> [] \<and>
    put_gw_sessions (gw_sessions s1 @
      [\<lparr>gs_id = u, gs_client = clientID S, gs_token_hash = sha256 (pg W) token, gs_issuer = issuer S,
        gs_subject = gSubject session, gs_provider = gProviderSessionID session,
        gs_ciphertext = nonce @ Seal (aead_of S) nonce (gIDToken session)
           (sessionAdditionalData W (clientID S) (issuer S) session),
        gs_username = gUsername session, gs_email = gEmail session, gs_role = gRole session,
        gs_created = pg_time now, gs_expires = pg_time (gExpiresAt session), gs_revoked = None\<rparr>]) () s1 = Inr (x, s')"
proof -
  let ?sid = "gProviderSessionID session"
  from assms obtain nonce a b c s1 u where
    nonce: "rand_read W ''generate ID-token nonce'' (NonceSize (aead_of S)) = Some nonce"
    and r: "lockProviderSession W S ?sid s = (Inr (), a)" "deleteExpiredLogoutTombstones W now 1000 a = (Inr (), b)"
      "removeEndedSessions W S now b = (Inr (), c)" "deleteExpiredLogoutTokens W (clientID S) now c = (Inr (), s1)"
    and rest: "\<not> tombstoned S ?sid now s1" "uuid_in (pg W) (gID session) = Some u"
      "put_gw_sessions (gw_sessions s1 @
      [\<lparr>gs_id = u, gs_client = clientID S, gs_token_hash = sha256 (pg W) token, gs_issuer = issuer S,
        gs_subject = gSubject session, gs_provider = ?sid,
        gs_ciphertext = nonce @ Seal (aead_of S) nonce (gIDToken session)
           (sessionAdditionalData W (clientID S) (issuer S) session),
        gs_username = gUsername session, gs_email = gEmail session, gs_role = gRole session,
        gs_created = pg_time now, gs_expires = pg_time (gExpiresAt session), gs_revoked = None\<rparr>]) () s1 = Inr (x, s')"
    by (auto simp: Create_def random_bytes_def io_Inr Let_def split: option.splits)
  have "stays_out k T s s1" if "pg_time now < T" for k T
    by (rule so.R_trans [OF so.R_trans [OF so.R_trans [OF obeysD [OF stays_out_statements(1) r(1)]
      obeysD [OF sweep_keeps_tombstone [OF that] r(2)]] obeysD [OF stays_out_statements(3) r(3)]]
      obeysD [OF stays_out_statements(2) r(4)]])
  moreover have "keeps_gateway s s1"
    by (rule gk.R_trans [OF gk.R_trans [OF gk.R_trans [OF obeysD [OF keeps_gateway_statements(1) r(1)]
      obeysD [OF keeps_gateway_statements(2) r(2)]] obeysD [OF keeps_gateway_statements(4) r(3)]]
      obeysD [OF keeps_gateway_statements(3) r(4)]])
  moreover have "?sid \<noteq> []"
    using r(1) by (auto simp: lockProviderSession_def io_Inr)
  ultimately show ?thesis using nonce rest by blast
qed

lemma Create_keeps_out:
  assumes "pg_time now < T"
  shows "obeys (stays_out k T) (Create W S session token now)"
  unfolding obeys_def
proof
  fix s
  show "stays_out k T s (snd (Create W S session token now s))"
  proof (cases "Create W S session token now s")
    case (Pair r s')
    show ?thesis
    proof (cases r)
      case Inl
      with Pair have "s' = s"
        by (auto simp: Create_def bindS_def random_bytes_def retS_def failS_def Let_def dest: tx_Inl split: option.splits)
      with Pair show ?thesis by (simp add: so.R_refl)
    next
      case (Inr x)
      with Create_Inr Pair obtain s1 row where
        s1: "\<not> tombstoned S (gProviderSessionID session) now s1" "stays_out k T s s1"
          "put_gw_sessions (gw_sessions s1 @ [row]) () s1 = Inr (x, s')"
          "session_key row = (clientID S, issuer S, gProviderSessionID session)"
        using assms by (fastforce simp: session_key_def)
      have "stays_out k T s1 s'"
        unfolding stays_out_def
      proof
        assume out: "logged_out k T s1"
        with s1(1) assms have "session_key row \<noteq> k"
          using s1(4) by (auto simp: logged_out_def tombstoned_def list_ex_iff)
        with out s1(3) show "logged_out k T s'"
          by (auto simp: put_gw_sessions_def logged_out_def split: if_splits)
      qed
      with s1(2) Pair show ?thesis by (auto intro: so.R_trans)
    qed
  qed
qed

lemma stays_out_operations:
  assumes "pg_time now < T"
  shows "obeys (stays_out k T) (RevokeFrontchannelSession W S sid now)"
    and "obeys (stays_out k T) (RevokeProviderSession W S sid jti e now)"
    and "obeys (stays_out k T) (Find W S token now)"
  unfolding RevokeFrontchannelSession_def RevokeProviderSession_def Find_def
  by (intro so.keeps stays_out_statements record_keeps_tombstone assms)+

text \<open>
  The store's operations as steps, by any gateway that shares the database, at the times \<open>C\<close> allows.
\<close>

inductive gateway_step :: "(time \<Rightarrow> bool) \<Rightarrow> gateway_db \<Rightarrow> gateway_db \<Rightarrow> bool" for C where
  creates: "C now \<Longrightarrow> gateway_step C s (snd (Create W S session token now s))"
| finds: "C now \<Longrightarrow> gateway_step C s (snd (Find W S token now s))"
| revokes: "C now \<Longrightarrow> gateway_step C s (snd (RevokeToken W S token now s))"
| frontchannel: "C now \<Longrightarrow> gateway_step C s (snd (RevokeFrontchannelSession W S sid now s))"
| backchannel: "C now \<Longrightarrow> gateway_step C s (snd (RevokeProviderSession W S sid jti e now s))"

inductive_cases gateway_stepE: "gateway_step C s s'"

abbreviation gateway_run :: "(time \<Rightarrow> bool) \<Rightarrow> gateway_db \<Rightarrow> gateway_db \<Rightarrow> bool" where
  "gateway_run C \<equiv> (gateway_step C)\<^sup>*\<^sup>*"

lemma gateway_run_ok: "gateway_run C s s' \<Longrightarrow> gateway_ok s \<Longrightarrow> gateway_ok s'"
proof (induction rule: rtranclp_induct)
  case (step t u)
  then show ?case
    using keeps_gateway_operations [unfolded obeys_def keeps_gateway_def, rule_format]
    by (auto elim!: gateway_stepE)
qed

lemma gateway_run_out:
  "gateway_run (\<lambda>t. pg_time t < T) s s' \<Longrightarrow> logged_out k T s \<Longrightarrow> logged_out k T s'"
proof (induction rule: rtranclp_induct)
  case (step t u)
  from step.hyps(2) have "stays_out k T t u"
    by (cases rule: gateway_step.cases) (auto intro!: Create_keeps_out [unfolded obeys_def, rule_format]
        stays_out_operations [unfolded obeys_def, rule_format] stays_out_statements [unfolded obeys_def, rule_format])
  with step show ?case by (simp add: stays_out_def)
qed


lemma Find_Inr: "Find W S token now s = (Inr x, s') \<longleftrightarrow> s' = s \<and> \<not> fault (pg W) ''read gateway session'' \<and>
    (\<exists>r. find (in_force S (sha256 (pg W) token) now) (gw_sessions s) = Some r \<and> decrypt_session W S r = Some x)"
  by (auto simp: Find_def io_Inr)

lemma decrypt_provider: "decrypt_session W S r = Some x \<Longrightarrow> gProviderSessionID x = gs_provider r"
  by (auto simp: decrypt_session_def scan_gateway_session_def Let_def split: if_splits option.splits)

lemma Find_not_logged_out:
  assumes "logged_out (clientID S, issuer S, sid) T s" "Find W S token now s = (Inr x, s')"
  shows "gProviderSessionID x \<noteq> sid"
proof -
  from assms(2) obtain r where r: "r \<in> set (gw_sessions s)" "in_force S (sha256 (pg W) token) now r"
    "gProviderSessionID x = gs_provider r"
    by (auto simp: Find_Inr dest!: find_SomeD dest: decrypt_provider)
  with assms(1) show ?thesis by (auto simp: logged_out_def session_key_def in_force_def)
qed

lemma Create_not_logged_out:
  assumes "logged_out (clientID S, issuer S, gProviderSessionID session) T s" "pg_time now < T"
  shows "\<exists>e. Create W S session token now s = (Inl e, s)"
proof (cases "Create W S session token now s")
  case (Pair r s')
  show ?thesis
  proof (cases r)
    case (Inl e)
    with Pair have "s' = s"
      by (auto simp: Create_def bindS_def random_bytes_def retS_def failS_def Let_def dest: tx_Inl split: option.splits)
    with Pair Inl show ?thesis by simp
  next
    case (Inr x)
    with Create_Inr Pair obtain s1 where s1: "\<not> tombstoned S (gProviderSessionID session) now s1"
      "stays_out (clientID S, issuer S, gProviderSessionID session) T s s1"
      using assms(2) by blast
    with assms show ?thesis by (auto simp: stays_out_def logged_out_def tombstoned_def list_ex_iff)
  qed
qed

text \<open>What both channels of a logout leave behind.\<close>

lemma revokeProviderRows_out:
  assumes "recordLogoutTombstone W S sid now s = (Inr (), s1)" "revokeProviderRows W S sid now s1 = (Inr (), s2)"
  shows "logged_out (clientID S, issuer S, sid) (pg_time (now + tombstoneLifetime S)) s2"
proof -
  let ?k = "(clientID S, issuer S, sid)" and ?T = "pg_time (now + tombstoneLifetime S)"
  from assms(1) obtain s0 where "put_tombstones (upsert_tombstone S sid (pg_time now) ?T (tombstones s0)) () s0 = Inr ((), s1)"
    by (auto simp: recordLogoutTombstone_def io_Inr)
  then have s1: "distinct (map ts_key (tombstones s1))" "\<exists>t \<in> set (tombstones s1). ts_key t = ?k \<and> ?T \<le> ts_expires t"
    using upsert_present by (auto simp: put_tombstones_def split: if_splits)
  from assms(2) have "gw_sessions s2 = upd (\<lambda>r. gs_client r = clientID S \<and> gs_issuer r = issuer S \<and>
      gs_provider r = sid \<and> gs_revoked r = None) (gs_revoked_update (\<lambda>_. Some (pg_time now))) (gw_sessions s1)"
    "tombstones s2 = tombstones s1"
    by (auto simp: revokeProviderRows_def io_Inr put_gw_sessions_def split: if_splits)
  moreover from this(1) have "\<forall>r \<in> set (gw_sessions s2). session_key r = ?k \<longrightarrow> gs_revoked r \<noteq> None"
    using upd_clears [where Q = "\<lambda>r. session_key r = ?k \<and> gs_revoked r = None"] by (fastforce simp: session_key_def)
  ultimately show ?thesis using s1 by (simp add: logged_out_def)
qed

lemma logout_leaves_out:
  assumes "RevokeProviderSession W S sid jti e now s = (Inr (), s') \<or> RevokeFrontchannelSession W S sid now s = (Inr (), s')"
  shows "logged_out (clientID S, issuer S, sid) (pg_time (now + tombstoneLifetime S)) s'"
  using assms by (auto simp: RevokeProviderSession_def RevokeFrontchannelSession_def io_Inr intro: revokeProviderRows_out)

text \<open>C6. A logout that reached the gateway, over either channel, is final: whatever any gateway does with the
  database before the tombstone runs out, no cookie finds a session of that provider session again, at any
  time, and a sign-in that carries it is refused without a trace.\<close>

theorem gateway_logout_final:
  assumes logout: "RevokeProviderSession W S sid jti e now s = (Inr (), s1) \<or>
      RevokeFrontchannelSession W S sid now s = (Inr (), s1)"
    and run: "gateway_run (\<lambda>t. pg_time t < pg_time (now + tombstoneLifetime S)) s1 s2"
    and same: "clientID S' = clientID S" "issuer S' = issuer S"
  shows "(\<forall>W' token t x s3. Find W' S' token t s2 = (Inr x, s3) \<longrightarrow> gProviderSessionID x \<noteq> sid) \<and>
    (\<forall>W' session token t. gProviderSessionID session = sid \<and> pg_time t < pg_time (now + tombstoneLifetime S) \<longrightarrow>
       (\<exists>err. Create W' S' session token t s2 = (Inl err, s2)))"
proof -
  have "logged_out (clientID S', issuer S', sid) (pg_time (now + tombstoneLifetime S)) s2"
    using gateway_run_out [OF run logout_leaves_out [OF logout]] same by simp
  then show ?thesis using Find_not_logged_out Create_not_logged_out by blast
qed

subsection \<open>Replayed logout tokens\<close>

definition accepted :: "string \<times> string \<Rightarrow> time \<Rightarrow> gateway_db \<Rightarrow> bool" where
  "accepted k T s \<longleftrightarrow> distinct (map lt_key (logout_tokens s)) \<and>
     (\<exists>t \<in> set (logout_tokens s). lt_key t = k \<and> T \<le> lt_expires t)"

definition stays_accepted :: "string \<times> string \<Rightarrow> time \<Rightarrow> gateway_db \<Rightarrow> gateway_db \<Rightarrow> bool" where
  "stays_accepted k T s s' \<longleftrightarrow> (accepted k T s \<longrightarrow> accepted k T s')"

interpretation sa: contract "stays_accepted k T" for k T
  by unfold_locales (auto simp: stays_accepted_def)

lemma put_accepted:
  "put_gw_sessions rs x s = Inr (y, s') \<Longrightarrow> stays_accepted k T s s'"
  "put_tombstones us x s = Inr (y, s') \<Longrightarrow> stays_accepted k T s s'"
  by (auto simp: put_gateway_defs stays_accepted_def accepted_def split: if_splits)

lemma sweep_keeps_accepted:
  assumes "pg_time now < T"
  shows "obeys (stays_accepted k T) (deleteExpiredLogoutTokens W client now)"
  unfolding deleteExpiredLogoutTokens_def Let_def
proof (rule sa.keeps_stmt)
  fix s s' :: gateway_db and x
  let ?spent = "limited (pg W) retentionSweepLimit
    (filter (\<lambda>t. lt_client t = client \<and> lt_expires t \<le> pg_time now) (logout_tokens s))"
  assume put: "put_logout_tokens (filter (\<lambda>t. lt_key t \<notin>
    set (map lt_key ?spent)) (logout_tokens s)) () s = Inr (x, s')"
  show "stays_accepted k T s s'"
    unfolding stays_accepted_def
  proof
    assume "accepted k T s"
    then obtain t where t: "distinct (map lt_key (logout_tokens s))" "t \<in> set (logout_tokens s)" "lt_key t = k" "T \<le> lt_expires t"
      by (auto simp: accepted_def)
    have "lt_key t \<notin> set (map lt_key ?spent)"
    proof
      assume "lt_key t \<in> set (map lt_key ?spent)"
      then obtain u where u: "u \<in> set ?spent" "lt_key u = lt_key t" by auto
      then have "u \<in> set (logout_tokens s)" "lt_expires u \<le> pg_time now"
        using set_limited [of "pg W" retentionSweepLimit] by fastforce+
      moreover from this u t have "u = t" by (metis distinct_map_inj_onD)
      ultimately show False using t assms by simp
    qed
    with t put show "accepted k T s'"
      by (auto simp: accepted_def put_logout_tokens_def split: if_splits)
  qed
qed

lemma insert_keeps_accepted: "obeys (stays_accepted k T) (recordLogoutToken W S jti e)"
  unfolding obeys_def recordLogoutToken_state
  by (intro allI sa.keeps_stmt [unfolded obeys_def, THEN spec])
    (auto simp: put_logout_tokens_def stays_accepted_def accepted_def split: if_splits)

lemma stays_accepted_operations:
  assumes "pg_time now < T"
  shows "obeys (stays_accepted k T) (Create W S session token now)"
    and "obeys (stays_accepted k T) (Find W S token now)"
    and "obeys (stays_accepted k T) (RevokeToken W S token now)"
    and "obeys (stays_accepted k T) (RevokeFrontchannelSession W S sid now)"
    and "obeys (stays_accepted k T) (RevokeProviderSession W S sid jti e now)"
  unfolding Create_def Find_def RevokeToken_def RevokeFrontchannelSession_def RevokeProviderSession_def
    lockProviderSession_def recordLogoutTombstone_def revokeProviderRows_def deleteExpiredLogoutTombstones_def
    removeEndedSessions_def Let_def
  by (intro sa.keeps sa.keeps_stmt sa.keeps_random sweep_keeps_accepted insert_keeps_accepted assms | erule put_accepted)+

lemma gateway_run_accepted:
  "gateway_run (\<lambda>t. pg_time t < T) s s' \<Longrightarrow> accepted k T s \<Longrightarrow> accepted k T s'"
proof (induction rule: rtranclp_induct)
  case (step t u)
  from step.hyps(2) have "stays_accepted k T t u"
    by (cases rule: gateway_step.cases) (auto intro!: stays_accepted_operations [unfolded obeys_def, rule_format])
  with step show ?case by (simp add: stays_accepted_def)
qed

lemma recordLogoutToken_again:
  assumes "accepted (clientID S, jti) T s"
  shows "recordLogoutToken W S jti e s = (Inl (if fault (pg W) ''record logout token''
    then DbError ''record logout token'' Unavailable else ErrLogoutTokenReplayed), s)"
proof -
  have "\<not> distinct (map lt_key (logout_tokens s @ [\<lparr>lt_client = clientID S, lt_token = jti, lt_expires = pg_time e\<rparr>]))"
    using assms by (force simp: accepted_def lt_key_def)
  then show ?thesis by (auto simp: recordLogoutToken_def stmt_def put_logout_tokens_def)
qed

lemma sweep_accepts:
  assumes "distinct (map lt_key (logout_tokens s))" "\<not> fault (pg W) ''delete expired gateway logout tokens''"
  shows "\<exists>s'. deleteExpiredLogoutTokens W client now s = (Inr (), s')"
  using assms by (simp add: deleteExpiredLogoutTokens_def stmt_def put_logout_tokens_def Let_def distinct_map_filter)

lemma logout_keeps_accepted:
  "obeys (stays_accepted k T) (recordLogoutTombstone W S sid now)"
  "obeys (stays_accepted k T) (revokeProviderRows W S sid now)"
  unfolding recordLogoutTombstone_def revokeProviderRows_def deleteExpiredLogoutTombstones_def Let_def
  by (intro sa.keeps sa.keeps_stmt | erule put_accepted)+

text \<open>A back-channel logout token is accepted once: as long as the clock has not reached its expiry, presenting
  it again to the same application changes nothing and, when the database answers, is reported as a replay,
  whatever the gateways did in between.\<close>

theorem logout_token_single_use:
  assumes first: "RevokeProviderSession W S sid jti e now s = (Inr (), s1)"
    and run: "gateway_run (\<lambda>t. pg_time t < pg_time e) s1 s2"
    and same: "clientID S' = clientID S" and t: "pg_time t < pg_time e"
  shows "\<exists>err. RevokeProviderSession W' S' sid' jti e' t s2 = (Inl err, s2) \<and>
     ((\<forall>l. \<not> fault (pg W') l) \<and> sid' \<noteq> [] \<longrightarrow> err = ErrLogoutTokenReplayed)"
proof -
  have "accepted (clientID S, jti) (pg_time e) s1"
  proof -
    from first obtain a b c where r: "recordLogoutToken W S jti e a = (Inr (), b)"
      "recordLogoutTombstone W S sid now b = (Inr (), c)" "revokeProviderRows W S sid now c = (Inr (), s1)"
      by (auto simp: RevokeProviderSession_def io_Inr)
    then have "accepted (clientID S, jti) (pg_time e) b"
      by (auto simp: recordLogoutToken_def accepted_def lt_key_def stmt_def put_logout_tokens_def
          split: prod.splits sum.splits if_splits)
    with obeysD [OF logout_keeps_accepted(1) r(2)] obeysD [OF logout_keeps_accepted(2) r(3)] show ?thesis
      by (simp add: stays_accepted_def)
  qed
  from gateway_run_accepted [OF run this] have acc: "accepted (clientID S', jti) (pg_time e) s2"
    using same by simp
  then have again: "accepted (clientID S', jti) (pg_time e) s'"
    if "deleteExpiredLogoutTokens W' (clientID S') t s2 = (r, s')" for r s'
    using obeysD [OF sweep_keeps_accepted [OF t] that] by (simp add: stays_accepted_def)
  obtain r s3 where res: "RevokeProviderSession W' S' sid' jti e' t s2 = (r, s3)" by (cases "RevokeProviderSession W' S' sid' jti e' t s2")
  obtain err where r: "r = Inl err"
    using res again by (cases r) (auto simp: RevokeProviderSession_def lockProviderSession_def io_Inr recordLogoutToken_again)
  have "s3 = s2" using res r by (auto simp: RevokeProviderSession_def dest: tx_Inl)
  moreover have "err = ErrLogoutTokenReplayed" if up: "\<forall>l. \<not> fault (pg W') l" and sid: "sid' \<noteq> []"
  proof -
    have "\<exists>s'. deleteExpiredLogoutTokens W' (clientID S') t s2 = (Inr (), s')"
      by (rule sweep_accepts) (use acc up in \<open>auto simp: accepted_def\<close>)
    then obtain s' where "deleteExpiredLogoutTokens W' (clientID S') t s2 = (Inr (), s')" by blast
    with again [OF this] res r up sid show ?thesis
      by (simp add: RevokeProviderSession_def lockProviderSession_def tx_def bindS_def guardS_def query_def stmt_def retS_def
          recordLogoutToken_again)
  qed
  ultimately show ?thesis using res r by blast
qed

subsection \<open>Sessions in the store\<close>

text \<open>What the store relies on: the cipher opens what it sealed, and the generator fills its buffer.\<close>

definition cipher_opens :: "aead \<Rightarrow> bool" where
  "cipher_opens A \<longleftrightarrow> (\<forall>n p a. length n = NonceSize A \<longrightarrow> Open A n (Seal A n p a) a = Some p)"

definition random_lengths :: "gateway_env \<Rightarrow> bool" where
  "random_lengths W \<longleftrightarrow> (\<forall>p n b. rand_read W p n = Some b \<longrightarrow> length b = n)"

lemma find_one:
  assumes "distinct (map f xs)" "x \<in> set xs" "\<And>y. P y \<Longrightarrow> f y = f x"
  shows "find P xs = (if P x then Some x else None)"
proof (cases "P x")
  case True
  have "find P xs = Some x" by (rule find_unique [OF assms(1,2)]) (rule True, erule assms(3))
  with True show ?thesis by simp
next
  case False
  have "\<not> P y" if "y \<in> set xs" for y
    using that False assms(3) [of y] distinct_map_inj_onD [OF assms(1) that assms(2)] by blast
  with False show ?thesis by (simp add: find_None_iff)
qed

lemma sealed_session_opens:
  assumes "length nonce = NonceSize (aead_of S)"
    and "cipher_opens (aead_of S)"
    and "gs_ciphertext r = nonce @ Seal (aead_of S) nonce plain (sessionAdditionalData W (clientID S) (issuer S) (scan_gateway_session r))"
  shows "decrypt_session W S r = Some ((scan_gateway_session r)\<lparr>gIDToken := plain\<rparr>)"
  using assms by (simp add: decrypt_session_def cipher_opens_def Let_def)

lemma stored_session_found:
  assumes create: "Create W S session token now s = (Inr (), s')"
    and uuid: "uuid_in (pg W) (gID session) = Some (gID session)"
    and cipher: "cipher_opens (aead_of S)" and rand: "random_lengths W"
    and same: "sha256 (pg W') = sha256 (pg W)" "marshal_strings W' = marshal_strings W"
    and up: "\<not> fault (pg W') ''read gateway session''"
  shows "Find W' S token t s' = (if pg_time t < pg_time (gExpiresAt session)
       then Inr (session\<lparr>gExpiresAt := pg_time (gExpiresAt session)\<rparr>) else Inl ErrGatewaySessionNotFound, s')"
proof -
  let ?h = "sha256 (pg W) token"
  from Create_Inr [OF create] uuid rand [unfolded random_lengths_def] obtain nonce s1 row where
    row: "row = \<lparr>gs_id = gID session, gs_client = clientID S, gs_token_hash = ?h, gs_issuer = issuer S,
        gs_subject = gSubject session, gs_provider = gProviderSessionID session,
        gs_ciphertext = nonce @ Seal (aead_of S) nonce (gIDToken session)
           (sessionAdditionalData W (clientID S) (issuer S) session),
        gs_username = gUsername session, gs_email = gEmail session, gs_role = gRole session,
        gs_created = pg_time now, gs_expires = pg_time (gExpiresAt session), gs_revoked = None\<rparr>"
    and nonce: "length nonce = NonceSize (aead_of S)"
    and put: "put_gw_sessions (gw_sessions s1 @ [row]) () s1 = Inr ((), s')" by fastforce
  then have s': "gw_sessions s' = gw_sessions s1 @ [row]" "distinct (map gs_token_hash (gw_sessions s'))"
    by (auto simp: put_gw_sessions_def gw_sessions_unique_def split: if_splits)
  have data: "sessionAdditionalData W' (clientID S) (issuer S) (scan_gateway_session row) =
      sessionAdditionalData W (clientID S) (issuer S) session"
    using same by (simp add: row scan_gateway_session_def sessionAdditionalData_def)
  have "find (in_force S ?h t) (gw_sessions s') = (if in_force S ?h t row then Some row else None)"
  proof (rule find_one [OF s'(2)])
    show "row \<in> set (gw_sessions s')" by (simp add: s'(1))
  qed (simp add: in_force_def row)
  moreover have "in_force S ?h t row \<longleftrightarrow> pg_time t < pg_time (gExpiresAt session)"
    by (simp add: in_force_def row)
  moreover have "decrypt_session W' S row = Some ((scan_gateway_session row)\<lparr>gIDToken := gIDToken session\<rparr>)"
    by (rule sealed_session_opens [OF nonce cipher]) (simp_all add: data, simp add: row)
  moreover have "(scan_gateway_session row)\<lparr>gIDToken := gIDToken session\<rparr> = session\<lparr>gExpiresAt := pg_time (gExpiresAt session)\<rparr>"
    by (simp add: scan_gateway_session_def row)
  ultimately show ?thesis
    using up same by (simp add: Find_def bindS_def query_def stmt_def retS_def failS_def)
qed

lemma revoked_token_not_found:
  assumes revoke: "RevokeToken W S token t' s = (Inr (), s')" and same: "sha256 (pg W') = sha256 (pg W)"
    and up: "\<not> fault (pg W') ''read gateway session''"
  shows "Find W' S token t s' = (Inl ErrGatewaySessionNotFound, s')"
proof -
  let ?h = "sha256 (pg W) token"
  from revoke have "gw_sessions s' = upd (\<lambda>r. gs_client r = clientID S \<and> gs_token_hash r = ?h \<and> gs_revoked r = None)
       (gs_revoked_update (\<lambda>_. Some (pg_time t'))) (gw_sessions s)"
    by (auto simp: RevokeToken_def io_Inr put_gw_sessions_def split: if_splits)
  then have "find (in_force S ?h t) (gw_sessions s') = None"
    using upd_clears [where Q = "in_force S ?h t"] by (fastforce simp: find_None_iff in_force_def)
  then show ?thesis using up same by (simp add: Find_def bindS_def query_def stmt_def failS_def)
qed

text \<open>C35. The cookie of a new application session finds exactly what was stored, ID token included, until the
  session expires and not from then on; after the cookie is revoked it finds nothing at any time. The cipher is
  only assumed to open what it sealed under the same nonce and additional data.\<close>

theorem gateway_session_roundtrip:
  assumes create: "Create W S session token now s = (Inr (), s')"
    and uuid: "uuid_in (pg W) (gID session) = Some (gID session)"
    and cipher: "cipher_opens (aead_of S)" and rand: "random_lengths W"
    and same: "sha256 (pg W') = sha256 (pg W)" "marshal_strings W' = marshal_strings W"
    and up: "\<not> fault (pg W') ''read gateway session''"
  shows "Find W' S token t s' = (if pg_time t < pg_time (gExpiresAt session)
       then Inr (session\<lparr>gExpiresAt := pg_time (gExpiresAt session)\<rparr>) else Inl ErrGatewaySessionNotFound, s') \<and>
    (\<forall>t' s''. RevokeToken W' S token t' s' = (Inr (), s'') \<longrightarrow> Find W' S token t s'' = (Inl ErrGatewaySessionNotFound, s''))"
  using stored_session_found [OF create uuid cipher rand same up] revoked_token_not_found [OF _ refl up] by blast

subsection \<open>Witnesses\<close>

text \<open>A gateway whose cipher prefixes its text, and a session of provider session \<open>h1\<close>.\<close>

definition example_gateway_env :: gateway_env where
  "example_gateway_env = \<lparr>pg = example_env, rand_read = (\<lambda>p n. Some (replicate n (CHR ''r''))), marshal_strings = concat,
     aes_gcm = (\<lambda>key. Some \<lparr>NonceSize = 12, Seal = (\<lambda>n p a. CHR ''!'' # p), Open = (\<lambda>n c a. case c of [] \<Rightarrow> None | x # p \<Rightarrow> Some p)\<rparr>)\<rparr>"

definition example_gateway :: gateway_store where
  "example_gateway = \<lparr>clientID = ''console'', issuer = ''https://auth.example.org'', aead_of = \<lparr>NonceSize = 12,
     Seal = (\<lambda>n p a. CHR ''!'' # p), Open = (\<lambda>n c a. case c of [] \<Rightarrow> None | x # p \<Rightarrow> Some p)\<rparr>, tombstoneLifetime = 20 * minute\<rparr>"

definition example_gateway_session :: gateway_session where
  "example_gateway_session = \<lparr>gID = ''g1'', gSubject = ''u1'', gProviderSessionID = ''h1'', gIDToken = ''jwt'',
     gUsername = ''alice'', gEmail = ''alice@example.org'', gRole = ''developer'', gExpiresAt = 8 * hour\<rparr>"

definition empty_gateway_db :: gateway_db where
  "empty_gateway_db = \<lparr>gw_sessions = [], logout_tokens = [], tombstones = []\<rparr>"

lemmas example_gateway_defs = example_gateway_env_def example_gateway_def example_gateway_session_def empty_gateway_db_def

lemma example_gateway_create:
  "fst (Create example_gateway_env example_gateway example_gateway_session ''cookie'' 0 empty_gateway_db) = Inr ()"
  by (simp add: Create_def lockProviderSession_def deleteExpiredLogoutTombstones_def removeEndedSessions_def
      deleteExpiredLogoutTokens_def random_bytes_def io_defs Let_def example_gateway_defs example_env_def put_gateway_defs
      tombstoned_def gw_sessions_unique_def gw_role_def)

theorem gateway_session_roundtrip_witness:
  "\<exists>s'. Create example_gateway_env example_gateway example_gateway_session ''cookie'' 0 empty_gateway_db = (Inr (), s') \<and>
     Find example_gateway_env example_gateway ''cookie'' minute s' = (Inr example_gateway_session, s')"
proof -
  obtain s' where s': "Create example_gateway_env example_gateway example_gateway_session ''cookie'' 0 empty_gateway_db = (Inr (), s')"
    using example_gateway_create by (metis old.unit.exhaust prod.collapse)
  from gateway_session_roundtrip [OF this, of example_gateway_env minute] s' show ?thesis
    by (auto simp: cipher_opens_def random_lengths_def example_gateway_defs example_env_def pg_time_def duration_units)
qed

lemma example_backchannel:
  "fst (RevokeProviderSession example_gateway_env example_gateway ''h1'' ''jti'' minute 0 empty_gateway_db) = Inr ()"
  by (simp add: RevokeProviderSession_def lockProviderSession_def deleteExpiredLogoutTombstones_def recordLogoutTombstone_def
      recordLogoutToken_def revokeProviderRows_def upsert_tombstone_def upd_def gw_sessions_unique_def duration_units pg_time_def
      deleteExpiredLogoutTokens_def io_defs Let_def example_gateway_defs example_env_def put_gateway_defs)

theorem logout_token_single_use_witness:
  "\<exists>s1. RevokeProviderSession example_gateway_env example_gateway ''h1'' ''jti'' minute 0 empty_gateway_db = (Inr (), s1) \<and>
     RevokeProviderSession example_gateway_env example_gateway ''h2'' ''jti'' hour second s1 = (Inl ErrLogoutTokenReplayed, s1)"
proof -
  obtain s1 where s1: "RevokeProviderSession example_gateway_env example_gateway ''h1'' ''jti'' minute 0 empty_gateway_db = (Inr (), s1)"
    using example_backchannel by (metis old.unit.exhaust prod.collapse)
  have "\<exists>err. RevokeProviderSession example_gateway_env example_gateway ''h2'' ''jti'' hour second s1 = (Inl err, s1) \<and>
     ((\<forall>l. \<not> fault (pg example_gateway_env) l) \<and> ''h2'' \<noteq> [] \<longrightarrow> err = ErrLogoutTokenReplayed)"
    by (rule logout_token_single_use [OF s1 rtranclp.rtrancl_refl]) (simp_all add: pg_time_def duration_units)
  with s1 show ?thesis by (auto simp: example_gateway_env_def example_env_def)
qed

theorem gateway_logout_final_witness:
  "\<exists>s1. RevokeProviderSession example_gateway_env example_gateway ''h1'' ''jti'' minute 0 empty_gateway_db = (Inr (), s1) \<and>
     (\<exists>err. Create example_gateway_env example_gateway example_gateway_session ''cookie'' (19 * minute) s1 = (Inl err, s1))"
proof -
  obtain s1 where s1: "RevokeProviderSession example_gateway_env example_gateway ''h1'' ''jti'' minute 0 empty_gateway_db = (Inr (), s1)"
    using example_backchannel by (metis old.unit.exhaust prod.collapse)
  from gateway_logout_final [OF disjI1 [OF s1] rtranclp.rtrancl_refl refl refl] have
    "\<exists>err. Create example_gateway_env example_gateway example_gateway_session ''cookie'' (19 * minute) s1 = (Inl err, s1)"
    by (simp add: example_gateway_session_def example_gateway_def pg_time_def duration_units)
  with s1 show ?thesis by blast
qed

end
