(* ===== verification/Gateway.thy ===== *)
theory Gateway
  imports Gateway_Store Base64_URL
begin

text \<open>
  The handlers of the application gateway, \<open>internal/gateway/server.go\<close>: sign-in with a sealed transaction
  cookie, the session check in front of the proxied application, both logout channels, and the headers the
  application receives. A handler is a function from the world of a request, the server and the request to a
  response and the database after it.
\<close>

subsection \<open>Requests, responses and the server\<close>

type_synonym headers = "(string \<times> string list) list"

record http_request =
  req_method :: string
  req_host :: string
  req_uri :: string                        \<comment> \<open>\<open>URL.RequestURI()\<close>\<close>
  req_query :: "string \<Rightarrow> string"         \<comment> \<open>\<open>URL.Query().Get\<close>\<close>
  req_cookies :: "(string \<times> string) list"
  req_header :: "string \<Rightarrow> string"        \<comment> \<open>\<open>Header.Get\<close>\<close>
  req_media_type :: "string option"        \<comment> \<open>\<open>mime.ParseMediaType\<close> of \<open>Content-Type\<close>\<close>
  req_logout_tokens :: "string list option" \<comment> \<open>\<open>PostForm["logout_token"]\<close>; \<open>None\<close> when \<open>ParseForm\<close> fails\<close>

text \<open>A cookie to set: name, value and \<open>Max-Age\<close>; a negative one removes it.\<close>

record http_response =
  rs_status :: nat
  rs_location :: "string option"
  rs_body :: string
  rs_cookies :: "(string \<times> string \<times> int) list"

definition http_error :: "nat \<Rightarrow> string \<Rightarrow> http_response" where
  "http_error code message = \<lparr>rs_status = code, rs_location = None, rs_body = message, rs_cookies = []\<rparr>"

definition http_redirect :: "nat \<Rightarrow> string \<Rightarrow> http_response" where
  "http_redirect code target = \<lparr>rs_status = code, rs_location = Some target, rs_body = [], rs_cookies = []\<rparr>"

definition with_cookie :: "string \<times> string \<times> int \<Rightarrow> http_response \<Rightarrow> http_response" where
  "with_cookie c r = r\<lparr>rs_cookies := c # rs_cookies r\<rparr>"

record transaction =
  tState :: string
  tNonce :: string
  tVerifier :: string
  tReturnTo :: string
  tExpiresAt :: int

record identityClaims =
  icSubject :: string
  icProviderSessionID :: string
  icUsername :: string
  icEmail :: string
  icEmailVerified :: bool
  icRole :: string
  icNonce :: string

record logoutClaims =
  lcProviderSessionID :: string
  lcTokenID :: string
  lcIssuedAt :: int
  lcExpiresAt :: int
  lcNonce :: "string option"
  lcEvents :: "(string \<times> string) list"      \<comment> \<open>names with the raw JSON of their values\<close>

text \<open>What \<open>url.Parse\<close> says of a reference: path, scheme, host and \<open>RequestURI()\<close>.\<close>

record url_reference =
  ref_path :: string
  ref_scheme :: string
  ref_host :: string
  ref_uri :: string

record gateway_server =
  gstore :: gateway_store
  transactions :: aead
  PublicScheme :: string
  PublicHost :: string
  PostLogoutURL :: string
  SessionMaxAge :: duration
  InsecureCookie :: bool
  endSessionEndpoint :: string

text \<open>
  The rest of the world of one request: the store's environment, the \<open>i\<close>-th reading of the clock, the
  provider's answers, and the parts of Go's libraries whose results the handlers only pass on.
\<close>

record gateway_world =
  gw :: gateway_env
  clock :: "nat \<Rightarrow> time"
  Exchange :: "string \<Rightarrow> string \<Rightarrow> string option option"  \<comment> \<open>code and verifier to the response's ID token\<close>
  Verify :: "string \<Rightarrow> string option"                       \<comment> \<open>the payload of a token with a valid signature, issuer, audience and expiry\<close>
  identity_claims :: "string \<Rightarrow> identityClaims option"
  logout_claims :: "string \<Rightarrow> logoutClaims option"
  object_keys :: "string \<Rightarrow> string list option option"      \<comment> \<open>\<open>json.Unmarshal\<close> into a map: error, \<open>null\<close> or its keys\<close>
  marshal_transaction :: "transaction \<Rightarrow> string"
  unmarshal_transaction :: "string \<Rightarrow> transaction option"
  GenerateVerifier :: string
  AuthCodeURL :: "string \<Rightarrow> string \<Rightarrow> string \<Rightarrow> string"
  parse_reference :: "string \<Rightarrow> url_reference option"
  resolve :: "string \<Rightarrow> string \<Rightarrow> string"                   \<comment> \<open>\<open>ResolveReference\<close> of a path\<close>
  set_query :: "string \<Rightarrow> (string \<times> string) list \<Rightarrow> string"
  QueryEscape :: "string \<Rightarrow> string"

definition HasPrefix :: "string \<Rightarrow> string \<Rightarrow> bool" where
  "HasPrefix s p \<longleftrightarrow> take (length p) s = p"

definition TrimPrefix :: "string \<Rightarrow> string \<Rightarrow> string" where
  "TrimPrefix s p = (if HasPrefix s p then drop (length p) s else s)"

definition configCookieName :: "bool \<Rightarrow> string" where
  "configCookieName insecure = (if insecure then TrimPrefix ''__Host-shauth-gateway'' ''__Host-'' else ''__Host-shauth-gateway'')"

definition configTransactionCookieName :: "bool \<Rightarrow> string" where
  "configTransactionCookieName insecure = (if insecure then TrimPrefix ''__Host-shauth-gateway-transaction'' ''__Host-''
     else ''__Host-shauth-gateway-transaction'')"

abbreviation sessionCookieName :: "gateway_server \<Rightarrow> string" where
  "sessionCookieName V \<equiv> configCookieName (InsecureCookie V)"

abbreviation transactionCookieName :: "gateway_server \<Rightarrow> string" where
  "transactionCookieName V \<equiv> configTransactionCookieName (InsecureCookie V)"

definition setCookie :: "string \<Rightarrow> string \<Rightarrow> duration \<Rightarrow> http_response \<Rightarrow> http_response" where
  "setCookie name val maxAge = with_cookie (name, val, whole_seconds maxAge)"

definition clearCookie :: "string \<Rightarrow> http_response \<Rightarrow> http_response" where
  "clearCookie name = with_cookie (name, [], -1)"

subsection \<open>Random values and the transaction cookie\<close>

definition randomValue :: "gateway_env \<Rightarrow> string \<Rightarrow> nat \<Rightarrow> string option" where
  "randomValue W purpose n = map_option b64_encode (rand_read W purpose n)"

definition gateway_uuid :: "gateway_env \<Rightarrow> string option" where
  "gateway_uuid W = map_option (\<lambda>v.
     let b = map (\<lambda>c. of_char c :: 8 word) v;
         b = b[6 := (b ! 6 AND 0x0f) OR 0x40];
         b = b[8 := (b ! 8 AND 0x3f) OR 0x80]
     in hex_encode (take 4 b) @ ''-'' @ hex_encode (take 2 (drop 4 b)) @ ''-'' @
        hex_encode (take 2 (drop 6 b)) @ ''-'' @ hex_encode (take 2 (drop 8 b)) @ ''-'' @
        hex_encode (take 6 (drop 10 b))) (rand_read W ''session ID'' 16)"

definition sealTransaction :: "gateway_world \<Rightarrow> gateway_server \<Rightarrow> transaction \<Rightarrow> string option" where
  "sealTransaction X V t = map_option (\<lambda>nonce.
     b64_encode (nonce @ Seal (transactions V) nonce (marshal_transaction X t) (clientID (gstore V))))
     (rand_read (gw X) ''transaction nonce'' (NonceSize (transactions V)))"

definition openTransaction :: "gateway_world \<Rightarrow> gateway_server \<Rightarrow> string \<Rightarrow> transaction option" where
  "openTransaction X V val =
     (case b64_decode val of None \<Rightarrow> None
      | Some sealed \<Rightarrow>
          let n = NonceSize (transactions V) in
          if length sealed < n then None
          else case Open (transactions V) (take n sealed) (drop n sealed) (clientID (gstore V)) of
            None \<Rightarrow> None | Some plain \<Rightarrow> unmarshal_transaction X plain)"

definition relativeReturnTo :: "gateway_world \<Rightarrow> string \<Rightarrow> string" where
  "relativeReturnTo X val = (case parse_reference X val of None \<Rightarrow> ''/''
     | Some u \<Rightarrow> if \<not> HasPrefix (ref_path u) ''/'' \<or> HasPrefix (ref_path u) ''//'' \<or> CHR 0x5C \<in> set (ref_path u) \<or>
         ref_scheme u \<noteq> [] \<or> ref_host u \<noteq> [] then ''/'' else ref_uri u)"

definition unix :: "time \<Rightarrow> int" where
  "unix t = t div second"

definition login :: "gateway_world \<Rightarrow> gateway_server \<Rightarrow> http_request \<Rightarrow> http_response" where
  "login X V r =
     (let returnTo = relativeReturnTo X (req_query r ''return_to'');
          failed = http_error 500 ''Could not start authentication'' in
      case randomValue (gw X) ''state'' 32 of None \<Rightarrow> failed
      | Some state \<Rightarrow>
      case randomValue (gw X) ''nonce'' 32 of None \<Rightarrow> failed
      | Some nonce \<Rightarrow>
      case sealTransaction X V \<lparr>tState = state, tNonce = nonce, tVerifier = GenerateVerifier X, tReturnTo = returnTo,
             tExpiresAt = unix (clock X 0 + 10 * minute)\<rparr> of None \<Rightarrow> failed
      | Some val \<Rightarrow> setCookie (transactionCookieName V) val (10 * minute)
             (http_redirect 302 (AuthCodeURL X state nonce (GenerateVerifier X))))"

subsection \<open>The current session\<close>

text \<open>The decision, and the errors as they are: no session, or a store that could not be read.\<close>

definition currentSession ::
  "gateway_world \<Rightarrow> gateway_server \<Rightarrow> http_request \<Rightarrow> time \<Rightarrow> (gateway_session \<times> string) gateway_io" where
  "currentSession X V r now = (\<lambda>s.
     case map_of (req_cookies r) (sessionCookieName V) of None \<Rightarrow> (Inl ErrNoSession, s)
     | Some val \<Rightarrow>
       case b64_decode val of None \<Rightarrow> (Inl ErrNoSession, s)
       | Some token \<Rightarrow>
         if length token \<noteq> 32 then (Inl ErrNoSession, s)
         else case Find (gw X) (gstore V) token now s of
             (Inl e, s') \<Rightarrow> (Inl (if e = ErrGatewaySessionNotFound then ErrNoSession else e), s')
           | (Inr session, s') \<Rightarrow> (Inr (session, token), s'))"

definition storeUnavailable :: http_response where
  "storeUnavailable = http_error 503 ''Sign-in is temporarily unavailable''"

datatype outcome = Respond http_response | Forward gateway_session

definition requireSession ::
  "gateway_world \<Rightarrow> gateway_server \<Rightarrow> http_request \<Rightarrow> gateway_db \<Rightarrow> outcome \<times> gateway_db" where
  "requireSession X V r s =
     (case currentSession X V r (clock X 0) s of
        (Inr (session, _), s') \<Rightarrow> (Forward session, s')
      | (Inl e, s') \<Rightarrow>
          (if e \<noteq> ErrNoSession then Respond storeUnavailable
           else if req_method r = ''GET'' \<or> req_method r = ''HEAD'' then
             (if map_of (req_cookies r) (sessionCookieName V) \<noteq> None
              then Respond (clearCookie (sessionCookieName V) (http_redirect 302 ''/auth/signed-out''))
              else Respond (http_redirect 302 (''/auth/login?return_to='' @ QueryEscape X (req_uri r))))
           else Respond (http_error 401 ''Authentication required''), s'))"

definition session_handler ::
  "gateway_world \<Rightarrow> gateway_server \<Rightarrow> http_request \<Rightarrow> gateway_db \<Rightarrow> (http_response + gateway_session) \<times> gateway_db" where
  "session_handler X V r s =
     (case currentSession X V r (clock X 0) s of
        (Inr (session, _), s') \<Rightarrow> (Inr session, s')
      | (Inl e, s') \<Rightarrow> (Inl (if e \<noteq> ErrNoSession then storeUnavailable else http_error 401 ''Authentication required''), s'))"

definition validation_handler ::
  "gateway_world \<Rightarrow> gateway_server \<Rightarrow> http_request \<Rightarrow> gateway_db \<Rightarrow> (http_response + gateway_session) \<times> gateway_db" where
  "validation_handler X V r s =
     (case currentSession X V r (clock X 0) s of
        (Inr (session, _), s') \<Rightarrow> (Inr session, s')
      | (Inl e, s') \<Rightarrow> (Inl (if e \<noteq> ErrNoSession then storeUnavailable else http_redirect 303 ''/auth/signed-out''), s'))"

subsection \<open>The callback\<close>

definition claims_complete :: "identityClaims \<Rightarrow> string \<Rightarrow> bool" where
  "claims_complete c nonce \<longleftrightarrow> icSubject c \<noteq> [] \<and> icProviderSessionID c \<noteq> [] \<and> icUsername c \<noteq> [] \<and> icEmail c \<noteq> [] \<and>
     icEmailVerified c \<and> (icRole c = ''developer'' \<or> icRole c = ''admin'') \<and> icNonce c = nonce"

text \<open>The part of \<open>callback\<close> that decides what the provider said: the ID token and its claims.\<close>

definition callback_claims ::
  "gateway_world \<Rightarrow> http_request \<Rightarrow> transaction \<Rightarrow> http_response + string \<times> identityClaims" where
  "callback_claims X r pending =
     (case Exchange X (req_query r ''code'') (tVerifier pending) of
        None \<Rightarrow> Inl (http_error 502 ''Authorization code exchange failed'')
      | Some token \<Rightarrow>
      if token = None \<or> token = Some [] then Inl (http_error 502 ''Authorization response omitted the ID token'')
      else case Verify X (the token) of
        None \<Rightarrow> Inl (http_error 401 ''ID token verification failed'')
      | Some payload \<Rightarrow>
      case identity_claims X payload of
        None \<Rightarrow> Inl (http_error 401 ''ID token identity is incomplete'')
      | Some c \<Rightarrow> if claims_complete c (tNonce pending) then Inr (the token, c)
          else Inl (http_error 401 ''ID token identity is incomplete''))"

text \<open>The part that replaces the browser's session: the previous one is revoked, the new one stored.\<close>

definition callback_session ::
  "gateway_world \<Rightarrow> gateway_server \<Rightarrow> http_request \<Rightarrow> transaction \<Rightarrow> string \<Rightarrow> identityClaims \<Rightarrow> gateway_db \<Rightarrow> http_response \<times> gateway_db" where
  "callback_session X V r pending rawIDToken c s =
     (let failed = http_error 500 ''Could not create application session'' in
      case rand_read (gw X) ''browser token'' 32 of None \<Rightarrow> (failed, s)
      | Some browserToken \<Rightarrow>
      case gateway_uuid (gw X) of None \<Rightarrow> (failed, s)
      | Some sessionID \<Rightarrow>
        (let (previous, s1) = currentSession X V r (clock X 1) s;
             (revoked, s2) = (case previous of Inl _ \<Rightarrow> (Inr (), s1)
               | Inr (_, previousToken) \<Rightarrow> RevokeToken (gw X) (gstore V) previousToken (clock X 2) s1) in
         case revoked of Inl _ \<Rightarrow> (http_error 503 ''Could not replace the previous application session'', s2)
         | Inr _ \<Rightarrow>
           (let now = clock X 3;
                session = \<lparr>gID = sessionID, gSubject = icSubject c, gProviderSessionID = icProviderSessionID c,
                  gIDToken = rawIDToken, gUsername = icUsername c, gEmail = icEmail c, gRole = icRole c,
                  gExpiresAt = now + SessionMaxAge V\<rparr> in
            case Create (gw X) (gstore V) session browserToken now s2 of
              (Inl _, s3) \<Rightarrow> (http_error 500 ''Could not persist application session'', s3)
            | (Inr _, s3) \<Rightarrow> (setCookie (sessionCookieName V) (b64_encode browserToken) (SessionMaxAge V)
                (http_redirect 303 (tReturnTo pending)), s3))))"

definition callback ::
  "gateway_world \<Rightarrow> gateway_server \<Rightarrow> http_request \<Rightarrow> gateway_db \<Rightarrow> http_response \<times> gateway_db" where
  "callback X V r s =
     (case map_of (req_cookies r) (transactionCookieName V) of
        None \<Rightarrow> (http_error 400 ''Authentication transaction is unavailable'', s)
      | Some val \<Rightarrow>
        map_prod (clearCookie (transactionCookieName V)) id
        (case openTransaction X V val of
           None \<Rightarrow> (http_error 400 ''Authentication transaction is invalid'', s)
         | Some pending \<Rightarrow>
           if tExpiresAt pending \<le> unix (clock X 0) \<or> tState pending \<noteq> req_query r ''state''
           then (http_error 400 ''Authentication transaction is invalid'', s)
           else if req_query r ''error'' \<noteq> [] then (http_redirect 303 ''/auth/signed-out'', s)
           else case callback_claims X r pending of
               Inl response \<Rightarrow> (response, s)
             | Inr (rawIDToken, c) \<Rightarrow> callback_session X V r pending rawIDToken c s))"


subsection \<open>Logout\<close>

definition same_origin :: "gateway_world \<Rightarrow> gateway_server \<Rightarrow> http_request \<Rightarrow> bool" where
  "same_origin X V r =
     (let origin = req_header r ''Origin'';
          originValue = (if origin = [] \<or> origin = ''null'' then req_header r ''Referer'' else origin) in
      (case url_Parse (pg (gw X)) originValue of None \<Rightarrow> False
       | Some u \<Rightarrow> url_scheme u = PublicScheme V \<and> url_host u = PublicHost V) \<or>
      req_header r ''Sec-Fetch-Site'' = ''same-origin'' \<and> req_host r = PublicHost V)"

definition endSessionURL :: "gateway_world \<Rightarrow> gateway_server \<Rightarrow> string \<Rightarrow> string" where
  "endSessionURL X V idToken = set_query X (endSessionEndpoint V)
     ([(''client_id'', clientID (gstore V))] @
      (if idToken \<noteq> [] then [(''id_token_hint'', idToken), (''post_logout_redirect_uri'', PostLogoutURL V)] else []))"

definition gateway_logout ::
  "gateway_world \<Rightarrow> gateway_server \<Rightarrow> http_request \<Rightarrow> gateway_db \<Rightarrow> http_response \<times> gateway_db" where
  "gateway_logout X V r s =
     (if \<not> same_origin X V r then (http_error 403 ''Cross-origin request denied'', s)
      else case currentSession X V r (clock X 0) s of
        (Inl e, s1) \<Rightarrow>
          (if e = ErrNoSession then clearCookie (sessionCookieName V) (http_redirect 303
             (set_query X (resolve X (issuer (gstore V)) ''/logout'') [(''client_id'', clientID (gstore V))]))
           else storeUnavailable, s1)
      | (Inr (session, browserToken), s1) \<Rightarrow>
          (case RevokeToken (gw X) (gstore V) browserToken (clock X 1) s1 of
             (Inl _, s2) \<Rightarrow> (http_error 500 ''Could not revoke application session'', s2)
           | (Inr _, s2) \<Rightarrow> (clearCookie (sessionCookieName V) (http_redirect 303 (endSessionURL X V (gIDToken session))), s2)))"

definition token_char :: "char \<Rightarrow> bool" where
  "token_char c \<longleftrightarrow> CHR ''a'' \<le> c \<and> c \<le> CHR ''z'' \<or> CHR ''A'' \<le> c \<and> c \<le> CHR ''Z'' \<or> CHR ''0'' \<le> c \<and> c \<le> CHR ''9'' \<or>
     c = CHR ''-'' \<or> c = CHR ''_'' \<or> c = CHR ''.''"

definition validProviderSessionID :: "string \<Rightarrow> bool" where
  "validProviderSessionID sid \<longleftrightarrow> sid \<noteq> [] \<and> length sid \<le> 128 \<and> list_all token_char sid"

definition frontchannel_page :: http_response where
  "frontchannel_page = http_error 200 ''<!doctype html><title>Signed out</title>''"

definition frontchannelLogout ::
  "gateway_world \<Rightarrow> gateway_server \<Rightarrow> http_request \<Rightarrow> gateway_db \<Rightarrow> http_response \<times> gateway_db" where
  "frontchannelLogout X V r s =
     (let sid = req_query r ''sid'' in
      if req_query r ''iss'' \<noteq> issuer (gstore V) \<or> \<not> validProviderSessionID sid then (frontchannel_page, s)
      else let (current, s1) = currentSession X V r (clock X 0) s in
        case RevokeFrontchannelSession (gw X) (gstore V) sid (clock X 1) s1 of
          (Inl _, s2) \<Rightarrow> (http_error 500 ''Could not revoke application session'', s2)
        | (Inr _, s2) \<Rightarrow>
            ((case current of Inr (session, _) \<Rightarrow>
                if sid = gProviderSessionID session then clearCookie (sessionCookieName V) frontchannel_page else frontchannel_page
              | Inl _ \<Rightarrow> frontchannel_page), s2))"

definition logoutEvent :: string where
  "logoutEvent = ''http://schemas.openid.net/event/backchannel-logout''"

definition validLogoutEvent :: "gateway_world \<Rightarrow> (string \<times> string) list \<Rightarrow> bool" where
  "validLogoutEvent X events = (case map_of events logoutEvent of None \<Rightarrow> False
     | Some raw \<Rightarrow> object_keys X raw = Some (Some []))"

text \<open>\<open>time.Unix(sec, 0)\<close>, whose internal seconds wrap, and \<open>Time.Sub\<close>, which saturates.\<close>

definition unix_time :: "int \<Rightarrow> time" where
  "unix_time sec = (wrap64 (sec + 62135596800) - 62135596800) * second"

definition time_sub :: "time \<Rightarrow> time \<Rightarrow> duration" where
  "time_sub t u = max (- (2 ^ 63)) (min (2 ^ 63 - 1) (t - u))"

definition logout_claims_ok :: "logoutClaims \<Rightarrow> bool" where
  "logout_claims_ok c \<longleftrightarrow> lcProviderSessionID c \<noteq> [] \<and> lcTokenID c \<noteq> [] \<and> lcIssuedAt c \<noteq> 0 \<and> lcExpiresAt c \<noteq> 0 \<and>
     lcNonce c = None"

definition logout_timely :: "gateway_world \<Rightarrow> logoutClaims \<Rightarrow> bool" where
  "logout_timely X c =
     (let issuedAgo = time_sub (clock X 0) (unix_time (lcIssuedAt c)) in
      - 5 * second \<le> issuedAgo \<and> issuedAgo \<le> 5 * minute \<and> clock X 1 \<le> unix_time (lcExpiresAt c))"

definition backchannelLogout ::
  "gateway_world \<Rightarrow> gateway_server \<Rightarrow> http_request \<Rightarrow> gateway_db \<Rightarrow> http_response \<times> gateway_db" where
  "backchannelLogout X V r s =
     (case req_media_type r of None \<Rightarrow> (http_error 415 ''Unsupported media type'', s)
      | Some contentType \<Rightarrow>
      if \<not> EqualFold (pg (gw X)) contentType ''application/x-www-form-urlencoded''
      then (http_error 415 ''Unsupported media type'', s)
      else case req_logout_tokens r of
        Some [raw] \<Rightarrow>
        (case Verify X raw of None \<Rightarrow> (http_error 400 ''Invalid logout token'', s)
         | Some payload \<Rightarrow>
         case logout_claims X payload of None \<Rightarrow> (http_error 400 ''Invalid logout token claims'', s)
         | Some c \<Rightarrow>
           if \<not> logout_claims_ok c then (http_error 400 ''Invalid logout token claims'', s)
           else if \<not> validLogoutEvent X (lcEvents c) \<or> \<not> logout_timely X c
             then (http_error 400 ''Invalid logout token event'', s)
           else case RevokeProviderSession (gw X) (gstore V) (lcProviderSessionID c) (lcTokenID c)
                       (unix_time (lcExpiresAt c)) (clock X 2) s of
               (Inl e, s') \<Rightarrow> (if e = ErrLogoutTokenReplayed then http_error 400 ''Logout token was rejected''
                  else http_error 500 ''Could not record logout'', s')
             | (Inr _, s') \<Rightarrow> (http_error 200 [], s'))
      | _ \<Rightarrow> (http_error 400 ''A single logout_token is required'', s))"

definition providerLogoutComplete :: "gateway_world \<Rightarrow> gateway_server \<Rightarrow> http_response" where
  "providerLogoutComplete X V = http_redirect 303 (resolve X (issuer (gstore V)) ''/oauth/logout/complete'')"

definition healthz :: "gateway_world \<Rightarrow> gateway_server \<Rightarrow> gateway_db \<Rightarrow> http_response \<times> gateway_db" where
  "healthz X V s = (case Ping (gw X) (Some (gstore V)) s of
     (Inl _, s') \<Rightarrow> (http_error 503 (''session store unavailable'' @ [CHR 0x0A]), s')
   | (Inr _, s') \<Rightarrow> (http_error 200 ''ok'', s'))"

subsection \<open>What the upstream receives\<close>

definition header_get :: "headers \<Rightarrow> string \<Rightarrow> string" where
  "header_get h n = (case map_of h n of Some (v # vs) \<Rightarrow> v | _ \<Rightarrow> [])"

definition header_del :: "headers \<Rightarrow> string \<Rightarrow> headers" where
  "header_del h n = filter (\<lambda>(k, _). k \<noteq> n) h"

definition header_set :: "headers \<Rightarrow> string \<Rightarrow> string \<Rightarrow> headers" where
  "header_set h n v = header_del h n @ [(n, [v])]"

definition normalized_name :: "env \<Rightarrow> string \<Rightarrow> string" where
  "normalized_name E name = ToLower E (map (\<lambda>c. if c = CHR ''_'' then CHR ''-'' else c) name)"

definition client_asserted :: "env \<Rightarrow> string \<Rightarrow> bool" where
  "client_asserted E name \<longleftrightarrow> normalized_name E name \<in> {''authorization'', ''forwarded'', ''x-real-ip''} \<or>
     HasPrefix (normalized_name E name) ''x-forwarded-''"

definition sanitizeProxyHeaders :: "env \<Rightarrow> gateway_server \<Rightarrow> headers \<Rightarrow> headers" where
  "sanitizeProxyHeaders E V h =
     header_set (header_set (filter (\<lambda>(n, _). \<not> client_asserted E n) h) ''X-Forwarded-Host'' (PublicHost V))
       ''X-Forwarded-Proto'' (PublicScheme V)"

definition removeCookie :: "string \<Rightarrow> (string \<times> string) list \<Rightarrow> (string \<times> string) list" where
  "removeCookie name cookies = filter (\<lambda>(n, _). n \<noteq> name) cookies"

text \<open>The headers and cookies of the outgoing request, and the session of its context.\<close>

definition assertUpstreamIdentity ::
  "env \<Rightarrow> gateway_server \<Rightarrow> gateway_session option \<Rightarrow> headers \<times> (string \<times> string) list \<Rightarrow> headers \<times> (string \<times> string) list" where
  "assertUpstreamIdentity E V session out =
     (let (h, cookies) = out;
          forwardedFor = header_get h ''X-Forwarded-For'';
          h = sanitizeProxyHeaders E V h;
          h = (if forwardedFor \<noteq> [] then header_set h ''X-Forwarded-For'' forwardedFor else h);
          cookies = removeCookie (configTransactionCookieName (InsecureCookie V))
            (removeCookie (configCookieName (InsecureCookie V)) cookies);
          h = (case session of None \<Rightarrow> h
               | Some x \<Rightarrow> header_set (header_set (header_set (header_set (header_set h
                   ''X-Forwarded-User'' (gUsername x)) ''X-Forwarded-Preferred-Username'' (gUsername x))
                   ''X-Forwarded-Email'' (gEmail x)) ''X-Forwarded-Role'' (gRole x)) ''X-Forwarded-Subject'' (gSubject x))
      in (h, cookies))"

definition denyProxiedCaching :: "headers \<Rightarrow> headers" where
  "denyProxiedCaching h = header_del (header_del (header_del (header_set h ''Cache-Control'' ''no-store'') ''Expires'') ''Etag'') ''Last-Modified''"

subsection \<open>Sessions at the door\<close>

definition session_token :: "gateway_server \<Rightarrow> http_request \<Rightarrow> string option" where
  "session_token V r = (case map_of (req_cookies r) (sessionCookieName V) of None \<Rightarrow> None
     | Some val \<Rightarrow> (case b64_decode val of None \<Rightarrow> None | Some token \<Rightarrow> if length token = 32 then Some token else None))"

lemma currentSession_token:
  "currentSession X V r now s = (case session_token V r of None \<Rightarrow> (Inl ErrNoSession, s)
     | Some token \<Rightarrow> (case Find (gw X) (gstore V) token now s of
         (Inl e, s') \<Rightarrow> (Inl (if e = ErrGatewaySessionNotFound then ErrNoSession else e), s')
       | (Inr session, s') \<Rightarrow> (Inr (session, token), s')))"
  by (simp add: currentSession_def session_token_def split: option.split)

lemma Find_state [simp]: "snd (Find W S token now s) = s"
  by (auto simp: Find_def bindS_def query_def stmt_def retS_def failS_def split: option.splits)

lemma Find_same: "Find W S token now s = (x, s') \<Longrightarrow> s' = s"
  by (metis Find_state snd_conv)

lemma currentSession_state [simp]: "snd (currentSession X V r now s) = s"
  by (auto simp: currentSession_token dest: Find_same split: option.splits prod.splits sum.splits)

text \<open>The session a cookie stands for: its row is in force and decrypts.\<close>

definition admitted :: "gateway_world \<Rightarrow> gateway_server \<Rightarrow> http_request \<Rightarrow> time \<Rightarrow> gateway_db \<Rightarrow> gateway_session option" where
  "admitted X V r now s = (case session_token V r of None \<Rightarrow> None
     | Some token \<Rightarrow> (case find (in_force (gstore V) (sha256 (pg (gw X)) token) now) (gw_sessions s) of None \<Rightarrow> None
       | Some row \<Rightarrow> decrypt_session (gw X) (gstore V) row))"

text \<open>The proxied application is reached exactly by requests whose cookie names a session of this application
  that is neither revoked nor expired. Without one the request is turned away; when the session store cannot be
  read the request is refused as well, but the browser keeps its cookie. The check never changes the database.\<close>

theorem gateway_admits_live_sessions:
  "requireSession X V r s =
     (if session_token V r \<noteq> None \<and> fault (pg (gw X)) ''read gateway session'' then Respond storeUnavailable
      else case admitted X V r (clock X 0) s of Some x \<Rightarrow> Forward x
      | None \<Rightarrow> Respond (if req_method r \<noteq> ''GET'' \<and> req_method r \<noteq> ''HEAD'' then http_error 401 ''Authentication required''
          else if map_of (req_cookies r) (sessionCookieName V) = None
            then http_redirect 302 (''/auth/login?return_to='' @ QueryEscape X (req_uri r))
          else clearCookie (sessionCookieName V) (http_redirect 302 ''/auth/signed-out'')), s)"
proof (cases "session_token V r")
  case None
  then show ?thesis by (simp add: requireSession_def currentSession_token admitted_def)
next
  case (Some token)
  show ?thesis
  proof (cases "fault (pg (gw X)) ''read gateway session''")
    case True
    with Some show ?thesis
      by (simp add: requireSession_def currentSession_token Find_def bindS_def query_def stmt_def)
  next
    case False
    with Some show ?thesis
      by (auto simp: requireSession_def currentSession_token admitted_def Find_def bindS_def query_def stmt_def
          failS_def retS_def split: option.splits)
  qed
qed

subsection \<open>Signing in\<close>

lemma map_prod_snd [simp]: "snd (map_prod f id p) = snd p"
  by (cases p) simp

lemma snd_case_pair: "snd (case p of (x, y) \<Rightarrow> f x y) = (case p of (x, y) \<Rightarrow> snd (f x y))"
  by (cases p) simp

text \<open>What the callback does to the database: nothing, or revoke the browser's session and store a new one.\<close>

lemma callback_session_out:
  assumes "pg_time (clock X 3) < T"
  shows "stays_out k T s (snd (callback_session X V r pending raw c s))"
proof -
  obtain previous where previous: "currentSession X V r (clock X 1) s = (previous, s)"
    by (metis currentSession_state prod.collapse)
  define step where "step = (case previous of Inl _ \<Rightarrow> (Inr (), s)
     | Inr (_, previousToken) \<Rightarrow> RevokeToken (gw X) (gstore V) previousToken (clock X 2) s)"
  have revoke: "stays_out k T s (snd step)"
    using stays_out_statements(5) [unfolded obeys_def, THEN spec]
    by (auto simp: step_def so.R_refl split: sum.split)
  have create: "stays_out k T s' (snd (Create (gw X) (gstore V) session token (clock X 3) s'))" for session token s'
    using Create_keeps_out [OF assms, unfolded obeys_def, THEN spec] .
  show ?thesis
  proof (cases "rand_read (gw X) ''browser token'' 32 = None \<or> gateway_uuid (gw X) = None")
    case True
    then show ?thesis by (auto simp: callback_session_def so.R_refl Let_def split: option.splits)
  next
    case False
    then obtain token u where "rand_read (gw X) ''browser token'' 32 = Some token" "gateway_uuid (gw X) = Some u" by auto
    then have "snd (callback_session X V r pending raw c s) = (case step of (Inl _, s2) \<Rightarrow> s2
       | (Inr _, s2) \<Rightarrow> snd (Create (gw X) (gstore V) \<lparr>gID = u, gSubject = icSubject c, gProviderSessionID = icProviderSessionID c,
            gIDToken = raw, gUsername = icUsername c, gEmail = icEmail c, gRole = icRole c,
            gExpiresAt = clock X 3 + SessionMaxAge V\<rparr> token (clock X 3) s2))"
      using previous by (simp add: callback_session_def Let_def step_def [symmetric] split: prod.split sum.split)
    with revoke create show ?thesis
      by (cases step; cases "fst step") (auto intro: so.R_trans)
  qed
qed


lemma callback_out:
  assumes "\<And>val pending. map_of (req_cookies r) (transactionCookieName V) = Some val \<Longrightarrow>
      openTransaction X V val = Some pending \<Longrightarrow> unix (clock X 0) < tExpiresAt pending \<Longrightarrow> pg_time (clock X 3) < T"
  shows "stays_out k T s (snd (callback X V r s))"
proof (cases "map_of (req_cookies r) (transactionCookieName V)")
  case None
  then show ?thesis by (simp add: callback_def so.R_refl)
next
  case (Some val)
  show ?thesis
  proof (cases "openTransaction X V val")
    case None
    with Some show ?thesis by (simp add: callback_def so.R_refl)
  next
    case pending: (Some pending)
    show ?thesis
    proof (cases "unix (clock X 0) < tExpiresAt pending")
      case True
      with assms [OF Some pending] Some pending show ?thesis
        by (simp add: callback_def so.R_refl callback_session_out split: sum.split)
    next
      case False
      with Some pending show ?thesis by (simp add: callback_def so.R_refl)
    qed
  qed
qed

lemma openTransaction_seal:
  assumes "sealTransaction X0 V t = Some val" "cipher_opens (transactions V)" "random_lengths (gw X0)"
    "unmarshal_transaction X (marshal_transaction X0 t) = Some t"
  shows "openTransaction X V val = Some t"
  using assms by (auto simp: sealTransaction_def openTransaction_def b64_roundtrip cipher_opens_def random_lengths_def Let_def)

lemma login_cookie:
  assumes "(name, val, age) \<in> set (rs_cookies (login X V r))"
  shows "name = transactionCookieName V \<and> age = 600 \<and> (\<exists>t. sealTransaction X V t = Some val \<and>
    tExpiresAt t = unix (clock X 0 + 10 * minute) \<and> tReturnTo t = relativeReturnTo X (req_query r ''return_to'') \<and>
    randomValue (gw X) ''state'' 32 = Some (tState t) \<and> randomValue (gw X) ''nonce'' 32 = Some (tNonce t) \<and>
    tVerifier t = GenerateVerifier X \<and>
    login X V r = setCookie name val (10 * minute) (http_redirect 302 (AuthCodeURL X (tState t) (tNonce t) (tVerifier t))))"
  using assms by (auto simp: login_def Let_def setCookie_def with_cookie_def http_error_def http_redirect_def whole_seconds_def
      duration_units split: option.splits)

lemma unix_less: "unix t < unix u \<Longrightarrow> t < u"
  unfolding unix_def second_def by linarith

text \<open>C8. A sign-in that was started before a logout of its provider session never survives it: if the logout
  reached the gateway, over either channel, after the browser was sent to the provider, then the callback leaves no
  usable session of that provider session, whatever the gateways sharing the database did in between. The code exchange is given
  nine minutes; the tombstone's twenty minutes cover it together with the ten minutes of the transaction cookie.\<close>

theorem sign_in_never_outlives_logout:
  assumes started: "(name, val, age) \<in> set (rs_cookies (login X0 V r0))"
    and laws: "cipher_opens (transactions V)" "random_lengths (gw X0)"
      "\<And>t. unmarshal_transaction X (marshal_transaction X0 t) = Some t"
    and logout: "RevokeProviderSession W S sid jti e t1 s = (Inr (), s1) \<or> RevokeFrontchannelSession W S sid t1 s = (Inr (), s1)"
    and store: "clientID S = clientID (gstore V)" "issuer S = issuer (gstore V)" "tombstoneLifetime S = 20 * minute"
    and order: "clock X0 0 \<le> t1" "clock X 3 \<le> clock X 0 + 9 * minute"
    and run: "gateway_run (\<lambda>t. pg_time t < pg_time (t1 + 20 * minute)) s1 s2"
    and cookie: "map_of (req_cookies r) name = Some val"
  shows "\<forall>W' token t x s3. Find W' (gstore V) token t (snd (callback X V r s2)) = (Inr x, s3) \<longrightarrow> gProviderSessionID x \<noteq> sid"
proof -
  let ?T = "pg_time (t1 + 20 * minute)"
  from login_cookie [OF started] obtain tr where tr: "name = transactionCookieName V"
    "sealTransaction X0 V tr = Some val" "tExpiresAt tr = unix (clock X0 0 + 10 * minute)" by blast
  have "openTransaction X V val = Some tr"
    by (rule openTransaction_seal [OF tr(2) laws])
  then have "pg_time (clock X 3) < ?T" if "map_of (req_cookies r) (transactionCookieName V) = Some v"
    "openTransaction X V v = Some p" "unix (clock X 0) < tExpiresAt p" for v p
  proof -
    from that \<open>openTransaction X V val = Some tr\<close> cookie tr have "clock X 0 < clock X0 0 + 10 * minute"
      by (auto intro: unix_less)
    with order show ?thesis by (intro pg_time_later) (simp add: duration_units)
  qed
  then have "stays_out (clientID S, issuer S, sid) ?T s2 (snd (callback X V r s2))"
    by (rule callback_out)
  with gateway_run_out [OF run] logout_leaves_out [OF logout] store
  have "logged_out (clientID (gstore V), issuer (gstore V), sid) ?T (snd (callback X V r s2))"
    by (simp add: stays_out_def)
  from Find_not_logged_out [OF this] show ?thesis by blast
qed


text \<open>A cookie that was revoked stays revoked when another one is stored.\<close>

definition spent_cookie :: "string \<Rightarrow> string \<Rightarrow> gateway_db \<Rightarrow> bool" where
  "spent_cookie client h s \<longleftrightarrow> (\<forall>row \<in> set (gw_sessions s). gs_client row = client \<and> gs_token_hash row = h \<longrightarrow> gs_revoked row \<noteq> None)"

definition stays_spent :: "string \<Rightarrow> string \<Rightarrow> gateway_db \<Rightarrow> gateway_db \<Rightarrow> bool" where
  "stays_spent client h s s' \<longleftrightarrow> (spent_cookie client h s \<longrightarrow> spent_cookie client h s')"

interpretation sc: contract "stays_spent client h" for client h
  by unfold_locales (auto simp: stays_spent_def)

lemma put_spent:
  "put_logout_tokens ts x s = Inr (y, s') \<Longrightarrow> stays_spent client h s s'"
  "put_tombstones us x s = Inr (y, s') \<Longrightarrow> stays_spent client h s s'"
  "put_gw_sessions rs x s = Inr (y, s') \<Longrightarrow>
     (\<And>row. row \<in> set rs \<Longrightarrow> gs_token_hash row = h \<Longrightarrow> row \<in> set (gw_sessions s)) \<Longrightarrow> stays_spent client h s s'"
  by (auto simp: put_gateway_defs stays_spent_def spent_cookie_def split: if_splits)

lemma Create_keeps_spent:
  assumes "sha256 (pg W) token \<noteq> h"
  shows "obeys (stays_spent client h) (Create W S session token now)"
  unfolding Create_def lockProviderSession_def deleteExpiredLogoutTombstones_def removeEndedSessions_def
    deleteExpiredLogoutTokens_def Let_def
  by (intro sc.keeps sc.keeps_stmt sc.keeps_random
      | erule put_spent(1) | erule put_spent(2) | erule put_spent(3), use assms in auto)+

lemma RevokeToken_spends:
  assumes "RevokeToken W S token now s = (Inr (), s')"
  shows "spent_cookie (clientID S) (sha256 (pg W) token) s'"
proof -
  from assms have rows: "gw_sessions s' = upd (\<lambda>r. gs_client r = clientID S \<and> gs_token_hash r = sha256 (pg W) token \<and> gs_revoked r = None)
       (gs_revoked_update (\<lambda>_. Some (pg_time now))) (gw_sessions s)"
    by (auto simp: RevokeToken_def io_Inr put_gw_sessions_def split: if_splits)
  have "\<not> (gs_client row = clientID S \<and> gs_token_hash row = sha256 (pg W) token \<and> gs_revoked row = None)"
    if "row \<in> set (gw_sessions s')" for row
    using that unfolding rows by (rule upd_clears) simp_all
  then show ?thesis by (auto simp: spent_cookie_def)
qed

lemma spent_not_admitted:
  assumes "spent_cookie (clientID (gstore V)) (sha256 (pg (gw X)) token) s" "session_token V r = Some token"
  shows "admitted X V r now s = None"
proof -
  have "find (in_force (gstore V) (sha256 (pg (gw X)) token) now) (gw_sessions s) = None"
    using assms(1) by (auto simp: find_None_iff in_force_def spent_cookie_def)
  with assms(2) show ?thesis by (simp add: admitted_def)
qed

lemma cookie_names_differ: "configCookieName b \<noteq> configTransactionCookieName b'"
  by (simp add: configCookieName_def configTransactionCookieName_def TrimPrefix_def HasPrefix_def)

lemmas response_defs = http_error_def http_redirect_def setCookie_def clearCookie_def with_cookie_def

lemma callback_session_cookie:
  assumes "callback_session X V r pending raw c s = (resp, s')" "(name, val, age) \<in> set (rs_cookies resp)"
  shows "\<exists>token u s2. name = sessionCookieName V \<and> val = b64_encode token \<and> rand_read (gw X) ''browser token'' 32 = Some token \<and>
    gateway_uuid (gw X) = Some u \<and> rs_location resp = Some (tReturnTo pending) \<and>
    Create (gw X) (gstore V) \<lparr>gID = u, gSubject = icSubject c, gProviderSessionID = icProviderSessionID c,
      gIDToken = raw, gUsername = icUsername c, gEmail = icEmail c, gRole = icRole c,
      gExpiresAt = clock X 3 + SessionMaxAge V\<rparr> token (clock X 3) s2 = (Inr (), s') \<and>
    (\<forall>x old. fst (currentSession X V r (clock X 1) s) = Inr (x, old) \<longrightarrow>
       RevokeToken (gw X) (gstore V) old (clock X 2) s = (Inr (), s2))"
proof -
  obtain previous where previous: "currentSession X V r (clock X 1) s = (previous, s)"
    by (metis currentSession_state prod.collapse)
  define step where "step = (case previous of Inl _ \<Rightarrow> (Inr (), s)
     | Inr (_, previousToken) \<Rightarrow> RevokeToken (gw X) (gstore V) previousToken (clock X 2) s)"
  from assms previous obtain token u s2 where
    "rand_read (gw X) ''browser token'' 32 = Some token" "gateway_uuid (gw X) = Some u" "step = (Inr (), s2)"
    "Create (gw X) (gstore V) \<lparr>gID = u, gSubject = icSubject c, gProviderSessionID = icProviderSessionID c,
      gIDToken = raw, gUsername = icUsername c, gEmail = icEmail c, gRole = icRole c,
      gExpiresAt = clock X 3 + SessionMaxAge V\<rparr> token (clock X 3) s2 = (Inr (), s')"
    "resp = setCookie (sessionCookieName V) (b64_encode token) (SessionMaxAge V) (http_redirect 303 (tReturnTo pending))"
    by (auto simp: callback_session_def Let_def step_def [symmetric] http_error_def split: option.splits prod.splits sum.splits)
  with assms(2) previous show ?thesis
    by (intro exI [of _ token] exI [of _ u] exI [of _ s2]) (auto simp: response_defs step_def)
qed


lemma callback_claims_Inr:
  assumes "callback_claims X r pending = Inr (raw, c)"
  shows "Exchange X (req_query r ''code'') (tVerifier pending) = Some (Some raw) \<and> raw \<noteq> [] \<and>
    (\<exists>payload. Verify X raw = Some payload \<and> identity_claims X payload = Some c) \<and> claims_complete c (tNonce pending)"
  using assms by (auto simp: callback_claims_def split: option.splits if_splits)

lemma callback_claims_Inl_cookies: "callback_claims X r pending = Inl resp \<Longrightarrow> rs_cookies resp = []"
  by (auto simp: callback_claims_def http_error_def split: option.splits if_splits)

lemma map_prod_Pair: "map_prod f id p = (a, b) \<longleftrightarrow> (\<exists>x. p = (x, b) \<and> a = f x)"
  by (cases p) auto

lemma callback_cookie:
  assumes "callback X V r s = (resp, s')" "(sessionCookieName V, val, age) \<in> set (rs_cookies resp)"
  shows "\<exists>cookie pending raw c resp'. map_of (req_cookies r) (transactionCookieName V) = Some cookie \<and>
    openTransaction X V cookie = Some pending \<and> unix (clock X 0) < tExpiresAt pending \<and>
    tState pending = req_query r ''state'' \<and> callback_claims X r pending = Inr (raw, c) \<and>
    callback_session X V r pending raw c s = (resp', s') \<and> resp = clearCookie (transactionCookieName V) resp' \<and>
    (sessionCookieName V, val, age) \<in> set (rs_cookies resp')"
  using assms cookie_names_differ [of "InsecureCookie V" "InsecureCookie V"]
  by (auto simp: callback_def map_prod_Pair http_error_def http_redirect_def clearCookie_def with_cookie_def
      dest: callback_claims_Inl_cookies split: option.splits if_splits sum.splits prod.splits)

text \<open>C9. The gateway sets a session cookie only at the end of a sign-in it started itself: the transaction cookie opens
  and has not expired, the state is its state, the code was exchanged with its verifier, and the verified ID
  token is complete and carries its nonce. That cookie then opens the application with exactly the token's
  identity until the session's maximal age, and the session the browser had before is gone.\<close>

theorem gateway_sign_in_sound:
  assumes callback: "callback X V r s = (resp, s')" and set: "(sessionCookieName V, val, age) \<in> set (rs_cookies resp)"
    and laws: "cipher_opens (aead_of (gstore V))" "random_lengths (gw X)"
      "\<And>u. gateway_uuid (gw X) = Some u \<Longrightarrow> uuid_in (pg (gw X)) u = Some u"
    and same: "sha256 (pg (gw X')) = sha256 (pg (gw X))" "marshal_strings (gw X') = marshal_strings (gw X)"
    and up: "\<not> fault (pg (gw X')) ''read gateway session''"
  shows "\<exists>cookie pending raw payload c session.
    map_of (req_cookies r) (transactionCookieName V) = Some cookie \<and> openTransaction X V cookie = Some pending \<and>
    unix (clock X 0) < tExpiresAt pending \<and> tState pending = req_query r ''state'' \<and>
    Exchange X (req_query r ''code'') (tVerifier pending) = Some (Some raw) \<and> Verify X raw = Some payload \<and>
    identity_claims X payload = Some c \<and> claims_complete c (tNonce pending) \<and> rs_location resp = Some (tReturnTo pending) \<and>
    gSubject session = icSubject c \<and> gUsername session = icUsername c \<and> gEmail session = icEmail c \<and> gRole session = icRole c \<and>
    (\<forall>r'. map_of (req_cookies r') (sessionCookieName V) = Some val \<and>
       pg_time (clock X' 0) < pg_time (clock X 3 + SessionMaxAge V) \<longrightarrow> fst (requireSession X' V r' s') = Forward session) \<and>
    (\<forall>x old t. fst (currentSession X V r (clock X 1) s) = Inr (x, old) \<and>
       (\<forall>token. val = b64_encode token \<longrightarrow> sha256 (pg (gw X)) token \<noteq> sha256 (pg (gw X)) old) \<longrightarrow> admitted X' V r t s' = None)"
proof -
  from callback_cookie [OF callback set] obtain cookie pending raw c resp' where
    cookie: "map_of (req_cookies r) (transactionCookieName V) = Some cookie" "openTransaction X V cookie = Some pending"
      "unix (clock X 0) < tExpiresAt pending" "tState pending = req_query r ''state''"
    and claims: "callback_claims X r pending = Inr (raw, c)"
    and cs: "callback_session X V r pending raw c s = (resp', s')" "(sessionCookieName V, val, age) \<in> set (rs_cookies resp')"
    and resp: "resp = clearCookie (transactionCookieName V) resp'" by blast
  from callback_session_cookie [OF cs] obtain token u s2 where
    val: "val = b64_encode token" "rand_read (gw X) ''browser token'' 32 = Some token" "gateway_uuid (gw X) = Some u"
      "rs_location resp' = Some (tReturnTo pending)"
    and create: "Create (gw X) (gstore V) \<lparr>gID = u, gSubject = icSubject c, gProviderSessionID = icProviderSessionID c,
      gIDToken = raw, gUsername = icUsername c, gEmail = icEmail c, gRole = icRole c,
      gExpiresAt = clock X 3 + SessionMaxAge V\<rparr> token (clock X 3) s2 = (Inr (), s')"
    and old: "\<forall>x old. fst (currentSession X V r (clock X 1) s) = Inr (x, old) \<longrightarrow>
       RevokeToken (gw X) (gstore V) old (clock X 2) s = (Inr (), s2)" by blast
  let ?session = "\<lparr>gID = u, gSubject = icSubject c, gProviderSessionID = icProviderSessionID c,
      gIDToken = raw, gUsername = icUsername c, gEmail = icEmail c, gRole = icRole c,
      gExpiresAt = pg_time (clock X 3 + SessionMaxAge V)\<rparr>"
  have "length token = 32" using val(2) laws(2) by (simp add: random_lengths_def)
  then have opened: "fst (requireSession X' V r' s') = Forward ?session"
    if "map_of (req_cookies r') (sessionCookieName V) = Some val" "pg_time (clock X' 0) < pg_time (clock X 3 + SessionMaxAge V)" for r'
    using that val(1) stored_session_found [OF create _ laws(1,2) same up, of "clock X' 0"] laws(3) [OF val(3)]
    by (simp add: requireSession_def currentSession_def b64_roundtrip)
  have replaced: "admitted X' V r t s' = None"
    if "fst (currentSession X V r (clock X 1) s) = Inr (x, previous)" "sha256 (pg (gw X)) token \<noteq> sha256 (pg (gw X)) previous" for x previous t
  proof (rule spent_not_admitted)
    from RevokeToken_spends that(1) old have "spent_cookie (clientID (gstore V)) (sha256 (pg (gw X)) previous) s2" by blast
    with obeysD [OF Create_keeps_spent [OF that(2)] create] same show "spent_cookie (clientID (gstore V)) (sha256 (pg (gw X')) previous) s'"
      by (simp add: stays_spent_def)
    from that(1) show "session_token V r = Some previous"
      by (auto simp: currentSession_token split: option.splits prod.splits sum.splits)
  qed
  from callback_claims_Inr [OF claims] obtain payload where
    "Exchange X (req_query r ''code'') (tVerifier pending) = Some (Some raw)" "Verify X raw = Some payload"
    "identity_claims X payload = Some c" "claims_complete c (tNonce pending)" by blast
  with cookie val(1,4) resp opened replaced show ?thesis
    by (intro exI [of _ cookie] exI [of _ pending] exI [of _ raw] exI [of _ payload] exI [of _ c] exI [of _ ?session])
      (auto simp: clearCookie_def with_cookie_def)
qed


subsection \<open>Back-channel logout\<close>

lemma bindS_Inl: "bindS m f s = (Inl e, s') \<longleftrightarrow>
    m s = (Inl e, s') \<or> (\<exists>x t. m s = (Inr x, t) \<and> f x t = (Inl e, s'))"
  by (auto simp: bindS_def split: prod.splits sum.splits)

lemma stmt_Inl: "stmt E l f s = (Inl e, s') \<Longrightarrow> \<exists>c. e = DbError l c"
  by (auto simp: stmt_def split: sum.splits if_splits)

lemma replayed_cases: "replayed (DbError l c) = ErrLogoutTokenReplayed \<or> replayed (DbError l c) = DbError l c"
  by (cases c) auto

lemma RevokeProviderSession_errors:
  assumes "RevokeProviderSession W S sid jti expires now s = (Inl e, s')" "sid \<noteq> []"
  shows "e = ErrLogoutTokenReplayed \<or> (\<exists>l c. e = DbError l c)"
proof -
  have "e = ErrLogoutTokenReplayed \<or> (\<exists>l c. e = DbError l c)" if "recordLogoutToken W S jti expires t = (Inl e, t')" for t t'
    using that replayed_cases by (fastforce simp: recordLogoutToken_def dest: stmt_Inl split: prod.splits sum.splits)
  with assms show ?thesis
    by (auto simp: RevokeProviderSession_def tx_def bindS_Inl lockProviderSession_def recordLogoutTombstone_def query_def
        deleteExpiredLogoutTombstones_def deleteExpiredLogoutTokens_def revokeProviderRows_def guardS_Inr guardS_def retS_def
        dest: stmt_Inl split: if_splits prod.splits sum.splits)
qed

definition logout_presented :: "gateway_world \<Rightarrow> http_request \<Rightarrow> logoutClaims option" where
  "logout_presented X r = (case (req_media_type r, req_logout_tokens r) of
     (Some contentType, Some [raw]) \<Rightarrow>
       if EqualFold (pg (gw X)) contentType ''application/x-www-form-urlencoded'' then
         (case Verify X raw of None \<Rightarrow> None | Some payload \<Rightarrow>
          (case logout_claims X payload of None \<Rightarrow> None | Some c \<Rightarrow>
             if logout_claims_ok c \<and> validLogoutEvent X (lcEvents c) \<and> logout_timely X c then Some c else None))
       else None
   | _ \<Rightarrow> None)"

text \<open>C34. A back-channel logout answers 200 exactly when a single verified token with a session, an identifier, no nonce,
  the logout event and a current time was presented and its logout was stored; then no session of that
  provider session is in force any more. Every other answer is an error and leaves the database as it was; a token
  that was already accepted is the provider's error, a store that fails the gateway's.\<close>

theorem backchannel_logout_contract:
  assumes "backchannelLogout X V r s = (resp, s')"
  shows "(rs_status resp = 200 \<longleftrightarrow> (\<exists>c. logout_presented X r = Some c \<and>
       RevokeProviderSession (gw X) (gstore V) (lcProviderSessionID c) (lcTokenID c) (unix_time (lcExpiresAt c)) (clock X 2) s = (Inr (), s'))) \<and>
    (rs_status resp = 200 \<longrightarrow> (\<forall>c row. logout_presented X r = Some c \<and> row \<in> set (gw_sessions s') \<and>
       session_key row = (clientID (gstore V), issuer (gstore V), lcProviderSessionID c) \<longrightarrow> gs_revoked row \<noteq> None)) \<and>
    (rs_status resp \<noteq> 200 \<longrightarrow> s' = s \<and> rs_status resp \<in> {400, 415, 500}) \<and>
    (rs_status resp = 500 \<longrightarrow> (\<exists>l c. fst (RevokeProviderSession (gw X) (gstore V)
       (lcProviderSessionID (the (logout_presented X r))) (lcTokenID (the (logout_presented X r)))
       (unix_time (lcExpiresAt (the (logout_presented X r)))) (clock X 2) s) = Inl (DbError l c)))"
proof (cases "logout_presented X r")
  case None
  then have "s' = s \<and> rs_status resp \<in> {400, 415}"
    using assms by (auto simp: logout_presented_def backchannelLogout_def http_error_def
        split: option.splits list.splits if_splits)
  with None show ?thesis by auto
next
  case (Some c)
  let ?op = "RevokeProviderSession (gw X) (gstore V) (lcProviderSessionID c) (lcTokenID c) (unix_time (lcExpiresAt c)) (clock X 2)"
  have sid: "lcProviderSessionID c \<noteq> []"
    using Some by (auto simp: logout_presented_def logout_claims_ok_def split: option.splits list.splits if_splits)
  have result: "backchannelLogout X V r s = (case ?op s of
      (Inl e, s') \<Rightarrow> (if e = ErrLogoutTokenReplayed then http_error 400 ''Logout token was rejected''
         else http_error 500 ''Could not record logout'', s')
    | (Inr _, s') \<Rightarrow> (http_error 200 [], s'))"
    using Some by (auto simp: logout_presented_def backchannelLogout_def split: option.splits list.splits if_splits)
  show ?thesis
  proof (cases "?op s")
    case (Pair res t)
    show ?thesis
    proof (cases res)
      case (Inr x)
      with Pair logout_leaves_out [OF disjI1, of "gw X" "gstore V" "lcProviderSessionID c" "lcTokenID c"
          "unix_time (lcExpiresAt c)" "clock X 2" s t] result assms Some show ?thesis
        by (auto simp: http_error_def logged_out_def)
    next
      case (Inl e)
      then have "t = s" using Pair by (auto simp: RevokeProviderSession_def dest: tx_Inl)
      moreover have "e = ErrLogoutTokenReplayed \<or> (\<exists>l c. e = DbError l c)"
        using Pair Inl sid RevokeProviderSession_errors by blast
      ultimately show ?thesis using Pair Inl result assms Some by (auto simp: http_error_def)
    qed
  qed
qed

subsection \<open>The identity the application receives\<close>

lemma header_get_set [simp]: "header_get (header_set h n v) n = v"
  by (auto simp: header_get_def header_set_def header_del_def map_add_def map_of_eq_None_iff map_of_append split: option.split)
     (metis (mono_tags, lifting) map_of_SomeD mem_Collect_eq set_filter case_prodD)

lemma header_get_set_other [simp]: "m \<noteq> n \<Longrightarrow> header_get (header_set h n v) m = header_get h m"
proof -
  assume "m \<noteq> n"
  then have "map_of (header_set h n v) m = map_of h m"
    by (induction h) (auto simp: header_set_def header_del_def)
  then show ?thesis by (simp add: header_get_def)
qed

lemma set_header_set: "x \<in> set (header_set h n v) \<longleftrightarrow> x = (n, [v]) \<or> x \<in> set h \<and> fst x \<noteq> n"
  by (auto simp: header_set_def header_del_def)

text \<open>The environment variable a CGI-style server makes of a header name.\<close>

definition cgi_variable :: "string \<Rightarrow> string" where
  "cgi_variable name = map (\<lambda>c. if c = CHR ''-'' then CHR ''_''
     else if CHR ''a'' \<le> c \<and> c \<le> CHR ''z'' then char_of (of_char c - 32 :: nat) else c) name"

definition hyphenated :: "char \<Rightarrow> char" where
  "hyphenated c = (if c = CHR ''_'' then CHR ''-'' else c)"

lemma lower_of_upper:
  assumes "CHR ''a'' \<le> c" "c \<le> CHR ''z''"
  shows "ascii_lower (hyphenated (char_of (of_char c - 32 :: nat))) = ascii_lower (hyphenated c)"
proof -
  let ?n = "of_char c :: nat"
  have n: "97 \<le> ?n" "?n \<le> 122" using assms by (simp_all add: less_eq_char_def)
  then have of: "of_char (char_of (?n - 32) :: char) = ?n - 32" by simp
  have "char_of (?n - 32) \<noteq> CHR ''_''"
  proof
    assume "char_of (?n - 32) = CHR ''_''"
    then have "of_char (char_of (?n - 32) :: char) = (95 :: nat)" by simp
    with of n show False by simp
  qed
  moreover have "c \<noteq> CHR ''_''" using n by auto
  moreover have "CHR ''A'' \<le> char_of (?n - 32)" "char_of (?n - 32) \<le> CHR ''Z''" "\<not> c \<le> CHR ''Z''"
    using n of by (simp_all add: less_eq_char_def)
  moreover have "char_of (of_char (char_of (?n - 32) :: char) + 32 :: nat) = c" using n of by simp
  ultimately show ?thesis by (simp add: ascii_lower_def hyphenated_def)
qed

lemma cgi_char:
  "ascii_lower (hyphenated (if c = CHR ''-'' then CHR ''_'' else if CHR ''a'' \<le> c \<and> c \<le> CHR ''z'' then char_of (of_char c - 32 :: nat) else c)) =
   ascii_lower (hyphenated c)"
proof (cases "CHR ''a'' \<le> c \<and> c \<le> CHR ''z''")
  case True
  then have "c \<noteq> CHR ''-''" by (auto simp: less_eq_char_def)
  with True lower_of_upper show ?thesis by simp
qed (auto simp: hyphenated_def)

definition folded :: "string \<Rightarrow> string" where
  "folded name = map (ascii_lower \<circ> hyphenated) name"

lemma same_cgi_variable: "cgi_variable m = cgi_variable n \<Longrightarrow> folded m = folded n"
proof -
  have "folded (cgi_variable k) = folded k" for k
    by (simp add: folded_def cgi_variable_def cgi_char)
  then show "cgi_variable m = cgi_variable n \<Longrightarrow> folded m = folded n" by metis
qed

lemma normalized_ascii: "list_all is_ascii n \<Longrightarrow> normalized_name E n = folded n"
  by (auto simp: folded_def normalized_name_def ToLower_def hyphenated_def list_all_iff is_ascii_def)

text \<open>The identity headers with the session's values.\<close>

definition identity_headers :: "gateway_session \<Rightarrow> (string \<times> string) list" where
  "identity_headers x = [(''X-Forwarded-User'', gUsername x), (''X-Forwarded-Preferred-Username'', gUsername x),
     (''X-Forwarded-Email'', gEmail x), (''X-Forwarded-Role'', gRole x), (''X-Forwarded-Subject'', gSubject x)]"

definition forwarding_headers :: "gateway_server \<Rightarrow> headers \<Rightarrow> (string \<times> string) list" where
  "forwarding_headers V h = [(''X-Forwarded-Host'', PublicHost V), (''X-Forwarded-Proto'', PublicScheme V)] @
     (if header_get h ''X-Forwarded-For'' \<noteq> [] then [(''X-Forwarded-For'', header_get h ''X-Forwarded-For'')] else [])"

abbreviation set_headers :: "(string \<times> string) list \<Rightarrow> headers \<Rightarrow> headers" where
  "set_headers \<equiv> fold (\<lambda>(n, v) h. header_set h n v)"

lemma set_headersD: "(n, vs) \<in> set (set_headers kvs h) \<Longrightarrow> (\<exists>v. vs = [v] \<and> (n, v) \<in> set kvs) \<or> (n, vs) \<in> set h"
  by (induction kvs arbitrary: h) (fastforce simp: set_header_set)+

lemma set_headers_get: "distinct (map fst kvs) \<Longrightarrow> (n, v) \<in> set kvs \<Longrightarrow> header_get (set_headers kvs h) n = v"
proof (induction kvs arbitrary: h)
  case (Cons kv kvs)
  obtain k w where kv: "kv = (k, w)" by (cases kv)
  have other: "header_get (set_headers kvs h) n = header_get h n" if "n \<notin> fst ` set kvs" for h
    using that by (induction kvs arbitrary: h) auto
  show ?case
  proof (cases "n = k")
    case True
    with Cons.prems kv have "n \<notin> fst ` set kvs" "v = w" by force+
    with True kv other [of "header_set h k w"] show ?thesis by simp
  next
    case False
    with Cons kv show ?thesis by simp
  qed
qed simp

lemma assertUpstreamIdentity_fold:
  "fst (assertUpstreamIdentity E V (Some x) (h, cookies)) =
     set_headers (forwarding_headers V h @ identity_headers x) (filter (\<lambda>(n, _). \<not> client_asserted E n) h)"
  by (simp add: assertUpstreamIdentity_def sanitizeProxyHeaders_def identity_headers_def forwarding_headers_def Let_def)

lemma folded_names:
  "folded ''X-Forwarded-User'' = ''x-forwarded-user''"
  "folded ''X-Forwarded-Preferred-Username'' = ''x-forwarded-preferred-username''"
  "folded ''X-Forwarded-Email'' = ''x-forwarded-email''"
  "folded ''X-Forwarded-Role'' = ''x-forwarded-role''"
  "folded ''X-Forwarded-Subject'' = ''x-forwarded-subject''"
  "folded ''X-Forwarded-Host'' = ''x-forwarded-host''"
  "folded ''X-Forwarded-Proto'' = ''x-forwarded-proto''"
  "folded ''X-Forwarded-For'' = ''x-forwarded-for''"
  by code_simp+

lemma asserted_names_distinct: "distinct (map (folded \<circ> fst) (forwarding_headers V h @ identity_headers x))"
  by (simp add: forwarding_headers_def identity_headers_def folded_names)

lemma asserted_name:
  assumes "(m, v) \<in> set (forwarding_headers V h @ identity_headers x)"
  shows "HasPrefix (folded m) ''x-forwarded-'' \<and> list_all is_ascii m"
proof -
  have "list_all (\<lambda>(m, _). HasPrefix (folded m) ''x-forwarded-'' \<and> list_all is_ascii m) (forwarding_headers V h @ identity_headers x)"
    by (simp add: forwarding_headers_def identity_headers_def folded_names HasPrefix_def is_ascii_def)
  with assms show ?thesis by (auto simp: list_all_iff)
qed


subsection \<open>Witnesses\<close>

text \<open>An encoding of transactions that can be read back.\<close>

definition enc_text :: "string \<Rightarrow> string" where
  "enc_text s = concat (map (\<lambda>c. [CHR ''x'', c]) s) @ ''.''"

fun dec_text :: "string \<Rightarrow> string \<times> string" where
  "dec_text (x # c # r) = (if x = CHR ''x'' then apfst (Cons c) (dec_text r) else ([], c # r))"
| "dec_text _ = ([], [])"

lemma dec_enc_text: "dec_text (enc_text s @ r) = (s, r)"
proof (induction s)
  case Nil
  show ?case by (cases r) (auto simp: enc_text_def)
qed (simp add: enc_text_def)

definition example_marshal :: "transaction \<Rightarrow> string" where
  "example_marshal t = enc_text (tState t) @ enc_text (tNonce t) @ enc_text (tVerifier t) @ enc_text (tReturnTo t) @
     (if tExpiresAt t < 0 then CHR ''-'' else CHR ''+'') # replicate (nat \<bar>tExpiresAt t\<bar>) (CHR ''i'')"

definition example_unmarshal :: "string \<Rightarrow> transaction option" where
  "example_unmarshal p = (let (a, p) = dec_text p; (b, p) = dec_text p; (c, p) = dec_text p; (d, p) = dec_text p in
     Some \<lparr>tState = a, tNonce = b, tVerifier = c, tReturnTo = d,
       tExpiresAt = (if hd p = CHR ''-'' then - int (length p - 1) else int (length p - 1))\<rparr>)"

lemma example_unmarshal_marshal: "example_unmarshal (example_marshal t) = Some t"
  by (simp add: example_unmarshal_def example_marshal_def dec_enc_text)

definition example_claims :: identityClaims where
  "example_claims = \<lparr>icSubject = ''u1'', icProviderSessionID = ''h1'', icUsername = ''alice'', icEmail = ''alice@example.org'',
     icEmailVerified = True, icRole = ''developer'', icNonce = b64_encode (replicate 32 (CHR ''r''))\<rparr>"

definition example_logout_claims :: logoutClaims where
  "example_logout_claims = \<lparr>lcProviderSessionID = ''h1'', lcTokenID = ''jti'', lcIssuedAt = 60, lcExpiresAt = 120, lcNonce = None,
     lcEvents = [(logoutEvent, ''{}'')]\<rparr>"

text \<open>The world of a request at one time.\<close>

definition example_gateway_world :: "time \<Rightarrow> gateway_world" where
  "example_gateway_world now = \<lparr>gw = example_gateway_env, clock = (\<lambda>_. now), Exchange = (\<lambda>c v. Some (Some ''jwt'')), Verify = Some,
     identity_claims = (\<lambda>_. Some example_claims), logout_claims = (\<lambda>_. Some example_logout_claims),
     object_keys = (\<lambda>_. Some (Some [])), marshal_transaction = example_marshal, unmarshal_transaction = example_unmarshal,
     GenerateVerifier = ''verifier'', AuthCodeURL = (\<lambda>s n v. ''https://auth.example.org/oauth2/auth''),
     parse_reference = (\<lambda>_. Some \<lparr>ref_path = ''/'', ref_scheme = [], ref_host = [], ref_uri = ''/''\<rparr>),
     resolve = (\<lambda>b p. b @ p), set_query = (\<lambda>u q. u), QueryEscape = (\<lambda>x. x)\<rparr>"

definition example_gateway_server :: gateway_server where
  "example_gateway_server = \<lparr>gstore = example_gateway, transactions = aead_of example_gateway, PublicScheme = ''https'',
     PublicHost = ''console.example.org'', PostLogoutURL = ''https://console.example.org/auth/shauth/logout/complete'',
     SessionMaxAge = 8 * hour, InsecureCookie = False, endSessionEndpoint = ''https://auth.example.org/oauth2/sessions/logout''\<rparr>"

definition example_request :: "string \<Rightarrow> http_request" where
  "example_request val = \<lparr>req_method = ''GET'', req_host = ''console.example.org'', req_uri = ''/'',
     req_query = (\<lambda>k. if k = ''state'' then b64_encode (replicate 32 (CHR ''r'')) else []),
     req_cookies = [(configTransactionCookieName False, val)], req_header = (\<lambda>_. []),
     req_media_type = Some ''application/x-www-form-urlencoded'', req_logout_tokens = Some [''token'']\<rparr>"

definition example_transaction :: transaction where
  "example_transaction = \<lparr>tState = b64_encode (replicate 32 (CHR ''r'')), tNonce = b64_encode (replicate 32 (CHR ''r'')),
     tVerifier = ''verifier'', tReturnTo = ''/'', tExpiresAt = 600\<rparr>"

definition example_cookie :: string where
  "example_cookie = the (sealTransaction (example_gateway_world 0) example_gateway_server example_transaction)"

lemmas example_gw_world_defs = example_gateway_world_def example_gateway_server_def example_gateway_defs example_env_def

lemma example_seal: "sealTransaction (example_gateway_world 0) example_gateway_server example_transaction = Some example_cookie"
  unfolding example_cookie_def by (simp add: sealTransaction_def example_gateway_world_def example_gateway_env_def)

lemma example_laws: "cipher_opens (aead_of example_gateway)" "random_lengths example_gateway_env"
  by (simp_all add: cipher_opens_def random_lengths_def example_gateway_defs)

lemma example_open: "openTransaction (example_gateway_world now) example_gateway_server example_cookie = Some example_transaction"
  by (rule openTransaction_seal [OF example_seal])
    (simp_all add: example_laws [unfolded example_gateway_env_def] example_laws example_gateway_server_def example_gateway_world_def example_unmarshal_marshal)

lemma example_login: "login (example_gateway_world 0) example_gateway_server (example_request []) =
    setCookie (transactionCookieName example_gateway_server) example_cookie (10 * minute) (http_redirect 302 ''https://auth.example.org/oauth2/auth'')"
proof -
  have "unix (clock (example_gateway_world 0) 0 + 10 * minute) = 600" by (simp add: example_gateway_world_def unix_def duration_units)
  moreover have "relativeReturnTo (example_gateway_world 0) x = ''/''" for x
    by (simp add: relativeReturnTo_def example_gateway_world_def HasPrefix_def)
  moreover have "randomValue (gw (example_gateway_world 0)) p n = Some (b64_encode (replicate n (CHR ''r'')))" for p n
    by (simp add: randomValue_def example_gateway_world_def example_gateway_env_def)
  ultimately show ?thesis
    using example_seal by (simp add: login_def example_transaction_def example_gateway_world_def Let_def)
qed

lemma example_frontchannel:
  "fst (RevokeFrontchannelSession example_gateway_env example_gateway ''h1'' minute empty_gateway_db) = Inr ()"
  by (simp add: RevokeFrontchannelSession_def lockProviderSession_def deleteExpiredLogoutTombstones_def recordLogoutTombstone_def
      revokeProviderRows_def upsert_tombstone_def upd_def gw_sessions_unique_def duration_units pg_time_def
      io_defs Let_def example_gateway_defs example_env_def put_gateway_defs)

theorem sign_in_never_outlives_logout_witness:
  "\<exists>s1. RevokeFrontchannelSession example_gateway_env example_gateway ''h1'' minute empty_gateway_db = (Inr (), s1) \<and>
     (\<forall>W' token t x s3. Find W' example_gateway token t
        (snd (callback (example_gateway_world (2 * minute)) example_gateway_server (example_request example_cookie) s1)) = (Inr x, s3) \<longrightarrow>
        gProviderSessionID x \<noteq> ''h1'')"
proof -
  obtain s1 where s1: "RevokeFrontchannelSession example_gateway_env example_gateway ''h1'' minute empty_gateway_db = (Inr (), s1)"
    using example_frontchannel by (metis old.unit.exhaust prod.collapse)
  have "\<forall>W' token t x s3. Find W' (gstore example_gateway_server) token t
        (snd (callback (example_gateway_world (2 * minute)) example_gateway_server (example_request example_cookie) s1)) = (Inr x, s3) \<longrightarrow>
        gProviderSessionID x \<noteq> ''h1''"
  proof (rule sign_in_never_outlives_logout [OF _ _ _ _ disjI2 [OF s1]])
    show "(configTransactionCookieName False, example_cookie, 600) \<in> set (rs_cookies (login (example_gateway_world 0) example_gateway_server (example_request [])))"
      unfolding example_login by (simp add: response_defs example_gateway_server_def whole_seconds_def duration_units)
    show "gateway_run (\<lambda>t. pg_time t < pg_time (minute + 20 * minute)) s1 s1" by simp
  qed (simp_all add: example_laws example_gateway_server_def example_gateway_world_def example_unmarshal_marshal example_request_def
      example_gateway_def duration_units cipher_opens_def)
  with s1 show ?thesis by (auto simp: example_gateway_server_def)
qed


lemma example_creates:
  assumes "gProviderSessionID session \<noteq> []" "gw_role (gRole session)"
  shows "fst (Create example_gateway_env example_gateway session token now empty_gateway_db) = Inr ()"
  using assms by (simp add: Create_def lockProviderSession_def deleteExpiredLogoutTombstones_def removeEndedSessions_def
      deleteExpiredLogoutTokens_def random_bytes_def io_defs Let_def example_gateway_defs example_env_def put_gateway_defs
      tombstoned_def gw_sessions_unique_def limited_def)

lemma example_callback:
  "\<exists>s'. callback (example_gateway_world minute) example_gateway_server (example_request example_cookie) empty_gateway_db =
     (clearCookie (transactionCookieName example_gateway_server) (setCookie (sessionCookieName example_gateway_server)
       (b64_encode (replicate 32 (CHR ''r''))) (8 * hour) (http_redirect 303 ''/'')), s')"
proof -
  let ?X = "example_gateway_world minute" and ?r = "example_request example_cookie"
  have pending: "callback ?X example_gateway_server ?r empty_gateway_db = map_prod (clearCookie (transactionCookieName example_gateway_server)) id
      (callback_session ?X example_gateway_server ?r example_transaction ''jwt'' example_claims empty_gateway_db)"
    using example_open [of minute]
    by (simp add: callback_def callback_claims_def claims_complete_def example_claims_def example_transaction_def example_request_def
        example_gateway_server_def example_gateway_world_def unix_def duration_units)
  have rand: "rand_read (gw ?X) ''browser token'' 32 = Some (replicate 32 (CHR ''r''))"
    by (simp add: example_gateway_world_def example_gateway_env_def)
  obtain u where u: "gateway_uuid (gw ?X) = Some u"
    by (auto simp: gateway_uuid_def example_gateway_world_def example_gateway_env_def)
  have none: "currentSession ?X example_gateway_server ?r now s = (Inl ErrNoSession, s)" for now s
    using cookie_names_differ [of False False] by (simp add: currentSession_def example_request_def example_gateway_server_def)
  let ?session = "\<lparr>gID = u, gSubject = icSubject example_claims,
      gProviderSessionID = icProviderSessionID example_claims, gIDToken = ''jwt'', gUsername = icUsername example_claims,
      gEmail = icEmail example_claims, gRole = icRole example_claims, gExpiresAt = minute + 8 * hour\<rparr>"
  have "fst (Create example_gateway_env example_gateway ?session (replicate 32 (CHR ''r'')) minute empty_gateway_db) = Inr ()"
    by (rule example_creates) (simp_all add: example_claims_def gw_role_def)
  then obtain s' where "Create example_gateway_env example_gateway ?session (replicate 32 (CHR ''r'')) minute empty_gateway_db = (Inr (), s')"
    by (metis prod.collapse)
  then have "callback_session ?X example_gateway_server ?r example_transaction ''jwt'' example_claims empty_gateway_db =
    (setCookie (sessionCookieName example_gateway_server) (b64_encode (replicate 32 (CHR ''r''))) (8 * hour) (http_redirect 303 ''/''), s')"
    using rand u none by (simp add: callback_session_def example_gateway_world_def example_gateway_server_def example_transaction_def del: replicate.simps)
  with pending show ?thesis by simp
qed

theorem gateway_sign_in_sound_witness:
  "\<exists>resp s' val session. callback (example_gateway_world minute) example_gateway_server (example_request example_cookie) empty_gateway_db = (resp, s') \<and>
     gUsername session = ''alice'' \<and>
     (\<forall>r'. map_of (req_cookies r') (sessionCookieName example_gateway_server) = Some val \<longrightarrow>
        fst (requireSession (example_gateway_world hour) example_gateway_server r' s') = Forward session)"
proof -
  from example_callback obtain resp s' where cb: "callback (example_gateway_world minute) example_gateway_server (example_request example_cookie) empty_gateway_db = (resp, s')"
    "(sessionCookieName example_gateway_server, b64_encode (replicate 32 (CHR ''r'')), 28800) \<in> set (rs_cookies resp)"
    by (auto simp: response_defs whole_seconds_def duration_units)
  have time: "pg_time (clock (example_gateway_world hour) 0) < pg_time (clock (example_gateway_world minute) 3 + SessionMaxAge example_gateway_server)"
    by (simp add: example_gateway_world_def example_gateway_server_def pg_time_def duration_units)
  have laws: "cipher_opens (aead_of (gstore example_gateway_server))" "random_lengths (gw (example_gateway_world minute))"
    "uuid_in (pg (gw (example_gateway_world minute))) u = Some u"
    "sha256 (pg (gw (example_gateway_world hour))) = sha256 (pg (gw (example_gateway_world minute)))"
    "marshal_strings (gw (example_gateway_world hour)) = marshal_strings (gw (example_gateway_world minute))"
    "\<not> fault (pg (gw (example_gateway_world hour))) ''read gateway session''" for u
    using example_laws by (simp_all add: example_gateway_server_def example_gateway_world_def example_gateway_env_def example_env_def)
  from gateway_sign_in_sound [OF cb laws(1,2) laws(3) laws(4-6)] obtain payload c session where
    "identity_claims (example_gateway_world minute) payload = Some c" "gUsername session = icUsername c"
    "\<forall>r'. map_of (req_cookies r') (sessionCookieName example_gateway_server) = Some (b64_encode (replicate 32 (CHR ''r''))) \<and>
       pg_time (clock (example_gateway_world hour) 0) < pg_time (clock (example_gateway_world minute) 3 + SessionMaxAge example_gateway_server) \<longrightarrow>
       fst (requireSession (example_gateway_world hour) example_gateway_server r' s') = Forward session"
    by (elim exE conjE) (rule that)
  moreover have "c = example_claims" using \<open>identity_claims _ payload = Some c\<close> by (simp add: example_gateway_world_def)
  then have "icUsername c = ''alice''" by (simp add: example_claims_def)
  ultimately show ?thesis using cb(1) time by fastforce
qed

lemma example_presented: "logout_presented (example_gateway_world minute) (example_request []) = Some example_logout_claims"
  by (simp add: logout_presented_def example_request_def example_gateway_world_def logout_claims_ok_def example_logout_claims_def
      validLogoutEvent_def logout_timely_def unix_time_def wrap64_id time_sub_def duration_units EqualFold_def is_ascii_def Let_def)

lemma example_backchannel_now:
  "fst (RevokeProviderSession example_gateway_env example_gateway ''h1'' ''jti'' (2 * minute) minute empty_gateway_db) = Inr ()"
  by (simp add: RevokeProviderSession_def lockProviderSession_def deleteExpiredLogoutTombstones_def recordLogoutTombstone_def
      recordLogoutToken_def revokeProviderRows_def upsert_tombstone_def upd_def gw_sessions_unique_def duration_units pg_time_def
      deleteExpiredLogoutTokens_def io_defs Let_def example_gateway_defs example_env_def put_gateway_defs)

lemma unit_result: "fst m = Inr () \<Longrightarrow> \<exists>s'. m = (Inr (), s')"
  by (cases m) auto

lemma presented_stored:
  assumes "backchannelLogout X V r s = (resp, s')" "logout_presented X r = Some c"
    "RevokeProviderSession (gw X) (gstore V) (lcProviderSessionID c) (lcTokenID c) (unix_time (lcExpiresAt c)) (clock X 2) s = (Inr (), t)"
  shows "s' = t"
  using assms by (auto simp: logout_presented_def backchannelLogout_def split: option.splits list.splits if_splits)

theorem backchannel_logout_contract_witness:
  "\<exists>resp s'. backchannelLogout (example_gateway_world minute) example_gateway_server (example_request []) empty_gateway_db = (resp, s') \<and>
     rs_status resp = 200"
proof -
  let ?X = "example_gateway_world minute" and ?V = example_gateway_server
  obtain resp s' where b: "backchannelLogout ?X ?V (example_request []) empty_gateway_db = (resp, s')"
    by (rule prod.exhaust)
  have same: "gw ?X = example_gateway_env" "gstore ?V = example_gateway" "lcProviderSessionID example_logout_claims = ''h1''"
    "lcTokenID example_logout_claims = ''jti''" "unix_time (lcExpiresAt example_logout_claims) = 2 * minute" "clock ?X 2 = minute"
    by (simp_all add: example_gateway_world_def example_gateway_server_def example_logout_claims_def unix_time_def wrap64_id duration_units)
  obtain s1 where "RevokeProviderSession example_gateway_env example_gateway ''h1'' ''jti'' (2 * minute) minute empty_gateway_db = (Inr (), s1)"
    by (rule exE [OF unit_result [OF example_backchannel_now]])
  then have s1: "RevokeProviderSession (gw ?X) (gstore ?V) (lcProviderSessionID example_logout_claims) (lcTokenID example_logout_claims)
      (unix_time (lcExpiresAt example_logout_claims)) (clock ?X 2) empty_gateway_db = (Inr (), s1)"
    by (simp only: same)
  have "s' = s1" by (rule presented_stored [OF b example_presented s1])
  with backchannel_logout_contract [OF b, THEN conjunct1] s1 example_presented have "rs_status resp = 200" by blast
  with b show ?thesis by blast
qed


end
