(* ===== verification/Client_Operations.thy ===== *)
theory Client_Operations
  imports OIDC_Clients
begin

text \<open>
  The operations that change Ory Hydra's clients together with PostgreSQL (\<open>internal/app/operations.go\<close>,
  \<open>internal/app/app.go\<close>): the session policy and the token lifetimes of every registered client, the registration and
  removal of clients, the application catalog that refers to them, and the reconciliation at start-up. Hydra is a parameter with a state of
  its own; a request is carried out when the answer is a success, and may have been carried out when it is not.
\<close>

subsection \<open>Requests\<close>

datatype jvalue = JText string | JTexts "string list" | JFlag bool

type_synonym payload = "(string \<times> jvalue) list"

text \<open>The requests to \<open>/admin/clients\<close>; a client is addressed by its identifier, which \<open>hydraClientURL\<close> escapes.\<close>

datatype client_call =
    PutLifespans string "(string \<times> string) list"
  | PostClient payload
  | PutClient string payload
  | DeleteClient string

text \<open>\<open>time.Duration.String\<close>: a fraction without its trailing zeros, and the units.\<close>

fun padded_digits :: "nat \<Rightarrow> int \<Rightarrow> string" where
  "padded_digits 0 n = []"
| "padded_digits (Suc k) n = padded_digits k (n div 10) @ [char_of (48 + nat (n mod 10))]"

definition trimmed_fraction :: "nat \<Rightarrow> int \<Rightarrow> string" where
  "trimmed_fraction prec n = (if n = 0 then []
     else CHR ''.'' # rev (dropWhile (\<lambda>c. c = CHR ''0'') (rev (padded_digits prec n))))"

definition scaled :: "nat \<Rightarrow> int \<Rightarrow> string" where
  "scaled prec u = decimal (nat (u div 10 ^ prec)) @ trimmed_fraction prec (u mod 10 ^ prec)"

definition Duration_String :: "duration \<Rightarrow> string" where
  "Duration_String d =
     (let u = \<bar>d\<bar>; s = u div second in
      (if d < 0 then ''-'' else []) @
      (if u = 0 then ''0s''
       else if u < 10 ^ 3 then scaled 0 u @ ''ns''
       else if u < 10 ^ 6 then scaled 3 u @ [CHR 0xC2, CHR 0xB5] @ ''s''
       else if u < second then scaled 6 u @ ''ms''
       else (if s div 3600 > 0 then decimal (nat (s div 3600)) @ ''h'' else []) @
         (if s div 60 > 0 then decimal (nat (s div 60 mod 60)) @ ''m'' else []) @
         decimal (nat (s mod 60)) @ trimmed_fraction 9 (u mod second) @ ''s''))"

definition hydraClientLifespans :: "SessionPolicy \<Rightarrow> (string \<times> string) list" where
  "hydraClientLifespans p = concat (map (\<lambda>grant.
     [(grant @ ''_access_token_lifespan'', Duration_String (AccessTokenLifetime p)),
      (grant @ ''_id_token_lifespan'', Duration_String (IDTokenLifetime p)),
      (grant @ ''_refresh_token_lifespan'', Duration_String (RefreshTokenLifetime p))])
     [''authorization_code_grant'', ''refresh_token_grant''])"

text \<open>A Go map as the list of its entries: assignment and \<open>delete\<close>.\<close>

definition put_entry :: "string \<Rightarrow> jvalue \<Rightarrow> payload \<Rightarrow> payload" where
  "put_entry k v m = filter (\<lambda>(k', _). k' \<noteq> k) m @ [(k, v)]"

definition drop_entry :: "string \<Rightarrow> payload \<Rightarrow> payload" where
  "drop_entry k m = filter (\<lambda>(k', _). k' \<noteq> k) m"

definition marshalHydraClient :: "oidcClientInput \<Rightarrow> SessionPolicy \<Rightarrow> payload" where
  "marshalHydraClient i p =
     (let m = [(''client_id'', JText (in_ID i)), (''client_name'', JText (in_Name i)), (''client_secret'', JText (in_Secret i)),
        (''redirect_uris'', JTexts (in_RedirectURIs i)), (''grant_types'', JTexts [''authorization_code'', ''refresh_token'']),
        (''response_types'', JTexts [''code'']), (''scope'', JText ''openid offline_access profile email''),
        (''token_endpoint_auth_method'', JText ''client_secret_post''),
        (''frontchannel_logout_uri'', JText (in_FrontChannelLogoutURI i)),
        (''backchannel_logout_uri'', JText (in_BackChannelLogoutURI i)),
        (''frontchannel_logout_session_required'', JFlag (in_FrontChannelLogoutURI i \<noteq> [])),
        (''backchannel_logout_session_required'', JFlag True)];
        m = fold (\<lambda>(k, v). put_entry k (JText v)) (hydraClientLifespans p) m;
        m = (if in_Secret i = [] then drop_entry ''client_secret'' m else m);
        m = (if in_FrontChannelLogoutURI i = [] then drop_entry ''frontchannel_logout_session_required'' (drop_entry ''frontchannel_logout_uri'' m) else m);
        m = (if in_BackChannelLogoutURI i = [] then drop_entry ''backchannel_logout_session_required'' (drop_entry ''backchannel_logout_uri'' m) else m)
      in if in_PostLogoutRedirectURIs i \<noteq> [] then put_entry ''post_logout_redirect_uris'' (JTexts (in_PostLogoutRedirectURIs i)) m else m)"

subsection \<open>The session policy in operators' units\<close>

record sessionPolicyRecord =
  BrowserAbsoluteHours :: int
  BrowserIdleMinutes :: int
  OIDCSSOHours :: int
  AccessTokenMinutes :: int
  IDTokenMinutes :: int
  RefreshTokenHours :: int
  RecordUpdatedAt :: time

text \<open>Go's division of durations rounds towards zero.\<close>

definition in_units :: "duration \<Rightarrow> duration \<Rightarrow> int" where
  "in_units d unit = sgn d * (\<bar>d\<bar> div unit)"

definition newSessionPolicyRecord :: "SessionPolicy \<Rightarrow> sessionPolicyRecord" where
  "newSessionPolicyRecord p = \<lparr>BrowserAbsoluteHours = in_units (BrowserAbsoluteLifetime p) hour,
     BrowserIdleMinutes = in_units (BrowserIdleTimeout p) minute, OIDCSSOHours = in_units (OIDCSessionLifetime p) hour,
     AccessTokenMinutes = in_units (AccessTokenLifetime p) minute, IDTokenMinutes = in_units (IDTokenLifetime p) minute,
     RefreshTokenHours = in_units (RefreshTokenLifetime p) hour, RecordUpdatedAt = UpdatedAt p\<rparr>"

definition parse_units :: "string \<Rightarrow> int \<Rightarrow> duration \<Rightarrow> error + duration" where
  "parse_units name value unit =
     (let label = map (\<lambda>c. if c = CHR ''_'' then CHR '' '' else c) name in
      if value \<le> 0 then Inl (invalidInput (label @ '' must be a positive whole number''))
      else if value > in_units (90 * 24 * hour) unit then Inl (invalidInput (label @ '' exceeds the maximum supported duration''))
      else Inr (wrap64 (value * unit)))"

fun and_then :: "error + 'a \<Rightarrow> ('a \<Rightarrow> error + 'b) \<Rightarrow> error + 'b" where
  "and_then (Inl e) f = Inl e"
| "and_then (Inr x) f = f x"

definition sessionPolicy :: "sessionPolicyRecord \<Rightarrow> error + SessionPolicy" where
  "sessionPolicy r =
     and_then (parse_units ''browser_absolute_hours'' (BrowserAbsoluteHours r) hour) (\<lambda>absolute.
     and_then (parse_units ''browser_idle_minutes'' (BrowserIdleMinutes r) minute) (\<lambda>idle.
     and_then (parse_units ''oidc_sso_hours'' (OIDCSSOHours r) hour) (\<lambda>oidc.
     and_then (parse_units ''access_token_minutes'' (AccessTokenMinutes r) minute) (\<lambda>access.
     and_then (parse_units ''id_token_minutes'' (IDTokenMinutes r) minute) (\<lambda>id_token.
     and_then (parse_units ''refresh_token_hours'' (RefreshTokenHours r) hour) (\<lambda>refresh.
     let p = \<lparr>BrowserAbsoluteLifetime = absolute, BrowserIdleTimeout = idle, OIDCSessionLifetime = oidc,
       AccessTokenLifetime = access, IDTokenLifetime = id_token, RefreshTokenLifetime = refresh, UpdatedAt = 0\<rparr>
     in case Validate p of Some e \<Rightarrow> Inl e | None \<Rightarrow> Inr p))))))"

subsection \<open>The deployment\<close>

record BootstrapApp =
  ba_Slug :: string
  ba_Name :: string
  ba_Description :: string
  ba_LaunchURL :: string
  ba_OIDCClientID :: string
  ba_OIDCClientSecret :: string
  ba_RedirectURIs :: "string list"
  ba_PostLogoutRedirectURIs :: "string list"
  ba_FrontChannelLogoutURI :: string
  ba_BackChannelLogoutURI :: string
  ba_HealthURL :: string
  ba_MonitoringURL :: string
  ba_ValidationURL :: string
  ba_SignedOutURL :: string
  ba_ReleaseRevision :: string

text \<open>
  Hydra with a state \<open>'h\<close>: the status of the answer to the \<open>n\<close>-th request (\<open>None\<close> without one), whether a request
  without a successful answer was carried out all the same, what carrying it out does, the pages of a listing, and what it then holds:
  its clients and the token lifetimes of each. Beside it, \<open>json.Marshal\<close> and the configured applications.
\<close>

record 'h deployment =
  h_status :: "nat \<Rightarrow> client_call \<Rightarrow> 'h \<Rightarrow> nat option"
  h_carried :: "nat \<Rightarrow> bool"
  h_apply :: "client_call \<Rightarrow> 'h \<Rightarrow> 'h"
  h_pages :: "nat \<Rightarrow> 'h \<Rightarrow> (string \<times> oidcClient client_page) list"
  h_page_token :: "string \<Rightarrow> string option"
  h_clients :: "'h \<Rightarrow> oidcClient list"
  h_lifespans :: "'h \<Rightarrow> string \<Rightarrow> (string \<times> string) list"
  json_contract :: "string \<times> string list \<times> string list \<times> string \<times> string \<times> string list \<times> string list \<times> string \<Rightarrow> string"
  json_texts :: "string list \<Rightarrow> string"
  json_policy :: "sessionPolicyRecord \<Rightarrow> string"
  BootstrapApps :: "BootstrapApp list"

record 'h client_world =
  core :: world
  provider :: 'h
  calls :: nat

type_synonym ('h, 'a) client_io = "('h client_world, 'a) io"

definition inCore :: "'a app \<Rightarrow> ('h, 'a) client_io" where
  "inCore m = (\<lambda>w. case m (core w) of (r, c) \<Rightarrow> (r, w\<lparr>core := c\<rparr>))"

definition doProvider :: "'h deployment \<Rightarrow> client_call \<Rightarrow> ('h, nat) client_io" where
  "doProvider P c = (\<lambda>w.
     let n = calls w; w1 = w\<lparr>calls := n + 1\<rparr>; w2 = w1\<lparr>provider := h_apply P c (provider w)\<rparr> in
     case h_status P n c (provider w) of
       None \<Rightarrow> (Inl (Failed ''no answer from Ory Hydra''), if h_carried P n then w2 else w1)
     | Some st \<Rightarrow> (Inr st, if 200 \<le> st \<and> st < 300 \<or> h_carried P n then w2 else w1))"

definition hydraClients :: "'h deployment \<Rightarrow> ('h, oidcClient list) client_io" where
  "hydraClients P = (\<lambda>w. (listHydraClients (h_page_token P) (h_pages P (calls w) (provider w)), w\<lparr>calls := calls w + 1\<rparr>))"

definition listOIDCClients :: "'h deployment \<Rightarrow> ('h, oidcClient list) client_io" where
  "listOIDCClients P = bindS (tryS (hydraClients P)) (\<lambda>listed. case listed of
       Inl _ \<Rightarrow> failS (DependencyError ''the OAuth clients could not be listed'')
     | Inr clients \<Rightarrow> retS (sort_by (\<lambda>x y. ClientID x \<le> ClientID y) clients))"

subsection \<open>Locks\<close>

text \<open>What an aborted transaction takes back: the database, not Hydra.\<close>

definition rolled_back :: "'h client_world \<Rightarrow> 'h client_world \<Rightarrow> 'h client_world" where
  "rolled_back w w' = w'\<lparr>core := (core w')\<lparr>store := store (core w)\<rparr>\<rparr>"

definition withTransactionLock :: "env \<Rightarrow> string \<Rightarrow> ('h, 'a) client_io \<Rightarrow> ('h, 'a) client_io" where
  "withTransactionLock E what run = (\<lambda>w.
     let failed = (\<lambda>l. Inl (DbError l Unavailable)) in
     if fault E (''begin '' @ what @ '' lock'') then (failed (''begin '' @ what @ '' lock''), w)
     else if fault E (''bound '' @ what @ '' lock wait'') then (failed (''bound '' @ what @ '' lock wait''), w)
     else if fault E (''lock '' @ what) then (failed (''lock '' @ what), w)
     else case run w of
         (Inl e, w') \<Rightarrow> (Inl e, rolled_back w w')
       | (Inr x, w') \<Rightarrow> if fault E (''commit '' @ what @ '' lock'') then (failed (''commit '' @ what @ '' lock''), rolled_back w w')
           else (Inr x, w'))"

definition WithOIDCClientLock :: "env \<Rightarrow> ('h, 'a) client_io \<Rightarrow> ('h, 'a) client_io" where
  "WithOIDCClientLock E run = withTransactionLock E ''OAuth client'' run"

definition WithSessionPolicyLock :: "env \<Rightarrow> ('h, 'a) client_io \<Rightarrow> ('h, 'a) client_io" where
  "WithSessionPolicyLock E run = withTransactionLock E ''session policy'' run"

subsection \<open>Changing the session policy\<close>

fun put_lifespans :: "'h deployment \<Rightarrow> (string \<times> string) list \<Rightarrow> oidcClient list \<Rightarrow> ('h, unit) client_io" where
  "put_lifespans P lifespans [] = retS ()"
| "put_lifespans P lifespans (c # cs) =
     bindS (guardS (ClientID c \<noteq> []) (Failed ''Hydra returned a client without an ID'')) (\<lambda>_.
     bindS (doProvider P (PutLifespans (ClientID c) lifespans)) (\<lambda>st.
     bindS (guardS (st = 200) (Failed (''Hydra update client '' @ ClientID c @ '' lifespans returned '' @ decimal st))) (\<lambda>_.
     put_lifespans P lifespans cs)))"

definition applyHydraSessionPolicy :: "'h deployment \<Rightarrow> SessionPolicy \<Rightarrow> ('h, unit) client_io" where
  "applyHydraSessionPolicy P p = bindS (hydraClients P) (\<lambda>clients. put_lifespans P (hydraClientLifespans p) clients)"

definition AuditSessionPolicyUpdated :: string where "AuditSessionPolicyUpdated = ''session_policy.updated''"
definition AuditOIDCClientCreated :: string where "AuditOIDCClientCreated = ''oidc_client.created''"
definition AuditOIDCClientDeleted :: string where "AuditOIDCClientDeleted = ''oidc_client.deleted''"
definition AuditAppCreated :: string where "AuditAppCreated = ''app.created''"
definition AuditAppDeleted :: string where "AuditAppDeleted = ''app.deleted''"
definition AuditValidationEnqueued :: string where "AuditValidationEnqueued = ''app_validation.enqueued''"

definition policy_not_applied :: error where
  "policy_not_applied = DependencyError ''the OAuth client lifetimes could not be updated, so the previous policy was restored''"

definition replaceSessionPolicy :: "'h deployment \<Rightarrow> server \<Rightarrow> SessionPolicy \<Rightarrow> actor \<Rightarrow> ('h, sessionPolicyRecord) client_io" where
  "replaceSessionPolicy P V p requester =
     bindS (inCore (inDb (read_SessionPolicy (sv_env V 1)))) (\<lambda>previous.
     bindS (tryS (applyHydraSessionPolicy P p)) (\<lambda>applied.
     case applied of
       Inl _ \<Rightarrow> bindS (tryS (applyHydraSessionPolicy P previous)) (\<lambda>_. failS policy_not_applied)
     | Inr _ \<Rightarrow>
       bindS (tryS (inCore (inDb (UpdateSessionPolicy (sv_env V 2) p)))) (\<lambda>stored.
       case stored of
         Inl e \<Rightarrow> bindS (tryS (applyHydraSessionPolicy P previous)) (\<lambda>_. failS e)
       | Inr changedAt \<Rightarrow>
         bindS (inCore (note_event V 3 requester AuditSessionPolicyUpdated []
           [(''previous'', DOther (json_policy P (newSessionPolicyRecord previous))),
            (''applied'', DOther (json_policy P (newSessionPolicyRecord (p\<lparr>UpdatedAt := changedAt\<rparr>))))])) (\<lambda>_.
         retS (newSessionPolicyRecord (p\<lparr>UpdatedAt := changedAt\<rparr>))))))"

definition updateSessionPolicy :: "'h deployment \<Rightarrow> server \<Rightarrow> sessionPolicyRecord \<Rightarrow> actor \<Rightarrow> ('h, sessionPolicyRecord) client_io" where
  "updateSessionPolicy P V request requester = (case sessionPolicy request of Inl e \<Rightarrow> failS e
     | Inr p \<Rightarrow> WithSessionPolicyLock (sv_env V 0) (replaceSessionPolicy P V p requester))"

subsection \<open>Registering and removing clients\<close>

definition errHydraClientConflict :: error where "errHydraClientConflict = Failed ''OAuth client already exists''"
definition errHydraClientNotFound :: error where "errHydraClientNotFound = Failed ''OAuth client not found''"
definition errOIDCClientInUse :: error where
  "errOIDCClientInUse = Failed ''remove the connected app before deleting its OAuth client''"
definition errOIDCClientDeploymentOwned :: error where
  "errOIDCClientDeploymentOwned = Failed (''this OAuth client belongs to an app declared by the deployment'' @ [CHR 0x27] @
     ''s bootstrap configuration; remove it there'')"

definition writeHydraClient :: "'h deployment \<Rightarrow> env \<Rightarrow> oidcClientInput \<Rightarrow> ('h, unit) client_io" where
  "writeHydraClient P E i =
     bindS (inCore (inDb (read_SessionPolicy E))) (\<lambda>p.
     bindS (doProvider P (PostClient (marshalHydraClient i p))) (\<lambda>st.
     bindS (guardS (st \<noteq> 409) errHydraClientConflict) (\<lambda>_.
     guardS (st = 201) (Failed (''Hydra create client returned '' @ decimal st)))))"

definition createHydraClient :: "'h deployment \<Rightarrow> env \<Rightarrow> env \<Rightarrow> oidcClientInput \<Rightarrow> ('h, unit) client_io" where
  "createHydraClient P E E' i = WithSessionPolicyLock E (writeHydraClient P E' i)"

definition rewriteHydraClient :: "'h deployment \<Rightarrow> env \<Rightarrow> oidcClientInput \<Rightarrow> ('h, unit) client_io" where
  "rewriteHydraClient P E i =
     bindS (inCore (inDb (read_SessionPolicy E))) (\<lambda>p.
     bindS (doProvider P (PutClient (in_ID i) (marshalHydraClient i p))) (\<lambda>st.
     guardS (st = 200) (Failed (''Hydra update client returned '' @ decimal st))))"

definition updateHydraClient :: "'h deployment \<Rightarrow> env \<Rightarrow> env \<Rightarrow> oidcClientInput \<Rightarrow> ('h, unit) client_io" where
  "updateHydraClient P E E' i = WithSessionPolicyLock E (rewriteHydraClient P E' i)"

definition deleteHydraClient :: "'h deployment \<Rightarrow> string \<Rightarrow> ('h, unit) client_io" where
  "deleteHydraClient P clientID =
     bindS (doProvider P (DeleteClient clientID)) (\<lambda>st.
     bindS (guardS (st \<noteq> 404) errHydraClientNotFound) (\<lambda>_.
     guardS (st = 204) (Failed (''Hydra delete client returned '' @ decimal st))))"

definition createOIDCClient :: "'h deployment \<Rightarrow> server \<Rightarrow> oidcClientInput \<Rightarrow> actor \<Rightarrow> ('h, oidcClient) client_io" where
  "createOIDCClient P V i requester = (case validate_input (sv_env V 0) i of Some e \<Rightarrow> failS e
     | None \<Rightarrow>
     bindS (tryS (createHydraClient P (sv_env V 1) (sv_env V 2) i)) (\<lambda>made.
     case made of
       Inl e \<Rightarrow> failS (if e = errHydraClientConflict then e else DependencyError ''the OAuth client could not be registered'')
     | Inr _ \<Rightarrow>
       (let client = (registeredOIDCClient i)\<lparr>ClientName := in_Name i\<rparr> in
        bindS (inCore (note_event V 3 requester AuditOIDCClientCreated []
          [(''client_id'', DText (ClientID client)), (''client_name'', DText (ClientName client)),
           (''redirect_uris'', DOther (json_texts P (RedirectURIs client)))])) (\<lambda>_.
        retS client))))"

definition isBootstrapClient :: "'h deployment \<Rightarrow> string \<Rightarrow> bool" where
  "isBootstrapClient P clientID \<longleftrightarrow> list_ex (\<lambda>b. ba_OIDCClientID b = clientID) (BootstrapApps P)"

definition bootstrapSlugs :: "'h deployment \<Rightarrow> string list" where
  "bootstrapSlugs P = map ba_Slug (BootstrapApps P)"

definition deleteOIDCClient :: "'h deployment \<Rightarrow> server \<Rightarrow> string \<Rightarrow> actor \<Rightarrow> ('h, unit) client_io" where
  "deleteOIDCClient P V clientID requester =
     bindS (guardS (deletableOIDCClientID clientID) (invalidInput ''OAuth client identifier is invalid'')) (\<lambda>_.
     bindS (guardS (\<not> isBootstrapClient P clientID) errOIDCClientDeploymentOwned) (\<lambda>_.
     bindS (WithOIDCClientLock (sv_env V 0)
       (bindS (inCore (inDb (ManagedAppUsesOIDCClient (sv_env V 1) clientID))) (\<lambda>used.
        bindS (guardS (\<not> used) errOIDCClientInUse) (\<lambda>_.
        bindS (tryS (deleteHydraClient P clientID)) (\<lambda>gone.
        case gone of
          Inl e \<Rightarrow> failS (if e = errHydraClientNotFound then e else DependencyError ''the OAuth client could not be deleted'')
        | Inr _ \<Rightarrow> retS ()))))) (\<lambda>_.
     inCore (note_event V 2 requester AuditOIDCClientDeleted [] [(''client_id'', DText clientID)]))))"

subsection \<open>The application catalog\<close>

definition createApp :: "'h deployment \<Rightarrow> server \<Rightarrow> app_row \<Rightarrow> actor \<Rightarrow> ('h, app_row) client_io" where
  "createApp P V a requester =
     bindS (WithOIDCClientLock (sv_env V 0)
       (bindS (tryS (hydraClients P)) (\<lambda>listed.
        case listed of Inl _ \<Rightarrow> failS (DependencyError ''the OAuth client could not be verified'')
        | Inr clients \<Rightarrow>
        (case find (\<lambda>c. ClientID c = app_client a) clients of
           None \<Rightarrow> failS (invalidField ''oidc_client_id'' ''register the OIDC client before adding its app'')
         | Some registered \<Rightarrow>
           (let app = a\<lparr>app_contract_hash := oidcClientContractHash (json_contract P) (sv_env V 1) registered\<rparr> in
            bindS (checkedS (ValidateManagedApp (sv_env V 1) app)) (\<lambda>_.
            bindS (checkedS (validateManagedAppClient (sv_env V 1) app registered)) (\<lambda>_.
            inCore (inDb (CreateManagedApp (sv_env V 1) app)))))))))
       (\<lambda>created.
     bindS (inCore (note_event V 2 requester AuditAppCreated [] [(''slug'', DText (app_slug created)),
       (''oidc_client_id'', DText (app_client created)), (''release_revision'', DText (app_revision created))])) (\<lambda>_.
     retS created))"

definition deleteApp :: "'h deployment \<Rightarrow> server \<Rightarrow> ManagedAppRef \<Rightarrow> actor \<Rightarrow> ('h, unit) client_io" where
  "deleteApp P V ref requester =
     bindS (if ref_ID ref \<noteq> [] then requireUUID (ref_ID ref) ErrManagedAppNotFound else retS ()) (\<lambda>_.
     bindS (inCore (inDb (DeleteManagedApp (sv_env V 0) ref (bootstrapSlugs P)))) (\<lambda>slug.
     inCore (note_event V 1 requester AuditAppDeleted [] [(''id'', DText (ref_ID ref)), (''slug'', DText slug)])))"

text \<open>The result names each queued check by slug and direction.\<close>

definition enqueueAppValidations :: "'h deployment \<Rightarrow> server \<Rightarrow> ManagedAppRef \<Rightarrow> actor \<Rightarrow> ('h, (string \<times> direction) list) client_io" where
  "enqueueAppValidations P V ref requester =
     bindS (if ref_ID ref \<noteq> [] then requireUUID (ref_ID ref) ErrManagedAppNotFound else retS ()) (\<lambda>_.
     bindS (inCore (inDb (EnqueueAppValidations (sv_env V 0) ref (actor_UserID requester) (now_of V 0)))) (\<lambda>slugs.
     bindS (inCore (note_event V 1 requester AuditValidationEnqueued [] [(''applications'', DOther (json_texts P slugs))])) (\<lambda>_.
     retS (concat (map (\<lambda>slug. [(slug, FromShauth), (slug, FromApp)]) slugs)))))"

subsection \<open>Reconciliation at start-up\<close>

definition assertHydraClientReconciled :: "'h deployment \<Rightarrow> oidcClientInput \<Rightarrow> ('h, unit) client_io" where
  "assertHydraClientReconciled P i =
     bindS (hydraClients P) (\<lambda>clients.
     case find (\<lambda>c. ClientID c = in_ID i) clients of
       None \<Rightarrow> failS (Failed ''registered client was not returned by the authorization provider'')
     | Some c \<Rightarrow>
       bindS (guardS (ClientName c = in_Name i \<and> sameStringSet (RedirectURIs c) (in_RedirectURIs i) \<and>
           sameStringSet (PostLogoutRedirectURIs c) (in_PostLogoutRedirectURIs i) \<and>
           FrontChannelLogoutURI c = in_FrontChannelLogoutURI i \<and> BackChannelLogoutURI c = in_BackChannelLogoutURI i)
         (Failed ''registered redirect or logout coordinates differ from bootstrap configuration'')) (\<lambda>_.
       guardS (TokenEndpointAuth c = ''client_secret_post'' \<and>
           sameStringSet (GrantTypes c) [''authorization_code'', ''refresh_token''] \<and> sameStringSet (ResponseTypes c) [''code''])
         (Failed ''registered token authentication contract differs from bootstrap configuration'')))"

definition bootstrap_input :: "BootstrapApp \<Rightarrow> oidcClientInput" where
  "bootstrap_input b = \<lparr>in_ID = ba_OIDCClientID b, in_Name = ba_Name b, in_Secret = ba_OIDCClientSecret b,
     in_RedirectURIs = ba_RedirectURIs b, in_PostLogoutRedirectURIs = ba_PostLogoutRedirectURIs b,
     in_FrontChannelLogoutURI = ba_FrontChannelLogoutURI b, in_BackChannelLogoutURI = ba_BackChannelLogoutURI b\<rparr>"

definition bootstrap_app :: "'h deployment \<Rightarrow> env \<Rightarrow> BootstrapApp \<Rightarrow> app_row" where
  "bootstrap_app P E b = \<lparr>app_id = [], app_slug = ba_Slug b, app_name = ba_Name b, app_description = ba_Description b,
     app_launch_url = ba_LaunchURL b, app_client = ba_OIDCClientID b,
     app_contract_hash = oidcClientContractHash (json_contract P) E (registeredOIDCClient (bootstrap_input b)),
     app_health_url = ba_HealthURL b, app_monitoring_url = ba_MonitoringURL b, app_validation_url = ba_ValidationURL b,
     app_signed_out_url = ba_SignedOutURL b, app_revision = ba_ReleaseRevision b, app_created = 0\<rparr>"

text \<open>The first loop of \<open>bootstrapApps\<close>: every declared application is checked before anything is changed.\<close>

fun bootstrap_registrations ::
  "'h deployment \<Rightarrow> env \<Rightarrow> string list \<Rightarrow> string list \<Rightarrow> BootstrapApp list \<Rightarrow> error + (oidcClientInput \<times> app_row) list" where
  "bootstrap_registrations P E seenSlugs seenClientIDs [] = Inr []"
| "bootstrap_registrations P E seenSlugs seenClientIDs (b # bs) =
     (let i = bootstrap_input b; a = bootstrap_app P E b in
      case first_Some [validate_input E i, ValidateManagedApp E a, validateManagedAppClient E a (registeredOIDCClient i),
          (if app_slug a \<in> set seenSlugs then Some (Failed ''bootstrap managed app slug is duplicated'') else None),
          (if in_ID i \<in> set seenClientIDs then Some (Failed ''bootstrap OAuth client is duplicated'') else None)] of
        Some e \<Rightarrow> Inl e
      | None \<Rightarrow> and_then (bootstrap_registrations P E (app_slug a # seenSlugs) (in_ID i # seenClientIDs) bs) (\<lambda>rs. Inr ((i, a) # rs)))"

definition bootstrapRetryInterval :: duration where "bootstrapRetryInterval = second"
definition bootstrapRetryTimeout :: duration where "bootstrapRetryTimeout = 45 * second"

text \<open>
  Waiting for Hydra. \<open>now\<close> is the time a pass begins at and \<open>delays i\<close> what the \<open>i\<close>-th pass takes beyond the
  interval, since \<open>time.Sleep\<close> pauses for at least as long as it is told.
\<close>

function wait_for_clients :: "'h deployment \<Rightarrow> (nat \<Rightarrow> nat) \<Rightarrow> time \<Rightarrow> nat \<Rightarrow> time \<Rightarrow> ('h, oidcClient list) client_io" where
  "wait_for_clients P delays deadline i now =
     bindS (tryS (hydraClients P)) (\<lambda>listed. case listed of
       Inr clients \<Rightarrow> retS clients
     | Inl e \<Rightarrow> if deadline < now + int (delays i) then failS e
         else wait_for_clients P delays deadline (Suc i) (now + int (delays i) + bootstrapRetryInterval))"
  by pat_completeness auto
termination
  by (relation "measure (\<lambda>(P, delays, deadline, i, now). nat (deadline + bootstrapRetryInterval - now))")
    (auto simp: bootstrapRetryInterval_def second_def)

declare wait_for_clients.simps [simp del]

definition LockBootstrapManagedApps :: "env \<Rightarrow> ('h, unit) client_io" where
  "LockBootstrapManagedApps E =
     bindS (query E ''acquire bootstrap reconciliation connection'' (\<lambda>w. ())) (\<lambda>_.
     query E ''lock bootstrap reconciliation'' (\<lambda>w. ()))"

text \<open>The second loop: which applications are already in the catalog and which clients exist.\<close>

fun check_ownership :: "(nat \<Rightarrow> server) \<Rightarrow> nat \<Rightarrow> oidcClient list \<Rightarrow> (oidcClientInput \<times> app_row) list \<Rightarrow>
    ('h, (oidcClientInput \<times> app_row \<times> bool) list) client_io" where
  "check_ownership W k clients [] = retS []"
| "check_ownership W k clients ((i, a) # rs) =
     bindS (inCore (inDb (ValidateBootstrapManagedAppOwnership (sv_env (W k) 0) a))) (\<lambda>owned.
     let clientExists = list_ex (\<lambda>c. ClientID c = in_ID i) clients in
     bindS (guardS (\<not> (clientExists \<and> \<not> owned)) (Failed ''bootstrap OAuth client exists without its matching managed app'')) (\<lambda>_.
     bindS (check_ownership W (Suc k) clients rs) (\<lambda>checked.
     retS ((i, a, clientExists) # checked))))"

text \<open>The third loop: each client and its catalog row, under the lock of the client.\<close>

definition register_bootstrap :: "'h deployment \<Rightarrow> server \<Rightarrow> oidcClientInput \<Rightarrow> app_row \<Rightarrow> bool \<Rightarrow> ('h, unit) client_io" where
  "register_bootstrap P V i a clientExists =
     WithOIDCClientLock (sv_env V 1)
       (bindS (if clientExists then updateHydraClient P (sv_env V 2) (sv_env V 3) i
          else createHydraClient P (sv_env V 2) (sv_env V 3) i) (\<lambda>_.
        bindS (tryS (inCore (inDb (ReconcileBootstrapManagedApp (sv_env V 4) a)))) (\<lambda>stored.
        case stored of
          Inl e \<Rightarrow> bindS (if clientExists then retS () else deleteHydraClient P (in_ID i)) (\<lambda>_. failS e)
        | Inr _ \<Rightarrow> assertHydraClientReconciled P i)))"

fun register_all :: "'h deployment \<Rightarrow> (nat \<Rightarrow> server) \<Rightarrow> nat \<Rightarrow> (oidcClientInput \<times> app_row \<times> bool) list \<Rightarrow> ('h, unit) client_io" where
  "register_all P W k [] = retS ()"
| "register_all P W k ((i, a, clientExists) # rs) =
     bindS (register_bootstrap P (W k) i a clientExists) (\<lambda>_. register_all P W (Suc k) rs)"

text \<open>\<open>byID\<close> keeps the last client with an identifier.\<close>

fun verify_apps :: "'h deployment \<Rightarrow> server \<Rightarrow> nat \<Rightarrow> oidcClient list \<Rightarrow> app_row list \<Rightarrow> ('h, unit) client_io" where
  "verify_apps P V k clients [] = retS ()"
| "verify_apps P V k clients (a # as) =
     bindS (checkedS (ValidateManagedApp (sv_env V 0) a)) (\<lambda>_.
     case find (\<lambda>c. ClientID c = app_client a) (rev clients) of
       None \<Rightarrow> failS (Failed ''managed app references missing OAuth client'')
     | Some c \<Rightarrow>
       bindS (checkedS (validateManagedAppClient (sv_env V 0) a c)) (\<lambda>_.
       let contractHash = oidcClientContractHash (json_contract P) (sv_env V 0) c in
       bindS (if app_contract_hash a \<noteq> contractHash
         then inCore (inDb (ReconcileManagedAppOIDCContract (sv_env V (k + 2)) (app_id a) contractHash)) else retS ()) (\<lambda>_.
       verify_apps P V (Suc k) clients as)))"

definition assertManagedAppRegistrations :: "'h deployment \<Rightarrow> server \<Rightarrow> ('h, unit) client_io" where
  "assertManagedAppRegistrations P V =
     bindS (inCore (inDb (ListManagedApps (sv_env V 1)))) (\<lambda>as.
     bindS (hydraClients P) (\<lambda>clients. verify_apps P V 0 clients as))"

definition bootstrapApps :: "'h deployment \<Rightarrow> server \<Rightarrow> (nat \<Rightarrow> server) \<Rightarrow> (nat \<Rightarrow> nat) \<Rightarrow> ('h, unit) client_io" where
  "bootstrapApps P V W delays =
     (case bootstrap_registrations P (sv_env V 0) [] [] (BootstrapApps P) of Inl e \<Rightarrow> failS e
      | Inr rs \<Rightarrow>
        bindS (LockBootstrapManagedApps (sv_env V 0)) (\<lambda>_.
        bindS (wait_for_clients P delays (now_of V 0 + bootstrapRetryTimeout) 0 (now_of V 0)) (\<lambda>clients.
        bindS (check_ownership W 0 clients rs) (\<lambda>checked.
        bindS (register_all P W 0 checked) (\<lambda>_.
        assertManagedAppRegistrations P V)))))"

subsection \<open>Operators' units\<close>

lemma and_then_Inr: "and_then z f = Inr y \<longleftrightarrow> (\<exists>x. z = Inr x \<and> f x = Inr y)"
  by (cases z) auto

lemma parse_units_Inr:
  assumes "parse_units name v unit = Inr d" "0 < unit"
  shows "0 < v" "d = v * unit"
proof -
  have max: "0 \<le> 90 * 24 * hour" "90 * 24 * hour < 2 ^ 63" by (simp_all add: duration_units)
  from assms have v: "0 < v" "v \<le> 90 * 24 * hour div unit" "d = wrap64 (v * unit)"
    using max(1) by (auto simp: parse_units_def Let_def in_units_def sgn_if duration_units split: if_splits)
  have "v * unit \<le> 90 * 24 * hour div unit * unit" using v(2) assms(2) by (intro mult_right_mono) auto
  also have "\<dots> \<le> 90 * 24 * hour" using assms(2) by (simp add: div_times_less_eq_dividend minus_mod_eq_div_mult [symmetric])
  finally have "v * unit < 2 ^ 63" using max(2) by simp
  moreover have "0 \<le> v * unit" using v(1) assms(2) by simp
  ultimately have "wrap64 (v * unit) = v * unit" by (intro wrap64_id) auto
  with v show "0 < v" "d = v * unit" by auto
qed

lemma units_positive: "0 < hour" "0 < minute" "0 < second"
  by (simp_all add: duration_units)

lemma in_units_times: "0 < v \<Longrightarrow> 0 < unit \<Longrightarrow> in_units (v * unit) unit = v"
  by (simp add: in_units_def sgn_mult abs_mult)

lemma whole_minutes: "v * minute div second * second = v * minute" "v * hour div second * second = v * hour"
  by (simp_all add: duration_units)

lemma sessionPolicy_Inr:
  assumes "sessionPolicy r = Inr p"
  shows "Validate p = None" "truncated p = p" "newSessionPolicyRecord (p\<lparr>UpdatedAt := t\<rparr>) = r\<lparr>RecordUpdatedAt := t\<rparr>"
proof -
  from assms obtain a b c d e f where
      parsed: "parse_units ''browser_absolute_hours'' (BrowserAbsoluteHours r) hour = Inr a"
        "parse_units ''browser_idle_minutes'' (BrowserIdleMinutes r) minute = Inr b"
        "parse_units ''oidc_sso_hours'' (OIDCSSOHours r) hour = Inr c"
        "parse_units ''access_token_minutes'' (AccessTokenMinutes r) minute = Inr d"
        "parse_units ''id_token_minutes'' (IDTokenMinutes r) minute = Inr e"
        "parse_units ''refresh_token_hours'' (RefreshTokenHours r) hour = Inr f"
    and p: "p = \<lparr>BrowserAbsoluteLifetime = a, BrowserIdleTimeout = b, OIDCSessionLifetime = c, AccessTokenLifetime = d,
        IDTokenLifetime = e, RefreshTokenLifetime = f, UpdatedAt = 0\<rparr>" "Validate p = None"
    by (auto simp: sessionPolicy_def and_then_Inr Let_def split: option.splits)
  note u = parsed [THEN parse_units_Inr(2)] parsed [THEN parse_units_Inr(1)]
  show "Validate p = None" by (rule p(2))
  show "truncated p = p" by (simp add: p(1) truncated_def u units_positive whole_minutes)
  show "newSessionPolicyRecord (p\<lparr>UpdatedAt := t\<rparr>) = r\<lparr>RecordUpdatedAt := t\<rparr>"
    by (simp add: p(1) newSessionPolicyRecord_def u units_positive in_units_times)
qed

subsection \<open>What Hydra documents\<close>

definition client_ids :: "'h deployment \<Rightarrow> 'h \<Rightarrow> string set" where
  "client_ids P h = ClientID ` set (h_clients P h)"

text \<open>An identifier that is one path segment of its own; the others name another resource once the path is resolved.\<close>

definition addressable :: "string \<Rightarrow> bool" where
  "addressable i \<longleftrightarrow> i \<noteq> [] \<and> i \<noteq> ''.'' \<and> i \<noteq> ''..''"

definition all_addressable :: "'h deployment \<Rightarrow> 'h \<Rightarrow> bool" where
  "all_addressable P h \<longleftrightarrow> (\<forall>i \<in> client_ids P h. addressable i)"

definition payload_text :: "string \<Rightarrow> payload \<Rightarrow> string" where
  "payload_text k m = (case map_of m k of Some (JText t) \<Rightarrow> t | _ \<Rightarrow> [])"

definition payload_lifespans :: "payload \<Rightarrow> (string \<times> string) list" where
  "payload_lifespans m = concat (map (\<lambda>(k, v). if has_suffix ''_lifespan'' k then [(k, case v of JText t \<Rightarrow> t | _ \<Rightarrow> [])] else []) m)"

text \<open>
  Hydra's administration interface: a complete listing names the registered clients; setting the lifetimes of a client
  changes only these; registering and replacing a client store what was sent; removing one removes it alone.
\<close>

definition documented :: "'h deployment \<Rightarrow> bool" where
  "documented P \<longleftrightarrow>
     (\<forall>n h cs. listHydraClients (h_page_token P) (h_pages P n h) = Inr cs \<longrightarrow> set cs = set (h_clients P h)) \<and>
     (\<forall>i ls h. addressable i \<longrightarrow> h_clients P (h_apply P (PutLifespans i ls) h) = h_clients P h \<and>
        h_lifespans P (h_apply P (PutLifespans i ls) h) = (h_lifespans P h)(i := ls)) \<and>
     (\<forall>m h. client_ids P (h_apply P (PostClient m) h) = insert (payload_text ''client_id'' m) (client_ids P h) \<and>
        h_lifespans P (h_apply P (PostClient m) h) = (h_lifespans P h)(payload_text ''client_id'' m := payload_lifespans m)) \<and>
     (\<forall>i m h. addressable i \<longrightarrow> client_ids P (h_apply P (PutClient i m) h) = client_ids P h \<and>
        h_lifespans P (h_apply P (PutClient i m) h) = (h_lifespans P h)(i := payload_lifespans m)) \<and>
     (\<forall>i h. addressable i \<longrightarrow> client_ids P (h_apply P (DeleteClient i) h) = client_ids P h - {i} \<and>
        (\<forall>j. j \<noteq> i \<longrightarrow> h_lifespans P (h_apply P (DeleteClient i) h) j = h_lifespans P h j))"

lemma documented_listing: "documented P \<Longrightarrow> listHydraClients (h_page_token P) (h_pages P n h) = Inr cs \<Longrightarrow> set cs = set (h_clients P h)"
  unfolding documented_def by (elim conjE) (rotate_tac -1, blast)

lemma documented_lifespans: "documented P \<Longrightarrow> addressable i \<Longrightarrow> h_clients P (h_apply P (PutLifespans i ls) h) = h_clients P h \<and>
    h_lifespans P (h_apply P (PutLifespans i ls) h) = (h_lifespans P h)(i := ls)"
  unfolding documented_def by (elim conjE) blast

lemma documented_post: "documented P \<Longrightarrow> client_ids P (h_apply P (PostClient m) h) = insert (payload_text ''client_id'' m) (client_ids P h) \<and>
    h_lifespans P (h_apply P (PostClient m) h) = (h_lifespans P h)(payload_text ''client_id'' m := payload_lifespans m)"
  unfolding documented_def by (elim conjE) (simp only:)

lemma documented_put: "documented P \<Longrightarrow> addressable i \<Longrightarrow> client_ids P (h_apply P (PutClient i m) h) = client_ids P h \<and>
    h_lifespans P (h_apply P (PutClient i m) h) = (h_lifespans P h)(i := payload_lifespans m)"
  unfolding documented_def by (elim conjE) (simp only:)

lemma documented_delete: "documented P \<Longrightarrow> addressable i \<Longrightarrow> client_ids P (h_apply P (DeleteClient i) h) = client_ids P h - {i} \<and>
    (\<forall>j. j \<noteq> i \<longrightarrow> h_lifespans P (h_apply P (DeleteClient i) h) j = h_lifespans P h j)"
  unfolding documented_def by (elim conjE) blast

subsection \<open>Running the requests\<close>

lemma inCore_run: "inCore m w = (r, w') \<longleftrightarrow> (\<exists>c. m (core w) = (r, c) \<and> w' = w\<lparr>core := c\<rparr>)"
  by (auto simp: inCore_def split: prod.splits)

lemma doProvider_run:
  assumes "doProvider P c w = (r, w')"
  shows "core w' = core w" "provider w' = provider w \<or> provider w' = h_apply P c (provider w)"
    "r = Inr st \<Longrightarrow> 200 \<le> st \<Longrightarrow> st < 300 \<Longrightarrow> provider w' = h_apply P c (provider w)"
  using assms by (auto simp: doProvider_def Let_def split: option.splits if_splits)

lemma hydraClients_run: "hydraClients P w = (r, w') \<Longrightarrow> core w' = core w \<and> provider w' = provider w \<and>
    r = listHydraClients (h_page_token P) (h_pages P (calls w) (provider w))"
  by (auto simp: hydraClients_def)

lemma guard_run: "guardS b e s = (r, s') \<longleftrightarrow> s' = s \<and> r = (if b then Inr () else Inl e)"
  by (auto simp: guardS_def retS_def failS_def)

lemma put_lifespans_run:
  assumes "documented P"
  shows "\<forall>c \<in> set cs. ClientID c = [] \<or> addressable (ClientID c) \<Longrightarrow> put_lifespans P ls cs w = (r, w') \<Longrightarrow>
    core w' = core w \<and> h_clients P (provider w') = h_clients P (provider w) \<and>
    (\<forall>i. h_lifespans P (provider w') i \<in> {h_lifespans P (provider w) i, ls}) \<and>
    (\<forall>x. r = Inr x \<longrightarrow> (\<forall>c \<in> set cs. h_lifespans P (provider w') (ClientID c) = ls))"
proof (induction cs arbitrary: w)
  case Nil
  then show ?case by (simp add: retS_def)
next
  case (Cons c cs)
  show ?case
  proof (cases "ClientID c = []")
    case True
    with Cons.prems(2) show ?thesis by (auto simp: bindS_def guardS_def failS_def)
  next
    case False
    with Cons.prems(1) have addr: "addressable (ClientID c)" by simp
    from Cons.prems(2) False have run: "bindS (doProvider P (PutLifespans (ClientID c) ls)) (\<lambda>st.
        bindS (guardS (st = 200) (Failed (''Hydra update client '' @ ClientID c @ '' lifespans returned '' @ decimal st))) (\<lambda>_.
        put_lifespans P ls cs)) w = (r, w')"
      by (simp add: bindS_def guardS_def retS_def)
    note put = documented_lifespans [OF assms addr, of ls "provider w"]
    from run show ?thesis
    proof (cases rule: bind_cases)
      case (1 e)
      with doProvider_run(1,2) [OF 1(1)] put show ?thesis by auto
    next
      case (2 st t)
      note t = doProvider_run [OF 2(1)]
      from t(2) put have t': "h_clients P (provider t) = h_clients P (provider w)"
        "\<forall>i. h_lifespans P (provider t) i \<in> {h_lifespans P (provider w) i, ls}" by auto
      show ?thesis
      proof (cases "st = 200")
        case True
        with 2(2) have rest: "put_lifespans P ls cs t = (r, w')" by (simp add: bindS_def guardS_def retS_def)
        from t(3) [of st] True put have "h_lifespans P (provider t) (ClientID c) = ls" by simp
        then have c: "h_lifespans P (provider t) (ClientID c) = ls" .
        from Cons.prems(1) have "\<forall>c \<in> set cs. ClientID c = [] \<or> addressable (ClientID c)" by simp
        note ih = Cons.IH [OF this rest]
        have each: "h_lifespans P (provider w') i \<in> {h_lifespans P (provider w) i, ls}" for i
          using ih [THEN conjunct2, THEN conjunct2, THEN conjunct1, THEN spec, of i] t'(2) [THEN spec, of i] by auto
        have "h_lifespans P (provider w') (ClientID c) = ls"
          using ih [THEN conjunct2, THEN conjunct2, THEN conjunct1, THEN spec, of "ClientID c"] c by auto
        with ih each t(1) t'(1) show ?thesis by simp
      next
        case False
        with 2(2) have "w' = t" "\<exists>e. r = Inl e" by (auto simp: bindS_def guardS_def failS_def)
        with t(1) t' show ?thesis by auto
      qed
    qed
  qed
qed

text \<open>Setting the lifetimes of all clients changes nothing else, and when it succeeds every client has them.\<close>

lemma applyHydraSessionPolicy_run:
  assumes "documented P" "all_addressable P (provider w)" "applyHydraSessionPolicy P p w = (r, w')"
  shows "core w' = core w \<and> h_clients P (provider w') = h_clients P (provider w) \<and>
    (\<forall>x. r = Inr x \<longrightarrow> (\<forall>i \<in> client_ids P (provider w'). h_lifespans P (provider w') i = hydraClientLifespans p))"
proof -
  from assms(3) [unfolded applyHydraSessionPolicy_def] show ?thesis
  proof (cases rule: bind_cases)
    case (1 e)
    then show ?thesis using hydraClients_run [OF 1(1)] by auto
  next
    case (2 cs t)
    note t = hydraClients_run [OF 2(1)]
    then have set: "set cs = set (h_clients P (provider w))" using documented_listing [OF assms(1)] by metis
    with assms(2) have "\<forall>c \<in> set cs. ClientID c = [] \<or> addressable (ClientID c)"
      by (auto simp: all_addressable_def client_ids_def)
    with put_lifespans_run [OF assms(1) this 2(2)] t set show ?thesis by (auto simp: client_ids_def)
  qed
qed

subsection \<open>The policy and the clients' lifetimes\<close>

lemma lock_split:
  "(if A then (Inl a, w) else if B then (Inl b, w) else if C then (Inl c, w)
    else case z of (Inl e, v) \<Rightarrow> (Inl e, back v) | (Inr x, v) \<Rightarrow> if D then (Inl d, back v) else (Inr x, v)) = (r, w') \<Longrightarrow>
   (\<exists>e. r = Inl e \<and> w' = w) \<or> (\<exists>e v. z = (Inl e, v) \<and> r = Inl e \<and> w' = back v) \<or>
   (\<exists>x v. z = (Inr x, v) \<and> r = Inr x \<and> w' = v) \<or> (\<exists>x v e. z = (Inr x, v) \<and> D \<and> r = Inl e \<and> w' = back v)"
  by (auto split: if_splits prod.splits sum.splits)

lemma withTransactionLock_cases:
  assumes "withTransactionLock E what run w = (r, w')"
  obtains e where "r = Inl e" "w' = w"
  | e v where "run w = (Inl e, v)" "r = Inl e" "w' = rolled_back w v"
  | x v where "run w = (Inr x, v)" "r = Inr x" "w' = v"
  | x v e where "run w = (Inr x, v)" "fault E (''commit '' @ what @ '' lock'')" "r = Inl e" "w' = rolled_back w v"
proof -
  have parts: "(\<exists>e. r = Inl e \<and> w' = w) \<or> (\<exists>e v. run w = (Inl e, v) \<and> r = Inl e \<and> w' = rolled_back w v) \<or>
      (\<exists>x v. run w = (Inr x, v) \<and> r = Inr x \<and> w' = v) \<or>
      (\<exists>x v e. run w = (Inr x, v) \<and> fault E (''commit '' @ what @ '' lock'') \<and> r = Inl e \<and> w' = rolled_back w v)"
    by (rule lock_split, rule assms [unfolded withTransactionLock_def Let_def])
  show thesis using parts by (elim disjE exE conjE) (rule that; assumption)+
qed

lemma rolled_back_simps [simp]: "provider (rolled_back w v) = provider v" "store (core (rolled_back w v)) = store (core w)"
  by (simp_all add: rolled_back_def)

text \<open>Every registered client issues tokens with the lifetimes of the stored policy.\<close>

definition in_step :: "'h deployment \<Rightarrow> 'h client_world \<Rightarrow> bool" where
  "in_step P w \<longleftrightarrow> (\<exists>row. policy (store (core w)) = Some row \<and>
     (\<forall>i \<in> client_ids P (provider w). h_lifespans P (provider w) i = hydraClientLifespans (policy_of_row row)))"

text \<open>The attempt to give the clients their previous lifetimes back failed as well.\<close>

definition restore_failed :: "'h deployment \<Rightarrow> 'h client_world \<Rightarrow> 'h client_world \<Rightarrow> bool" where
  "restore_failed P w w' \<longleftrightarrow> (\<exists>row v e v'. policy (store (core w)) = Some row \<and>
     applyHydraSessionPolicy P (policy_of_row row) v = (Inl e, v') \<and> provider w' = provider v')"

lemma lifespans_updated [simp]: "hydraClientLifespans (p\<lparr>UpdatedAt := t\<rparr>) = hydraClientLifespans p"
  by (simp add: hydraClientLifespans_def)

lemma read_policy_state: "inCore (inDb (read_SessionPolicy E)) w = (r, w') \<Longrightarrow> w' = w"
proof -
  assume "inCore (inDb (read_SessionPolicy E)) w = (r, w')"
  then obtain s where s: "read_SessionPolicy E (store (core w)) = (r, s)" "w' = w\<lparr>core := (core w)\<lparr>store := s\<rparr>\<rparr>"
    by (auto simp: inCore_run inDb_run)
  have "s = store (core w)" using arg_cong [OF s(1), of snd] by simp
  with s(2) show ?thesis by simp
qed

lemma read_policy_run: "inCore (inDb (read_SessionPolicy E)) w = (Inr p, w') \<Longrightarrow>
    w' = w \<and> (\<exists>row. policy (store (core w)) = Some row \<and> p = policy_of_row row)"
  by (auto simp: inCore_run inDb_run read_SessionPolicy_Inr)

lemma note_run: "inCore (note_event V n who l sub ds) w = (r, w') \<Longrightarrow>
    r = Inr () \<and> provider w' = provider w \<and> (\<exists>xs. store (core w') = store (core w)\<lparr>audits := xs\<rparr>)"
  using record_event_frame [of "sv_env V n" who l sub ds "store (core w)"]
  by (auto simp: inCore_run note_event_def inDb_run)

lemma noted_run: "bindS (inCore (note_event V n who l sub ds)) (\<lambda>_. retS x) w = (r, w') \<Longrightarrow>
    r = Inr x \<and> provider w' = provider w \<and> (\<exists>xs. store (core w') = store (core w)\<lparr>audits := xs\<rparr>)"
  by (erule bind_cases) (auto dest: note_run simp: retS_def)

text \<open>Trying to restore: the clients are in step again, or the attempt failed.\<close>

lemma restore_run:
  assumes "documented P" "all_addressable P (provider v)" "policy (store (core w)) = Some row"
    and "bindS (tryS (applyHydraSessionPolicy P (policy_of_row row))) (\<lambda>_. failS e) v = (r, v')"
  shows "r = Inl e \<and> (in_step P (rolled_back w v') \<or> restore_failed P w (rolled_back w v'))"
proof -
  obtain z where run: "applyHydraSessionPolicy P (policy_of_row row) v = (z, v')" "r = Inl e"
    using assms(4) by (auto simp: bindS_def tryS_def failS_def split: prod.splits)
  show ?thesis
  proof (cases z)
    case (Inl e')
    with run assms(3) have "restore_failed P w (rolled_back w v')" unfolding restore_failed_def by auto
    with run show ?thesis by simp
  next
    case (Inr x)
    with applyHydraSessionPolicy_run [OF assms(1,2) run(1)] assms(3)
    have "in_step P (rolled_back w v')" by (auto simp: in_step_def)
    with run show ?thesis by simp
  qed
qed

lemma replaceSessionPolicy_run:
  assumes "documented P" "all_addressable P (provider w)" "replaceSessionPolicy P V p who w = (r, w')" "truncated p = p"
  shows "(\<forall>x. r = Inr x \<longrightarrow> in_step P w' \<and> x = newSessionPolicyRecord (p\<lparr>UpdatedAt := db_now (sv_env V 2)\<rparr>) \<and>
      (\<exists>row. policy (store (core w')) = Some row \<and> policy_of_row row = p\<lparr>UpdatedAt := db_now (sv_env V 2)\<rparr>)) \<and>
    (\<forall>e. r = Inl e \<longrightarrow> in_step P w \<longrightarrow> in_step P (rolled_back w w') \<or> restore_failed P w (rolled_back w w'))"
proof -
  from assms(3) [unfolded replaceSessionPolicy_def] show ?thesis
  proof (cases rule: bind_cases)
    case (1 e)
    then have "w' = w" by (auto dest: read_policy_state)
    with 1 show ?thesis by (auto simp: in_step_def)
  next
    case (2 previous t)
    from read_policy_run [OF 2(1)] obtain row where row: "t = w" "policy (store (core w)) = Some row" "previous = policy_of_row row" by blast
    obtain z v where ap: "applyHydraSessionPolicy P p w = (z, v)" by (cases "applyHydraSessionPolicy P p w")
    note v = applyHydraSessionPolicy_run [OF assms(1,2) ap]
    then have addr: "all_addressable P (provider v)" using assms(2) by (simp add: all_addressable_def client_ids_def)
    show ?thesis
    proof (cases z)
      case (Inl e)
      with 2(2) ap row have "bindS (tryS (applyHydraSessionPolicy P (policy_of_row row))) (\<lambda>_. failS policy_not_applied) v = (r, w')"
        by (simp add: bindS_def tryS_def)
      from restore_run [OF assms(1) addr row(2) this] show ?thesis by auto
    next
      case (Inr u)
      obtain y s where up: "inCore (inDb (UpdateSessionPolicy (sv_env V 2) p)) v = (y, s)"
        by (cases "inCore (inDb (UpdateSessionPolicy (sv_env V 2) p)) v")
      then have s: "provider s = provider v" by (auto simp: inCore_run)
      show ?thesis
      proof (cases y)
        case (Inl e)
        with 2(2) ap up Inr row have "bindS (tryS (applyHydraSessionPolicy P (policy_of_row row))) (\<lambda>_. failS e) s = (r, w')"
          by (simp add: bindS_def tryS_def)
        with restore_run [OF assms(1) _ row(2) this] addr s show ?thesis by auto
      next
        case y: (Inr changedAt)
        with up have "UpdateSessionPolicy (sv_env V 2) p (store (core v)) = (Inr changedAt, store (core s))"
          by (auto simp: inCore_run inDb_run)
        from UpdateSessionPolicy_Inr [OF this] have valid: "Validate p = None" and stored: "changedAt = db_now (sv_env V 2)"
          "policy (store (core s)) = Some (row_of_policy p changedAt)" by blast+
        from 2(2) ap Inr up y row(1) have "bindS (inCore (note_event V 3 who AuditSessionPolicyUpdated []
            [(''previous'', DOther (json_policy P (newSessionPolicyRecord previous))),
             (''applied'', DOther (json_policy P (newSessionPolicyRecord (p\<lparr>UpdatedAt := changedAt\<rparr>))))]))
            (\<lambda>_. retS (newSessionPolicyRecord (p\<lparr>UpdatedAt := changedAt\<rparr>))) s = (r, w')"
          by (simp add: bindS_def tryS_def)
        note q = noted_run [OF this]
        then have r: "r = Inr (newSessionPolicyRecord (p\<lparr>UpdatedAt := changedAt\<rparr>))" by simp
        from q s stored(2) have pol: "policy (store (core w')) = Some (row_of_policy p changedAt)" "provider w' = provider v" by auto
        have row': "policy_of_row (row_of_policy p changedAt) = p\<lparr>UpdatedAt := changedAt\<rparr>"
          using policy_of_row_of_policy [OF valid] assms(4) by simp
        with v Inr pol have "in_step P w'" by (auto simp: in_step_def)
        with r pol row' stored(1) show ?thesis by auto
      qed
    qed
  qed
qed

lemma updateSessionPolicy_run:
  assumes "documented P" "all_addressable P (provider w)" "updateSessionPolicy P V request who w = (r, w')"
  shows "(\<forall>x. r = Inr x \<longrightarrow> in_step P w' \<and> x = request\<lparr>RecordUpdatedAt := db_now (sv_env V 2)\<rparr> \<and>
      (\<exists>p row. sessionPolicy request = Inr p \<and> policy (store (core w')) = Some row \<and>
        policy_of_row row = p\<lparr>UpdatedAt := db_now (sv_env V 2)\<rparr>)) \<and>
    (\<forall>e. r = Inl e \<longrightarrow> store (core w') = store (core w) \<and>
      (in_step P w \<longrightarrow> in_step P w' \<or> restore_failed P w w' \<or> fault (sv_env V 0) ''commit session policy lock''))"
proof (cases "sessionPolicy request")
  case (Inl e)
  with assms(3) show ?thesis by (auto simp: updateSessionPolicy_def failS_def)
next
  case (Inr p)
  note p = sessionPolicy_Inr [OF Inr]
  from Inr assms(3) have "withTransactionLock (sv_env V 0) ''session policy'' (replaceSessionPolicy P V p who) w = (r, w')"
    by (simp add: updateSessionPolicy_def WithSessionPolicyLock_def)
  then show ?thesis
  proof (cases rule: withTransactionLock_cases)
    case (2 e v)
    with replaceSessionPolicy_run [OF assms(1,2) 2(1) p(2)] show ?thesis by auto
  next
    case (3 x v)
    with replaceSessionPolicy_run [OF assms(1,2) 3(1) p(2)] p(3) Inr show ?thesis by auto
  qed auto
qed

text \<open>C5. Changing the session policy keeps the provider and PostgreSQL in step. When it succeeds the stored policy is the requested
  one, to the unit, and every registered client has its lifetimes. When it fails the database is as before, and clients that
  were in step with it still are, unless the attempt to restore them failed too or the database refused the final commit.\<close>

theorem session_policy_in_step:
  assumes "documented P" "all_addressable P (provider w)" "updateSessionPolicy P V request who w = (r, w')"
  shows "(\<forall>x. r = Inr x \<longrightarrow> in_step P w' \<and> x = request\<lparr>RecordUpdatedAt := db_now (sv_env V 2)\<rparr> \<and>
      (\<exists>p row. sessionPolicy request = Inr p \<and> policy (store (core w')) = Some row \<and>
        policy_of_row row = p\<lparr>UpdatedAt := db_now (sv_env V 2)\<rparr>)) \<and>
    (\<forall>e. r = Inl e \<longrightarrow> store (core w') = store (core w) \<and>
      (in_step P w \<longrightarrow> in_step P w' \<or> restore_failed P w w' \<or> fault (sv_env V 0) ''commit session policy lock''))"
  by (rule updateSessionPolicy_run [OF assms])

end
