(* ===== verification/Catalog_Consistency.thy ===== *)
theory Catalog_Consistency
  imports Client_Operations
begin

text \<open>
  The application catalog, Ory Hydra's clients and the session policy stay consistent under every operation of
  \<open>Client_Operations\<close>: the client of each application is registered, and each client issues tokens with the lifetimes of
  the stored policy. Operations that remove nothing meet the contract \<open>grows\<close>.
\<close>

subsection \<open>No application is stranded\<close>

lemma strip_prefix_append: "strip_prefix p s = Some r \<Longrightarrow> strip_prefix p (s @ t) = Some (r @ t)"
  by (induction p s rule: strip_prefix.induct) (auto split: if_splits)

lemma strip_one_append: "strip_one ps s \<noteq> None \<Longrightarrow> strip_one ps (s @ t) \<noteq> None"
  by (induction ps) (auto simp: strip_prefix_append split: option.splits)

lemma trim_left_fixed: "[] \<notin> set ps \<Longrightarrow> strip_one ps (trim_left ps s) = None"
proof (induction ps s rule: trim_left.induct)
  case (1 ps s)
  show ?case
  proof (cases "strip_one ps s")
    case None
    with 1 show ?thesis by (simp add: trim_left.simps [of ps s])
  next
    case (Some r)
    with 1 show ?thesis by (simp add: trim_left.simps [of ps s])
  qed
qed

lemma strip_prefix_suffix: "strip_prefix p s = Some r \<Longrightarrow> s = p @ r"
  by (induction p s rule: strip_prefix.induct) (auto split: if_splits)

lemma strip_one_suffix: "strip_one ps s = Some r \<Longrightarrow> \<exists>p. s = p @ r"
  by (induction ps) (auto dest: strip_prefix_suffix split: option.splits)

lemma trim_left_step: "strip_one ps s = Some r \<Longrightarrow> [] \<notin> set ps \<Longrightarrow> trim_left ps s = trim_left ps r"
  by (simp add: trim_left.simps [of ps s])

lemma trim_left_suffix: "\<exists>p. s = p @ trim_left ps s"
proof (induction ps s rule: trim_left.induct)
  case (1 ps s)
  show ?case
  proof (cases "strip_one ps s = None \<or> [] \<in> set ps")
    case True
    then show ?thesis by (auto simp: trim_left.simps [of ps s])
  next
    case False
    then obtain r where r: "strip_one ps s = Some r" "[] \<notin> set ps" by auto
    from strip_one_suffix [OF r(1)] obtain p where p: "s = p @ r" ..
    from 1 r obtain q where "r = q @ trim_left ps r" by blast
    with p have "s = (p @ q) @ trim_left ps r" by simp
    then show ?thesis unfolding trim_left_step [OF r] ..
  qed
qed

lemma trim_left_id: "strip_one ps s = None \<Longrightarrow> trim_left ps s = s"
  by (simp add: trim_left.simps)

lemma TrimSpace_idem [simp]: "TrimSpace (TrimSpace s) = TrimSpace s"
proof -
  let ?l = "trim_left space_encodings s" and ?ps = "map rev space_encodings"
  have ne: "[] \<notin> set space_encodings" "[] \<notin> set ?ps" by (auto simp: space_encodings_def)
  obtain p where "rev ?l = p @ trim_left ?ps (rev ?l)" using trim_left_suffix by blast
  then have pre: "?l = TrimSpace s @ rev p"
    by (metis TrimSpace_def rev_append rev_rev_ident)
  have "strip_one space_encodings (TrimSpace s) = None"
    using trim_left_fixed [OF ne(1), of s] strip_one_append [of space_encodings "TrimSpace s" "rev p"] pre
    by (cases "strip_one space_encodings (TrimSpace s)") auto
  then have "trim_left space_encodings (TrimSpace s) = TrimSpace s" by (rule trim_left_id)
  moreover have "strip_one ?ps (rev (TrimSpace s)) = None"
    using trim_left_fixed [OF ne(2), of "rev ?l"] by (simp add: TrimSpace_def)
  then have "trim_left ?ps (rev (TrimSpace s)) = rev (TrimSpace s)" by (rule trim_left_id)
  ultimately show ?thesis by (simp add: TrimSpace_def [of "TrimSpace s"])
qed

text \<open>The clients the catalog names. An operation of the store adds at most the clients of \<open>C\<close> and leaves the policy alone.\<close>

definition catalog_clients :: "db \<Rightarrow> string set" where
  "catalog_clients s = app_client ` set (apps s)"

definition adds_clients :: "string set \<Rightarrow> db \<Rightarrow> db \<Rightarrow> bool" where
  "adds_clients C s s' \<longleftrightarrow> policy s' = policy s \<and> catalog_clients s' \<subseteq> C \<union> catalog_clients s"

interpretation ac: contract "adds_clients C" for C
  by unfold_locales (auto simp: adds_clients_def)

lemmas ac_reads = requester_arg_state [THEN ac.keeps_readonly] load_state [THEN ac.keeps_readonly]
  find_app_state [THEN ac.keeps_readonly]

lemma enqueue_each_adds: "obeys (adds_clients C) (enqueue_each E i all targets q now)"
  unfolding enqueue_each_def enqueueAppValidation_def enqueue_direction_def insert_run_def
  by (intro ac.keeps ac_reads ac.keeps_stmt) (auto simp: put_Inr adds_clients_def catalog_clients_def delete_runs_def split: if_splits)

lemma enqueue_all_adds: "obeys (adds_clients C) (enqueueAllAppValidations E i q now)"
  unfolding enqueueAllAppValidations_def by (intro ac.keeps ac_reads enqueue_each_adds)

lemma upsert_app_adds: "upsert_app E a s = Inr (r, s') \<Longrightarrow> adds_clients {app_client a} s s'"
  by (auto simp: upsert_app_def Let_def put_Inr adds_clients_def catalog_clients_def in_upd split: option.splits if_splits)

lemma record_event_adds: "obeys (adds_clients C) (record_event E who l sub ds)"
  unfolding obeys_def
proof
  fix s
  obtain xs where "record_event E who l sub ds s = (Inr (), s\<lparr>audits := xs\<rparr>)" using record_event_frame by blast
  then show "adds_clients C s (snd (record_event E who l sub ds s))" by (simp add: adds_clients_def catalog_clients_def)
qed

lemma catalog_adds:
  "obeys (adds_clients {}) (EnqueueAppValidations E ref q now)"
  "obeys (adds_clients {TrimSpace (app_client a)}) (CreateManagedApp E a)"
  "obeys (adds_clients {TrimSpace (app_client a)}) (ReconcileBootstrapManagedApp E a)"
  "obeys (adds_clients {}) (ReconcileManagedAppOIDCContract E i h)"
  "obeys (adds_clients {}) (DeleteManagedApp E ref owned)"
  "obeys (adds_clients {}) (record_event E who l sub ds)"
  unfolding EnqueueAppValidations_def CreateManagedApp_def ReconcileBootstrapManagedApp_def ReconcileManagedAppOIDCContract_def
    DeleteManagedApp_def
  subgoal by (intro ac.keeps ac_reads enqueue_each_adds)
  subgoal unfolding Let_def by (intro ac.keeps enqueue_all_adds ac.keeps_stmt)
      (auto simp: put_Inr adds_clients_def catalog_clients_def normalizeManagedApp_def)
  subgoal unfolding Let_def by (intro ac.keeps enqueue_all_adds ac.keeps_stmt) (auto dest: upsert_app_adds simp: normalizeManagedApp_def)
  subgoal by (intro ac.keeps ac_reads enqueue_all_adds ac.keeps_stmt)
      (auto simp: put_Inr adds_clients_def catalog_clients_def in_upd)
  subgoal by (intro ac.keeps ac_reads enqueue_all_adds ac.keeps_stmt)
      (auto simp: delete_app_def Let_def adds_clients_def catalog_clients_def delete_runs_def)
  subgoal by (rule record_event_adds)
  done

text \<open>
  Operations that remove no client and leave the policy alone: identifiers stay, the catalog names only clients it named
  before or registered ones, and every client has the lifetimes it had or those of the policy.
\<close>

definition grows :: "'h deployment \<Rightarrow> 'h client_world \<Rightarrow> 'h client_world \<Rightarrow> bool" where
  "grows P w w' \<longleftrightarrow> (all_addressable P (provider w) \<longrightarrow>
     all_addressable P (provider w') \<and> client_ids P (provider w) \<subseteq> client_ids P (provider w') \<and>
     policy (store (core w')) = policy (store (core w)) \<and>
     (\<forall>i \<in> catalog_clients (store (core w')). i \<in> catalog_clients (store (core w)) \<or>
        i \<in> client_ids P (provider w') \<and> TrimSpace i = i) \<and>
     (\<forall>i \<in> client_ids P (provider w').
        i \<in> client_ids P (provider w) \<and> h_lifespans P (provider w') i = h_lifespans P (provider w) i \<or>
        (\<exists>row. policy (store (core w)) = Some row \<and> h_lifespans P (provider w') i = hydraClientLifespans (policy_of_row row))))"

lemma growsD:
  assumes "grows P w w'" "all_addressable P (provider w)"
  shows "all_addressable P (provider w')" "i \<in> client_ids P (provider w) \<Longrightarrow> i \<in> client_ids P (provider w')"
    "policy (store (core w')) = policy (store (core w))"
    "i \<in> catalog_clients (store (core w')) \<Longrightarrow> i \<in> catalog_clients (store (core w)) \<or> i \<in> client_ids P (provider w') \<and> TrimSpace i = i"
    "i \<in> client_ids P (provider w') \<Longrightarrow>
        i \<in> client_ids P (provider w) \<and> h_lifespans P (provider w') i = h_lifespans P (provider w) i \<or>
        (\<exists>row. policy (store (core w)) = Some row \<and> h_lifespans P (provider w') i = hydraClientLifespans (policy_of_row row))"
  using assms unfolding grows_def by blast+

interpretation gr: contract "grows P" for P
proof unfold_locales
  fix s t u :: "'a client_world"
  show "grows P s s" by (simp add: grows_def)
  assume st: "grows P s t" and tu: "grows P t u"
  show "grows P s u"
    unfolding grows_def
  proof (intro impI conjI ballI subsetI)
    assume s: "all_addressable P (provider s)"
    note 1 = growsD [OF st s] and 2 = growsD [OF tu growsD(1) [OF st s]]
    show "all_addressable P (provider u)" by (rule 2(1))
    show "policy (store (core u)) = policy (store (core s))" using 1(3) 2(3) by simp
    show "i \<in> client_ids P (provider u)" if "i \<in> client_ids P (provider s)" for i using that 1(2) 2(2) by blast
    show "i \<in> catalog_clients (store (core s)) \<or> i \<in> client_ids P (provider u) \<and> TrimSpace i = i"
      if "i \<in> catalog_clients (store (core u))" for i
      using 2(4) [OF that] 1(4) [of i] 2(2) [of i] by blast
    show "i \<in> client_ids P (provider s) \<and> h_lifespans P (provider u) i = h_lifespans P (provider s) i \<or>
        (\<exists>row. policy (store (core s)) = Some row \<and> h_lifespans P (provider u) i = hydraClientLifespans (policy_of_row row))"
      if i: "i \<in> client_ids P (provider u)" for i
      using 2(5) [OF i]
    proof
      assume old: "i \<in> client_ids P (provider t) \<and> h_lifespans P (provider u) i = h_lifespans P (provider t) i"
      then show ?thesis using 1(5) [of i] by simp
    next
      assume "\<exists>row. policy (store (core t)) = Some row \<and> h_lifespans P (provider u) i = hydraClientLifespans (policy_of_row row)"
      then show ?thesis using 1(3) by simp
    qed
  qed
qed

lemma grows_rolled_back: "grows P w v \<Longrightarrow> grows P w (rolled_back w v)"
  by (auto simp: grows_def)

lemma grows_lock:
  assumes "obeys (grows P) run"
  shows "obeys (grows P) (withTransactionLock E what run)"
  unfolding obeys_def
proof
  fix w
  obtain r w' where run: "withTransactionLock E what run w = (r, w')" by (cases "withTransactionLock E what run w")
  have "grows P w w'"
    by (rule withTransactionLock_cases [OF run])
      (auto intro: gr.R_refl grows_rolled_back obeysD [OF assms])
  with run show "grows P w (snd (withTransactionLock E what run w))" by simp
qed

lemma grows_store:
  assumes "adds_clients C (store (core w)) s'" "\<And>i. i \<in> C \<Longrightarrow> i \<in> client_ids P (provider w) \<and> TrimSpace i = i"
  shows "grows P w (w\<lparr>core := (core w)\<lparr>store := s'\<rparr>\<rparr>)"
  using assms by (auto simp: grows_def adds_clients_def)

lemma grows_inDb:
  fixes P :: "'h deployment"
  shows "obeys (adds_clients {}) m \<Longrightarrow> obeys (grows P) (inCore (inDb m))"
  unfolding obeys_def
proof
  fix w :: "'h client_world"
  assume "\<forall>s. adds_clients {} s (snd (m s))"
  then have "adds_clients {} (store (core w)) (snd (m (store (core w))))" ..
  from grows_store [OF this] show "grows P w (snd (inCore (inDb m) w))"
    by (auto simp: inCore_def inDb_def split: prod.splits)
qed

lemma grows_note: "obeys (grows P) (inCore (note_event V n who l sub ds))"
  unfolding note_event_def by (rule grows_inDb, rule record_event_adds)

lemma readonly_adds: "(\<And>s. snd (m s) = s) \<Longrightarrow> obeys (adds_clients {}) m"
  by (rule ac.keeps_readonly)

lemma grows_listing: "obeys (grows P) (hydraClients P)"
  by (auto simp: obeys_def hydraClients_def grows_def)

lemma grows_checked: "obeys (grows P) (checkedS e)"
  by (cases e) (simp_all add: checkedS_def gr.keeps_ret gr.keeps_fail)

lemmas grows_ops = gr.keeps grows_note grows_listing grows_checked grows_lock keeps_try keeps_sum

text \<open>What is registered is what was sent.\<close>

lemma map_of_put_entry [simp]: "map_of (put_entry k v m) j = (if j = k then Some v else map_of m j)"
  by (induction m) (auto simp: put_entry_def map_add_def)

lemma map_of_drop_entry [simp]: "map_of (drop_entry k m) j = (if j = k then None else map_of m j)"
  by (induction m) (auto simp: drop_entry_def)

definition is_lifespan :: "string \<Rightarrow> bool" where
  "is_lifespan k \<longleftrightarrow> has_suffix ''_lifespan'' k"

lemma payload_lifespans_eq: "payload_lifespans m = map (\<lambda>(k, v). (k, case v of JText t \<Rightarrow> t | _ \<Rightarrow> [])) (filter (\<lambda>(k, v). is_lifespan k) m)"
  by (induction m) (auto simp: payload_lifespans_def is_lifespan_def)

lemma lifespans_drop: "\<not> is_lifespan k \<Longrightarrow> payload_lifespans (drop_entry k m) = payload_lifespans m"
  by (induction m) (auto simp: payload_lifespans_eq drop_entry_def)

lemma lifespans_put_other: "\<not> is_lifespan k \<Longrightarrow> payload_lifespans (put_entry k v m) = payload_lifespans m"
  using lifespans_drop [of k m] by (simp add: payload_lifespans_eq put_entry_def drop_entry_def)

lemma lifespans_put: "is_lifespan k \<Longrightarrow> k \<notin> fst ` set (payload_lifespans m) \<Longrightarrow>
    payload_lifespans (put_entry k (JText t) m) = payload_lifespans m @ [(k, t)]"
proof -
  assume k: "is_lifespan k" "k \<notin> fst ` set (payload_lifespans m)"
  have "filter (\<lambda>(k, v). is_lifespan k) (filter (\<lambda>(k', _). k' \<noteq> k) m) = filter (\<lambda>(k, v). is_lifespan k) m"
    using k unfolding filter_filter by (intro filter_cong) (force simp: payload_lifespans_eq)+
  with k(1) show ?thesis by (simp add: payload_lifespans_eq put_entry_def)
qed

lemma lifespans_fold: "\<forall>(k, t) \<in> set ls. is_lifespan k \<Longrightarrow> distinct (map fst ls) \<Longrightarrow>
    fst ` set ls \<inter> fst ` set (payload_lifespans m) = {} \<Longrightarrow>
    payload_lifespans (fold (\<lambda>(k, v). put_entry k (JText v)) ls m) = payload_lifespans m @ ls"
proof (induction ls arbitrary: m)
  case (Cons e ls)
  obtain k t where e: "e = (k, t)" by (cases e)
  with Cons.prems have put: "payload_lifespans (put_entry k (JText t) m) = payload_lifespans m @ [(k, t)]"
    by (intro lifespans_put) auto
  from Cons.prems have rest: "\<forall>(k, t) \<in> set ls. is_lifespan k" "distinct (map fst ls)"
    "fst ` set ls \<inter> fst ` set (payload_lifespans (put_entry k (JText t) m)) = {}"
    unfolding put using e by auto
  from Cons.IH [OF rest] put e show ?case by simp
qed simp

lemma map_of_fold_put: "k \<notin> fst ` set ls \<Longrightarrow> map_of (fold (\<lambda>(k, v). put_entry k (JText v)) ls m) k = map_of m k"
  by (induction ls arbitrary: m) auto

lemma hydraClientLifespans_names: "map fst (hydraClientLifespans p) =
    [''authorization_code_grant_access_token_lifespan'', ''authorization_code_grant_id_token_lifespan'',
     ''authorization_code_grant_refresh_token_lifespan'', ''refresh_token_grant_access_token_lifespan'',
     ''refresh_token_grant_id_token_lifespan'', ''refresh_token_grant_refresh_token_lifespan'']"
  by (simp add: hydraClientLifespans_def)

lemma lifespan_names: "list_all is_lifespan (map fst (hydraClientLifespans p))" "distinct (map fst (hydraClientLifespans p))"
    "''client_id'' \<notin> set (map fst (hydraClientLifespans p))"
  unfolding hydraClientLifespans_names by code_simp+

lemma plain_names: "\<not> is_lifespan ''client_id''" "\<not> is_lifespan ''client_name''" "\<not> is_lifespan ''client_secret''"
  "\<not> is_lifespan ''redirect_uris''" "\<not> is_lifespan ''grant_types''" "\<not> is_lifespan ''response_types''" "\<not> is_lifespan ''scope''"
  "\<not> is_lifespan ''token_endpoint_auth_method''" "\<not> is_lifespan ''frontchannel_logout_uri''" "\<not> is_lifespan ''backchannel_logout_uri''"
  "\<not> is_lifespan ''frontchannel_logout_session_required''" "\<not> is_lifespan ''backchannel_logout_session_required''"
  "\<not> is_lifespan ''post_logout_redirect_uris''"
  by code_simp+

definition base_payload :: "oidcClientInput \<Rightarrow> payload" where
  "base_payload i = [(''client_id'', JText (in_ID i)), (''client_name'', JText (in_Name i)), (''client_secret'', JText (in_Secret i)),
        (''redirect_uris'', JTexts (in_RedirectURIs i)), (''grant_types'', JTexts [''authorization_code'', ''refresh_token'']),
        (''response_types'', JTexts [''code'']), (''scope'', JText ''openid offline_access profile email''),
        (''token_endpoint_auth_method'', JText ''client_secret_post''),
        (''frontchannel_logout_uri'', JText (in_FrontChannelLogoutURI i)),
        (''backchannel_logout_uri'', JText (in_BackChannelLogoutURI i)),
        (''frontchannel_logout_session_required'', JFlag (in_FrontChannelLogoutURI i \<noteq> [])),
        (''backchannel_logout_session_required'', JFlag True)]"

lemma base_lifespans: "payload_lifespans (base_payload i) = []"
  by (simp add: base_payload_def payload_lifespans_eq plain_names)

lemma lifespans_if: "payload_lifespans (if b then m else m') = (if b then payload_lifespans m else payload_lifespans m')"
  by simp

lemma map_of_if: "map_of (if b then m else m') k = (if b then map_of m k else map_of m' k)"
  by simp

lemma marshal_lifespans: "payload_lifespans (marshalHydraClient i p) = hydraClientLifespans p"
proof -
  have "payload_lifespans (fold (\<lambda>(k, v). put_entry k (JText v)) (hydraClientLifespans p) (base_payload i)) = hydraClientLifespans p"
    using lifespan_names(1,2) [of p] by (subst lifespans_fold) (auto simp: base_lifespans list_all_iff)
  then show ?thesis
    unfolding marshalHydraClient_def Let_def base_payload_def [symmetric]
    by (simp only: lifespans_if lifespans_drop lifespans_put_other plain_names not_False_eq_True if_cancel)
qed

lemma other_names: "''client_id'' \<noteq> ''client_secret''" "''client_id'' \<noteq> ''frontchannel_logout_uri''" "''client_id'' \<noteq> ''backchannel_logout_uri''"
  "''client_id'' \<noteq> ''frontchannel_logout_session_required''" "''client_id'' \<noteq> ''backchannel_logout_session_required''"
  "''client_id'' \<noteq> ''post_logout_redirect_uris''"
  by simp_all

lemma marshal_client_id: "payload_text ''client_id'' (marshalHydraClient i p) = in_ID i"
proof -
  have "map_of (fold (\<lambda>(k, v). put_entry k (JText v)) (hydraClientLifespans p) (base_payload i)) ''client_id'' = Some (JText (in_ID i))"
    using lifespan_names(3) [of p] by (subst map_of_fold_put) (simp_all add: base_payload_def)
  then have "map_of (marshalHydraClient i p) ''client_id'' = Some (JText (in_ID i))"
    unfolding marshalHydraClient_def Let_def base_payload_def [symmetric]
    by (simp only: map_of_if map_of_put_entry map_of_drop_entry other_names if_False if_cancel)
  then show ?thesis by (simp add: payload_text_def)
qed

lemma pattern_addressable: "oidcClientIDPattern i \<Longrightarrow> addressable i"
  by (auto simp: oidcClientIDPattern_def addressable_def)

subsection \<open>Registering a client\<close>

lemma grows_registered:
  assumes "core w' = core w" "policy (store (core w)) = Some row" "addressable j"
    and "client_ids P (provider w') \<subseteq> insert j (client_ids P (provider w))" "client_ids P (provider w) \<subseteq> client_ids P (provider w')"
    and "h_lifespans P (provider w') = (h_lifespans P (provider w))(j := hydraClientLifespans (policy_of_row row))"
  shows "grows P w w'"
  using assms unfolding grows_def all_addressable_def by fastforce

lemma grows_unchanged: "core w' = core w \<Longrightarrow> provider w' = provider w \<Longrightarrow> grows P w w'"
  by (simp add: grows_def)

lemma grows_apply:
  assumes "documented P" "oidcClientIDPattern (in_ID i)" "policy (store (core w)) = Some row"
    and "c = PostClient (marshalHydraClient i (policy_of_row row)) \<or> c = PutClient (in_ID i) (marshalHydraClient i (policy_of_row row))"
    and "core w' = core w" "provider w' = provider w \<or> provider w' = h_apply P c (provider w)"
  shows "grows P w w'"
  using assms(6)
proof
  assume "provider w' = provider w"
  with assms(5) show ?thesis by (rule grows_unchanged)
next
  assume p: "provider w' = h_apply P c (provider w)"
  note registered = grows_registered [OF assms(5,3) pattern_addressable [OF assms(2)]]
  from assms(4) show ?thesis
  proof
    assume c: "c = PostClient (marshalHydraClient i (policy_of_row row))"
    note post = documented_post [OF assms(1), of "marshalHydraClient i (policy_of_row row)" "provider w",
      unfolded marshal_client_id marshal_lifespans, folded c p]
    show ?thesis by (rule registered) (simp_all only: post subset_refl subset_insertI)
  next
    assume c: "c = PutClient (in_ID i) (marshalHydraClient i (policy_of_row row))"
    note put = documented_put [OF assms(1) pattern_addressable [OF assms(2)], of "marshalHydraClient i (policy_of_row row)" "provider w",
      unfolded marshal_lifespans, folded c p]
    show ?thesis by (rule registered) (simp_all only: put subset_refl subset_insertI)
  qed
qed

lemma guard_state: "snd (guardS b e s) = s" "snd (bindS (guardS b e) (\<lambda>_. guardS b' e') s) = s"
  by (simp_all add: guardS_def bindS_def retS_def failS_def)

text \<open>Reading the policy, one request with its lifetimes, and a look at the answer.\<close>

lemma grows_write:
  fixes P :: "'h deployment" and K :: "SessionPolicy \<Rightarrow> nat \<Rightarrow> ('h, 'a) client_io"
  assumes "documented P" "oidcClientIDPattern (in_ID i)"
    and C: "\<And>p. C p = PostClient (marshalHydraClient i p) \<or> C p = PutClient (in_ID i) (marshalHydraClient i p)"
    and K: "\<And>p st s. snd (K p st s) = s"
  shows "obeys (grows P) (bindS (inCore (inDb (read_SessionPolicy E))) (\<lambda>p. bindS (doProvider P (C p)) (K p)))"
  unfolding obeys_def
proof
  fix w :: "'h client_world"
  obtain r w' where run: "bindS (inCore (inDb (read_SessionPolicy E))) (\<lambda>p. bindS (doProvider P (C p)) (K p)) w = (r, w')"
    by (cases "bindS (inCore (inDb (read_SessionPolicy E))) (\<lambda>p. bindS (doProvider P (C p)) (K p)) w")
  then have "grows P w w'"
  proof (cases rule: bind_cases)
    case (1 e)
    then have "w' = w" by (auto dest: read_policy_state)
    then show ?thesis by (simp add: gr.R_refl)
  next
    case (2 p t)
    from read_policy_run [OF 2(1)] obtain row where row: "t = w" "policy (store (core w)) = Some row" "p = policy_of_row row" by blast
    obtain z v where call: "doProvider P (C p) t = (z, v)" by (cases "doProvider P (C p) t")
    have "w' = v"
    proof (cases z)
      case (Inl e)
      with 2(2) call show ?thesis by (simp add: bindS_def)
    next
      case (Inr st)
      with 2(2) call have "K p st v = (r, w')" by (simp add: bindS_def)
      with K [of p st v] show ?thesis by simp
    qed
    with grows_apply [OF assms(1,2) row(2), of "C p" w'] C [of p] doProvider_run(1,2) [OF call] row show ?thesis by auto
  qed
  with run show "grows P w (snd (bindS (inCore (inDb (read_SessionPolicy E))) (\<lambda>p. bindS (doProvider P (C p)) (K p)) w))" by simp
qed

lemma write_grows:
  assumes "documented P" "oidcClientIDPattern (in_ID i)"
  shows "obeys (grows P) (writeHydraClient P E i)" "obeys (grows P) (rewriteHydraClient P E i)"
  unfolding writeHydraClient_def rewriteHydraClient_def
  by (rule grows_write [OF assms]; simp only: guard_state simp_thms)+

subsection \<open>Consistency of the catalog, Hydra and the policy\<close>

text \<open>Every application's client is registered, every client can be addressed and issues tokens with the policy's lifetimes.\<close>

definition consistent :: "'h deployment \<Rightarrow> 'h client_world \<Rightarrow> bool" where
  "consistent P w \<longleftrightarrow> all_addressable P (provider w) \<and>
     (\<forall>i \<in> catalog_clients (store (core w)). i \<in> client_ids P (provider w) \<and> TrimSpace i = i) \<and> in_step P w"

lemma grows_consistent:
  assumes "grows P w w'" "consistent P w"
  shows "consistent P w'"
proof -
  from assms(2) have ok: "all_addressable P (provider w)" and cat: "\<forall>i \<in> catalog_clients (store (core w)). i \<in> client_ids P (provider w) \<and> TrimSpace i = i"
    and step: "in_step P w" by (simp_all add: consistent_def)
  note g = growsD [OF assms(1) ok]
  from step obtain row where row: "policy (store (core w)) = Some row"
    "\<forall>i \<in> client_ids P (provider w). h_lifespans P (provider w) i = hydraClientLifespans (policy_of_row row)" by (auto simp: in_step_def)
  have "h_lifespans P (provider w') i = hydraClientLifespans (policy_of_row row)" if "i \<in> client_ids P (provider w')" for i
    using g(5) [OF that] row by auto
  with g(3) row(1) have "in_step P w'" by (auto simp: in_step_def)
  moreover have "i \<in> client_ids P (provider w') \<and> TrimSpace i = i" if "i \<in> catalog_clients (store (core w'))" for i
    using g(4) [OF that] cat g(2) [of i] by blast
  ultimately show ?thesis using g(1) by (simp add: consistent_def)
qed

lemma obeys_grows_consistent: "obeys (grows P) m \<Longrightarrow> m w = (r, w') \<Longrightarrow> consistent P w \<Longrightarrow> consistent P w'"
  using grows_consistent obeysD by metis

lemma createOIDCClient_grows:
  assumes "documented P"
  shows "obeys (grows P) (createOIDCClient P V i who)"
proof (cases "validate_input (sv_env V 0) i")
  case (Some e)
  then show ?thesis by (simp add: createOIDCClient_def gr.keeps_fail)
next
  case None
  then have "oidcClientIDPattern (in_ID i)" by (simp add: validate_input_None)
  note sent = write_grows(1) [OF assms this]
  from None show ?thesis
    unfolding createOIDCClient_def createHydraClient_def WithSessionPolicyLock_def Let_def
    by (simp only: option.simps) (intro grows_ops sent)
qed

lemma adds_reads: "obeys (adds_clients {}) (query E l f)" "obeys (adds_clients {}) (ListManagedApps E)"
    "obeys (adds_clients {}) (ManagedAppUsesOIDCClient E c)" "obeys (adds_clients {}) (ValidateBootstrapManagedAppOwnership E a)"
  unfolding ListManagedApps_def ManagedAppUsesOIDCClient_def ValidateBootstrapManagedAppOwnership_def Let_def
  by (intro ac.keeps)+

lemma deleteApp_grows: "obeys (grows P) (deleteApp P V ref who)"
  unfolding deleteApp_def requireUUID_def by (intro grows_ops grows_inDb catalog_adds)

lemma enqueueAppValidations_grows: "obeys (grows P) (enqueueAppValidations P V ref who)"
  unfolding enqueueAppValidations_def requireUUID_def by (intro grows_ops grows_inDb catalog_adds)

text \<open>The client is looked up and the row is written in one step.\<close>

lemma createApp_grows:
  fixes P :: "'h deployment"
  assumes "documented P" "TrimSpace (app_client a) = app_client a"
  shows "obeys (grows P) (createApp P V a who)"
proof -
  let ?make = "\<lambda>clients. case find (\<lambda>c. ClientID c = app_client a) clients of
           None \<Rightarrow> failS (invalidField ''oidc_client_id'' ''register the OIDC client before adding its app'')
         | Some registered \<Rightarrow>
           (let app = a\<lparr>app_contract_hash := oidcClientContractHash (json_contract P) (sv_env V 1) registered\<rparr> in
            bindS (checkedS (ValidateManagedApp (sv_env V 1) app)) (\<lambda>_.
            bindS (checkedS (validateManagedAppClient (sv_env V 1) app registered)) (\<lambda>_.
            inCore (inDb (CreateManagedApp (sv_env V 1) app)))))"
  have create: "grows P w (snd (inCore (inDb (CreateManagedApp E (a\<lparr>app_contract_hash := h\<rparr>))) w))"
    if "app_client a \<in> client_ids P (provider w)" for w :: "'h client_world" and E h
  proof -
    have "adds_clients {TrimSpace (app_client (a\<lparr>app_contract_hash := h\<rparr>))} (store (core w))
        (snd (CreateManagedApp E (a\<lparr>app_contract_hash := h\<rparr>) (store (core w))))"
      using catalog_adds(2) unfolding obeys_def by blast
    with grows_store [of "{app_client a}" w] that assms(2) show ?thesis
      by (auto simp: inCore_def inDb_def split: prod.splits)
  qed
  have make: "grows P w (snd (?make clients w))" if "set clients \<subseteq> set (h_clients P (provider w))" for w :: "'h client_world" and clients
  proof (cases "find (\<lambda>c. ClientID c = app_client a) clients")
    case None
    then show ?thesis by (simp add: failS_def gr.R_refl)
  next
    case (Some c)
    then have "c \<in> set clients" "ClientID c = app_client a" by (auto dest: find_SomeD)
    with that have "app_client a \<in> client_ids P (provider w)" unfolding client_ids_def by (metis image_eqI subsetD)
    from create [OF this] Some show ?thesis
      by (auto simp: Let_def bindS_def checkedS_def retS_def failS_def gr.R_refl split: option.splits)
  qed
  have inner: "obeys (grows P) (bindS (tryS (hydraClients P)) (\<lambda>listed.
        case listed of Inl _ \<Rightarrow> failS (DependencyError ''the OAuth client could not be verified'') | Inr clients \<Rightarrow> ?make clients))"
    unfolding obeys_def
  proof
    fix w :: "'h client_world"
    obtain z v where listed: "hydraClients P w = (z, v)" by (cases "hydraClients P w")
    note v = hydraClients_run [OF listed]
    from v have same: "grows P w v" by (intro grows_unchanged) auto
    have "grows P w (snd (?make clients v))" if "z = Inr clients" for clients
    proof (rule gr.R_trans [OF same make])
      show "set clients \<subseteq> set (h_clients P (provider v))"
        using v that documented_listing [OF assms(1), of "calls w" "provider w"] by auto
    qed
    with listed same show "grows P w (snd (bindS (tryS (hydraClients P)) (\<lambda>listed.
        case listed of Inl _ \<Rightarrow> failS (DependencyError ''the OAuth client could not be verified'') | Inr clients \<Rightarrow> ?make clients) w))"
      by (cases z) (simp_all add: bindS_def tryS_def failS_def)
  qed
  show ?thesis
    unfolding createApp_def WithOIDCClientLock_def
    by (rule gr.keeps_bind, rule grows_lock, rule inner) (intro gr.keeps_bind grows_note gr.keeps_ret)
qed

subsection \<open>Removing a client\<close>

lemma shrink_consistent:
  assumes "consistent P w" "store (core w') = store (core w)" "i \<notin> catalog_clients (store (core w))"
    and "client_ids P (provider w') \<subseteq> client_ids P (provider w)" "client_ids P (provider w) - {i} \<subseteq> client_ids P (provider w')"
    and "\<And>j. j \<in> client_ids P (provider w') \<Longrightarrow> h_lifespans P (provider w') j = h_lifespans P (provider w) j"
  shows "consistent P w'"
proof -
  have "all_addressable P (provider w')" using assms(1,4) by (auto simp: consistent_def all_addressable_def)
  moreover have "in_step P w'" using assms(1,2,4,6) by (fastforce simp: consistent_def in_step_def)
  moreover have "j \<in> client_ids P (provider w') \<and> TrimSpace j = j" if "j \<in> catalog_clients (store (core w'))" for j
  proof -
    from that assms(2,3) have "j \<noteq> i" by auto
    with that assms(1,2,5) show ?thesis by (auto simp: consistent_def)
  qed
  ultimately show ?thesis by (simp add: consistent_def)
qed

lemma deleteHydraClient_run:
  assumes "documented P" "addressable i" "deleteHydraClient P i w = (r, w')"
  shows "core w' = core w" "client_ids P (provider w') \<subseteq> client_ids P (provider w)" "client_ids P (provider w) - {i} \<subseteq> client_ids P (provider w')"
    "\<And>j. j \<in> client_ids P (provider w') \<Longrightarrow> h_lifespans P (provider w') j = h_lifespans P (provider w) j"
proof -
  obtain z v where call: "doProvider P (DeleteClient i) w = (z, v)" by (cases "doProvider P (DeleteClient i) w")
  have "w' = v"
  proof (cases z)
    case (Inl e)
    with assms(3) call show ?thesis by (simp add: deleteHydraClient_def bindS_def)
  next
    case (Inr st)
    with assms(3) call have "bindS (guardS (st \<noteq> 404) errHydraClientNotFound) (\<lambda>_. guardS (st = 204)
        (Failed (''Hydra delete client returned '' @ decimal st))) v = (r, w')"
      by (simp add: deleteHydraClient_def bindS_def)
    from arg_cong [OF this, of snd] show ?thesis by (simp only: guard_state snd_conv)
  qed
  with doProvider_run(1,2) [OF call] documented_delete [OF assms(1,2), of "provider w"]
  have "core w' = core w" and cases: "provider w' = provider w \<or> client_ids P (provider w') = client_ids P (provider w) - {i} \<and>
      (\<forall>j. j \<noteq> i \<longrightarrow> h_lifespans P (provider w') j = h_lifespans P (provider w) j)" by auto
  then show "core w' = core w" "client_ids P (provider w') \<subseteq> client_ids P (provider w)" "client_ids P (provider w) - {i} \<subseteq> client_ids P (provider w')"
    "\<And>j. j \<in> client_ids P (provider w') \<Longrightarrow> h_lifespans P (provider w') j = h_lifespans P (provider w) j" by auto
qed

lemma deletable_addressable: "deletableOIDCClientID i \<Longrightarrow> addressable i"
  by (auto simp: deletableOIDCClientID_def addressable_def)

lemma uses_run: "inCore (inDb (ManagedAppUsesOIDCClient E c)) w = (r, w') \<Longrightarrow>
    w' = w \<and> (\<forall>used. r = Inr used \<longrightarrow> (used \<longleftrightarrow> TrimSpace c \<in> catalog_clients (store (core w))))"
  by (auto simp: inCore_run inDb_run ManagedAppUsesOIDCClient_def query_def stmt_def list_ex_iff catalog_clients_def image_iff
      split: if_splits) metis

lemma tryS_bind: "bindS (tryS m) f w = (case m w of (z, v) \<Rightarrow> f z v)"
  by (simp add: bindS_def tryS_def split_beta)

lemma deleteOIDCClient_consistent:
  assumes "documented P" "consistent P w" "deleteOIDCClient P V i who w = (r, w')"
  shows "consistent P w'"
proof -
  let ?inner = "bindS (inCore (inDb (ManagedAppUsesOIDCClient (sv_env V 1) i))) (\<lambda>used.
        bindS (guardS (\<not> used) errOIDCClientInUse) (\<lambda>_.
        bindS (tryS (deleteHydraClient P i)) (\<lambda>gone.
        case gone of
          Inl e \<Rightarrow> failS (if e = errHydraClientNotFound then e else DependencyError ''the OAuth client could not be deleted'')
        | Inr _ \<Rightarrow> retS ())))"
  have inner: "consistent P v \<and> store (core v) = store (core w)" if del: "deletableOIDCClientID i" and run: "?inner w = (z, v)" for z v
    using run
  proof (cases rule: bind_cases)
    case (1 e)
    with assms(2) show ?thesis using uses_run by blast
  next
    case (2 used t)
    from uses_run [OF 2(1)] have t: "t = w" "used \<longleftrightarrow> TrimSpace i \<in> catalog_clients (store (core w))" by auto
    show ?thesis
    proof (cases used)
      case True
      with 2(2) t assms(2) show ?thesis by (simp add: bindS_def guardS_def failS_def)
    next
      case False
      obtain y u where d: "deleteHydraClient P i w = (y, u)" by (cases "deleteHydraClient P i w")
      with False 2(2) t(1) have "v = u" by (cases y) (simp_all add: guardS_def bindS_def retS_def failS_def tryS_def)
      moreover have "i \<notin> catalog_clients (store (core w))" using False t(2) assms(2) by (auto simp: consistent_def)
      ultimately show ?thesis
        using deleteHydraClient_run [OF assms(1) deletable_addressable [OF del] d] shrink_consistent [OF assms(2), of v i] by simp
    qed
  qed
  have locked: "consistent P v" if "deletableOIDCClientID i" "WithOIDCClientLock (sv_env V 0) ?inner w = (z, v)" for z v
    by (rule withTransactionLock_cases [OF that(2) [unfolded WithOIDCClientLock_def]])
      (use inner that(1) assms(2) in \<open>auto simp: consistent_def in_step_def\<close>)
  from assms(3) [unfolded deleteOIDCClient_def] show ?thesis
  proof (cases rule: guarded)
    case 1
    with assms(2) show ?thesis by simp
  next
    case 2
    note del = 2(1)
    from 2(2) show ?thesis
    proof (cases rule: guarded)
      case 1
      with assms(2) show ?thesis by simp
    next
      case 2
      from 2(2) show ?thesis
      proof (cases rule: bind_cases)
        case (1 e)
        then show ?thesis by (blast intro: locked [OF del])
      next
        case (2 x t)
        then show ?thesis by (blast intro: obeys_grows_consistent [OF grows_note] locked [OF del])
      qed
    qed
  qed
qed

subsection \<open>Changing the policy\<close>

definition keeps_registrations :: "'h deployment \<Rightarrow> 'h client_world \<Rightarrow> 'h client_world \<Rightarrow> bool" where
  "keeps_registrations P w w' \<longleftrightarrow> catalog_clients (store (core w')) = catalog_clients (store (core w)) \<and>
     (all_addressable P (provider w) \<longrightarrow> h_clients P (provider w') = h_clients P (provider w))"

interpretation kr: contract "keeps_registrations P" for P
  by unfold_locales (auto simp: keeps_registrations_def all_addressable_def client_ids_def)

interpretation kc: contract "\<lambda>w w'. core w' = core (w :: 'h client_world)"
  by unfold_locales auto

lemma put_lifespans_core: "obeys (\<lambda>w w'. core w' = core w) (put_lifespans P ls cs)"
proof (induction cs)
  case Nil
  show ?case by (simp add: kc.keeps_ret)
next
  case (Cons c cs)
  have "obeys (\<lambda>w w'. core w' = core w) (doProvider P q)" for q
    unfolding obeys_def by (metis doProvider_run(1) prod.collapse)
  then show ?case unfolding put_lifespans.simps by (intro kc.keeps Cons.IH)
qed

lemma apply_core: "obeys (\<lambda>w w'. core w' = core w) (applyHydraSessionPolicy P p)"
proof -
  have "obeys (\<lambda>w w'. core w' = core w) (hydraClients P)" by (simp add: obeys_def hydraClients_def)
  then show ?thesis unfolding applyHydraSessionPolicy_def by (intro kc.keeps_bind put_lifespans_core)
qed

lemma apply_registrations:
  assumes "documented P"
  shows "obeys (keeps_registrations P) (applyHydraSessionPolicy P p)"
  unfolding obeys_def
proof
  fix w
  obtain r w' where run: "applyHydraSessionPolicy P p w = (r, w')" by (cases "applyHydraSessionPolicy P p w")
  from obeysD [OF apply_core run] have "core w' = core w" .
  with applyHydraSessionPolicy_run [OF assms _ run] run
  show "keeps_registrations P w (snd (applyHydraSessionPolicy P p w))" by (auto simp: keeps_registrations_def)
qed

lemma store_registrations:
  assumes "\<And>s. catalog_clients (snd (m s)) = catalog_clients s"
  shows "obeys (keeps_registrations P) (inCore (inDb m))"
  using assms by (auto simp: obeys_def inCore_def inDb_def keeps_registrations_def split_beta)

lemma policy_registrations:
  "catalog_clients (snd (read_SessionPolicy E s)) = catalog_clients s"
  "catalog_clients (snd (UpdateSessionPolicy E p s)) = catalog_clients s"
  "catalog_clients (snd (record_event E who l sub ds s)) = catalog_clients s"
proof -
  show "catalog_clients (snd (read_SessionPolicy E s)) = catalog_clients s" by simp
  obtain r t where run: "UpdateSessionPolicy E p s = (r, t)" by (cases "UpdateSessionPolicy E p s")
  have "apps t = apps s"
  proof (cases r)
    case (Inl e)
    with run show ?thesis by (auto simp: UpdateSessionPolicy_def failS_def dest: tx_Inl split: option.splits)
  next
    case (Inr u)
    with UpdateSessionPolicy_Inr [of E p s u t] run have "t = s\<lparr>policy := policy t, sessions := sessions t\<rparr>" by blast
    from arg_cong [OF this, of apps] show ?thesis by simp
  qed
  with run show "catalog_clients (snd (UpdateSessionPolicy E p s)) = catalog_clients s" by (simp add: catalog_clients_def)
  obtain xs where "record_event E who l sub ds s = (Inr (), s\<lparr>audits := xs\<rparr>)" using record_event_frame by blast
  then show "catalog_clients (snd (record_event E who l sub ds s)) = catalog_clients s" by (simp add: catalog_clients_def)
qed

lemma lock_registrations:
  assumes "obeys (keeps_registrations P) run"
  shows "obeys (keeps_registrations P) (withTransactionLock E what run)"
  unfolding obeys_def
proof
  fix w
  obtain r w' where run: "withTransactionLock E what run w = (r, w')" by (cases "withTransactionLock E what run w")
  have "keeps_registrations P w w'"
    by (rule withTransactionLock_cases [OF run])
      (use assms in \<open>auto intro: kr.R_refl dest: obeysD simp: keeps_registrations_def\<close>)
  with run show "keeps_registrations P w (snd (withTransactionLock E what run w))" by simp
qed

lemma updateSessionPolicy_registrations:
  assumes "documented P"
  shows "obeys (keeps_registrations P) (updateSessionPolicy P V request who)"
  unfolding updateSessionPolicy_def WithSessionPolicyLock_def replaceSessionPolicy_def note_event_def
  by (intro kr.keeps keeps_sum keeps_try lock_registrations apply_registrations [OF assms] store_registrations policy_registrations)

text \<open>A change of the policy that could be completed or taken back.\<close>

definition policy_settled :: "'h deployment \<Rightarrow> server \<Rightarrow> 'h client_world \<Rightarrow> error + 'a \<Rightarrow> 'h client_world \<Rightarrow> bool" where
  "policy_settled P V w r w' \<longleftrightarrow> (case r of Inr x \<Rightarrow> True
     | Inl e \<Rightarrow> \<not> restore_failed P w w' \<and> \<not> fault (sv_env V 0) ''commit session policy lock'')"

lemma updateSessionPolicy_consistent:
  assumes "documented P" "consistent P w" "updateSessionPolicy P V request who w = (r, w')" "policy_settled P V w r w'"
  shows "consistent P w'"
proof -
  have ok: "all_addressable P (provider w)" using assms(2) by (simp add: consistent_def)
  from updateSessionPolicy_registrations [OF assms(1), of V request who] assms(3) have reg: "keeps_registrations P w w'"
    by (auto dest: obeysD)
  note run = updateSessionPolicy_run [OF assms(1) ok assms(3)]
  have "in_step P w'"
  proof (cases r)
    case (Inl e)
    with run assms(2,4) show ?thesis by (auto simp: policy_settled_def consistent_def)
  next
    case (Inr x)
    with run show ?thesis by auto
  qed
  with reg ok assms(2) show ?thesis
    by (auto simp: consistent_def keeps_registrations_def all_addressable_def client_ids_def)
qed

end
