(* ===== verification/Start_Up.thy ===== *)
theory Start_Up
  imports Catalog_Consistency
begin

text \<open>
  The reconciliation at start-up (\<open>bootstrapApps\<close>, \<open>assertManagedAppRegistrations\<close>) keeps the catalog and Hydra's clients
  consistent, ends, and verifies every application; then all operations on clients and applications as one step relation, and a concrete
  provider for the witnesses.
\<close>

subsection \<open>Start-up\<close>

lemma strip_one_None: "\<forall>p \<in> set ps. p \<noteq> [] \<and> hd p \<notin> set x \<Longrightarrow> strip_one ps x = None"
proof (induction ps)
  case (Cons p ps)
  then have "strip_prefix p x = None" by (cases p; cases x) auto
  with Cons show ?case by simp
qed simp

lemma pattern_trim: "oidcClientIDPattern i \<Longrightarrow> TrimSpace i = i"
proof -
  assume p: "oidcClientIDPattern i"
  let ?ok = "\<lambda>c. CHR ''a'' \<le> c \<and> c \<le> CHR ''z'' \<or> CHR ''0'' \<le> c \<and> c \<le> CHR ''9'' \<or> c = CHR ''-''"
  have "?ok c" if "c \<in> set i" for c
    using p that unfolding oidcClientIDPattern_def by (cases i) (auto simp: list_all_iff)
  moreover have "list_all (\<lambda>p. p \<noteq> [] \<and> \<not> ?ok (hd p)) space_encodings" "list_all (\<lambda>p. p \<noteq> [] \<and> \<not> ?ok (hd p)) (map rev space_encodings)"
    by code_simp+
  ultimately have "strip_one space_encodings i = None" "strip_one (map rev space_encodings) (rev i) = None"
    by (intro strip_one_None; force simp: list_all_iff)+
  then show ?thesis by (simp add: TrimSpace_def trim_left_id)
qed

definition registration_ok :: "oidcClientInput \<times> app_row \<Rightarrow> bool" where
  "registration_ok r \<longleftrightarrow> oidcClientIDPattern (in_ID (fst r)) \<and> app_client (snd r) = in_ID (fst r)"

lemma bootstrap_registrations_Inr:
  "bootstrap_registrations P E slugs ids bs = Inr rs \<Longrightarrow>
     list_all registration_ok rs \<and> distinct (map (\<lambda>r. in_ID (fst r)) rs) \<and> set (map (\<lambda>r. in_ID (fst r)) rs) \<inter> set ids = {}"
proof (induction P E slugs ids bs arbitrary: rs rule: bootstrap_registrations.induct)
  case (2 P E slugs ids b bs)
  let ?i = "bootstrap_input b" and ?a = "bootstrap_app P E b"
  have dec: "first_Some [validate_input E ?i, ValidateManagedApp E ?a, validateManagedAppClient E ?a (registeredOIDCClient ?i),
      (if app_slug ?a \<in> set slugs then Some (Failed ''bootstrap managed app slug is duplicated'') else None),
      (if in_ID ?i \<in> set ids then Some (Failed ''bootstrap OAuth client is duplicated'') else None)] = None"
    using "2.prems" by (auto simp: Let_def split: option.splits)
  then have v: "validate_input E ?i = None" "in_ID ?i \<notin> set ids"
    by (auto simp: first_Some_Cons split: if_splits)
  from "2.prems" dec obtain qs where qs: "bootstrap_registrations P E (app_slug ?a # slugs) (in_ID ?i # ids) bs = Inr qs" "rs = (?i, ?a) # qs"
    unfolding bootstrap_registrations.simps Let_def by (auto simp: and_then_Inr)
  from "2.IH" [OF refl refl dec qs(1)] have "list_all registration_ok qs" "distinct (map (\<lambda>r. in_ID (fst r)) qs)"
    "set (map (\<lambda>r. in_ID (fst r)) qs) \<inter> set (in_ID ?i # ids) = {}" by auto
  moreover have "registration_ok (?i, ?a)" using v(1) by (simp add: registration_ok_def validate_input_None bootstrap_app_def bootstrap_input_def)
  ultimately show ?case using qs(2) v(2) by auto
qed simp

lemma wait_run: "wait_for_clients P delays deadline k now w = (r, w') \<Longrightarrow> core w' = core w \<and> provider w' = provider w \<and>
    (\<forall>cs. r = Inr cs \<longrightarrow> (\<exists>n. listHydraClients (h_page_token P) (h_pages P n (provider w)) = Inr cs))"
proof (induction P delays deadline k now arbitrary: w rule: wait_for_clients.induct)
  case (1 P delays deadline k now)
  obtain z v where listed: "hydraClients P w = (z, v)" by (cases "hydraClients P w")
  note v = hydraClients_run [OF listed]
  show ?case
  proof (cases z)
    case (Inr cs)
    with "1.prems" listed have "r = Inr cs" "w' = v" by (simp_all add: wait_for_clients.simps [of P] tryS_bind retS_def)
    with v Inr show ?thesis by auto
  next
    case (Inl e)
    show ?thesis
    proof (cases "deadline < now + int (delays k)")
      case True
      with Inl "1.prems" listed have "r = Inl e" "w' = v" by (simp_all add: wait_for_clients.simps [of P] tryS_bind failS_def)
      with v show ?thesis by auto
    next
      case False
      with Inl "1.prems" listed have "wait_for_clients P delays deadline (Suc k) (now + int (delays k) + bootstrapRetryInterval) v = (r, w')"
        by (simp add: wait_for_clients.simps [of P delays deadline k] tryS_bind)
      from "1.IH" [OF False this] v show ?thesis by auto
    qed
  qed
qed

lemma ownership_run: "check_ownership W k clients rs w = (r, w') \<Longrightarrow> w' = w \<and>
    (\<forall>checked. r = Inr checked \<longrightarrow> map (\<lambda>(i, a, e). (i, a)) checked = rs \<and>
       (\<forall>(i, a, e) \<in> set checked. e = list_ex (\<lambda>c. ClientID c = in_ID i) clients))"
proof (induction W k clients rs arbitrary: w r w' rule: check_ownership.induct)
  case (2 W k clients i a rs)
  have state: "snd (ValidateBootstrapManagedAppOwnership E a s) = s" for E s
    unfolding ValidateBootstrapManagedAppOwnership_def Let_def query_def stmt_def bindS_def retS_def failS_def by simp
  from "2.prems" [unfolded check_ownership.simps] show ?case
  proof (cases rule: bind_cases)
    case (1 e)
    with state [of "sv_env (W k) 0" "store (core w)"] show ?thesis by (auto simp: inCore_run inDb_run)
  next
    case own: (2 owned t)
    with state [of "sv_env (W k) 0" "store (core w)"] have t: "t = w" by (auto simp: inCore_run inDb_run)
    let ?e = "list_ex (\<lambda>c. ClientID c = in_ID i) clients"
    from own(2) [unfolded Let_def] show ?thesis
    proof (cases rule: guarded)
      case 1
      with t show ?thesis by auto
    next
      case ok: 2
      from ok(2) show ?thesis
      proof (cases rule: bind_cases)
        case (1 e)
        with "2.IH" [OF refl 1(1)] t show ?thesis by auto
      next
        case (2 checked u)
        with "2.IH" [OF refl 2(1)] t show ?thesis by (auto simp: retS_def)
      qed
    qed
  qed
qed (simp add: retS_def)

text \<open>Sending a registration: the store is left alone, and after a success the client is registered.\<close>

lemma lock_core: "obeys (\<lambda>w w'. core w' = core w) run \<Longrightarrow> obeys (\<lambda>w w'. core w' = core w) (withTransactionLock E what run)"
  unfolding obeys_def
proof
  fix w
  assume run: "\<forall>w. core (snd (run w)) = core w"
  obtain r w' where lock: "withTransactionLock E what run w = (r, w')" by (cases "withTransactionLock E what run w")
  have "core w' = core w"
    by (rule withTransactionLock_cases [OF lock])
      (use run [THEN spec, of w] in \<open>auto simp: rolled_back_def\<close>)
  with lock show "core (snd (withTransactionLock E what run w)) = core w" by simp
qed

lemma provider_core: "obeys (\<lambda>w w'. core w' = core w) (doProvider P q)"
  unfolding obeys_def by (metis doProvider_run(1) prod.collapse)

lemma read_core: "obeys (\<lambda>w w'. core w' = core w) (inCore (inDb (read_SessionPolicy E)))"
  unfolding obeys_def by (metis read_policy_state prod.collapse)

lemma send_core: "obeys (\<lambda>w w'. core w' = core w) (updateHydraClient P E E' i)"
    "obeys (\<lambda>w w'. core w' = core w) (createHydraClient P E E' i)"
  unfolding updateHydraClient_def createHydraClient_def WithSessionPolicyLock_def writeHydraClient_def rewriteHydraClient_def
  by (intro lock_core kc.keeps read_core provider_core)+

lemma send_grows:
  assumes "documented P" "oidcClientIDPattern (in_ID i)"
  shows "obeys (grows P) (updateHydraClient P E E' i)" "obeys (grows P) (createHydraClient P E E' i)"
  unfolding updateHydraClient_def createHydraClient_def WithSessionPolicyLock_def
  by (intro grows_lock write_grows [OF assms])+

lemma lock_Inr:
  assumes "withTransactionLock E what run w = (Inr x, v)"
  shows "run w = (Inr x, v)"
proof -
  obtain r where r: "withTransactionLock E what run w = (r, v)" "r = Inr x" using assms by blast
  from r(1) show ?thesis by (rule withTransactionLock_cases) (use r(2) in \<open>simp_all only: sum.inject sum.distinct\<close>)
qed

lemma guards_through: "bindS (guardS a e) (\<lambda>_. guardS b e') u = (Inr (), v) \<Longrightarrow> a \<and> b \<and> v = u"
  by (auto simp: bindS_def guardS_def retS_def failS_def split: if_splits)

lemma created_registered:
  assumes "documented P" "createHydraClient P E E' i w = (Inr (), v)"
  shows "in_ID i \<in> client_ids P (provider v)"
proof -
  note run = lock_Inr [OF assms(2) [unfolded createHydraClient_def WithSessionPolicyLock_def]]
  from run [unfolded writeHydraClient_def] show ?thesis
  proof (cases rule: bind_cases)
    case (2 p t)
    from 2(2) show ?thesis
    proof (cases rule: bind_cases)
      case answer: (2 st u)
      from guards_through [OF answer(2)] have st: "st = 201" "v = u" by simp_all
      have "provider u = h_apply P (PostClient (marshalHydraClient i p)) (provider t)"
        using doProvider_run(3) [OF answer(1), of st] st(1) by simp
      then show ?thesis
        unfolding st(2) using documented_post [OF assms(1), of "marshalHydraClient i p" "provider t", unfolded marshal_client_id] by simp
    qed simp
  qed simp
qed

definition send_client :: "'h deployment \<Rightarrow> server \<Rightarrow> oidcClientInput \<Rightarrow> bool \<Rightarrow> ('h, unit) client_io" where
  "send_client P V i exists = (if exists then updateHydraClient P (sv_env V 2) (sv_env V 3) i
     else createHydraClient P (sv_env V 2) (sv_env V 3) i)"

lemma send_client_run:
  assumes "documented P" "oidcClientIDPattern (in_ID i)" "all_addressable P (provider w)"
    and "exists \<Longrightarrow> in_ID i \<in> client_ids P (provider w)" "send_client P V i exists w = (z, v)"
  shows "grows P w v" "core v = core w" "z = Inr () \<Longrightarrow> in_ID i \<in> client_ids P (provider v)"
proof -
  have "obeys (grows P) (send_client P V i exists)" unfolding send_client_def by (intro gr.keeps_if send_grows [OF assms(1,2)])
  from obeysD [OF this assms(5)] show g: "grows P w v" .
  have "obeys (\<lambda>w w'. core w' = core w) (send_client P V i exists)" unfolding send_client_def by (intro kc.keeps_if send_core)
  from obeysD [OF this assms(5)] show "core v = core w" .
  assume "z = Inr ()"
  with assms(5) created_registered [OF assms(1)] growsD(2) [OF g assms(3)] assms(4)
  show "in_ID i \<in> client_ids P (provider v)" by (auto simp: send_client_def split: if_splits)
qed

lemma reconciled_grows: "obeys (grows P) (assertHydraClientReconciled P i)" "obeys (\<lambda>w w'. core w' = core w) (assertHydraClientReconciled P i)"
  unfolding assertHydraClientReconciled_def
  by (intro gr.keeps grows_listing, intro kc.keeps) (simp add: obeys_def hydraClients_def)

text \<open>One application: whatever happens, what its lock's transaction leaves is consistent.\<close>

lemma register_bootstrap_run:
  assumes "documented P" "consistent P w" "registration_ok (i, a)"
    and "exists \<longrightarrow> in_ID i \<in> client_ids P (provider w)" "\<not> exists \<longrightarrow> in_ID i \<notin> catalog_clients (store (core w))"
    and "register_bootstrap P V i a exists w = (r, w')"
  shows "consistent P w'" "r = Inr x \<Longrightarrow> grows P w w' \<and> adds_clients {in_ID i} (store (core w)) (store (core w'))"
proof -
  let ?inner = "bindS (send_client P V i exists) (\<lambda>_.
        bindS (tryS (inCore (inDb (ReconcileBootstrapManagedApp (sv_env V 4) a)))) (\<lambda>stored.
        case stored of
          Inl e \<Rightarrow> bindS (if exists then retS () else deleteHydraClient P (in_ID i)) (\<lambda>_. failS e)
        | Inr _ \<Rightarrow> assertHydraClientReconciled P i))"
  from assms(2) have ok: "all_addressable P (provider w)" by (simp add: consistent_def)
  from assms(3) have i: "oidcClientIDPattern (in_ID i)" "app_client a = in_ID i" "TrimSpace (in_ID i) = in_ID i"
    by (auto simp: registration_ok_def pattern_trim)
  have undone: "consistent P (rolled_back w v)" if "grows P w v" for v
    using grows_consistent [OF grows_rolled_back [OF that] assms(2)] .
  have inner: "consistent P (rolled_back w v) \<and> (\<forall>x. z = Inr x \<longrightarrow> grows P w v \<and> adds_clients {in_ID i} (store (core w)) (store (core v)))"
    if run: "?inner w = (z, v)" for z v
    using run
  proof (cases rule: bind_cases)
    case (1 e)
    from send_client_run(1) [OF assms(1) i(1) ok assms(4) [THEN mp] 1(1)] undone 1(2) show ?thesis by auto
  next
    case (2 u t)
    note sent = send_client_run [OF assms(1) i(1) ok assms(4) [THEN mp] 2(1)]
    obtain y q where stored: "inCore (inDb (ReconcileBootstrapManagedApp (sv_env V 4) a)) t = (y, q)"
      by (cases "inCore (inDb (ReconcileBootstrapManagedApp (sv_env V 4) a)) t")
    have add: "adds_clients {in_ID i} (store (core w)) (store (core q))" "q = t\<lparr>core := (core t)\<lparr>store := store (core q)\<rparr>\<rparr>"
      using stored catalog_adds(3) [of a "sv_env V 4"] sent(2) i(2,3) by (auto simp: inCore_run inDb_run dest: obeysD)
    have q: "grows P w q"
    proof (rule gr.R_trans [OF sent(1)])
      show "grows P t q" using grows_store [of "{in_ID i}" t "store (core q)" P] add sent(2,3) i(3) by auto
    qed
    show ?thesis
    proof (cases y)
      case (Inr b)
      with 2(2) stored have check: "assertHydraClientReconciled P i q = (z, v)" by (simp add: tryS_bind)
      with gr.R_trans [OF q obeysD [OF reconciled_grows(1)]] obeysD [OF reconciled_grows(2) check] undone add(1)
      show ?thesis by auto
    next
      case (Inl e)
      with 2(2) stored have undo: "bindS (if exists then retS () else deleteHydraClient P (in_ID i)) (\<lambda>_. failS e) q = (z, v)"
        by (simp add: tryS_bind)
      then have z: "\<exists>e. z = Inl e" by (elim bind_cases) (auto simp: failS_def)
      show ?thesis
      proof (cases exists)
        case True
        with undo have "v = q" by (simp add: bindS_def retS_def failS_def)
        with undone [OF q] z show ?thesis by auto
      next
        case False
        with undo obtain d where d: "deleteHydraClient P (in_ID i) q = (d, v)" by (elim bind_cases) (auto simp: failS_def)
        have "consistent P (rolled_back w v)"
          by (rule shrink_consistent [OF undone [OF q], of _ "in_ID i"])
            (use deleteHydraClient_run [OF assms(1) pattern_addressable [OF i(1)] d] assms(5) False in auto)
        with z show ?thesis by auto
      qed
    qed
  qed
  from assms(6) have lock: "withTransactionLock (sv_env V 1) ''OAuth client'' ?inner w = (r, w')"
    by (simp only: register_bootstrap_def WithOIDCClientLock_def send_client_def)
  from lock inner assms(2) grows_consistent [OF _ assms(2)] show "consistent P w'" by (elim withTransactionLock_cases) auto
  show "r = Inr x \<Longrightarrow> grows P w w' \<and> adds_clients {in_ID i} (store (core w)) (store (core w'))"
    using lock inner by (elim withTransactionLock_cases) auto
qed

text \<open>All applications: the identifiers are distinct, so what one registration adds does not disturb the next.\<close>

lemma register_all_run:
  assumes "documented P"
  shows "consistent P w \<Longrightarrow> \<forall>(i, a, e) \<in> set rs. registration_ok (i, a) \<and>
      (e \<longrightarrow> in_ID i \<in> client_ids P (provider w)) \<and> (\<not> e \<longrightarrow> in_ID i \<notin> catalog_clients (store (core w))) \<Longrightarrow>
    distinct (map (\<lambda>r. in_ID (fst r)) rs) \<Longrightarrow> register_all P W k rs w = (r, w') \<Longrightarrow> consistent P w'"
proof (induction rs arbitrary: w k)
  case Nil
  then show ?case by (simp add: retS_def)
next
  case (Cons q rs)
  obtain i a e where q: "q = (i, a, e)" by (cases q)
  with Cons.prems(2) have head: "registration_ok (i, a)" "e \<longrightarrow> in_ID i \<in> client_ids P (provider w)"
    "\<not> e \<longrightarrow> in_ID i \<notin> catalog_clients (store (core w))" by auto
  note one = register_bootstrap_run [OF assms Cons.prems(1) head]
  from Cons.prems(4) [unfolded q register_all.simps] show ?case
  proof (cases rule: bind_cases)
    case (1 f)
    then show ?thesis using one(1) by blast
  next
    case (2 x t)
    from one(1) [OF 2(1)] have t: "consistent P t" .
    from one(2) [OF 2(1)] have g: "grows P w t" "adds_clients {in_ID i} (store (core w)) (store (core t))" by auto
    have ok: "all_addressable P (provider w)" using Cons.prems(1) by (simp add: consistent_def)
    have "registration_ok (j, b) \<and> (f \<longrightarrow> in_ID j \<in> client_ids P (provider t)) \<and> (\<not> f \<longrightarrow> in_ID j \<notin> catalog_clients (store (core t)))"
      if "(j, b, f) \<in> set rs" for j b f
    proof -
      from that Cons.prems(3) q have "in_ID j \<noteq> in_ID i" by force
      with that Cons.prems(2) g(2) growsD(2) [OF g(1) ok] show ?thesis by (auto simp: adds_clients_def)
    qed
    then show ?thesis using Cons.IH [OF t _ _ 2(2)] Cons.prems(3) by auto
  qed
qed

lemma verify_grows: "obeys (grows P) (verify_apps P V k clients as)"
proof (induction as arbitrary: k)
  case Nil
  show ?case by (simp add: gr.keeps_ret)
next
  case (Cons a as)
  show ?case unfolding verify_apps.simps Let_def by (intro grows_ops Cons.IH grows_inDb catalog_adds)
qed

lemma assert_grows: "obeys (grows P) (assertManagedAppRegistrations P V)"
  unfolding assertManagedAppRegistrations_def by (intro gr.keeps_bind grows_listing verify_grows grows_inDb adds_reads)

lemma LockBootstrap_run: "LockBootstrapManagedApps E w = (r, w') \<Longrightarrow> w' = w"
  by (auto simp: LockBootstrapManagedApps_def bindS_def query_def stmt_def split: if_splits)

lemma registered_or_unused:
  assumes "consistent P s" "set clients = set (h_clients P (provider s))" "map (\<lambda>(i, a, e). (i, a)) checked = rs"
    and "\<forall>(i, a, e) \<in> set checked. e = list_ex (\<lambda>c. ClientID c = in_ID i) clients" "list_all registration_ok rs"
  shows "\<forall>(i, a, e) \<in> set checked. registration_ok (i, a) \<and> (e \<longrightarrow> in_ID i \<in> client_ids P (provider s)) \<and>
      (\<not> e \<longrightarrow> in_ID i \<notin> catalog_clients (store (core s)))"
proof (intro ballI, clarify)
  fix i a e
  assume mem: "(i, a, e) \<in> set checked"
  with assms(4) have "e = list_ex (\<lambda>c. ClientID c = in_ID i) clients" by blast
  then have e: "e \<longleftrightarrow> in_ID i \<in> client_ids P (provider s)"
    unfolding list_ex_iff client_ids_def assms(2) image_iff by metis
  from mem assms(3) have "(i, a) \<in> set rs" by force
  with assms(5) have "registration_ok (i, a)" by (simp add: list_all_iff)
  with e assms(1) show "registration_ok (i, a) \<and> (e \<longrightarrow> in_ID i \<in> client_ids P (provider s)) \<and>
      (\<not> e \<longrightarrow> in_ID i \<notin> catalog_clients (store (core s)))"
    by (auto simp: consistent_def)
qed

lemma bootstrapApps_consistent:
  assumes "documented P" "consistent P w" "bootstrapApps P V W delays w = (r, w')"
  shows "consistent P w'"
proof (cases "bootstrap_registrations P (sv_env V 0) [] [] (BootstrapApps P)")
  case (Inl e)
  with assms(2,3) show ?thesis by (simp add: bootstrapApps_def failS_def)
next
  case (Inr rs)
  note regs = bootstrap_registrations_Inr [OF Inr]
  from assms(3) Inr have "bindS (LockBootstrapManagedApps (sv_env V 0)) (\<lambda>_.
        bindS (wait_for_clients P delays (now_of V 0 + bootstrapRetryTimeout) 0 (now_of V 0)) (\<lambda>clients.
        bindS (check_ownership W 0 clients rs) (\<lambda>checked.
        bindS (register_all P W 0 checked) (\<lambda>_.
        assertManagedAppRegistrations P V)))) w = (r, w')" by (simp add: bootstrapApps_def)
  then show ?thesis
  proof (cases rule: bind_cases)
    case (1 e)
    with assms(2) LockBootstrap_run show ?thesis by blast
  next
    case lock: (2 u t)
    with LockBootstrap_run have t: "t = w" by blast
    from lock(2) show ?thesis
    proof (cases rule: bind_cases)
      case (1 e)
      from wait_run [OF 1(1)] t assms(2) show ?thesis by (auto simp: consistent_def in_step_def)
    next
      case wait: (2 clients s)
      from wait_run [OF wait(1)] t obtain n where s: "core s = core w" "provider s = provider w"
        "listHydraClients (h_page_token P) (h_pages P n (provider w)) = Inr clients" by blast
      then have c: "consistent P s" using assms(2) by (simp add: consistent_def in_step_def)
      have all: "set clients = set (h_clients P (provider s))" using documented_listing [OF assms(1) s(3)] s(2) by simp
      from wait(2) show ?thesis
      proof (cases rule: bind_cases)
        case (1 e)
        from ownership_run [OF 1(1)] c show ?thesis by auto
      next
        case own: (2 checked v)
        from ownership_run [OF own(1)] have v: "v = s" "map (\<lambda>(i, a, e). (i, a)) checked = rs"
          "\<forall>(i, a, e) \<in> set checked. e = list_ex (\<lambda>c. ClientID c = in_ID i) clients" by auto
        have "\<forall>(i, a, e) \<in> set checked. registration_ok (i, a) \<and> (e \<longrightarrow> in_ID i \<in> client_ids P (provider s)) \<and>
            (\<not> e \<longrightarrow> in_ID i \<notin> catalog_clients (store (core s)))"
          using registered_or_unused [OF c all v(2,3)] regs by blast
        moreover have "distinct (map (\<lambda>r. in_ID (fst r)) checked)"
          using regs v(2) by (auto simp: comp_def case_prod_beta)
        ultimately have reg: "consistent P x" if "register_all P W 0 checked s = (z, x)" for z x
          using register_all_run [OF assms(1) c _ _ that] by blast
        from own(2) v(1) show ?thesis
          by (elim bind_cases) (auto intro: reg obeys_grows_consistent [OF assert_grows])
      qed
    qed
  qed
qed

subsection \<open>Every sequence of operations\<close>

text \<open>The operations in any order, each with its own clock, faults and answers. Both callers of \<open>createApp\<close> trim the identifier.\<close>

inductive client_step :: "'h deployment \<Rightarrow> 'h client_world \<Rightarrow> 'h client_world \<Rightarrow> bool" for P where
  change_policy: "updateSessionPolicy P V request who w = (r, w') \<Longrightarrow> policy_settled P V w r w' \<Longrightarrow> client_step P w w'"
| register: "createOIDCClient P V i who w = (r, w') \<Longrightarrow> client_step P w w'"
| remove: "deleteOIDCClient P V c who w = (r, w') \<Longrightarrow> client_step P w w'"
| add_app: "createApp P V a who w = (r, w') \<Longrightarrow> TrimSpace (app_client a) = app_client a \<Longrightarrow> client_step P w w'"
| remove_app: "deleteApp P V ref who w = (r, w') \<Longrightarrow> client_step P w w'"
| check_apps: "enqueueAppValidations P V ref who w = (r, w') \<Longrightarrow> client_step P w w'"
| start_up: "bootstrapApps P V W delays w = (r, w') \<Longrightarrow> client_step P w w'"

inductive_cases client_stepE: "client_step P w w'"

lemma client_step_consistent:
  assumes "documented P" "client_step P w w'" "consistent P w"
  shows "consistent P w'"
  using assms(2)
proof (cases rule: client_step.cases)
  case (change_policy V request who r)
  then show ?thesis by (rule updateSessionPolicy_consistent [OF assms(1,3)])
next
  case (register V i who r)
  then show ?thesis by (rule obeys_grows_consistent [OF createOIDCClient_grows [OF assms(1)] _ assms(3)])
next
  case (remove V c who r)
  then show ?thesis by (rule deleteOIDCClient_consistent [OF assms(1,3)])
next
  case (add_app V a who r)
  then show ?thesis using obeys_grows_consistent [OF createApp_grows [OF assms(1)] _ assms(3)] by blast
next
  case (remove_app V ref who r)
  then show ?thesis by (rule obeys_grows_consistent [OF deleteApp_grows _ assms(3)])
next
  case (check_apps V ref who r)
  then show ?thesis by (rule obeys_grows_consistent [OF enqueueAppValidations_grows _ assms(3)])
next
  case (start_up V W delays r)
  then show ?thesis by (rule bootstrapApps_consistent [OF assms(1,3)])
qed

text \<open>C4. No application is ever stranded. Whatever sequence of policy changes, registrations, removals, catalog changes and start-ups runs,
  with whatever failures of PostgreSQL and of Hydra, the client of every application in the catalog stays registered, and every
  registered client keeps the token lifetimes of the stored policy, as long as no policy change fails together with its own undoing.\<close>

theorem no_app_stranded:
  assumes "documented P" "(client_step P)\<^sup>*\<^sup>* w w'" "consistent P w"
  shows "(\<forall>a \<in> set (apps (store (core w'))). \<exists>c \<in> set (h_clients P (provider w')). ClientID c = app_client a) \<and> in_step P w'"
proof -
  from assms(2,3) have "consistent P w'"
    by (induction rule: rtranclp_induct) (auto intro: client_step_consistent [OF assms(1)])
  then have "i \<in> ClientID ` set (h_clients P (provider w'))" if "i \<in> app_client ` set (apps (store (core w')))" for i
    using that unfolding consistent_def catalog_clients_def client_ids_def by blast
  then have "\<exists>c \<in> set (h_clients P (provider w')). ClientID c = app_client a" if "a \<in> set (apps (store (core w')))" for a
    using that by (metis imageE imageI)
  with \<open>consistent P w'\<close> show ?thesis by (simp add: consistent_def)
qed

subsection \<open>What start-up verifies\<close>

definition rehashed :: "db \<Rightarrow> db \<Rightarrow> bool" where
  "rehashed s s' \<longleftrightarrow> (\<forall>a' \<in> set (apps s'). \<exists>a \<in> set (apps s). \<exists>h. a' = a\<lparr>app_contract_hash := h\<rparr>)"

lemma same_hash: "a\<lparr>app_contract_hash := h\<rparr>\<lparr>app_contract_hash := h'\<rparr> = a\<lparr>app_contract_hash := h'\<rparr>"
    "a\<lparr>app_contract_hash := app_contract_hash a\<rparr> = a"
  by simp_all

interpretation rh: contract rehashed
proof unfold_locales
  fix s t u :: db
  show "rehashed s s" unfolding rehashed_def by (metis same_hash(2))
  assume st: "rehashed s t" and tu: "rehashed t u"
  show "rehashed s u"
    unfolding rehashed_def
  proof
    fix a assume "a \<in> set (apps u)"
    with tu obtain b h where b: "b \<in> set (apps t)" "a = b\<lparr>app_contract_hash := h\<rparr>" unfolding rehashed_def by blast
    with st obtain c h' where c: "c \<in> set (apps s)" "b = c\<lparr>app_contract_hash := h'\<rparr>" unfolding rehashed_def by blast
    with b(2) have "a = c\<lparr>app_contract_hash := h\<rparr>" by simp
    with c(1) show "\<exists>c \<in> set (apps s). \<exists>h. a = c\<lparr>app_contract_hash := h\<rparr>" by blast
  qed
qed

lemmas rh_reads = requester_arg_state [THEN rh.keeps_readonly] load_state [THEN rh.keeps_readonly]

lemma same_apps_rehashed: "apps s' = apps s \<Longrightarrow> rehashed s s'"
  using rh.R_refl [of s] by (simp add: rehashed_def)

lemma enqueue_all_rehashed: "obeys rehashed (enqueueAllAppValidations E i q now)"
  unfolding enqueueAllAppValidations_def enqueue_each_def enqueueAppValidation_def enqueue_direction_def insert_run_def
  by (intro rh.keeps rh_reads rh.keeps_stmt) (auto intro!: same_apps_rehashed simp: put_Inr delete_runs_def split: if_splits)

lemma upd_rehashed: "rehashed s (s\<lparr>apps := upd Q (\<lambda>a. a\<lparr>app_contract_hash := h\<rparr>) (apps s)\<rparr>)"
  unfolding rehashed_def
proof
  fix a
  assume "a \<in> set (apps (s\<lparr>apps := upd Q (\<lambda>a. a\<lparr>app_contract_hash := h\<rparr>) (apps s)\<rparr>))"
  then obtain b where "b \<in> set (apps s)" "a = b\<lparr>app_contract_hash := h\<rparr> \<or> a = b" by (auto simp: in_upd split: if_splits)
  then show "\<exists>b \<in> set (apps s). \<exists>h. a = b\<lparr>app_contract_hash := h\<rparr>" using same_hash(2) [of b, symmetric] by blast
qed

lemma reconcile_rehashed: "obeys rehashed (ReconcileManagedAppOIDCContract E i h)"
  unfolding ReconcileManagedAppOIDCContract_def Let_def
  by (intro rh.keeps rh_reads rh.keeps_stmt enqueue_all_rehashed)
    (auto simp: put_Inr intro: upd_rehashed)

lemma same_fields: "app_client (a\<lparr>app_contract_hash := h\<rparr>) = app_client a" "app_launch_url (a\<lparr>app_contract_hash := h\<rparr>) = app_launch_url a"
  by simp_all

lemma validate_rehashed [simp]: "validateManagedAppClient E (a\<lparr>app_contract_hash := h\<rparr>) c = validateManagedAppClient E a c"
  unfolding validateManagedAppClient_def same_fields by (rule refl)

lemma verify_run: "verify_apps P V k clients as w = (r, w') \<Longrightarrow> provider w' = provider w \<and> rehashed (store (core w)) (store (core w')) \<and>
    (\<forall>x. r = Inr x \<longrightarrow> (\<forall>a \<in> set as. \<exists>c \<in> set clients. ClientID c = app_client a \<and> validateManagedAppClient (sv_env V 0) a c = None))"
proof (induction as arbitrary: k w)
  case Nil
  then show ?case by (simp add: retS_def rh.R_refl)
next
  case (Cons a as)
  have checked: "(e = None \<and> z = Inr () \<or> (\<exists>x. z = Inl x)) \<and> v = u" if "checkedS e u = (z, v)" for e u z v
    using that by (cases e) (auto simp: checkedS_def retS_def failS_def)
  have frame: "provider v = provider u \<and> rehashed (store (core u)) (store (core v))"
    if "(if b then inCore (inDb (ReconcileManagedAppOIDCContract E i h)) else retS ()) u = (z, v)" for b E i h u z v
    using that obeysD [OF reconcile_rehashed]
    by (cases b) (auto simp: inCore_run inDb_run retS_def rh.R_refl)
  from Cons.prems [unfolded verify_apps.simps] show ?case
  proof (cases rule: bind_cases)
    case (1 e)
    with checked show ?thesis by (auto simp: rh.R_refl dest: checked)
  next
    case (2 x t)
    with checked [OF 2(1)] have t: "t = w" by auto
    show ?thesis
    proof (cases "find (\<lambda>c. ClientID c = app_client a) (rev clients)")
      case None
      with 2(2) t show ?thesis by (auto simp: failS_def rh.R_refl)
    next
      case (Some c)
      then have c: "c \<in> set clients" "ClientID c = app_client a" by (auto dest: find_SomeD)
      from 2(2) Some have "bindS (checkedS (validateManagedAppClient (sv_env V 0) a c)) (\<lambda>_.
          bindS (if app_contract_hash a \<noteq> oidcClientContractHash (json_contract P) (sv_env V 0) c
            then inCore (inDb (ReconcileManagedAppOIDCContract (sv_env V (k + 2)) (app_id a) (oidcClientContractHash (json_contract P) (sv_env V 0) c))) else retS ()) (\<lambda>_.
          verify_apps P V (Suc k) clients as)) t = (r, w')" by (simp add: Let_def)
      then show ?thesis
      proof (cases rule: bind_cases)
        case (1 e)
        with checked [OF 1(1)] t show ?thesis by (auto simp: rh.R_refl)
      next
        case valid: (2 y u)
        with checked [OF valid(1)] t have u: "u = w" "validateManagedAppClient (sv_env V 0) a c = None" by auto
        from valid(2) show ?thesis
        proof (cases rule: bind_cases)
          case (1 e)
          with frame [OF 1(1)] u show ?thesis by auto
        next
          case (2 y v)
          with frame [OF 2(1)] Cons.IH [OF 2(2)] u c show ?thesis by (auto intro: rh.R_trans)
        qed
      qed
    qed
  qed
qed

lemma assert_run:
  assumes "documented P" "assertManagedAppRegistrations P V w = (Inr x, w')"
  shows "\<forall>a \<in> set (apps (store (core w'))). \<exists>c \<in> set (h_clients P (provider w')).
    ClientID c = app_client a \<and> validateManagedAppClient (sv_env V 0) a c = None"
  using assms(2) [unfolded assertManagedAppRegistrations_def]
proof (cases rule: bind_cases)
  case (2 as t)
  then have as: "set as = set (apps (store (core w)))" "provider t = provider w" "store (core t) = store (core w)"
    by (auto simp: inCore_run inDb_run ListManagedApps_def query_Inr)
  from 2(2) show ?thesis
  proof (cases rule: bind_cases)
    case (2 clients u)
    from hydraClients_run [OF 2(1)] have u: "core u = core t" "provider u = provider t"
      "listHydraClients (h_page_token P) (h_pages P (calls t) (provider t)) = Inr clients" by auto
    have clients: "set clients = set (h_clients P (provider u))" using documented_listing [OF assms(1) u(3)] u(2) by simp
    from verify_run [OF 2(2)] have v: "provider w' = provider u" "rehashed (store (core u)) (store (core w'))"
      "\<forall>a \<in> set as. \<exists>c \<in> set clients. ClientID c = app_client a \<and> validateManagedAppClient (sv_env V 0) a c = None" by auto
    show ?thesis
    proof
      fix a assume "a \<in> set (apps (store (core w')))"
      with v(2) u(1) as(3) obtain b h where b: "b \<in> set (apps (store (core w)))" "a = b\<lparr>app_contract_hash := h\<rparr>"
        unfolding rehashed_def by metis
      with v(3) as(1) obtain c where "c \<in> set clients" "ClientID c = app_client b" "validateManagedAppClient (sv_env V 0) b c = None" by blast
      with b(2) clients v(1) show "\<exists>c \<in> set (h_clients P (provider w')).
          ClientID c = app_client a \<and> validateManagedAppClient (sv_env V 0) a c = None"
        by (intro bexI [of _ c]) simp_all
    qed
  qed simp
qed simp

text \<open>C38. A service that started has a sound catalog: when \<open>bootstrapApps\<close> returns without an error, every application in the catalog,
  configured or added by an operator, has a client registered with Hydra that Shauth accepts for it.\<close>

theorem startup_verifies_catalog:
  assumes "documented P" "bootstrapApps P V W delays w = (Inr (), w')"
  shows "\<forall>a \<in> set (apps (store (core w'))). \<exists>c \<in> set (h_clients P (provider w')).
    ClientID c = app_client a \<and> validateManagedAppClient (sv_env V 0) a c = None"
proof (cases "bootstrap_registrations P (sv_env V 0) [] [] (BootstrapApps P)")
  case (Inl e)
  with assms(2) show ?thesis by (simp add: bootstrapApps_def failS_def)
next
  case (Inr rs)
  from assms(2) Inr have "bindS (LockBootstrapManagedApps (sv_env V 0)) (\<lambda>_.
        bindS (wait_for_clients P delays (now_of V 0 + bootstrapRetryTimeout) 0 (now_of V 0)) (\<lambda>clients.
        bindS (check_ownership W 0 clients rs) (\<lambda>checked.
        bindS (register_all P W 0 checked) (\<lambda>_.
        assertManagedAppRegistrations P V)))) w = (Inr (), w')" by (simp add: bootstrapApps_def)
  then obtain t where "assertManagedAppRegistrations P V t = (Inr (), w')" by (auto elim!: bind_cases)
  with assert_run [OF assms(1)] show ?thesis by blast
qed

lemma wait_attempts: "wait_for_clients P delays deadline k now w = (r, w') \<Longrightarrow>
    calls w' \<le> calls w + nat ((deadline + bootstrapRetryInterval - now) div bootstrapRetryInterval) + 1"
proof (induction P delays deadline k now arbitrary: w rule: wait_for_clients.induct)
  case (1 P delays deadline k now)
  obtain z v where listed: "hydraClients P w = (z, v)" by (cases "hydraClients P w")
  then have v: "calls v = calls w + 1" by (auto simp: hydraClients_def)
  show ?case
  proof (cases "\<exists>e. z = Inl e \<and> \<not> deadline < now + int (delays k)")
    case False
    with "1.prems" listed have "w' = v"
      by (auto simp: wait_for_clients.simps [of P] tryS_bind retS_def failS_def split: sum.splits if_splits)
    with v show ?thesis by simp
  next
    case True
    then obtain e where e: "z = Inl e" "\<not> deadline < now + int (delays k)" by blast
    with "1.prems" listed have run: "wait_for_clients P delays deadline (Suc k) (now + int (delays k) + bootstrapRetryInterval) v = (r, w')"
      by (simp add: wait_for_clients.simps [of P delays deadline k] tryS_bind)
    have "(deadline + bootstrapRetryInterval - (now + int (delays k) + bootstrapRetryInterval)) div bootstrapRetryInterval
        \<le> (deadline - now) div bootstrapRetryInterval"
      by (intro zdiv_mono1) (auto simp: bootstrapRetryInterval_def second_def)
    moreover have "(deadline + bootstrapRetryInterval - now) div bootstrapRetryInterval = (deadline - now) div bootstrapRetryInterval + 1"
      using div_add_self2 [of bootstrapRetryInterval "deadline - now"] by (simp add: bootstrapRetryInterval_def second_def algebra_simps)
    moreover have "0 \<le> (deadline - now) div bootstrapRetryInterval"
      using e(2) by (auto simp: bootstrapRetryInterval_def second_def intro!: div_int_pos_iff [THEN iffD2])
    ultimately show ?thesis using "1.IH" [OF e(2) run] v by linarith
  qed
qed

text \<open>Waiting for Hydra at start-up ends: after at most 47 listings, however Hydra answers and however long each attempt takes,
  \<open>bootstrapApps\<close> goes on with a complete listing or gives up, and waiting changes nothing.\<close>

theorem startup_wait_bounded:
  assumes "wait_for_clients P delays (now + bootstrapRetryTimeout) 0 now w = (r, w')"
  shows "calls w' \<le> calls w + 47 \<and> core w' = core w \<and> provider w' = provider w \<and>
    (\<forall>cs. r = Inr cs \<longrightarrow> (\<exists>n. listHydraClients (h_page_token P) (h_pages P n (provider w)) = Inr cs))"
  using wait_attempts [OF assms] wait_run [OF assms] by (simp add: bootstrapRetryTimeout_def bootstrapRetryInterval_def second_def)

subsection \<open>A concrete provider\<close>

text \<open>A provider that keeps its clients and their lifetimes, lists them on one page and answers request \<open>n\<close> with \<open>answer n\<close>.\<close>

type_synonym registry = "oidcClient list \<times> (string \<Rightarrow> (string \<times> string) list)"

definition payload_texts :: "string \<Rightarrow> payload \<Rightarrow> string list" where
  "payload_texts k m = (case map_of m k of Some (JTexts ts) \<Rightarrow> ts | _ \<Rightarrow> [])"

definition client_of :: "payload \<Rightarrow> oidcClient" where
  "client_of m = \<lparr>ClientID = payload_text ''client_id'' m, ClientName = payload_text ''client_name'' m,
     RedirectURIs = payload_texts ''redirect_uris'' m, PostLogoutRedirectURIs = payload_texts ''post_logout_redirect_uris'' m,
     FrontChannelLogoutURI = payload_text ''frontchannel_logout_uri'' m, BackChannelLogoutURI = payload_text ''backchannel_logout_uri'' m,
     GrantTypes = payload_texts ''grant_types'' m, ResponseTypes = payload_texts ''response_types'' m,
     TokenEndpointAuth = payload_text ''token_endpoint_auth_method'' m\<rparr>"

fun registry_apply :: "client_call \<Rightarrow> registry \<Rightarrow> registry" where
  "registry_apply (PutLifespans i ls) (cs, l) = (cs, l(i := ls))"
| "registry_apply (PostClient m) (cs, l) = (cs @ [client_of m], l(payload_text ''client_id'' m := payload_lifespans m))"
| "registry_apply (PutClient i m) (cs, l) = (map (\<lambda>c. if ClientID c = i then (client_of m)\<lparr>ClientID := i\<rparr> else c) cs, l(i := payload_lifespans m))"
| "registry_apply (DeleteClient i) (cs, l) = (filter (\<lambda>c. ClientID c \<noteq> i) cs, l)"

lemma client_of_id [simp]: "ClientID (client_of m) = payload_text ''client_id'' m"
  by (simp add: client_of_def)

definition example_deployment :: "BootstrapApp list \<Rightarrow> (nat \<Rightarrow> nat) \<Rightarrow> registry deployment" where
  "example_deployment bs answer = \<lparr>h_status = (\<lambda>n c h. Some (answer n)), h_carried = (\<lambda>n. False), h_apply = registry_apply,
     h_pages = (\<lambda>n h. [([], \<lparr>pg_status = 200, pg_clients = Some (fst h), pg_link = []\<rparr>)]), h_page_token = (\<lambda>u. None),
     h_clients = fst, h_lifespans = snd, json_contract = (\<lambda>x. replicate 31 CHR ''c''), json_texts = (\<lambda>x. []), json_policy = (\<lambda>x. []),
     BootstrapApps = bs\<rparr>"

lemma example_listing: "listHydraClients (\<lambda>u. None) [([], \<lparr>pg_status = 200, pg_clients = Some cs, pg_link = []\<rparr>)] = Inr cs"
  by (simp add: listHydraClients_def list_clients_from.simps nextHydraPageToken_def)

lemma example_fields [simp]:
  "h_status (example_deployment bs answer) n c h = Some (answer n)" "h_carried (example_deployment bs answer) n = False"
  "h_apply (example_deployment bs answer) = registry_apply" "h_page_token (example_deployment bs answer) = (\<lambda>u. None)"
  "h_pages (example_deployment bs answer) n h = [([], \<lparr>pg_status = 200, pg_clients = Some (fst h), pg_link = []\<rparr>)]"
  "h_clients (example_deployment bs answer) = fst" "h_lifespans (example_deployment bs answer) = snd" "BootstrapApps (example_deployment bs answer) = bs"
  by (simp_all add: example_deployment_def)

lemma replaced_id: "ClientID (if ClientID c = i then m\<lparr>ClientID := i\<rparr> else c) = ClientID c"
  by simp

lemma registry_ids:
  "ClientID ` set (fst (registry_apply (PostClient m) h)) = insert (payload_text ''client_id'' m) (ClientID ` set (fst h))"
  "ClientID ` set (fst (registry_apply (PutClient i m) h)) = ClientID ` set (fst h)"
  "ClientID ` set (fst (registry_apply (DeleteClient i) h)) = ClientID ` set (fst h) - {i}"
proof -
  obtain cs l where h: "h = (cs, l)" by (cases h)
  show "ClientID ` set (fst (registry_apply (PutClient i m) h)) = ClientID ` set (fst h)"
    by (simp only: h registry_apply.simps fst_conv set_map image_image replaced_id)
qed (cases h; auto)+

lemma registry_lifespans:
  "fst (registry_apply (PutLifespans i ls) h) = fst h" "snd (registry_apply (PutLifespans i ls) h) = (snd h)(i := ls)"
  "snd (registry_apply (PostClient m) h) = (snd h)(payload_text ''client_id'' m := payload_lifespans m)"
  "snd (registry_apply (PutClient i m) h) = (snd h)(i := payload_lifespans m)"
  "snd (registry_apply (DeleteClient i) h) = snd h"
  by (cases h; simp)+

lemma example_documented: "documented (example_deployment bs answer)"
  unfolding documented_def client_ids_def example_fields example_listing registry_ids registry_lifespans
  by (intro conjI allI impI) (simp_all only: sum.inject)

text \<open>An application with its client, a second client, all in step with the stored policy; and a request for tokens of half an hour.\<close>

definition example_client_world :: "registry client_world" where
  "example_client_world = \<lparr>core = example_world\<lparr>store := example_db\<lparr>apps := [example_app ''wiki'']\<rparr>\<rparr>,
     provider = ([registeredOIDCClient example_client_input, (registeredOIDCClient example_client_input)\<lparr>ClientID := ''chat-client''\<rparr>],
       (\<lambda>i. hydraClientLifespans DefaultSessionPolicy)), calls = 0\<rparr>"

definition half_hour_tokens :: sessionPolicyRecord where
  "half_hour_tokens = \<lparr>BrowserAbsoluteHours = 720, BrowserIdleMinutes = 720, OIDCSSOHours = 720, AccessTokenMinutes = 30,
     IDTokenMinutes = 30, RefreshTokenHours = 720, RecordUpdatedAt = 0\<rparr>"

definition unreliable :: "nat \<Rightarrow> nat" where
  "unreliable n = (if n = 1 then 200 else 500)"

lemma example_ids: "client_ids (example_deployment bs answer) (provider example_client_world) = {''wiki-client'', ''chat-client''}"
  by (simp add: client_ids_def example_client_world_def registeredOIDCClient_def example_client_input_def)

lemma example_addressable: "all_addressable (example_deployment bs answer) (provider example_client_world)"
  unfolding all_addressable_def example_ids by (simp add: addressable_def)

lemma example_policy_lifespans: "hydraClientLifespans (policy_of_row \<lparr>p_absolute = 2592000, p_idle = 43200, p_oidc = 2592000, p_access = 900,
       p_id_token = 900, p_refresh = 2592000, p_updated = 0\<rparr>) = hydraClientLifespans DefaultSessionPolicy"
  by code_simp

lemma example_consistent: "consistent (example_deployment bs answer) example_client_world"
proof -
  have "in_step (example_deployment bs answer) example_client_world"
    using example_policy_lifespans by (simp add: in_step_def example_client_world_def example_world_def example_db_def)
  moreover have "catalog_clients (store (core example_client_world)) = {''wiki-client''}"
    by (simp add: catalog_clients_def example_client_world_def example_app_def)
  moreover have "TrimSpace ''wiki-client'' = ''wiki-client''" by code_simp
  ultimately show ?thesis using example_addressable by (simp only: consistent_def example_ids) simp
qed

lemma half_hour_accepted: "fst (updateSessionPolicy (example_deployment [] (\<lambda>n. 200)) example_server half_hour_tokens service_actor example_client_world)
    = Inr half_hour_tokens"
  by code_simp

theorem session_policy_in_step_witness:
  "\<exists>w'. updateSessionPolicy (example_deployment [] (\<lambda>n. 200)) example_server half_hour_tokens service_actor example_client_world = (Inr half_hour_tokens, w') \<and>
     in_step (example_deployment [] (\<lambda>n. 200)) w'"
proof -
  obtain r w' where run: "updateSessionPolicy (example_deployment [] (\<lambda>n. 200)) example_server half_hour_tokens service_actor example_client_world = (r, w')"
    by (cases "updateSessionPolicy (example_deployment [] (\<lambda>n. 200)) example_server half_hour_tokens service_actor example_client_world")
  with half_hour_accepted have "r = Inr half_hour_tokens" by simp
  with session_policy_in_step [OF example_documented example_addressable run] run show ?thesis by blast
qed

lemma unreliable_result: "fst (updateSessionPolicy (example_deployment [] unreliable) example_server half_hour_tokens service_actor example_client_world)
    = Inl policy_not_applied"
  by code_simp

lemma unreliable_lifespans: "h_lifespans (example_deployment [] unreliable) (provider (snd (updateSessionPolicy (example_deployment [] unreliable) example_server
    half_hour_tokens service_actor example_client_world))) ''wiki-client'' \<noteq> hydraClientLifespans DefaultSessionPolicy"
  by code_simp

text \<open>C39. A failed policy change can leave the provider and PostgreSQL disagreeing: when Hydra fails in the middle of an update and
  again while the previous lifetimes are put back, the operation reports that the previous policy was restored, yet a client
  issues tokens with the refused lifetimes while the stored policy is the old one.\<close>

theorem policy_failure_can_disagree:
  "\<exists>(P :: registry deployment) w w'. documented P \<and> consistent P w \<and>
     updateSessionPolicy P example_server half_hour_tokens service_actor w =
       (Inl (DependencyError ''the OAuth client lifetimes could not be updated, so the previous policy was restored''), w') \<and>
     store (core w') = store (core w) \<and> \<not> in_step P w'"
proof -
  let ?P = "example_deployment [] unreliable" and ?w = example_client_world
  obtain r w' where run: "updateSessionPolicy ?P example_server half_hour_tokens service_actor ?w = (r, w')"
    by (cases "updateSessionPolicy ?P example_server half_hour_tokens service_actor ?w")
  with unreliable_result have r: "r = Inl policy_not_applied" by simp
  with updateSessionPolicy_run [OF example_documented example_addressable run] have same: "store (core w') = store (core ?w)" by simp
  have "h_clients ?P (provider w') = h_clients ?P (provider ?w)"
    using obeysD [OF updateSessionPolicy_registrations [OF example_documented] run] example_addressable by (simp add: keeps_registrations_def)
  then have "''wiki-client'' \<in> client_ids ?P (provider w')" using example_ids [of "[]" unreliable] unfolding client_ids_def by simp
  moreover have "h_lifespans ?P (provider w') ''wiki-client'' \<noteq> hydraClientLifespans DefaultSessionPolicy"
    using unreliable_lifespans unfolding run snd_conv .
  moreover have "policy (store (core w')) = Some \<lparr>p_absolute = 2592000, p_idle = 43200, p_oidc = 2592000, p_access = 900,
       p_id_token = 900, p_refresh = 2592000, p_updated = 0\<rparr>"
    unfolding same by (simp add: example_client_world_def example_db_def)
  ultimately have "\<not> in_step ?P w'" using example_policy_lifespans unfolding in_step_def by (metis option.inject)
  with run r same example_documented example_consistent show ?thesis unfolding policy_not_applied_def by blast
qed

lemma removal_refused:
  "fst (deleteOIDCClient (example_deployment [] (\<lambda>n. 204)) example_server ''wiki-client'' service_actor example_client_world) = Inl errOIDCClientInUse"
  "map app_client (apps (store (core (snd (deleteOIDCClient (example_deployment [] (\<lambda>n. 204)) example_server ''wiki-client'' service_actor
     example_client_world))))) = [''wiki-client'']"
  by code_simp+

theorem no_app_stranded_witness:
  "\<exists>w'. deleteOIDCClient (example_deployment [] (\<lambda>n. 204)) example_server ''wiki-client'' service_actor example_client_world =
       (Inl errOIDCClientInUse, w') \<and> (\<exists>c \<in> set (h_clients (example_deployment [] (\<lambda>n. 204)) (provider w')). ClientID c = ''wiki-client'')"
proof -
  let ?P = "example_deployment [] (\<lambda>n. 204)"
  obtain r w' where run: "deleteOIDCClient ?P example_server ''wiki-client'' service_actor example_client_world = (r, w')"
    by (cases "deleteOIDCClient ?P example_server ''wiki-client'' service_actor example_client_world")
  note refused = removal_refused [unfolded run fst_conv snd_conv]
  have "(client_step ?P)\<^sup>*\<^sup>* example_client_world w'" by (rule r_into_rtranclp, rule client_step.remove, rule run)
  from no_app_stranded [OF example_documented this example_consistent]
  have apps: "\<forall>a \<in> set (apps (store (core w'))). \<exists>c \<in> set (h_clients ?P (provider w')). ClientID c = app_client a" by simp
  from refused(2) obtain a where "a \<in> set (apps (store (core w')))" "app_client a = ''wiki-client''"
    by (cases "apps (store (core w'))") auto
  with apps run refused(1) show ?thesis by (metis)
qed

text \<open>A deployment that declares one application of its own.\<close>

definition chat_app :: BootstrapApp where
  "chat_app = \<lparr>ba_Slug = ''chat'', ba_Name = ''Chat'', ba_Description = ''Chat'', ba_LaunchURL = ''https://chat'',
     ba_OIDCClientID = ''chat-app'', ba_OIDCClientSecret = replicate 32 CHR ''s'', ba_RedirectURIs = [''https://chat/auth/callback''],
     ba_PostLogoutRedirectURIs = [''https://chat/auth/shauth/logout/complete''], ba_FrontChannelLogoutURI = [],
     ba_BackChannelLogoutURI = ''https://chat/auth/backchannel-logout'', ba_HealthURL = ''https://chat'', ba_MonitoringURL = [],
     ba_ValidationURL = ''https://chat'', ba_SignedOutURL = ''https://chat'', ba_ReleaseRevision = replicate 40 CHR ''b''\<rparr>"

text \<open>A restart: the application and its client are there already.\<close>

definition restart_world :: "registry client_world" where
  "restart_world = \<lparr>core = example_world\<lparr>store := example_db\<lparr>apps := [(bootstrap_app (example_deployment [chat_app] (\<lambda>n. 200)) example_env chat_app)
       \<lparr>app_id := ''chat''\<rparr>]\<rparr>\<rparr>,
     provider = ([registeredOIDCClient (bootstrap_input chat_app)], (\<lambda>i. [])), calls = 0\<rparr>"

lemma restart_result: "fst (bootstrapApps (example_deployment [chat_app] (\<lambda>n. 200)) (example_server\<lparr>sv_env := \<lambda>i. example_env\<rparr>)
    (\<lambda>k. example_server\<lparr>sv_env := \<lambda>i. example_env\<rparr>) (\<lambda>i. 0) restart_world) = Inr ()"
  by code_simp

theorem startup_verifies_catalog_witness:
  "\<exists>w'. bootstrapApps (example_deployment [chat_app] (\<lambda>n. 200)) (example_server\<lparr>sv_env := \<lambda>i. example_env\<rparr>)
      (\<lambda>k. example_server\<lparr>sv_env := \<lambda>i. example_env\<rparr>) (\<lambda>i. 0) restart_world = (Inr (), w') \<and>
    (\<forall>a \<in> set (apps (store (core w'))). \<exists>c \<in> set (h_clients (example_deployment [chat_app] (\<lambda>n. 200)) (provider w')).
       ClientID c = app_client a \<and> validateManagedAppClient example_env a c = None)"
proof -
  let ?P = "example_deployment [chat_app] (\<lambda>n. 200)" and ?V = "example_server\<lparr>sv_env := \<lambda>i. example_env\<rparr>"
  obtain r w' where run: "bootstrapApps ?P ?V (\<lambda>k. ?V) (\<lambda>i. 0) restart_world = (r, w')"
    by (cases "bootstrapApps ?P ?V (\<lambda>k. ?V) (\<lambda>i. 0) restart_world")
  with restart_result have r: "r = Inr ()" by simp
  have env: "sv_env ?V 0 = example_env" by simp
  show ?thesis using run startup_verifies_catalog [OF example_documented run [unfolded r], unfolded env] unfolding r by blast
qed

theorem startup_wait_bounded_witness:
  "\<exists>r w'. wait_for_clients (example_deployment [] (\<lambda>n. 200)) (\<lambda>i. 7) (0 + bootstrapRetryTimeout) 0 0 restart_world = (r, w') \<and> calls w' \<le> 47"
proof -
  obtain r w' where run: "wait_for_clients (example_deployment [] (\<lambda>n. 200)) (\<lambda>i. 7) (0 + bootstrapRetryTimeout) 0 0 restart_world = (r, w')"
    by (cases "wait_for_clients (example_deployment [] (\<lambda>n. 200)) (\<lambda>i. 7) (0 + bootstrapRetryTimeout) 0 0 restart_world")
  moreover have "calls restart_world = 0" by (simp add: restart_world_def)
  ultimately show ?thesis using startup_wait_bounded [OF run] by auto
qed

end
