(* ===== verification/Spec2Isabelle.thy ===== *)
theory Spec2Isabelle
  imports Browser_Handlers Gateway Start_Up
begin

text \<open>
  Shauth is an identity provider: a Go service beside Ory Hydra that keeps accounts, browser sessions and
  invitations in PostgreSQL, decides who may sign in (local password, GitHub, Microsoft Entra ID, invitation),
  signs people out of every connected application, and checks the connected applications with a pool of
  browser workers. A gateway in front of applications without a sign-in of their own is its relying party. This development models the service's decisions and its database and proves what they promise.

  \<^bold>\<open>The theories\<close>, in the order they build on each other:

  \<^item> \<open>Shauth_Prelude\<close>: Go strings, durations with 64-bit wrap-around, the environment \<open>env\<close> of an
    operation, the state-and-error type \<open>io\<close> with statements and transactions, and the locale \<open>contract\<close>
    for relations every operation keeps.
  \<^item> \<open>Identity_Schema\<close>: the tables of \<open>migrations/*.sql\<close> as lists of rows, their constraints \<open>schema_ok\<close>,
    and the structs of \<open>internal/identity/store.go\<close>.
  \<^item> \<open>Session_Policy\<close>: \<open>internal/identity/session_policy.go\<close> and the stored policy. Storing truncates to whole
    seconds; a stored policy is always read back.
  \<^item> \<open>Sessions\<close>: browser sessions, provider sessions and containment of an account. Sessions only ever move
    towards their end (\<open>sessions_mono\<close>); disabling an account contains it at once.
  \<^item> \<open>Logout_Grants\<close>: the durable record of a global logout. A logout token works once, two workers never hold
    the same grant, an abandoned one is always handed out again.
  \<^item> \<open>Managed_Apps\<close>, \<open>App_Validation\<close>, \<open>Validation_Queue\<close>: the application catalog, the queue of browser
    checks and its workers. The invariant \<open>queue_ok\<close> (at most three running checks, no app and no validation
    account in two of them) is kept by every operation, and a claim makes progress whenever it can.
  \<^item> \<open>Accounts\<close>: passwords, invitations, GitHub and Entra accounts. An invitation makes one account; a federated
    sign-in never inherits somebody else's account; a refused password says nothing about why.
  \<^item> \<open>Audit_Log\<close>: \<open>internal/identity/audit.go\<close>, \<open>metrics.go\<close> and the listings of the store. Every listing meets
    the interface \<open>paged\<close>, so consecutive pages cover each row once. The password throttle counts audit events.
  \<^item> \<open>GitHub_Rules\<close>: the access rules, the client of \<open>internal/github/teams.go\<close> and \<open>githubRole\<close>. Access is
    exactly what the rules bound to the numeric account, the teams and the organizations give.
  \<^item> \<open>Revocation_Pool\<close>: the worker pool of \<open>revokeOtherHydraSessions\<close> as a step relation over all interleavings,
    and its specification \<open>pool_result\<close>.
  \<^item> \<open>Operations\<close>: the operations of \<open>internal/app/operations.go\<close> over the store, the pool and Ory Hydra. Disabling
    an account contains it whatever Hydra answers, and reports success only when Hydra acknowledged everything.
  \<^item> \<open>OIDC_Clients\<close>: which OAuth clients Shauth registers and which it accepts for an application, the comparison of
    a registration with its configuration and the paged listing of Hydra's clients.
  \<^item> \<open>Client_Operations\<close>, \<open>Catalog_Consistency\<close>, \<open>Start_Up\<close>: the operations that change Hydra's clients together with
    PostgreSQL, under the store's advisory locks, and the reconciliation at start-up. Hydra is a parameter with a
    state of its own; what it documents is the hypothesis \<open>documented\<close>, and every request may go unanswered, be refused, or be
    carried out without a success. No application is left without its client, and the clients' lifetimes follow the policy.
  \<^item> \<open>Sign_In\<close>: \<open>passwordLogin\<close>, \<open>startSession\<close> and the token hook. Guessing is bounded by the throttle; a token
    carries the account's current role and is refused once its session ended.
  \<^item> \<open>Global_Logout\<close>: the sign-out handlers and the recovery of abandoned logouts, which finishes or retries.
  \<^item> \<open>Browser_Requests\<close>: what every browser request passes first: the cross-site checks of \<open>csrfPosts\<close>, the caller's
    address, local destinations and the sign-in page.
  \<^item> \<open>OAuth_Flow\<close>: signing in to an application through Hydra: \<open>hydraLogin\<close>, \<open>hydraConsent\<close> and \<open>hydraConsentAccept\<close>. Hydra
    is told only of the account of a live session, as fresh as the application demanded, and of scopes it requested;
    the handlers are split at Hydra's acceptance, and whatever happens there the browser goes on only with a live session.
  \<^item> \<open>Upstream_Sign_In\<close>: leaving for GitHub and Entra ID and coming back (\<open>githubStart\<close>, \<open>githubCallback\<close>, \<open>entraStart\<close>,
    \<open>entraCallback\<close>), and the validation worker's one-time link. What GitHub sign-in decides takes effect at once: an
    account without access has no session left, a demoted one only the new session.
  \<^item> \<open>Identity_Machine\<close>, \<open>Browser_Handlers\<close>: all methods of the store as one step relation, every handler as a run of
    it, the invariant of all reachable databases, and that a revoked session never authenticates again.
  \<^item> \<open>Base64_URL\<close>, \<open>Gateway_Store\<close>, \<open>Gateway\<close>: the application gateway of \<open>internal/gateway\<close>, a relying party with
    tables of its own: its session store with logout tombstones, and its handlers. A logout that reached it is
    final, a logout token works once, a session starts only with the sign-in it belongs to, and the application
    behind it can trust the identity headers.

  \<^bold>\<open>How the model corresponds to the code\<close>. A method of \<open>Store\<close> is a function from an environment and its
  arguments to \<open>db store\<close>, the type of a state transformer that returns an error or a value; definitions keep the
  names of the Go functions. A SQL statement is a \<open>stmt\<close> or \<open>query\<close> labelled with the text of the error it is
  wrapped in; the environment says which labels fail, so every theorem holds for every pattern of database
  failures. A transaction (\<open>withTransactionLock\<close>) gives the old state back on every error. Time is an integer of nanoseconds; text is
  a list of bytes. Functions of PostgreSQL and of Go's libraries that depend on Unicode or on the locale, random
  bytes, SHA-256, bcrypt and URL parsing are fields of the environment. What a theorem needs of them it assumes
  by name. Everything that is not code of the repository (Hydra, GitHub, the mailer) is a parameter
  that answers requests.

  \<^bold>\<open>Bounds\<close>. The definitions are total and need no fuel. Waiting for Hydra at start-up has the time left as its measure, the
  listing of Hydra's clients the page tokens it has not met. The reading of GitHub's pages ends because a page that is not full is the last one and the
  replies are a finite list; the trimming loop and the UTF-8 repair have a length measure; the pool has a
  measure that every step decreases. Durations are kept in 64 bits where the code multiplies them.

  \<^bold>\<open>Not modelled\<close>. HTTP parsing, headers, cookies' attributes, templates and assets; the JSON encodings of the
  administration, session and observability interfaces; health, traffic and monitoring probes; configuration
  from the process environment; start-up, migrations and pages of the gateway; the browser process of
  \<open>cmd/shauth-validator\<close>; mail delivery, logging and the command line programs. Texts written to the
  database are assumed to be valid in its encoding. The revocation pool's context is not cancelled from outside
  by the handlers' theories; \<open>pool_cancelled_from_outside\<close> shows what happens when it is. Statements of
  different transactions do not interleave: the store's row locks are modelled by \<open>locked\<close>, the rows another
  transaction holds.
\<close>

end
